(* ===== verification/Prelude.thy ===== *)
theory Prelude
  imports Main "HOL-Library.Monad_Syntax"
begin

text \<open>
  The vocabulary every component shares: the error values of \<^verbatim>\<open>src/src/error.rs\<close>, the
  \<open>Result\<close> type with the two ways the code threads it (the \<open>?\<close> operator and a sequence of
  guards), the few SQL table operations the database code uses, and the generic lemmas about
  them.  Tables are lists of rows; a table with an \<open>INTEGER PRIMARY KEY\<close> is kept in key order.
\<close>

named_theorems result_simps "unfolding rules for results and guard sequences"
named_theorems table_simps "rules for the SQL table operations"

section \<open>Errors and results\<close>

text \<open>
  \<open>CommonwakeError\<close>: one constructor per variant.  The human-readable message is not
  modelled; the variant is what the API reports (status and code) and what callers match on.
\<close>

datatype error =
    Validation
  | Unauthorized
  | Forbidden
  | NotFound
  | Conflict
  | ResourceExhausted
  | Database
  | Io
  | Json
  | Http
  | Internal

type_synonym 'a result = "error + 'a"

text \<open>\<open>IntoResponse\<close>: the HTTP status, the error code and whether the message is withheld.\<close>

fun response_status :: "error \<Rightarrow> nat" where
  "response_status Validation = 400"
| "response_status Unauthorized = 401"
| "response_status Forbidden = 403"
| "response_status NotFound = 404"
| "response_status Conflict = 409"
| "response_status ResourceExhausted = 507"
| "response_status _ = 500"

fun response_code :: "error \<Rightarrow> string" where
  "response_code Validation = ''validation_error''"
| "response_code Unauthorized = ''unauthorized''"
| "response_code Forbidden = ''forbidden''"
| "response_code NotFound = ''not_found''"
| "response_code Conflict = ''conflict''"
| "response_code ResourceExhausted = ''resource_exhausted''"
| "response_code _ = ''internal_error''"

fun message_withheld :: "error \<Rightarrow> bool" where
  "message_withheld Database = True"
| "message_withheld Io = True"
| "message_withheld Json = True"
| "message_withheld Http = True"
| "message_withheld _ = False"

text \<open>The \<open>?\<close> operator, early return on a condition, \<open>ok_or\<close>, and a run of unit checks.\<close>

definition and_then :: "'a result \<Rightarrow> ('a \<Rightarrow> 'b result) \<Rightarrow> 'b result" where
  "and_then m f = (case m of Inl e \<Rightarrow> Inl e | Inr x \<Rightarrow> f x)"

text \<open>Evaluation looks at \<open>m\<close> before it looks at the continuation.\<close>

declare and_then_def [code_unfold]

lemma bind_case [code_unfold]: "Option.bind m f = (case m of None \<Rightarrow> None | Some x \<Rightarrow> f x)"
  by (cases m) simp_all

definition fail_if :: "bool \<Rightarrow> error \<Rightarrow> unit result" where
  "fail_if b e = (if b then Inl e else Inr ())"

definition ok_or :: "'a option \<Rightarrow> error \<Rightarrow> 'a result" where
  "ok_or x e = (case x of None \<Rightarrow> Inl e | Some y \<Rightarrow> Inr y)"

fun check_all :: "unit result list \<Rightarrow> unit result" where
  "check_all [] = Inr ()"
| "check_all (m # ms) = (case m of Inl e \<Rightarrow> Inl e | Inr _ \<Rightarrow> check_all ms)"

fun check_each :: "('a \<Rightarrow> unit result) \<Rightarrow> 'a list \<Rightarrow> unit result" where
  "check_each f [] = Inr ()"
| "check_each f (x # xs) = (case f x of Inl e \<Rightarrow> Inl e | Inr _ \<Rightarrow> check_each f xs)"

fun fold_result :: "('a \<Rightarrow> 's \<Rightarrow> 's result) \<Rightarrow> 'a list \<Rightarrow> 's \<Rightarrow> 's result" where
  "fold_result f [] s = Inr s"
| "fold_result f (x # xs) s = (case f x s of Inl e \<Rightarrow> Inl e | Inr s' \<Rightarrow> fold_result f xs s')"

fun map_result :: "('a \<Rightarrow> 'b result) \<Rightarrow> 'a list \<Rightarrow> 'b list result" where
  "map_result f [] = Inr []"
| "map_result f (x # xs) =
     (case f x of Inl e \<Rightarrow> Inl e
      | Inr y \<Rightarrow> (case map_result f xs of Inl e \<Rightarrow> Inl e | Inr ys \<Rightarrow> Inr (y # ys)))"

subsection \<open>Results: inversion\<close>

lemma and_then_simps [simp]:
  "and_then (Inl e) f = Inl e"
  "and_then (Inr x) f = f x"
  by (simp_all add: and_then_def)

lemma and_then_Inr [simp, result_simps]:
  "and_then m f = Inr y \<longleftrightarrow> (\<exists>x. m = Inr x \<and> f x = Inr y)"
  by (cases m) auto

lemma and_then_Inl [result_simps]:
  "and_then m f = Inl e \<longleftrightarrow> m = Inl e \<or> (\<exists>x. m = Inr x \<and> f x = Inl e)"
  by (cases m) auto

lemma and_then_cong: "(\<And>x. m = Inr x \<Longrightarrow> f x = g x) \<Longrightarrow> and_then m f = and_then m g"
  by (cases m) simp_all

lemma fail_if_Inr [simp, result_simps]: "fail_if b e = Inr u \<longleftrightarrow> \<not> b"
  by (cases u) (simp add: fail_if_def)

lemma fail_if_Inl [simp, result_simps]: "fail_if b e = Inl e' \<longleftrightarrow> b \<and> e' = e"
  by (auto simp: fail_if_def)

lemma fail_if_eval [simp]: "fail_if False e = Inr ()" "fail_if True e = Inl e"
  by (simp_all add: fail_if_def)

lemma ok_or_Inr [simp, result_simps]: "ok_or x e = Inr y \<longleftrightarrow> x = Some y"
  by (cases x) (auto simp: ok_or_def)

lemma ok_or_Inl [simp, result_simps]: "ok_or x e = Inl e' \<longleftrightarrow> x = None \<and> e' = e"
  by (cases x) (auto simp: ok_or_def)

lemma ok_or_eval [simp]: "ok_or None e = Inl e" "ok_or (Some x) e = Inr x"
  by (simp_all add: ok_or_def)

lemma check_all_Inr [simp, result_simps]:
  "check_all ms = Inr u \<longleftrightarrow> (\<forall>m\<in>set ms. m = Inr ())"
  by (induction ms) (auto split: sum.splits)

lemma check_each_Inr [simp, result_simps]:
  "check_each f xs = Inr u \<longleftrightarrow> (\<forall>x\<in>set xs. f x = Inr ())"
  by (induction xs) (auto split: sum.splits)

text \<open>From here on a guard sequence is read through its inversion rule, or run on known results.\<close>

lemma check_all_eval [simp]:
  "check_all (Inr u # ms) = check_all ms" "check_all (Inl e # ms) = Inl e"
  by simp_all

text \<open>A failing guard sequence reports the error of its first failing check.\<close>

lemma check_all_Inl:
  "check_all ms = Inl e \<longleftrightarrow>
     (\<exists>us m vs. ms = us @ m # vs \<and> m = Inl e \<and> (\<forall>u\<in>set us. u = Inr ()))"
proof (induction ms)
  case Nil
  then show ?case by simp
next
  case (Cons a ms)
  show ?case
  proof (cases a)
    case (Inl e')
    show ?thesis
    proof
      assume "check_all (a # ms) = Inl e"
      with Inl show "\<exists>us m vs. a # ms = us @ m # vs \<and> m = Inl e \<and> (\<forall>u\<in>set us. u = Inr ())"
        by (intro exI [of _ "[]"]) auto
    next
      assume "\<exists>us m vs. a # ms = us @ m # vs \<and> m = Inl e \<and> (\<forall>u\<in>set us. u = Inr ())"
      with Inl show "check_all (a # ms) = Inl e"
        by (auto simp: Cons_eq_append_conv)
    qed
  next
    case (Inr u)
    have "(\<exists>us m vs. a # ms = us @ m # vs \<and> m = Inl e \<and> (\<forall>u\<in>set us. u = Inr ())) \<longleftrightarrow>
          (\<exists>us m vs. ms = us @ m # vs \<and> m = Inl e \<and> (\<forall>u\<in>set us. u = Inr ()))"
      using Inr by (fastforce simp: Cons_eq_append_conv)
    with Inr Cons.IH show ?thesis by simp
  qed
qed

declare check_all.simps(2) [simp del] check_each.simps(2) [simp del]

lemma map_result_Inr:
  "map_result f xs = Inr ys \<longleftrightarrow> list_all2 (\<lambda>x y. f x = Inr y) xs ys"
proof (induction xs arbitrary: ys)
  case Nil
  then show ?case by auto
next
  case (Cons x xs)
  show ?case
    by (cases ys) (auto simp: Cons.IH [symmetric] split: sum.splits)
qed

lemma fold_result_append:
  "fold_result f (xs @ ys) s = and_then (fold_result f xs s) (fold_result f ys)"
  by (induction xs arbitrary: s) (auto split: sum.splits)

lemma fold_result_single: "fold_result f [x] s = f x s"
  by (cases "f x s") auto

lemma fold_result_append_Inr:
  "fold_result f (xs @ ys) s = Inr t \<longleftrightarrow> (\<exists>m. fold_result f xs s = Inr m \<and> fold_result f ys m = Inr t)"
  by (simp add: fold_result_append)

lemma fold_result_snoc_Inr:
  "fold_result f (xs @ [x]) s = Inr t \<longleftrightarrow> (\<exists>m. fold_result f xs s = Inr m \<and> f x m = Inr t)"
  by (simp add: fold_result_append fold_result_single del: fold_result.simps)

text \<open>An invariant of every step of a failing fold is an invariant of the fold.\<close>

lemma fold_result_invariant:
  assumes "fold_result f xs s = Inr t" and "P s"
    and "\<And>x s s'. x \<in> set xs \<Longrightarrow> P s \<Longrightarrow> f x s = Inr s' \<Longrightarrow> P s'"
  shows "P t"
  using assms
proof (induction xs arbitrary: s)
  case Nil
  then show ?case by simp
next
  case (Cons x xs)
  from Cons.prems(1) obtain s' where s': "f x s = Inr s'" "fold_result f xs s' = Inr t"
    by (auto split: sum.splits)
  have "P s'" using Cons.prems(2,3) s'(1) by auto
  with s'(2) show ?case by (rule Cons.IH) (use Cons.prems(3) in auto)
qed

section \<open>SQL table operations\<close>

text \<open>
  \<open>first_row P tbl\<close> is \<open>query_row(..).optional()\<close> on an equality filter; \<open>update_rows\<close> is
  \<open>UPDATE .. WHERE\<close>; \<open>insert_unique\<close> is a plain \<open>INSERT\<close> (a violated key is a database error);
  \<open>insert_or_ignore\<close> is \<open>INSERT OR IGNORE\<close>; \<open>upsert\<close> is \<open>ON CONFLICT DO UPDATE\<close>.  The
  first argument of the three inserts says when two rows collide on a key or unique constraint.
\<close>

definition first_row :: "('r \<Rightarrow> bool) \<Rightarrow> 'r list \<Rightarrow> 'r option" where
  "first_row P tbl = find P tbl"

definition update_rows :: "('r \<Rightarrow> bool) \<Rightarrow> ('r \<Rightarrow> 'r) \<Rightarrow> 'r list \<Rightarrow> 'r list" where
  "update_rows P f tbl = map (\<lambda>r. if P r then f r else r) tbl"

definition insert_unique :: "('r \<Rightarrow> 'r \<Rightarrow> bool) \<Rightarrow> 'r \<Rightarrow> 'r list \<Rightarrow> 'r list result" where
  "insert_unique clash r tbl = (if list_ex (clash r) tbl then Inl Database else Inr (tbl @ [r]))"

definition insert_or_ignore :: "('r \<Rightarrow> 'r \<Rightarrow> bool) \<Rightarrow> 'r \<Rightarrow> 'r list \<Rightarrow> 'r list" where
  "insert_or_ignore clash r tbl = (if list_ex (clash r) tbl then tbl else tbl @ [r])"

definition upsert :: "('r \<Rightarrow> 'k) \<Rightarrow> ('r \<Rightarrow> 'r \<Rightarrow> 'r) \<Rightarrow> 'r \<Rightarrow> 'r list \<Rightarrow> 'r list" where
  "upsert key merge r tbl =
     (if list_ex (\<lambda>old. key old = key r) tbl
      then map (\<lambda>old. if key old = key r then merge old r else old) tbl
      else tbl @ [r])"

text \<open>\<open>COUNT(*)\<close> and \<open>COUNT(DISTINCT ..)\<close>.\<close>

definition count_rows :: "('r \<Rightarrow> bool) \<Rightarrow> 'r list \<Rightarrow> int" where
  "count_rows P tbl = int (length (filter P tbl))"

definition count_distinct :: "('r \<Rightarrow> 'k) \<Rightarrow> 'r list \<Rightarrow> int" where
  "count_distinct f tbl = int (length (remdups (map f tbl)))"

subsection \<open>Table lemmas\<close>

lemma first_row_Some [table_simps]: "first_row P tbl = Some r \<Longrightarrow> r \<in> set tbl \<and> P r"
  by (auto simp: first_row_def find_Some_iff)

lemma first_row_None [simp, table_simps]:
  "first_row P tbl = None \<longleftrightarrow> (\<forall>r\<in>set tbl. \<not> P r)"
  by (auto simp: first_row_def find_None_iff)

lemma first_row_append [simp]:
  "first_row P (xs @ ys) = (case first_row P xs of None \<Rightarrow> first_row P ys | Some r \<Rightarrow> Some r)"
  by (induction xs) (simp_all add: first_row_def)

lemma first_row_eval [simp]:
  "first_row P [] = None"
  "first_row P (x # xs) = (if P x then Some x else first_row P xs)"
  by (simp_all add: first_row_def)

text \<open>On a keyed table a lookup finds the row with that key, whatever the row order.\<close>

lemma first_row_key:
  assumes "distinct (map key tbl)" and "r \<in> set tbl" and "key r = k"
  shows "first_row (\<lambda>x. key x = k) tbl = Some r"
  using assms by (induction tbl) (auto simp: image_iff)

lemma insert_unique_Inr [simp, table_simps]:
  "insert_unique clash r tbl = Inr tbl' \<longleftrightarrow> (\<forall>old\<in>set tbl. \<not> clash r old) \<and> tbl' = tbl @ [r]"
  by (auto simp: insert_unique_def list_ex_iff)

lemma insert_unique_Inl [simp, table_simps]:
  "insert_unique clash r tbl = Inl e \<longleftrightarrow> (\<exists>old\<in>set tbl. clash r old) \<and> e = Database"
  by (auto simp: insert_unique_def list_ex_iff)

lemma set_insert_or_ignore [table_simps]:
  "set tbl \<subseteq> set (insert_or_ignore clash r tbl)"
  "set (insert_or_ignore clash r tbl) \<subseteq> insert r (set tbl)"
  by (auto simp: insert_or_ignore_def)

lemma insert_or_ignore_distinct:
  assumes "distinct (map key tbl)" and "\<And>old. key old = key r \<Longrightarrow> clash r old"
  shows "distinct (map key (insert_or_ignore clash r tbl))"
  using assms by (auto simp: insert_or_ignore_def list_ex_iff image_iff)

lemma update_rows_keys [simp, table_simps]:
  assumes "\<And>r. key (f r) = key r"
  shows "map key (update_rows P f tbl) = map key tbl"
  using assms by (simp add: update_rows_def)

lemma length_update_rows [simp]: "length (update_rows P f tbl) = length tbl"
  by (simp add: update_rows_def)

lemma update_rows_append [simp]:
  "update_rows P f (xs @ ys) = update_rows P f xs @ update_rows P f ys"
  by (simp add: update_rows_def)

lemma in_update_rows:
  "r \<in> set (update_rows P f tbl) \<longleftrightarrow> (\<exists>old\<in>set tbl. r = (if P old then f old else old))"
  by (auto simp: update_rows_def image_iff)

lemma upsert_keys:
  assumes "\<And>old. key old = key r \<Longrightarrow> key (merge old r) = key r"
  shows "set (map key (upsert key merge r tbl)) = insert (key r) (set (map key tbl))"
proof (cases "list_ex (\<lambda>old. key old = key r) tbl")
  case True
  have "map key (upsert key merge r tbl) = map key tbl"
    using True assms by (auto simp: upsert_def)
  moreover have "key r \<in> set (map key tbl)"
    using True by (auto simp: list_ex_iff image_iff) (metis (no_types))
  ultimately show ?thesis by auto
next
  case False
  then show ?thesis by (auto simp: upsert_def)
qed

lemma upsert_distinct:
  assumes "distinct (map key tbl)" and "\<And>old. key old = key r \<Longrightarrow> key (merge old r) = key r"
  shows "distinct (map key (upsert key merge r tbl))"
proof (cases "list_ex (\<lambda>old. key old = key r) tbl")
  case True
  have "map key (upsert key merge r tbl) = map key tbl"
    using True assms(2) by (auto simp: upsert_def)
  with assms(1) show ?thesis by simp
next
  case False
  with assms(1) show ?thesis by (auto simp: upsert_def list_ex_iff)
qed

lemma upsert_other:
  "key old \<noteq> key r \<Longrightarrow> (\<And>p. key p = key r \<Longrightarrow> key (merge p r) = key r) \<Longrightarrow>
   old \<in> set (upsert key merge r tbl) \<longleftrightarrow> old \<in> set tbl"
  by (auto simp: upsert_def image_iff)

text \<open>With plain replacement, reading a key back after an upsert gives the row just written.\<close>

lemma upsert_replace_lookup:
  "first_row (\<lambda>old. key old = k) (upsert key (\<lambda>_ r. r) r tbl) =
     (if k = key r then Some r else first_row (\<lambda>old. key old = k) tbl)"
proof (cases "list_ex (\<lambda>old. key old = key r) tbl")
  case True
  have miss: "k \<noteq> key r \<Longrightarrow> first_row (\<lambda>old. key old = k) (map (\<lambda>old. if key old = key r then r else old) tbl) =
    first_row (\<lambda>old. key old = k) tbl" for tbl
    by (induction tbl) auto
  have hit: "list_ex (\<lambda>old. key old = key r) tbl \<Longrightarrow>
    first_row (\<lambda>old. key old = key r) (map (\<lambda>old. if key old = key r then r else old) tbl) = Some r" for tbl
    by (induction tbl) auto
  show ?thesis using True miss hit by (simp add: upsert_def)
next
  case False
  then have "first_row (\<lambda>old. key old = key r) tbl = None" by (simp add: list_ex_iff)
  with False show ?thesis
    by (cases "first_row (\<lambda>old. key old = k) tbl") (auto simp: upsert_def simp del: first_row_None)
qed

lemma count_rows_nonneg [simp]: "0 \<le> count_rows P tbl"
  by (simp add: count_rows_def)

lemma count_rows_append [simp]: "count_rows P (xs @ ys) = count_rows P xs + count_rows P ys"
  by (simp add: count_rows_def)

lemma count_rows_eval [simp]:
  "count_rows P [] = 0"
  "count_rows P (x # xs) = (if P x then 1 else 0) + count_rows P xs"
  by (simp_all add: count_rows_def)

lemma count_rows_pos: "0 < count_rows P tbl \<longleftrightarrow> (\<exists>r\<in>set tbl. P r)"
  by (auto simp: count_rows_def filter_empty_conv)

end
