(* ===== verification/Rust_Text.thy ===== *)
theory Rust_Text
  imports Prelude "HOL-Library.Sublist"
begin

text \<open>
  Rust strings and the string methods the sources call.  A \<open>String\<close> is its UTF-8 byte
  sequence, a HOL \<open>string\<close> of 8-bit characters, so \<open>len()\<close> is \<open>length\<close> and equality is byte
  equality.  Methods that look at code points (\<open>chars\<close>, \<open>trim\<close>, \<open>char::is_control\<close>) are
  defined on the UTF-8 encoding; what needs the Unicode tables (case mapping and the
  alphanumeric class) is a parameter of the definitions that use it (theory External).
\<close>

section \<open>Bytes and code points\<close>

definition byte_of :: "char \<Rightarrow> int" where
  "byte_of c = of_char c"

text \<open>\<open>len()\<close> of a string or vector, as an integer so that it compares with any bound.\<close>

definition len :: "'a list \<Rightarrow> int" where
  "len xs = int (length xs)"

definition continuation_byte :: "char \<Rightarrow> bool" where
  "continuation_byte c \<longleftrightarrow> 0x80 \<le> byte_of c \<and> byte_of c < 0xC0"

text \<open>\<open>str::chars\<close>: each code point as its UTF-8 bytes.\<close>

function utf8_chars :: "string \<Rightarrow> string list" where
  "utf8_chars [] = []"
| "utf8_chars (b # bs) =
     (b # takeWhile continuation_byte bs) # utf8_chars (dropWhile continuation_byte bs)"
  by pat_completeness auto
termination
  by (relation "measure length") (auto simp: le_imp_less_Suc length_dropWhile_le)

definition char_count :: "string \<Rightarrow> int" where
  "char_count s = len (utf8_chars s)"

text \<open>\<open>s.chars().take(n).collect()\<close>\<close>

definition take_chars :: "nat \<Rightarrow> string \<Rightarrow> string" where
  "take_chars n s = concat (take n (utf8_chars s))"

text \<open>\<open>char::is_control\<close>: general category Cc, that is U+0000 to U+001F and U+007F to U+009F.\<close>

fun is_control :: "string \<Rightarrow> bool" where
  "is_control [b] = (byte_of b < 0x20 \<or> byte_of b = 0x7F)"
| "is_control [b, c] = (byte_of b = 0xC2 \<and> 0x80 \<le> byte_of c \<and> byte_of c < 0xA0)"
| "is_control _ = False"

text \<open>\<open>char::is_whitespace\<close>: the 25 code points with the property White\_Space.\<close>

definition white_space :: "string list" where
  "white_space = [
    [CHR 0x20], [CHR 0x09], [CHR 0x0A], [CHR 0x0B], [CHR 0x0C], [CHR 0x0D], [CHR 0xC2, CHR 0x85],
    [CHR 0xC2, CHR 0xA0], [CHR 0xE1, CHR 0x9A, CHR 0x80], [CHR 0xE2, CHR 0x80, CHR 0x80],
    [CHR 0xE2, CHR 0x80, CHR 0x81], [CHR 0xE2, CHR 0x80, CHR 0x82],
    [CHR 0xE2, CHR 0x80, CHR 0x83], [CHR 0xE2, CHR 0x80, CHR 0x84],
    [CHR 0xE2, CHR 0x80, CHR 0x85], [CHR 0xE2, CHR 0x80, CHR 0x86],
    [CHR 0xE2, CHR 0x80, CHR 0x87], [CHR 0xE2, CHR 0x80, CHR 0x88],
    [CHR 0xE2, CHR 0x80, CHR 0x89], [CHR 0xE2, CHR 0x80, CHR 0x8A],
    [CHR 0xE2, CHR 0x80, CHR 0xA8], [CHR 0xE2, CHR 0x80, CHR 0xA9],
    [CHR 0xE2, CHR 0x80, CHR 0xAF], [CHR 0xE2, CHR 0x81, CHR 0x9F], [CHR 0xE3, CHR 0x80, CHR 0x80]]"

text \<open>Strip any of the given byte sequences from the front, as long as one matches.\<close>

function strip_front :: "string list \<Rightarrow> string \<Rightarrow> string" where
  "strip_front ws s =
     (case find (\<lambda>w. w \<noteq> [] \<and> prefix w s) ws of
        None \<Rightarrow> s
      | Some w \<Rightarrow> strip_front ws (drop (length w) s))"
  by pat_completeness auto
termination
  by (relation "measure (\<lambda>(ws, s). length s)")
    (auto simp: find_Some_iff prefix_def)

declare strip_front.simps [simp del]

definition trim_start :: "string \<Rightarrow> string" where
  "trim_start s = strip_front white_space s"

definition trim_end :: "string \<Rightarrow> string" where
  "trim_end s = rev (strip_front (map rev white_space) (rev s))"

definition trim :: "string \<Rightarrow> string" where
  "trim s = trim_end (trim_start s)"

definition blank :: "string \<Rightarrow> bool" where
  "blank s \<longleftrightarrow> trim s = []"

section \<open>ASCII classes and searching\<close>

definition ascii_digit :: "char \<Rightarrow> bool" where
  "ascii_digit c \<longleftrightarrow> 0x30 \<le> byte_of c \<and> byte_of c \<le> 0x39"

definition ascii_lowercase :: "char \<Rightarrow> bool" where
  "ascii_lowercase c \<longleftrightarrow> 0x61 \<le> byte_of c \<and> byte_of c \<le> 0x7A"

definition ascii_uppercase :: "char \<Rightarrow> bool" where
  "ascii_uppercase c \<longleftrightarrow> 0x41 \<le> byte_of c \<and> byte_of c \<le> 0x5A"

definition ascii_alphanumeric :: "char \<Rightarrow> bool" where
  "ascii_alphanumeric c \<longleftrightarrow> ascii_digit c \<or> ascii_lowercase c \<or> ascii_uppercase c"

definition lower_hex_digit :: "char \<Rightarrow> bool" where
  "lower_hex_digit c \<longleftrightarrow> ascii_digit c \<or> (0x61 \<le> byte_of c \<and> byte_of c \<le> 0x66)"

definition upper_hex_digit :: "char \<Rightarrow> bool" where
  "upper_hex_digit c \<longleftrightarrow> ascii_digit c \<or> (0x41 \<le> byte_of c \<and> byte_of c \<le> 0x46)"

definition ascii_hexdigit :: "char \<Rightarrow> bool" where
  "ascii_hexdigit c \<longleftrightarrow> lower_hex_digit c \<or> upper_hex_digit c"

definition is_ascii :: "string \<Rightarrow> bool" where
  "is_ascii s \<longleftrightarrow> list_all (\<lambda>c. byte_of c < 0x80) s"

fun contains_str :: "string \<Rightarrow> string \<Rightarrow> bool" where
  "contains_str p [] = (p = [])"
| "contains_str p (c # cs) = (prefix p (c # cs) \<or> contains_str p cs)"

fun strip_prefix :: "string \<Rightarrow> string \<Rightarrow> string option" where
  "strip_prefix [] s = Some s"
| "strip_prefix (p # ps) [] = None"
| "strip_prefix (p # ps) (c # cs) = (if p = c then strip_prefix ps cs else None)"

fun split_once :: "char \<Rightarrow> string \<Rightarrow> (string \<times> string) option" where
  "split_once d [] = None"
| "split_once d (c # cs) =
     (if c = d then Some ([], cs)
      else map_option (\<lambda>(a, b). (c # a, b)) (split_once d cs))"

text \<open>\<open>str::split(char)\<close>: always at least one piece.\<close>

fun split_char :: "char \<Rightarrow> string \<Rightarrow> string list" where
  "split_char d [] = [[]]"
| "split_char d (c # cs) =
     (if c = d then [] # split_char d cs
      else (case split_char d cs of [] \<Rightarrow> [[c]] | p # ps \<Rightarrow> (c # p) # ps))"

section \<open>Decimal integers\<close>

definition digit_char :: "int \<Rightarrow> char" where
  "digit_char d = char_of (0x30 + d)"

text \<open>The digits of a non-negative integer, most significant first.\<close>

function dec_digits :: "int \<Rightarrow> string" where
  "dec_digits i =
     (if i < 10 then [digit_char i] else dec_digits (i div 10) @ [digit_char (i mod 10)])"
  by pat_completeness auto
termination
  by (relation "measure nat") auto

declare dec_digits.simps [simp del]

text \<open>\<open>Display\<close> of an integer.\<close>

definition show_int :: "int \<Rightarrow> string" where
  "show_int i = (if i < 0 then CHR ''-'' # dec_digits (- i) else dec_digits i)"

definition digits_value :: "string \<Rightarrow> int" where
  "digits_value s = foldl (\<lambda>acc c. 10 * acc + (byte_of c - 0x30)) 0 s"

definition parse_digits :: "string \<Rightarrow> int option" where
  "parse_digits s = (if s \<noteq> [] \<and> list_all ascii_digit s then Some (digits_value s) else None)"

text \<open>\<open>str::parse::<i64>\<close>: an optional sign, at least one digit, and the 64-bit range.\<close>

definition i64_range :: "int \<Rightarrow> bool" where
  "i64_range i \<longleftrightarrow> - (2 ^ 63) \<le> i \<and> i < 2 ^ 63"

definition parse_i64 :: "string \<Rightarrow> int option" where
  "parse_i64 s =
     (case s of
        [] \<Rightarrow> None
      | c # cs \<Rightarrow>
          (case (if c = CHR ''-'' then map_option (\<lambda>n. - n) (parse_digits cs)
                 else if c = CHR ''+'' then parse_digits cs
                 else parse_digits s) of
             None \<Rightarrow> None
           | Some i \<Rightarrow> if i64_range i then Some i else None))"

section \<open>Lemmas\<close>

lemma concat_utf8_chars [simp]: "concat (utf8_chars s) = s"
  by (induction s rule: utf8_chars.induct) simp_all

lemma len_simps [simp]: "len [] = 0" "len (x # xs) = len xs + 1" "len (xs @ ys) = len xs + len ys"
  by (simp_all add: len_def)

lemma len_nonneg [simp]: "0 \<le> len xs"
  by (simp add: len_def)

lemma len_eq_0 [simp]: "len xs = 0 \<longleftrightarrow> xs = []"
  by (simp add: len_def)

lemma char_count_le_length: "char_count s \<le> len s"
proof (induction s rule: utf8_chars.induct)
  case 1
  then show ?case by (simp add: char_count_def)
next
  case (2 b bs)
  have "len (dropWhile continuation_byte bs) \<le> len bs"
    by (simp add: len_def length_dropWhile_le)
  with 2 show ?case by (simp add: char_count_def)
qed

lemma utf8_chars_nonempty: "w \<in> set (utf8_chars s) \<Longrightarrow> w \<noteq> []"
  by (induction s rule: utf8_chars.induct) auto

text \<open>A code point of \<open>utf8_chars\<close> after the first starts with a byte that is no continuation.\<close>

lemma utf8_chars_heads:
  "\<forall>w\<in>set (tl (utf8_chars s)). \<not> continuation_byte (hd w) \<and> list_all continuation_byte (tl w)"
proof (induction s rule: utf8_chars.induct)
  case 1
  then show ?case by simp
next
  case (2 b bs)
  show ?case
  proof (cases "dropWhile continuation_byte bs")
    case Nil
    then show ?thesis by (simp only: utf8_chars.simps list.sel list.set) simp
  next
    case (Cons c cs)
    have "\<not> continuation_byte c" using Cons by (metis hd_dropWhile list.discI list.sel(1))
    with 2 Cons show ?thesis by (auto simp: list_all_iff dest: set_takeWhileD)
  qed
qed

lemma utf8_chars_block:
  assumes "w \<noteq> []" and "list_all continuation_byte (tl w)"
    and "rest = [] \<or> \<not> continuation_byte (hd rest)"
  shows "utf8_chars (w @ rest) = w # utf8_chars rest"
proof -
  from assms(1) obtain b bs where w: "w = b # bs" by (cases w) auto
  with assms(2) have all: "list_all continuation_byte bs" by simp
  have "takeWhile continuation_byte (bs @ rest) = bs \<and>
        dropWhile continuation_byte (bs @ rest) = rest"
    using all assms(3) by (induction bs) (cases rest; auto)+
  with w show ?thesis by simp
qed

lemma length_strip_front: "length (strip_front ws s) \<le> length s"
proof (induction ws s rule: strip_front.induct)
  case (1 ws s)
  show ?case
  proof (cases "find (\<lambda>w. w \<noteq> [] \<and> prefix w s) ws")
    case None
    then show ?thesis by (simp add: strip_front.simps [of ws s])
  next
    case (Some w)
    with 1 have "length (strip_front ws (drop (length w) s)) \<le> length (drop (length w) s)" by blast
    with Some show ?thesis by (simp add: strip_front.simps [of ws s])
  qed
qed

lemma strip_front_suffix: "suffix (strip_front ws s) s"
proof (induction ws s rule: strip_front.induct)
  case (1 ws s)
  show ?case
  proof (cases "find (\<lambda>w. w \<noteq> [] \<and> prefix w s) ws")
    case None
    then show ?thesis by (simp add: strip_front.simps [of ws s])
  next
    case (Some w)
    with 1 have "suffix (strip_front ws (drop (length w) s)) (drop (length w) s)" by blast
    with Some show ?thesis
      by (simp add: strip_front.simps [of ws s]) (metis suffix_drop suffix_order.trans)
  qed
qed

lemma strip_front_stop: "find (\<lambda>w. w \<noteq> [] \<and> prefix w (strip_front ws s)) ws = None"
proof (induction ws s rule: strip_front.induct)
  case (1 ws s)
  show ?case
  proof (cases "find (\<lambda>w. w \<noteq> [] \<and> prefix w s) ws")
    case None
    then have "strip_front ws s = s" by (subst strip_front.simps) simp
    with None show ?thesis by simp
  next
    case (Some w)
    then have "strip_front ws s = strip_front ws (drop (length w) s)"
      by (subst strip_front.simps) simp
    with 1 Some show ?thesis by simp
  qed
qed

lemma strip_front_idem [simp]: "strip_front ws (strip_front ws s) = strip_front ws s"
  using strip_front.simps [of ws "strip_front ws s"] by (simp only: strip_front_stop option.case)

lemma length_trim: "length (trim s) \<le> length s"
  unfolding trim_def trim_end_def trim_start_def length_rev
  by (rule le_trans [OF length_strip_front]) (simp add: length_strip_front)

lemma strip_prefix_Some [simp]: "strip_prefix p s = Some r \<longleftrightarrow> s = p @ r"
  by (induction p s rule: strip_prefix.induct) auto

lemma split_once_append:
  "d \<notin> set a \<Longrightarrow> split_once d (a @ d # b) = Some (a, b)"
  by (induction a) auto

lemma split_once_Some: "split_once d s = Some (a, b) \<Longrightarrow> s = a @ d # b \<and> d \<notin> set a"
proof (induction s arbitrary: a)
  case Nil
  then show ?case by simp
next
  case (Cons c cs)
  show ?case
  proof (cases "c = d")
    case True
    with Cons.prems show ?thesis by auto
  next
    case False
    with Cons.prems obtain a' where "split_once d cs = Some (a', b)" "a = c # a'"
      by auto
    with Cons.IH False show ?thesis by auto
  qed
qed

subsection \<open>Decimal round trip\<close>

lemma byte_of_digit_char [simp]: "0 \<le> d \<Longrightarrow> d < 10 \<Longrightarrow> byte_of (digit_char d) = 0x30 + d"
  by (simp add: byte_of_def digit_char_def of_char_of take_bit_eq_mod)

lemma ascii_digit_digit_char [simp]: "0 \<le> d \<Longrightarrow> d < 10 \<Longrightarrow> ascii_digit (digit_char d)"
  by (simp add: ascii_digit_def)

lemma dec_digits_ne [simp]: "dec_digits n \<noteq> []"
  by (subst dec_digits.simps) simp

lemma dec_digits_ascii: "0 \<le> n \<Longrightarrow> list_all ascii_digit (dec_digits n)"
proof (induction n rule: dec_digits.induct)
  case (1 n)
  then show ?case by (cases "n < 10") (simp_all add: dec_digits.simps [of n])
qed

lemma digits_value_dec_digits: "0 \<le> n \<Longrightarrow> digits_value (dec_digits n) = n"
proof (induction n rule: dec_digits.induct)
  case (1 n)
  show ?case
  proof (cases "n < 10")
    case True
    with 1 show ?thesis by (simp add: dec_digits.simps [of n] digits_value_def)
  next
    case False
    with 1 have "digits_value (dec_digits (n div 10)) = n div 10" by simp
    with False show ?thesis by (simp add: dec_digits.simps [of n] digits_value_def)
  qed
qed

lemma parse_digits_dec_digits: "0 \<le> n \<Longrightarrow> parse_digits (dec_digits n) = Some n"
  by (simp add: parse_digits_def dec_digits_ascii digits_value_dec_digits)

lemma ascii_digit_not_sign: "ascii_digit c \<Longrightarrow> c \<noteq> CHR ''-'' \<and> c \<noteq> CHR ''+'' \<and> c \<noteq> CHR '':''"
  by (auto simp: ascii_digit_def byte_of_def)

lemma colon_notin_dec_digits: "0 \<le> n \<Longrightarrow> CHR '':'' \<notin> set (dec_digits n)"
  using dec_digits_ascii [of n] ascii_digit_not_sign by (auto simp: list_all_iff)

lemma dec_digits_hd:
  assumes "0 \<le> n"
  obtains c cs where "dec_digits n = c # cs" "c \<noteq> CHR ''-''" "c \<noteq> CHR ''+''"
proof -
  obtain c cs where d: "dec_digits n = c # cs" by (cases "dec_digits n") auto
  have "ascii_digit c" using dec_digits_ascii [OF assms] d by simp
  with d that show thesis using ascii_digit_not_sign by blast
qed

lemma parse_i64_show_int:
  assumes "i64_range i"
  shows "parse_i64 (show_int i) = Some i"
proof (cases "i < 0")
  case True
  with assms show ?thesis
    by (simp add: parse_i64_def show_int_def parse_digits_dec_digits)
next
  case False
  then obtain c cs where d: "dec_digits i = c # cs" "c \<noteq> CHR ''-''" "c \<noteq> CHR ''+''"
    using dec_digits_hd [of i] by auto
  have "parse_digits (c # cs) = Some i" using parse_digits_dec_digits [of i] d(1) False by simp
  with False d assms show ?thesis by (simp add: parse_i64_def show_int_def)
qed

lemma colon_notin_show_int: "CHR '':'' \<notin> set (show_int i)"
  using colon_notin_dec_digits [of i] colon_notin_dec_digits [of "- i"] by (auto simp: show_int_def)

end
