(* ===== verification/Json_Value.thy ===== *)
theory Json_Value
  imports Rust_Text
begin

text \<open>
  The \<open>serde_json::Value\<close> tree and the derived (de)serializers the sources use on it.  Objects
  are association lists in key order (the crate is built without \<open>preserve_order\<close>, so a map is
  a \<open>BTreeMap\<close>); integers are kept apart from floating-point numbers, whose digits are opaque.
  \<open>struct_view\<close> and the field readers below are what \<open>#[derive(Deserialize)]\<close> with
  \<open>deny_unknown_fields\<close> generates: a struct is read from an object without unknown keys, or
  positionally from an array.
\<close>

datatype json =
    JNull
  | JBool bool
  | JInt int
  | JFloat string
  | JStr string
  | JArr "json list"
  | JObj "(string \<times> json) list"

type_synonym fields = "(string \<times> json) list"

section \<open>Reading values\<close>

fun is_object :: "json \<Rightarrow> bool" where
  "is_object (JObj _) = True"
| "is_object _ = False"

fun json_get :: "string \<Rightarrow> json \<Rightarrow> json option" where
  "json_get k (JObj fs) = map_of fs k"
| "json_get k _ = None"

text \<open>\<open>Map::remove\<close>\<close>

definition remove_key :: "string \<Rightarrow> fields \<Rightarrow> fields" where
  "remove_key k fs = filter (\<lambda>(k', _). k' \<noteq> k) fs"

fun d_str :: "json \<Rightarrow> string option" where
  "d_str (JStr s) = Some s"
| "d_str _ = None"

fun d_bool :: "json \<Rightarrow> bool option" where
  "d_bool (JBool b) = Some b"
| "d_bool _ = None"

fun d_int :: "int \<Rightarrow> int \<Rightarrow> json \<Rightarrow> int option" where
  "d_int lo hi (JInt i) = (if lo \<le> i \<and> i < hi then Some i else None)"
| "d_int lo hi _ = None"

abbreviation d_u32 :: "json \<Rightarrow> int option" where
  "d_u32 \<equiv> d_int 0 (2 ^ 32)"

abbreviation d_u64 :: "json \<Rightarrow> int option" where
  "d_u64 \<equiv> d_int 0 (2 ^ 64)"

abbreviation d_i64 :: "json \<Rightarrow> int option" where
  "d_i64 \<equiv> d_int (- (2 ^ 63)) (2 ^ 63)"

fun d_list :: "(json \<Rightarrow> 'a option) \<Rightarrow> json \<Rightarrow> 'a list option" where
  "d_list d (JArr vs) = those (map d vs)"
| "d_list d _ = None"

text \<open>A unit variant is its name, or an object with the name as its only key and a null value.\<close>

fun variant_name :: "json \<Rightarrow> string option" where
  "variant_name (JStr s) = Some s"
| "variant_name (JObj [(s, JNull)]) = Some s"
| "variant_name _ = None"

definition d_enum :: "('a \<times> string) list \<Rightarrow> json \<Rightarrow> 'a option" where
  "d_enum table v =
     (case variant_name v of
        None \<Rightarrow> None
      | Some s \<Rightarrow> map_option fst (find (\<lambda>(_, n). n = s) table))"

text \<open>A struct as the fields its visitor sees.\<close>

fun struct_view :: "string list \<Rightarrow> json \<Rightarrow> fields option" where
  "struct_view names (JObj fs) = (if list_all (\<lambda>(k, _). k \<in> set names) fs then Some fs else None)"
| "struct_view names (JArr vs) = (if length vs \<le> length names then Some (zip names vs) else None)"
| "struct_view names _ = None"

definition req :: "(json \<Rightarrow> 'a option) \<Rightarrow> string \<Rightarrow> fields \<Rightarrow> 'a option" where
  "req d k fs = (case map_of fs k of None \<Rightarrow> None | Some v \<Rightarrow> d v)"

definition dflt :: "'a \<Rightarrow> (json \<Rightarrow> 'a option) \<Rightarrow> string \<Rightarrow> fields \<Rightarrow> 'a option" where
  "dflt a d k fs = (case map_of fs k of None \<Rightarrow> Some a | Some v \<Rightarrow> d v)"

definition opt :: "(json \<Rightarrow> 'a option) \<Rightarrow> string \<Rightarrow> fields \<Rightarrow> 'a option option" where
  "opt d k fs = (case map_of fs k of
      None \<Rightarrow> Some None
    | Some JNull \<Rightarrow> Some None
    | Some v \<Rightarrow> map_option Some (d v))"

text \<open>\<open>serde_json::from_value(..)?\<close>: a failed conversion is a JSON error.\<close>

definition from_value :: "(json \<Rightarrow> 'a option) \<Rightarrow> json \<Rightarrow> 'a result" where
  "from_value d v = ok_or (d v) Json"

section \<open>Writing values\<close>

definition e_opt :: "('a \<Rightarrow> json) \<Rightarrow> 'a option \<Rightarrow> json" where
  "e_opt e x = (case x of None \<Rightarrow> JNull | Some y \<Rightarrow> e y)"

text \<open>\<open>skip_serializing_if = "Option::is_none"\<close>\<close>

definition e_skip :: "string \<Rightarrow> ('a \<Rightarrow> json) \<Rightarrow> 'a option \<Rightarrow> fields" where
  "e_skip k e x = (case x of None \<Rightarrow> [] | Some y \<Rightarrow> [(k, e y)])"

definition e_strs :: "string list \<Rightarrow> json" where
  "e_strs xs = JArr (map JStr xs)"

section \<open>Values with one canonical text\<close>

text \<open>
  \<open>json_safe\<close> holds of the values on which RFC 8785 canonicalization is loss-free: no
  floating-point number, integers exact in a double, and object keys in the strict order a
  \<open>BTreeMap\<close> iterates them.
\<close>

fun str_less :: "string \<Rightarrow> string \<Rightarrow> bool" where
  "str_less [] [] = False"
| "str_less [] (_ # _) = True"
| "str_less (_ # _) [] = False"
| "str_less (a # as) (b # bs) =
     (byte_of a < byte_of b \<or> (byte_of a = byte_of b \<and> str_less as bs))"

fun keys_sorted :: "string list \<Rightarrow> bool" where
  "keys_sorted (a # b # ks) = (str_less a b \<and> keys_sorted (b # ks))"
| "keys_sorted _ = True"

fun json_safe :: "json \<Rightarrow> bool" where
  "json_safe (JInt i) = (\<bar>i\<bar> \<le> 2 ^ 53)"
| "json_safe (JFloat _) = False"
| "json_safe (JArr vs) = list_all json_safe vs"
| "json_safe (JObj fs) = (keys_sorted (map fst fs) \<and> list_all (\<lambda>f. json_safe (snd f)) fs)"
| "json_safe _ = True"

section \<open>Lemmas\<close>

lemma d_list_str [simp]: "d_list d_str (e_strs xs) = Some xs"
  by (induction xs) (auto simp: e_strs_def)

lemma d_list_map:
  assumes "\<And>x. x \<in> set xs \<Longrightarrow> d (e x) = Some x"
  shows "d_list d (JArr (map e xs)) = Some xs"
  using assms by (induction xs) auto

lemma json_safe_e_strs [simp]: "json_safe (e_strs xs)"
  by (simp add: e_strs_def list_all_iff)

lemma json_safe_e_opt [simp]:
  "json_safe (e_opt e x) \<longleftrightarrow> (case x of None \<Rightarrow> True | Some y \<Rightarrow> json_safe (e y))"
  by (simp add: e_opt_def split: option.splits)

lemma from_value_Inr [simp]: "from_value d v = Inr x \<longleftrightarrow> d v = Some x"
  by (simp add: from_value_def)

lemma from_value_eval: "d v = Some x \<Longrightarrow> from_value d v = Inr x"
  by simp

lemma req_cons [simp]: "req d k ((k', v) # fs) = (if k' = k then d v else req d k fs)"
  by (simp add: req_def)

lemma dflt_cons [simp]: "dflt a d k ((k', v) # fs) = (if k' = k then d v else dflt a d k fs)"
  by (simp add: dflt_def)

lemma opt_cons [simp]:
  "opt d k ((k', v) # fs) =
     (if k' = k then (case v of JNull \<Rightarrow> Some None | _ \<Rightarrow> map_option Some (d v)) else opt d k fs)"
  by (simp add: opt_def split: json.splits)

lemma fields_nil [simp]:
  "req d k [] = None" "dflt a d k [] = Some a" "opt d k [] = Some None"
  by (simp_all add: req_def dflt_def opt_def)

lemma str_less_irrefl: "\<not> str_less a a"
  by (induction a) auto

lemma byte_of_inj: "byte_of a = byte_of b \<longleftrightarrow> a = b"
  by (simp add: byte_of_def)

lemma str_less_trans: "str_less a b \<Longrightarrow> str_less b c \<Longrightarrow> str_less a c"
proof (induction a b arbitrary: c rule: str_less.induct)
  case (2 b bs)
  then show ?case by (cases c) auto
next
  case (4 a as b bs)
  then show ?case by (cases c) auto
qed auto

lemma keys_sorted_Cons:
  "keys_sorted (a # ks) \<Longrightarrow> keys_sorted ks \<and> (\<forall>k\<in>set ks. str_less a k)"
proof (induction ks arbitrary: a)
  case Nil
  then show ?case by simp
next
  case (Cons b ks)
  then show ?case using str_less_trans by fastforce
qed

lemma keys_sorted_distinct: "keys_sorted ks \<Longrightarrow> distinct ks"
proof (induction ks)
  case Nil
  then show ?case by simp
next
  case (Cons a ks)
  then show ?case using keys_sorted_Cons [of a ks] str_less_irrefl by auto
qed

text \<open>\<open>to_value\<close> followed by removing the key \<open>signature\<close> leaves every other field.\<close>

lemma remove_key_Cons [simp]:
  "remove_key k ((k', v) # fs) = (if k' = k then remove_key k fs else (k', v) # remove_key k fs)"
  "remove_key k [] = []"
  by (simp_all add: remove_key_def)

lemma remove_key_append [simp]: "remove_key k (fs @ gs) = remove_key k fs @ remove_key k gs"
  by (simp add: remove_key_def)

lemma keys_sorted_remove: "keys_sorted (map fst fs) \<Longrightarrow> keys_sorted (map fst (remove_key k fs))"
proof (induction fs)
  case Nil
  then show ?case by simp
next
  case (Cons f fs)
  obtain k' v where f: "f = (k', v)" by (cases f)
  have sorted: "keys_sorted (map fst fs)" and first: "\<forall>k\<in>set (map fst fs). str_less k' k"
    using keys_sorted_Cons [of k' "map fst fs"] Cons.prems f by auto
  have IH: "keys_sorted (map fst (remove_key k fs))" using Cons.IH sorted by blast
  show ?case
  proof (cases "remove_key k fs")
    case Nil
    then show ?thesis using f by simp
  next
    case (Cons g gs)
    then have "g \<in> set fs" by (metis filter_is_subset list.set_intros(1) remove_key_def subsetD)
    then have "str_less k' (fst g)" using first by auto
    with Cons f IH show ?thesis by simp
  qed
qed

end
