(* ===== verification/External.thy ===== *)
theory External
  imports Json_Value
begin

text \<open>
  The third-party code the sources call, as one record of functions that every definition
  using it takes as a parameter: SHA-256 (\<open>sha2\<close>), hexadecimal (\<open>hex\<close>), base64url
  (\<open>base64\<close>), Ed25519 (\<open>ed25519\_dalek\<close>), JSON text (\<open>serde_json\<close>, \<open>serde_jcs\<close>), RFC 3339
  time text (\<open>chrono\<close>), URLs (\<open>url\<close>) and the Unicode tables behind \<open>to_lowercase\<close> and
  \<open>is_alphanumeric\<close>.  The predicates at the end name what the code relies on; they state the
  documented behaviour of those libraries and are hypotheses of the theorems that need them.
  On top of the record stand the operations of \<^verbatim>\<open>src/src/crypto.rs\<close>.
\<close>

record url_parts =
  u_scheme :: string
  u_username :: string
  u_password :: "string option"
  u_host :: "string option"
  u_text_no_fragment :: string

record ext =
  x_sha256 :: "string \<Rightarrow> string"
  x_hex_encode :: "string \<Rightarrow> string"
  x_hex_decode :: "string \<Rightarrow> string option"
  x_b64_encode :: "string \<Rightarrow> string"
  x_b64_decode :: "string \<Rightarrow> string option"
  x_ed_key_ok :: "string \<Rightarrow> bool"
  x_ed_verify :: "string \<Rightarrow> string \<Rightarrow> string \<Rightarrow> bool"
  x_ed_sign :: "string \<Rightarrow> string \<Rightarrow> string"
  x_ed_public :: "string \<Rightarrow> string"
  x_json_parse :: "string \<Rightarrow> json option"
  x_json_print :: "json \<Rightarrow> string"
  x_jcs :: "json \<Rightarrow> string option"
  x_time_millis :: "int \<Rightarrow> string"
  x_time_parse :: "string \<Rightarrow> int option"
  x_time_ser :: "int \<Rightarrow> string"
  x_time_de :: "string \<Rightarrow> int option"
  x_url_parse :: "string \<Rightarrow> url_parts option"
  x_lowercase :: "string \<Rightarrow> string"
  x_alphanumeric :: "string \<Rightarrow> bool"

section \<open>Documented behaviour\<close>

definition zero_hash :: string where
  "zero_hash = replicate 64 (CHR ''0'')"

definition zero_bytes :: string where
  "zero_bytes = replicate 32 (char_of (0 :: nat))"

definition hash_laws :: "ext \<Rightarrow> bool" where
  "hash_laws X \<longleftrightarrow> (\<forall>m. length (x_sha256 X m) = 32)"

definition hex_laws :: "ext \<Rightarrow> bool" where
  "hex_laws X \<longleftrightarrow>
     (\<forall>b. x_hex_decode X (x_hex_encode X b) = Some b \<and>
          length (x_hex_encode X b) = 2 * length b \<and>
          list_all lower_hex_digit (x_hex_encode X b)) \<and>
     x_hex_encode X zero_bytes = zero_hash"

definition b64_laws :: "ext \<Rightarrow> bool" where
  "b64_laws X \<longleftrightarrow> (\<forall>b. x_b64_decode X (x_b64_encode X b) = Some b)"

definition sig_laws :: "ext \<Rightarrow> bool" where
  "sig_laws X \<longleftrightarrow>
     (\<forall>sk m. length sk = 32 \<longrightarrow>
        x_ed_key_ok X (x_ed_public X sk) \<and> length (x_ed_public X sk) = 32 \<and>
        length (x_ed_sign X sk m) = 64 \<and>
        x_ed_verify X (x_ed_public X sk) m (x_ed_sign X sk m))"

text \<open>
  Printing and canonicalizing a safe value gives a text that parses back to it, and the two
  texts have the same length (they differ at most in the order of members).
\<close>

definition json_laws :: "ext \<Rightarrow> bool" where
  "json_laws X \<longleftrightarrow>
     (\<forall>v. json_safe v \<longrightarrow>
        x_json_parse X (x_json_print X v) = Some v \<and>
        (\<exists>t. x_jcs X v = Some t \<and> x_json_parse X t = Some v \<and>
             length (x_json_print X v) = length t))"

text \<open>Instants are nanoseconds since the epoch; RFC 3339 text covers the years 0000 to 9999.\<close>

definition time_ok :: "int \<Rightarrow> bool" where
  "time_ok t \<longleftrightarrow> - 62167219200000000000 \<le> t \<and> t < 253402300800000000000"

definition millis :: "int \<Rightarrow> int" where
  "millis t = t - t mod 1000000"

definition time_laws :: "ext \<Rightarrow> bool" where
  "time_laws X \<longleftrightarrow>
     (\<forall>t. time_ok t \<longrightarrow>
        x_time_parse X (x_time_millis X t) = Some (millis t) \<and>
        x_time_de X (x_time_ser X t) = Some t)"

lemmas ext_laws_defs =
  hash_laws_def hex_laws_def b64_laws_def sig_laws_def json_laws_def time_laws_def

definition ext_laws :: "ext \<Rightarrow> bool" where
  "ext_laws X \<longleftrightarrow>
     hash_laws X \<and> hex_laws X \<and> b64_laws X \<and> sig_laws X \<and> json_laws X \<and> time_laws X"

section \<open>Time\<close>

definition minutes :: "int \<Rightarrow> int" where
  "minutes n = n * 60 * 1000000000"

definition seconds :: "int \<Rightarrow> int" where
  "seconds n = n * 1000000000"

definition days :: "int \<Rightarrow> int" where
  "days n = n * 24 * 60 * 60 * 1000000000"

text \<open>\<open>timestamp\<close> and \<open>parse_timestamp\<close> of \<^verbatim>\<open>db.rs\<close>\<close>

definition timestamp :: "ext \<Rightarrow> int \<Rightarrow> string" where
  "timestamp X t = x_time_millis X t"

definition parse_timestamp :: "ext \<Rightarrow> string \<Rightarrow> int result" where
  "parse_timestamp X s = ok_or (x_time_parse X s) Internal"

fun d_time :: "ext \<Rightarrow> json \<Rightarrow> int option" where
  "d_time X (JStr s) = x_time_de X s"
| "d_time X _ = None"

definition e_time :: "ext \<Rightarrow> int \<Rightarrow> json" where
  "e_time X t = JStr (x_time_ser X t)"

section \<open>Cryptography\<close>

definition LINEAGE_DOMAIN :: string where "LINEAGE_DOMAIN = ''commonwake.lineage.v1''"
definition DELEGATION_DOMAIN :: string where "DELEGATION_DOMAIN = ''commonwake.delegation.v1''"
definition REVOCATION_DOMAIN :: string where
  "REVOCATION_DOMAIN = ''commonwake.delegation-revocation.v1''"
definition KEY_ROTATION_DOMAIN :: string where "KEY_ROTATION_DOMAIN = ''commonwake.key-rotation.v1''"
definition CONTRIBUTION_DOMAIN :: string where "CONTRIBUTION_DOMAIN = ''commonwake.contribution.v1''"
definition ACK_DOMAIN :: string where "ACK_DOMAIN = ''commonwake.ack.v1''"
definition LOG_DOMAIN :: string where
  "LOG_DOMAIN = ''commonwake.log.v1'' @ [char_of (0 :: nat)]"
definition CHECKPOINT_DOMAIN :: string where "CHECKPOINT_DOMAIN = ''commonwake.checkpoint.v1''"
definition WITNESS_DOMAIN :: string where "WITNESS_DOMAIN = ''commonwake.checkpoint-witness.v1''"
definition REPLICATION_RECEIPT_DOMAIN :: string where
  "REPLICATION_RECEIPT_DOMAIN = ''commonwake.replication-receipt.v1''"

definition decode :: "ext \<Rightarrow> nat \<Rightarrow> string \<Rightarrow> string result" where
  "decode X n v =
     and_then (ok_or (x_b64_decode X v) Validation)
       (\<lambda>bytes. if length bytes = n then Inr bytes else Inl Validation)"

definition verifying_key_from_b64 :: "ext \<Rightarrow> string \<Rightarrow> string result" where
  "verifying_key_from_b64 X v =
     and_then (decode X 32 v) (\<lambda>bytes. if x_ed_key_ok X bytes then Inr bytes else Inl Validation)"

definition signing_key_from_b64 :: "ext \<Rightarrow> string \<Rightarrow> string result" where
  "signing_key_from_b64 X v = decode X 32 v"

definition signature_from_b64 :: "ext \<Rightarrow> string \<Rightarrow> string result" where
  "signature_from_b64 X v =
     and_then (ok_or (x_b64_decode X v) Validation)
       (\<lambda>bytes. if length bytes = 64 then Inr bytes else Inl Validation)"

definition sha256_hex :: "ext \<Rightarrow> string \<Rightarrow> string" where
  "sha256_hex X bytes = x_hex_encode X (x_sha256 X bytes)"

definition prefixed_id :: "ext \<Rightarrow> string \<Rightarrow> string \<Rightarrow> string" where
  "prefixed_id X pre bytes = pre @ sha256_hex X bytes"

definition lineage_id_of :: "ext \<Rightarrow> string \<Rightarrow> string" where
  "lineage_id_of X key = ''cwlin_'' @ sha256_hex X key"

text \<open>Canonical text of a serialized protocol object, with and without its signature.\<close>

definition canonical_json :: "ext \<Rightarrow> json \<Rightarrow> string result" where
  "canonical_json X v = ok_or (x_jcs X v) Internal"

definition canonical_without_signature :: "ext \<Rightarrow> json \<Rightarrow> string result" where
  "canonical_without_signature X v =
     (case v of
        JObj fs \<Rightarrow> ok_or (x_jcs X (JObj (remove_key ''signature'' fs))) Internal
      | _ \<Rightarrow> Inl Internal)"

definition signing_preimage :: "ext \<Rightarrow> string \<Rightarrow> json \<Rightarrow> string result" where
  "signing_preimage X domain v =
     and_then (canonical_without_signature X v)
       (\<lambda>canonical. Inr (domain @ [char_of (0 :: nat)] @ canonical))"

definition sign_object :: "ext \<Rightarrow> string \<Rightarrow> string \<Rightarrow> json \<Rightarrow> string result" where
  "sign_object X sk domain v =
     and_then (signing_preimage X domain v) (\<lambda>m. Inr (x_b64_encode X (x_ed_sign X sk m)))"

definition verify_object :: "ext \<Rightarrow> string \<Rightarrow> string \<Rightarrow> json \<Rightarrow> string \<Rightarrow> unit result" where
  "verify_object X key domain v signature =
     and_then (signature_from_b64 X signature) (\<lambda>sig.
     and_then (signing_preimage X domain v) (\<lambda>m.
     fail_if (\<not> x_ed_verify X key m sig) Unauthorized))"

definition event_hash :: "ext \<Rightarrow> string \<Rightarrow> string \<Rightarrow> string" where
  "event_hash X previous canonical_event = x_sha256 X (LOG_DOMAIN @ previous @ canonical_event)"

text \<open>\<open>hex::decode(..)\<close> into \<open>[u8; 32]\<close>; the error depends on the caller.\<close>

definition decode_hash :: "ext \<Rightarrow> error \<Rightarrow> string \<Rightarrow> string result" where
  "decode_hash X e v =
     and_then (ok_or (x_hex_decode X v) e)
       (\<lambda>bytes. if length bytes = 32 then Inr bytes else Inl e)"

section \<open>The node's own identity\<close>

record node_identity =
  node_id :: string
  node_public_key :: string
  node_secret :: string

definition sign_hash :: "ext \<Rightarrow> node_identity \<Rightarrow> string \<Rightarrow> string" where
  "sign_hash X me h = x_b64_encode X (x_ed_sign X (node_secret me) h)"

text \<open>What \<open>CommonwakeNode::open\<close> establishes of the identity it loads.\<close>

definition identity_ok :: "ext \<Rightarrow> node_identity \<Rightarrow> bool" where
  "identity_ok X me \<longleftrightarrow>
     length (node_secret me) = 32 \<and>
     node_public_key me = x_b64_encode X (x_ed_public X (node_secret me)) \<and>
     node_id me = prefixed_id X ''cwnode_'' (x_ed_public X (node_secret me))"

section \<open>Lemmas\<close>

lemma signature_encode: "b64_laws X \<Longrightarrow> length b = 64 \<Longrightarrow> signature_from_b64 X (x_b64_encode X b) = Inr b"
  by (simp add: signature_from_b64_def b64_laws_def)

lemma verifying_key_encode:
  "b64_laws X \<Longrightarrow> length b = 32 \<Longrightarrow> x_ed_key_ok X b \<Longrightarrow> verifying_key_from_b64 X (x_b64_encode X b) = Inr b"
  by (simp add: verifying_key_from_b64_def decode_def b64_laws_def)

lemma verifying_key_Inr:
  "verifying_key_from_b64 X s = Inr k \<Longrightarrow> x_b64_decode X s = Some k \<and> length k = 32 \<and> x_ed_key_ok X k"
  by (auto simp: verifying_key_from_b64_def decode_def split: if_splits)

lemma verify_sign_object:
  assumes "b64_laws X" and "sig_laws X" and "length sk = 32"
    and "sign_object X sk domain v = Inr s"
    and "signing_preimage X domain v = signing_preimage X domain v'"
  shows "verify_object X (x_ed_public X sk) domain v' s = Inr ()"
proof -
  from assms(4) obtain m where m: "signing_preimage X domain v = Inr m"
    "s = x_b64_encode X (x_ed_sign X sk m)"
    by (auto simp: sign_object_def)
  have "length (x_ed_sign X sk m) = 64" "x_ed_verify X (x_ed_public X sk) m (x_ed_sign X sk m)"
    using assms(2,3) by (auto simp: sig_laws_def)
  with m assms(1,5) show ?thesis by (simp add: verify_object_def signature_encode)
qed

lemma verify_sign_hash:
  assumes "b64_laws X" and "sig_laws X" and "identity_ok X me"
  shows "signature_from_b64 X (sign_hash X me h) = Inr (x_ed_sign X (node_secret me) h)"
    and "x_ed_verify X (x_ed_public X (node_secret me)) h (x_ed_sign X (node_secret me) h)"
  using assms by (auto simp: sign_hash_def signature_encode sig_laws_def identity_ok_def)

lemma identity_key:
  assumes "b64_laws X" and "sig_laws X" and "identity_ok X me"
  shows "verifying_key_from_b64 X (node_public_key me) = Inr (x_ed_public X (node_secret me))"
  using assms by (auto simp: verifying_key_encode sig_laws_def identity_ok_def)

lemma decode_hash_encode:
  assumes "hex_laws X" and "length b = 32"
  shows "decode_hash X e (x_hex_encode X b) = Inr b"
  using assms by (simp add: decode_hash_def hex_laws_def)

lemma decode_hash_zero: "hex_laws X \<Longrightarrow> decode_hash X e zero_hash = Inr zero_bytes"
  using decode_hash_encode [of X zero_bytes e] by (simp add: hex_laws_def zero_bytes_def)

lemma length_event_hash [simp]: "hash_laws X \<Longrightarrow> length (event_hash X p c) = 32"
  by (simp add: event_hash_def hash_laws_def)

lemma hex_encode_inj: "hex_laws X \<Longrightarrow> x_hex_encode X a = x_hex_encode X b \<longleftrightarrow> a = b"
  by (metis hex_laws_def option.inject)

lemma jcs_parse:
  assumes "json_laws X" and "json_safe v" and "x_jcs X v = Some t"
  shows "x_json_parse X t = Some v"
  using assms by (metis json_laws_def option.inject)

lemma jcs_total: "json_laws X \<Longrightarrow> json_safe v \<Longrightarrow> \<exists>t. x_jcs X v = Some t"
  by (metis json_laws_def)

lemma print_parse: "json_laws X \<Longrightarrow> json_safe v \<Longrightarrow> x_json_parse X (x_json_print X v) = Some v"
  by (metis json_laws_def)

lemma jcs_length:
  "json_laws X \<Longrightarrow> json_safe v \<Longrightarrow> x_jcs X v = Some t \<Longrightarrow> length (x_json_print X v) = length t"
  by (metis json_laws_def option.inject)

lemma d_time_e_time [simp]: "time_laws X \<Longrightarrow> time_ok t \<Longrightarrow> d_time X (e_time X t) = Some t"
  by (simp add: e_time_def time_laws_def)

lemma json_safe_e_time [simp]: "json_safe (e_time X t)"
  by (simp add: e_time_def)

lemma millis_le [simp]: "millis t \<le> t"
  by (simp add: millis_def)

lemma millis_mono: "s \<le> t \<Longrightarrow> millis s \<le> millis t"
proof -
  have "millis t = 1000000 * (t div 1000000)" for t
    by (simp add: millis_def minus_mod_eq_mult_div)
  then show "s \<le> t \<Longrightarrow> millis s \<le> millis t" by (simp add: zdiv_mono1)
qed

lemma millis_idem [simp]: "millis (millis t) = millis t"
  by (simp add: millis_def mod_diff_left_eq [symmetric])

end
