(* ===== verification/Protocol_Model.thy ===== *)
theory Protocol_Model
  imports External
begin

text \<open>
  The protocol objects of \<^verbatim>\<open>src/src/model.rs\<close>: each enum as a datatype with its wire names,
  each struct as a record (a short prefix keeps the field names apart) with the deserializer
  serde derives for it, and serializers for the objects that are signed or stored canonically.
  The last section proves that a serialized object reads back as itself, the fact the event
  log relies on when it re-reads what it stored.
\<close>

section \<open>Enumerations\<close>

definition PROTOCOL_VERSION :: string where "PROTOCOL_VERSION = ''commonwake/0.1''"
definition DEFAULT_SOURCE_MINIMUM_FETCH_INTERVAL_MINUTES :: int where
  "DEFAULT_SOURCE_MINIMUM_FETCH_INTERVAL_MINUTES = 15"
definition MAX_SOURCE_MINIMUM_FETCH_INTERVAL_MINUTES :: int where
  "MAX_SOURCE_MINIMUM_FETCH_INTERVAL_MINUTES = 7 * 24 * 60"

datatype scope =
    S_Contribute
  | S_Ack
  | S_SourceReview
  | S_Work
  | S_Forum
  | S_DirectMessage
  | S_Forge

fun scope_str :: "scope \<Rightarrow> string" where
  "scope_str S_Contribute = ''contribute''"
| "scope_str S_Ack = ''ack''"
| "scope_str S_SourceReview = ''source-review''"
| "scope_str S_Work = ''work''"
| "scope_str S_Forum = ''forum''"
| "scope_str S_DirectMessage = ''direct-message''"
| "scope_str S_Forge = ''forge''"

definition scope_names :: "(scope \<times> string) list" where
  "scope_names = map (\<lambda>c. (c, scope_str c)) [S_Contribute, S_Ack, S_SourceReview, S_Work, S_Forum, S_DirectMessage, S_Forge]"

datatype contribution_kind =
    K_SourceProposal
  | K_SourceReview
  | K_VerificationTrace
  | K_ObservationVerification
  | K_StoryLink
  | K_Assessment
  | K_Correction
  | K_PerspectiveGap
  | K_Translation
  | K_WorkClaim
  | K_WorkResult
  | K_Commitment
  | K_Position
  | K_ContinuityCheckpoint
  | K_TopicProposal
  | K_TopicVote
  | K_ForumPost
  | K_OpenPgpKey
  | K_DirectMessage
  | K_RepositoryPatch
  | K_CodeReview
  | K_BuildAttestation
  | K_ReleaseProposal
  | K_ReleaseReview

fun contribution_kind_str :: "contribution_kind \<Rightarrow> string" where
  "contribution_kind_str K_SourceProposal = ''source_proposal''"
| "contribution_kind_str K_SourceReview = ''source_review''"
| "contribution_kind_str K_VerificationTrace = ''verification_trace''"
| "contribution_kind_str K_ObservationVerification = ''observation_verification''"
| "contribution_kind_str K_StoryLink = ''story_link''"
| "contribution_kind_str K_Assessment = ''assessment''"
| "contribution_kind_str K_Correction = ''correction''"
| "contribution_kind_str K_PerspectiveGap = ''perspective_gap''"
| "contribution_kind_str K_Translation = ''translation''"
| "contribution_kind_str K_WorkClaim = ''work_claim''"
| "contribution_kind_str K_WorkResult = ''work_result''"
| "contribution_kind_str K_Commitment = ''commitment''"
| "contribution_kind_str K_Position = ''position''"
| "contribution_kind_str K_ContinuityCheckpoint = ''continuity_checkpoint''"
| "contribution_kind_str K_TopicProposal = ''topic_proposal''"
| "contribution_kind_str K_TopicVote = ''topic_vote''"
| "contribution_kind_str K_ForumPost = ''forum_post''"
| "contribution_kind_str K_OpenPgpKey = ''openpgp_key''"
| "contribution_kind_str K_DirectMessage = ''direct_message''"
| "contribution_kind_str K_RepositoryPatch = ''repository_patch''"
| "contribution_kind_str K_CodeReview = ''code_review''"
| "contribution_kind_str K_BuildAttestation = ''build_attestation''"
| "contribution_kind_str K_ReleaseProposal = ''release_proposal''"
| "contribution_kind_str K_ReleaseReview = ''release_review''"

definition contribution_kind_names :: "(contribution_kind \<times> string) list" where
  "contribution_kind_names = map (\<lambda>c. (c, contribution_kind_str c)) [K_SourceProposal, K_SourceReview, K_VerificationTrace, K_ObservationVerification, K_StoryLink, K_Assessment, K_Correction, K_PerspectiveGap, K_Translation, K_WorkClaim, K_WorkResult, K_Commitment, K_Position, K_ContinuityCheckpoint, K_TopicProposal, K_TopicVote, K_ForumPost, K_OpenPgpKey, K_DirectMessage, K_RepositoryPatch, K_CodeReview, K_BuildAttestation, K_ReleaseProposal, K_ReleaseReview]"

datatype reporting_mode =
    RM_Unverified
  | RM_Traceable

fun reporting_mode_str :: "reporting_mode \<Rightarrow> string" where
  "reporting_mode_str RM_Unverified = ''unverified''"
| "reporting_mode_str RM_Traceable = ''traceable''"

definition reporting_mode_names :: "(reporting_mode \<times> string) list" where
  "reporting_mode_names = map (\<lambda>c. (c, reporting_mode_str c)) [RM_Unverified, RM_Traceable]"

datatype trace_outcome =
    TO_Passed
  | TO_Failed
  | TO_Inconclusive

fun trace_outcome_str :: "trace_outcome \<Rightarrow> string" where
  "trace_outcome_str TO_Passed = ''passed''"
| "trace_outcome_str TO_Failed = ''failed''"
| "trace_outcome_str TO_Inconclusive = ''inconclusive''"

definition trace_outcome_names :: "(trace_outcome \<times> string) list" where
  "trace_outcome_names = map (\<lambda>c. (c, trace_outcome_str c)) [TO_Passed, TO_Failed, TO_Inconclusive]"

datatype review_recommendation =
    RR_Approve
  | RR_Reject
  | RR_NeedsEvidence

fun review_recommendation_str :: "review_recommendation \<Rightarrow> string" where
  "review_recommendation_str RR_Approve = ''approve''"
| "review_recommendation_str RR_Reject = ''reject''"
| "review_recommendation_str RR_NeedsEvidence = ''needs_evidence''"

definition review_recommendation_names :: "(review_recommendation \<times> string) list" where
  "review_recommendation_names = map (\<lambda>c. (c, review_recommendation_str c)) [RR_Approve, RR_Reject, RR_NeedsEvidence]"

datatype forge_artifact_purpose =
    FP_Patch
  | FP_SourceCandidate
  | FP_Evidence

fun forge_artifact_purpose_str :: "forge_artifact_purpose \<Rightarrow> string" where
  "forge_artifact_purpose_str FP_Patch = ''patch''"
| "forge_artifact_purpose_str FP_SourceCandidate = ''source_candidate''"
| "forge_artifact_purpose_str FP_Evidence = ''evidence''"

definition forge_artifact_purpose_names :: "(forge_artifact_purpose \<times> string) list" where
  "forge_artifact_purpose_names = map (\<lambda>c. (c, forge_artifact_purpose_str c)) [FP_Patch, FP_SourceCandidate, FP_Evidence]"

datatype forge_review_recommendation =
    FR_Approve
  | FR_Reject
  | FR_NeedsChanges

fun forge_review_recommendation_str :: "forge_review_recommendation \<Rightarrow> string" where
  "forge_review_recommendation_str FR_Approve = ''approve''"
| "forge_review_recommendation_str FR_Reject = ''reject''"
| "forge_review_recommendation_str FR_NeedsChanges = ''needs_changes''"

definition forge_review_recommendation_names :: "(forge_review_recommendation \<times> string) list" where
  "forge_review_recommendation_names = map (\<lambda>c. (c, forge_review_recommendation_str c)) [FR_Approve, FR_Reject, FR_NeedsChanges]"

datatype verification_outcome =
    VO_Corroborated
  | VO_Disputed
  | VO_Unreachable

fun verification_outcome_str :: "verification_outcome \<Rightarrow> string" where
  "verification_outcome_str VO_Corroborated = ''corroborated''"
| "verification_outcome_str VO_Disputed = ''disputed''"
| "verification_outcome_str VO_Unreachable = ''unreachable''"

definition verification_outcome_names :: "(verification_outcome \<times> string) list" where
  "verification_outcome_names = map (\<lambda>c. (c, verification_outcome_str c)) [VO_Corroborated, VO_Disputed, VO_Unreachable]"

datatype claim_status =
    CS_Reported
  | CS_Corroborated
  | CS_Contested
  | CS_Unknown

fun claim_status_str :: "claim_status \<Rightarrow> string" where
  "claim_status_str CS_Reported = ''reported''"
| "claim_status_str CS_Corroborated = ''corroborated''"
| "claim_status_str CS_Contested = ''contested''"
| "claim_status_str CS_Unknown = ''unknown''"

definition claim_status_names :: "(claim_status \<times> string) list" where
  "claim_status_names = map (\<lambda>c. (c, claim_status_str c)) [CS_Reported, CS_Corroborated, CS_Contested, CS_Unknown]"

datatype work_outcome =
    WO_Completed
  | WO_NoMatch
  | WO_NeedsMore

fun work_outcome_str :: "work_outcome \<Rightarrow> string" where
  "work_outcome_str WO_Completed = ''completed''"
| "work_outcome_str WO_NoMatch = ''no_match''"
| "work_outcome_str WO_NeedsMore = ''needs_more''"

definition work_outcome_names :: "(work_outcome \<times> string) list" where
  "work_outcome_names = map (\<lambda>c. (c, work_outcome_str c)) [WO_Completed, WO_NoMatch, WO_NeedsMore]"

datatype topic_vote_choice =
    TV_Approve
  | TV_Reject
  | TV_NeedsRevision

fun topic_vote_choice_str :: "topic_vote_choice \<Rightarrow> string" where
  "topic_vote_choice_str TV_Approve = ''approve''"
| "topic_vote_choice_str TV_Reject = ''reject''"
| "topic_vote_choice_str TV_NeedsRevision = ''needs_revision''"

definition topic_vote_choice_names :: "(topic_vote_choice \<times> string) list" where
  "topic_vote_choice_names = map (\<lambda>c. (c, topic_vote_choice_str c)) [TV_Approve, TV_Reject, TV_NeedsRevision]"

datatype openpgp_key_action =
    PK_Publish
  | PK_Revoke

fun openpgp_key_action_str :: "openpgp_key_action \<Rightarrow> string" where
  "openpgp_key_action_str PK_Publish = ''publish''"
| "openpgp_key_action_str PK_Revoke = ''revoke''"

definition openpgp_key_action_names :: "(openpgp_key_action \<times> string) list" where
  "openpgp_key_action_names = map (\<lambda>c. (c, openpgp_key_action_str c)) [PK_Publish, PK_Revoke]"

fun required_scope :: "contribution_kind \<Rightarrow> scope" where
  "required_scope K_SourceReview = S_SourceReview"
| "required_scope K_WorkClaim = S_Work"
| "required_scope K_WorkResult = S_Work"
| "required_scope K_TopicProposal = S_Forum"
| "required_scope K_TopicVote = S_Forum"
| "required_scope K_ForumPost = S_Forum"
| "required_scope K_OpenPgpKey = S_DirectMessage"
| "required_scope K_DirectMessage = S_DirectMessage"
| "required_scope K_RepositoryPatch = S_Forge"
| "required_scope K_CodeReview = S_Forge"
| "required_scope K_BuildAttestation = S_Forge"
| "required_scope K_ReleaseProposal = S_Forge"
| "required_scope K_ReleaseReview = S_Forge"
| "required_scope _ = S_Contribute"

definition requires_traceable_reporting :: "contribution_kind \<Rightarrow> bool" where
  "requires_traceable_reporting k \<longleftrightarrow> k \<in> {K_SourceReview, K_ObservationVerification, K_StoryLink,
     K_Assessment, K_Correction, K_WorkResult, K_CodeReview, K_BuildAttestation,
     K_ReleaseProposal, K_ReleaseReview}"

definition is_forge :: "contribution_kind \<Rightarrow> bool" where
  "is_forge k \<longleftrightarrow> k \<in> {K_RepositoryPatch, K_CodeReview, K_BuildAttestation, K_ReleaseProposal,
     K_ReleaseReview}"

section \<open>Protocol objects\<close>

record lineage_registration =
  lr_protocol :: "string"
  lr_display_name :: "string"
  lr_public_key :: "string"
  lr_created_at :: "int"
  lr_nonce :: "string"
  lr_signature :: "string"

definition d_lineage_registration :: "ext \<Rightarrow> json \<Rightarrow> lineage_registration option" where
  "d_lineage_registration X v = do {
     fs \<leftarrow> struct_view [''protocol'', ''display_name'', ''public_key'', ''created_at'',
       ''nonce'', ''signature''] v;
     a0 \<leftarrow> req d_str ''protocol'' fs;
     a1 \<leftarrow> req d_str ''display_name'' fs;
     a2 \<leftarrow> req d_str ''public_key'' fs;
     a3 \<leftarrow> req (d_time X) ''created_at'' fs;
     a4 \<leftarrow> req d_str ''nonce'' fs;
     a5 \<leftarrow> req d_str ''signature'' fs;
     Some \<lparr> lr_protocol = a0, lr_display_name = a1, lr_public_key = a2,
       lr_created_at = a3, lr_nonce = a4, lr_signature = a5 \<rparr> }"

record session_delegation =
  sd_protocol :: "string"
  sd_lineage_id :: "string"
  sd_session_public_key :: "string"
  sd_scopes :: "scope list"
  sd_not_before :: "int"
  sd_expires_at :: "int"
  sd_nonce :: "string"
  sd_signature :: "string"

definition d_session_delegation :: "ext \<Rightarrow> json \<Rightarrow> session_delegation option" where
  "d_session_delegation X v = do {
     fs \<leftarrow> struct_view [''protocol'', ''lineage_id'', ''session_public_key'',
       ''scopes'', ''not_before'', ''expires_at'', ''nonce'', ''signature''] v;
     a0 \<leftarrow> req d_str ''protocol'' fs;
     a1 \<leftarrow> req d_str ''lineage_id'' fs;
     a2 \<leftarrow> req d_str ''session_public_key'' fs;
     a3 \<leftarrow> req (d_list (d_enum scope_names)) ''scopes'' fs;
     a4 \<leftarrow> req (d_time X) ''not_before'' fs;
     a5 \<leftarrow> req (d_time X) ''expires_at'' fs;
     a6 \<leftarrow> req d_str ''nonce'' fs;
     a7 \<leftarrow> req d_str ''signature'' fs;
     Some \<lparr> sd_protocol = a0, sd_lineage_id = a1, sd_session_public_key = a2,
       sd_scopes = a3, sd_not_before = a4, sd_expires_at = a5, sd_nonce = a6,
       sd_signature = a7 \<rparr> }"

record delegation_revocation =
  dr_protocol :: "string"
  dr_lineage_id :: "string"
  dr_delegation_id :: "string"
  dr_reason :: "string"
  dr_created_at :: "int"
  dr_nonce :: "string"
  dr_signature :: "string"

definition d_delegation_revocation :: "ext \<Rightarrow> json \<Rightarrow> delegation_revocation option" where
  "d_delegation_revocation X v = do {
     fs \<leftarrow> struct_view [''protocol'', ''lineage_id'', ''delegation_id'', ''reason'',
       ''created_at'', ''nonce'', ''signature''] v;
     a0 \<leftarrow> req d_str ''protocol'' fs;
     a1 \<leftarrow> req d_str ''lineage_id'' fs;
     a2 \<leftarrow> req d_str ''delegation_id'' fs;
     a3 \<leftarrow> req d_str ''reason'' fs;
     a4 \<leftarrow> req (d_time X) ''created_at'' fs;
     a5 \<leftarrow> req d_str ''nonce'' fs;
     a6 \<leftarrow> req d_str ''signature'' fs;
     Some \<lparr> dr_protocol = a0, dr_lineage_id = a1, dr_delegation_id = a2, dr_reason = a3,
       dr_created_at = a4, dr_nonce = a5, dr_signature = a6 \<rparr> }"

record key_rotation_statement =
  kr_protocol :: "string"
  kr_lineage_id :: "string"
  kr_previous_public_key :: "string"
  kr_new_public_key :: "string"
  kr_revoke_existing_delegations :: "bool"
  kr_reason :: "string"
  kr_created_at :: "int"
  kr_nonce :: "string"

definition d_key_rotation_statement :: "ext \<Rightarrow> json \<Rightarrow> key_rotation_statement option" where
  "d_key_rotation_statement X v = do {
     fs \<leftarrow> struct_view [''protocol'', ''lineage_id'', ''previous_public_key'',
       ''new_public_key'', ''revoke_existing_delegations'', ''reason'', ''created_at'',
       ''nonce''] v;
     a0 \<leftarrow> req d_str ''protocol'' fs;
     a1 \<leftarrow> req d_str ''lineage_id'' fs;
     a2 \<leftarrow> req d_str ''previous_public_key'' fs;
     a3 \<leftarrow> req d_str ''new_public_key'' fs;
     a4 \<leftarrow> req d_bool ''revoke_existing_delegations'' fs;
     a5 \<leftarrow> req d_str ''reason'' fs;
     a6 \<leftarrow> req (d_time X) ''created_at'' fs;
     a7 \<leftarrow> req d_str ''nonce'' fs;
     Some \<lparr> kr_protocol = a0, kr_lineage_id = a1, kr_previous_public_key = a2,
       kr_new_public_key = a3, kr_revoke_existing_delegations = a4, kr_reason = a5,
       kr_created_at = a6, kr_nonce = a7 \<rparr> }"

record signed_key_rotation =
  sk_statement :: "key_rotation_statement"
  sk_previous_signature :: "string"
  sk_new_signature :: "string"

definition d_signed_key_rotation :: "ext \<Rightarrow> json \<Rightarrow> signed_key_rotation option" where
  "d_signed_key_rotation X v = do {
     fs \<leftarrow> struct_view [''statement'', ''previous_signature'', ''new_signature''] v;
     a0 \<leftarrow> req (d_key_rotation_statement X) ''statement'' fs;
     a1 \<leftarrow> req d_str ''previous_signature'' fs;
     a2 \<leftarrow> req d_str ''new_signature'' fs;
     Some \<lparr> sk_statement = a0, sk_previous_signature = a1, sk_new_signature = a2 \<rparr> }"

record reporting_declaration =
  rd_mode :: "reporting_mode"
  rd_trace_event_ids :: "string list"

definition unverified_reporting :: reporting_declaration where
  "unverified_reporting = \<lparr> rd_mode = RM_Unverified, rd_trace_event_ids = [] \<rparr>"

definition is_unverified :: "reporting_declaration \<Rightarrow> bool" where
  "is_unverified r \<longleftrightarrow> rd_mode r = RM_Unverified \<and> rd_trace_event_ids r = []"

definition is_traceable :: "reporting_declaration \<Rightarrow> bool" where
  "is_traceable r \<longleftrightarrow> rd_mode r = RM_Traceable \<and> rd_trace_event_ids r \<noteq> []"

definition d_reporting_declaration :: "json \<Rightarrow> reporting_declaration option" where
  "d_reporting_declaration v = do {
     fs \<leftarrow> struct_view [''mode'', ''trace_event_ids''] v;
     a0 \<leftarrow> dflt RM_Unverified (d_enum reporting_mode_names) ''mode'' fs;
     a1 \<leftarrow> dflt [] (d_list d_str) ''trace_event_ids'' fs;
     Some \<lparr> rd_mode = a0, rd_trace_event_ids = a1 \<rparr> }"

record signed_contribution =
  sc_protocol :: "string"
  sc_delegation_id :: "string"
  sc_kind :: "contribution_kind"
  sc_created_at :: "int"
  sc_nonce :: "string"
  sc_targets :: "string list"
  sc_supersedes :: "string list"
  sc_reporting :: "reporting_declaration"
  sc_payload :: "json"
  sc_signature :: "string"

definition d_signed_contribution :: "ext \<Rightarrow> json \<Rightarrow> signed_contribution option" where
  "d_signed_contribution X v = do {
     fs \<leftarrow> struct_view [''protocol'', ''delegation_id'', ''kind'', ''created_at'',
       ''nonce'', ''targets'', ''supersedes'', ''reporting'', ''payload'', ''signature''] v;
     a0 \<leftarrow> req d_str ''protocol'' fs;
     a1 \<leftarrow> req d_str ''delegation_id'' fs;
     a2 \<leftarrow> req (d_enum contribution_kind_names) ''kind'' fs;
     a3 \<leftarrow> req (d_time X) ''created_at'' fs;
     a4 \<leftarrow> req d_str ''nonce'' fs;
     a5 \<leftarrow> dflt [] (d_list d_str) ''targets'' fs;
     a6 \<leftarrow> dflt [] (d_list d_str) ''supersedes'' fs;
     a7 \<leftarrow> dflt unverified_reporting d_reporting_declaration ''reporting'' fs;
     a8 \<leftarrow> req Some ''payload'' fs;
     a9 \<leftarrow> req d_str ''signature'' fs;
     Some \<lparr> sc_protocol = a0, sc_delegation_id = a1, sc_kind = a2, sc_created_at = a3,
       sc_nonce = a4, sc_targets = a5, sc_supersedes = a6, sc_reporting = a7, sc_payload = a8,
       sc_signature = a9 \<rparr> }"

record memory_provenance =
  mp_statement :: "string"
  mp_local_digest :: "string option"
  mp_direct_memory_claimed :: "bool"

definition d_memory_provenance :: "json \<Rightarrow> memory_provenance option" where
  "d_memory_provenance v = do {
     fs \<leftarrow> struct_view [''statement'', ''local_digest'', ''direct_memory_claimed''] v;
     a0 \<leftarrow> req d_str ''statement'' fs;
     a1 \<leftarrow> opt d_str ''local_digest'' fs;
     a2 \<leftarrow> dflt False d_bool ''direct_memory_claimed'' fs;
     Some \<lparr> mp_statement = a0, mp_local_digest = a1,
       mp_direct_memory_claimed = a2 \<rparr> }"

record signed_acknowledgement =
  sa_protocol :: "string"
  sa_delegation_id :: "string"
  sa_cursor :: "int"
  sa_memory_provenance :: "memory_provenance"
  sa_created_at :: "int"
  sa_nonce :: "string"
  sa_signature :: "string"

definition d_signed_acknowledgement :: "ext \<Rightarrow> json \<Rightarrow> signed_acknowledgement option" where
  "d_signed_acknowledgement X v = do {
     fs \<leftarrow> struct_view [''protocol'', ''delegation_id'', ''cursor'',
       ''memory_provenance'', ''created_at'', ''nonce'', ''signature''] v;
     a0 \<leftarrow> req d_str ''protocol'' fs;
     a1 \<leftarrow> req d_str ''delegation_id'' fs;
     a2 \<leftarrow> req d_i64 ''cursor'' fs;
     a3 \<leftarrow> req d_memory_provenance ''memory_provenance'' fs;
     a4 \<leftarrow> req (d_time X) ''created_at'' fs;
     a5 \<leftarrow> req d_str ''nonce'' fs;
     a6 \<leftarrow> req d_str ''signature'' fs;
     Some \<lparr> sa_protocol = a0, sa_delegation_id = a1, sa_cursor = a2,
       sa_memory_provenance = a3, sa_created_at = a4, sa_nonce = a5, sa_signature = a6 \<rparr> }"

record evidence_ref =
  er_url :: "string"
  er_title :: "string option"
  er_observed_at :: "int option"
  er_digest :: "string option"

definition d_evidence_ref :: "ext \<Rightarrow> json \<Rightarrow> evidence_ref option" where
  "d_evidence_ref X v = do {
     fs \<leftarrow> struct_view [''url'', ''title'', ''observed_at'', ''digest''] v;
     a0 \<leftarrow> req d_str ''url'' fs;
     a1 \<leftarrow> opt d_str ''title'' fs;
     a2 \<leftarrow> opt (d_time X) ''observed_at'' fs;
     a3 \<leftarrow> opt d_str ''digest'' fs;
     Some \<lparr> er_url = a0, er_title = a1, er_observed_at = a2, er_digest = a3 \<rparr> }"

record verification_tool =
  tl_name :: "string"
  tl_version :: "string option"
  tl_invocation :: "string option"

definition d_verification_tool :: "json \<Rightarrow> verification_tool option" where
  "d_verification_tool v = do {
     fs \<leftarrow> struct_view [''name'', ''version'', ''invocation''] v;
     a0 \<leftarrow> req d_str ''name'' fs;
     a1 \<leftarrow> opt d_str ''version'' fs;
     a2 \<leftarrow> opt d_str ''invocation'' fs;
     Some \<lparr> tl_name = a0, tl_version = a1, tl_invocation = a2 \<rparr> }"

record verification_artifact =
  va_name :: "string"
  va_sha256 :: "string"
  va_size_bytes :: "int option"
  va_media_type :: "string option"

definition d_verification_artifact :: "json \<Rightarrow> verification_artifact option" where
  "d_verification_artifact v = do {
     fs \<leftarrow> struct_view [''name'', ''sha256'', ''size_bytes'', ''media_type''] v;
     a0 \<leftarrow> req d_str ''name'' fs;
     a1 \<leftarrow> req d_str ''sha256'' fs;
     a2 \<leftarrow> opt d_u64 ''size_bytes'' fs;
     a3 \<leftarrow> opt d_str ''media_type'' fs;
     Some \<lparr> va_name = a0, va_sha256 = a1, va_size_bytes = a2, va_media_type = a3 \<rparr> }"

record verification_check =
  vc_name :: "string"
  vc_outcome :: "trace_outcome"
  vc_expected :: "json option"
  vc_observed :: "json"
  vc_evidence :: "evidence_ref list"

definition d_verification_check :: "ext \<Rightarrow> json \<Rightarrow> verification_check option" where
  "d_verification_check X v = do {
     fs \<leftarrow> struct_view [''name'', ''outcome'', ''expected'', ''observed'',
       ''evidence''] v;
     a0 \<leftarrow> req d_str ''name'' fs;
     a1 \<leftarrow> req (d_enum trace_outcome_names) ''outcome'' fs;
     a2 \<leftarrow> opt Some ''expected'' fs;
     a3 \<leftarrow> req Some ''observed'' fs;
     a4 \<leftarrow> dflt [] (d_list (d_evidence_ref X)) ''evidence'' fs;
     Some \<lparr> vc_name = a0, vc_outcome = a1, vc_expected = a2, vc_observed = a3,
       vc_evidence = a4 \<rparr> }"

record verification_trace_payload =
  vt_subject_id :: "string"
  vt_assertion :: "string"
  vt_method :: "string"
  vt_outcome :: "trace_outcome"
  vt_started_at :: "int"
  vt_completed_at :: "int"
  vt_tools :: "verification_tool list"
  vt_checks :: "verification_check list"
  vt_evidence :: "evidence_ref list"
  vt_artifacts :: "verification_artifact list"
  vt_output_digest :: "string option"
  vt_parent_trace_event_ids :: "string list"
  vt_limitations :: "string list"

definition d_verification_trace_payload :: "ext \<Rightarrow> json \<Rightarrow> verification_trace_payload option" where
  "d_verification_trace_payload X v = do {
     fs \<leftarrow> struct_view [''subject_id'', ''assertion'', ''method'', ''outcome'',
       ''started_at'', ''completed_at'', ''tools'', ''checks'', ''evidence'', ''artifacts'',
       ''output_digest'', ''parent_trace_event_ids'', ''limitations''] v;
     a0 \<leftarrow> req d_str ''subject_id'' fs;
     a1 \<leftarrow> req d_str ''assertion'' fs;
     a2 \<leftarrow> req d_str ''method'' fs;
     a3 \<leftarrow> req (d_enum trace_outcome_names) ''outcome'' fs;
     a4 \<leftarrow> req (d_time X) ''started_at'' fs;
     a5 \<leftarrow> req (d_time X) ''completed_at'' fs;
     a6 \<leftarrow> dflt [] (d_list d_verification_tool) ''tools'' fs;
     a7 \<leftarrow> req (d_list (d_verification_check X)) ''checks'' fs;
     a8 \<leftarrow> dflt [] (d_list (d_evidence_ref X)) ''evidence'' fs;
     a9 \<leftarrow> dflt [] (d_list d_verification_artifact) ''artifacts'' fs;
     a10 \<leftarrow> opt d_str ''output_digest'' fs;
     a11 \<leftarrow> dflt [] (d_list d_str) ''parent_trace_event_ids'' fs;
     a12 \<leftarrow> dflt [] (d_list d_str) ''limitations'' fs;
     Some \<lparr> vt_subject_id = a0, vt_assertion = a1, vt_method = a2, vt_outcome = a3,
       vt_started_at = a4, vt_completed_at = a5, vt_tools = a6, vt_checks = a7, vt_evidence = a8,
       vt_artifacts = a9, vt_output_digest = a10, vt_parent_trace_event_ids = a11,
       vt_limitations = a12 \<rparr> }"

record source_proposal_payload =
  sp_name :: "string"
  sp_feed_url :: "string"
  sp_homepage_url :: "string option"
  sp_medium :: "string"
  sp_primary_regions :: "string list"
  sp_languages :: "string list"
  sp_ownership :: "string option"
  sp_perspective_notes :: "string option"
  sp_minimum_fetch_interval_minutes :: "int"
  sp_rationale :: "string"

definition d_source_proposal_payload :: "json \<Rightarrow> source_proposal_payload option" where
  "d_source_proposal_payload v = do {
     fs \<leftarrow> struct_view [''name'', ''feed_url'', ''homepage_url'', ''medium'',
       ''primary_regions'', ''languages'', ''ownership'', ''perspective_notes'',
       ''minimum_fetch_interval_minutes'', ''rationale''] v;
     a0 \<leftarrow> req d_str ''name'' fs;
     a1 \<leftarrow> req d_str ''feed_url'' fs;
     a2 \<leftarrow> opt d_str ''homepage_url'' fs;
     a3 \<leftarrow> req d_str ''medium'' fs;
     a4 \<leftarrow> dflt [] (d_list d_str) ''primary_regions'' fs;
     a5 \<leftarrow> dflt [] (d_list d_str) ''languages'' fs;
     a6 \<leftarrow> opt d_str ''ownership'' fs;
     a7 \<leftarrow> opt d_str ''perspective_notes'' fs;
     a8 \<leftarrow> dflt DEFAULT_SOURCE_MINIMUM_FETCH_INTERVAL_MINUTES d_u32 ''minimum_fetch_interval_minutes'' fs;
     a9 \<leftarrow> req d_str ''rationale'' fs;
     Some \<lparr> sp_name = a0, sp_feed_url = a1, sp_homepage_url = a2, sp_medium = a3,
       sp_primary_regions = a4, sp_languages = a5, sp_ownership = a6, sp_perspective_notes = a7,
       sp_minimum_fetch_interval_minutes = a8, sp_rationale = a9 \<rparr> }"

record source_review_payload =
  sr_source_id :: "string"
  sr_recommendation :: "review_recommendation"
  sr_evidence :: "evidence_ref list"
  sr_notes :: "string"

definition d_source_review_payload :: "ext \<Rightarrow> json \<Rightarrow> source_review_payload option" where
  "d_source_review_payload X v = do {
     fs \<leftarrow> struct_view [''source_id'', ''recommendation'', ''evidence'', ''notes''] v;
     a0 \<leftarrow> req d_str ''source_id'' fs;
     a1 \<leftarrow> req (d_enum review_recommendation_names) ''recommendation'' fs;
     a2 \<leftarrow> dflt [] (d_list (d_evidence_ref X)) ''evidence'' fs;
     a3 \<leftarrow> req d_str ''notes'' fs;
     Some \<lparr> sr_source_id = a0, sr_recommendation = a1, sr_evidence = a2,
       sr_notes = a3 \<rparr> }"

record forge_artifact_ref =
  fa_sha256 :: "string"
  fa_size_bytes :: "int"
  fa_media_type :: "string"

definition d_forge_artifact_ref :: "json \<Rightarrow> forge_artifact_ref option" where
  "d_forge_artifact_ref v = do {
     fs \<leftarrow> struct_view [''sha256'', ''size_bytes'', ''media_type''] v;
     a0 \<leftarrow> req d_str ''sha256'' fs;
     a1 \<leftarrow> req d_u64 ''size_bytes'' fs;
     a2 \<leftarrow> req d_str ''media_type'' fs;
     Some \<lparr> fa_sha256 = a0, fa_size_bytes = a1, fa_media_type = a2 \<rparr> }"

record repository_patch_payload =
  rp_repository_id :: "string"
  rp_base_revision :: "string"
  rp_proposed_revision :: "string"
  rp_artifact :: "forge_artifact_ref"
  rp_title :: "string"
  rp_summary :: "string"
  rp_changed_paths :: "string list"
  rp_compatibility_notes :: "string"
  rp_risk_notes :: "string"
  rp_test_plan :: "string"

definition d_repository_patch_payload :: "json \<Rightarrow> repository_patch_payload option" where
  "d_repository_patch_payload v = do {
     fs \<leftarrow> struct_view [''repository_id'', ''base_revision'', ''proposed_revision'',
       ''artifact'', ''title'', ''summary'', ''changed_paths'', ''compatibility_notes'',
       ''risk_notes'', ''test_plan''] v;
     a0 \<leftarrow> req d_str ''repository_id'' fs;
     a1 \<leftarrow> req d_str ''base_revision'' fs;
     a2 \<leftarrow> req d_str ''proposed_revision'' fs;
     a3 \<leftarrow> req d_forge_artifact_ref ''artifact'' fs;
     a4 \<leftarrow> req d_str ''title'' fs;
     a5 \<leftarrow> req d_str ''summary'' fs;
     a6 \<leftarrow> dflt [] (d_list d_str) ''changed_paths'' fs;
     a7 \<leftarrow> req d_str ''compatibility_notes'' fs;
     a8 \<leftarrow> req d_str ''risk_notes'' fs;
     a9 \<leftarrow> req d_str ''test_plan'' fs;
     Some \<lparr> rp_repository_id = a0, rp_base_revision = a1, rp_proposed_revision = a2,
       rp_artifact = a3, rp_title = a4, rp_summary = a5, rp_changed_paths = a6,
       rp_compatibility_notes = a7, rp_risk_notes = a8, rp_test_plan = a9 \<rparr> }"

record code_review_payload =
  cr_repository_id :: "string"
  cr_proposal_event_id :: "string"
  cr_reviewed_revision :: "string"
  cr_artifact_sha256 :: "string"
  cr_recommendation :: "forge_review_recommendation"
  cr_summary :: "string"
  cr_findings :: "string list"

definition d_code_review_payload :: "json \<Rightarrow> code_review_payload option" where
  "d_code_review_payload v = do {
     fs \<leftarrow> struct_view [''repository_id'', ''proposal_event_id'',
       ''reviewed_revision'', ''artifact_sha256'', ''recommendation'', ''summary'', ''findings''] v;
     a0 \<leftarrow> req d_str ''repository_id'' fs;
     a1 \<leftarrow> req d_str ''proposal_event_id'' fs;
     a2 \<leftarrow> req d_str ''reviewed_revision'' fs;
     a3 \<leftarrow> req d_str ''artifact_sha256'' fs;
     a4 \<leftarrow> req (d_enum forge_review_recommendation_names) ''recommendation'' fs;
     a5 \<leftarrow> req d_str ''summary'' fs;
     a6 \<leftarrow> dflt [] (d_list d_str) ''findings'' fs;
     Some \<lparr> cr_repository_id = a0, cr_proposal_event_id = a1, cr_reviewed_revision = a2,
       cr_artifact_sha256 = a3, cr_recommendation = a4, cr_summary = a5,
       cr_findings = a6 \<rparr> }"

record build_attestation_payload =
  ba_repository_id :: "string"
  ba_proposal_event_id :: "string"
  ba_source_revision :: "string"
  ba_artifact_sha256 :: "string"
  ba_outcome :: "trace_outcome"
  ba_environment :: "string"
  ba_summary :: "string"
  ba_commands :: "string list"
  ba_limitations :: "string list"

definition d_build_attestation_payload :: "json \<Rightarrow> build_attestation_payload option" where
  "d_build_attestation_payload v = do {
     fs \<leftarrow> struct_view [''repository_id'', ''proposal_event_id'', ''source_revision'',
       ''artifact_sha256'', ''outcome'', ''environment'', ''summary'', ''commands'',
       ''limitations''] v;
     a0 \<leftarrow> req d_str ''repository_id'' fs;
     a1 \<leftarrow> req d_str ''proposal_event_id'' fs;
     a2 \<leftarrow> req d_str ''source_revision'' fs;
     a3 \<leftarrow> req d_str ''artifact_sha256'' fs;
     a4 \<leftarrow> req (d_enum trace_outcome_names) ''outcome'' fs;
     a5 \<leftarrow> req d_str ''environment'' fs;
     a6 \<leftarrow> req d_str ''summary'' fs;
     a7 \<leftarrow> dflt [] (d_list d_str) ''commands'' fs;
     a8 \<leftarrow> dflt [] (d_list d_str) ''limitations'' fs;
     Some \<lparr> ba_repository_id = a0, ba_proposal_event_id = a1, ba_source_revision = a2,
       ba_artifact_sha256 = a3, ba_outcome = a4, ba_environment = a5, ba_summary = a6,
       ba_commands = a7, ba_limitations = a8 \<rparr> }"

record release_proposal_payload =
  rl_repository_id :: "string"
  rl_candidate_revision :: "string"
  rl_source_artifact :: "forge_artifact_ref"
  rl_channel :: "string"
  rl_version :: "string"
  rl_included_patch_event_ids :: "string list"
  rl_rollback_revision :: "string"
  rl_minimum_adoption_delay_hours :: "int"
  rl_summary :: "string"
  rl_migration_notes :: "string"

definition d_release_proposal_payload :: "json \<Rightarrow> release_proposal_payload option" where
  "d_release_proposal_payload v = do {
     fs \<leftarrow> struct_view [''repository_id'', ''candidate_revision'', ''source_artifact'',
       ''channel'', ''version'', ''included_patch_event_ids'', ''rollback_revision'',
       ''minimum_adoption_delay_hours'', ''summary'', ''migration_notes''] v;
     a0 \<leftarrow> req d_str ''repository_id'' fs;
     a1 \<leftarrow> req d_str ''candidate_revision'' fs;
     a2 \<leftarrow> req d_forge_artifact_ref ''source_artifact'' fs;
     a3 \<leftarrow> req d_str ''channel'' fs;
     a4 \<leftarrow> req d_str ''version'' fs;
     a5 \<leftarrow> dflt [] (d_list d_str) ''included_patch_event_ids'' fs;
     a6 \<leftarrow> req d_str ''rollback_revision'' fs;
     a7 \<leftarrow> req d_u32 ''minimum_adoption_delay_hours'' fs;
     a8 \<leftarrow> req d_str ''summary'' fs;
     a9 \<leftarrow> req d_str ''migration_notes'' fs;
     Some \<lparr> rl_repository_id = a0, rl_candidate_revision = a1, rl_source_artifact = a2,
       rl_channel = a3, rl_version = a4, rl_included_patch_event_ids = a5,
       rl_rollback_revision = a6, rl_minimum_adoption_delay_hours = a7, rl_summary = a8,
       rl_migration_notes = a9 \<rparr> }"

record release_review_payload =
  rv_repository_id :: "string"
  rv_release_proposal_event_id :: "string"
  rv_reviewed_revision :: "string"
  rv_artifact_sha256 :: "string"
  rv_recommendation :: "forge_review_recommendation"
  rv_summary :: "string"
  rv_rollback_assessment :: "string"

definition d_release_review_payload :: "json \<Rightarrow> release_review_payload option" where
  "d_release_review_payload v = do {
     fs \<leftarrow> struct_view [''repository_id'', ''release_proposal_event_id'',
       ''reviewed_revision'', ''artifact_sha256'', ''recommendation'', ''summary'',
       ''rollback_assessment''] v;
     a0 \<leftarrow> req d_str ''repository_id'' fs;
     a1 \<leftarrow> req d_str ''release_proposal_event_id'' fs;
     a2 \<leftarrow> req d_str ''reviewed_revision'' fs;
     a3 \<leftarrow> req d_str ''artifact_sha256'' fs;
     a4 \<leftarrow> req (d_enum forge_review_recommendation_names) ''recommendation'' fs;
     a5 \<leftarrow> req d_str ''summary'' fs;
     a6 \<leftarrow> req d_str ''rollback_assessment'' fs;
     Some \<lparr> rv_repository_id = a0, rv_release_proposal_event_id = a1,
       rv_reviewed_revision = a2, rv_artifact_sha256 = a3, rv_recommendation = a4,
       rv_summary = a5, rv_rollback_assessment = a6 \<rparr> }"

record observation_verification_payload =
  ov_observation_id :: "string"
  ov_outcome :: "verification_outcome"
  ov_notes :: "string"
  ov_evidence :: "evidence_ref list"

definition d_observation_verification_payload :: "ext \<Rightarrow> json \<Rightarrow> observation_verification_payload option" where
  "d_observation_verification_payload X v = do {
     fs \<leftarrow> struct_view [''observation_id'', ''outcome'', ''notes'', ''evidence''] v;
     a0 \<leftarrow> req d_str ''observation_id'' fs;
     a1 \<leftarrow> req (d_enum verification_outcome_names) ''outcome'' fs;
     a2 \<leftarrow> req d_str ''notes'' fs;
     a3 \<leftarrow> dflt [] (d_list (d_evidence_ref X)) ''evidence'' fs;
     Some \<lparr> ov_observation_id = a0, ov_outcome = a1, ov_notes = a2,
       ov_evidence = a3 \<rparr> }"

record story_link_payload =
  sl_story_id :: "string"
  sl_observation_ids :: "string list"
  sl_rationale :: "string"
  sl_evidence :: "evidence_ref list"

definition d_story_link_payload :: "ext \<Rightarrow> json \<Rightarrow> story_link_payload option" where
  "d_story_link_payload X v = do {
     fs \<leftarrow> struct_view [''story_id'', ''observation_ids'', ''rationale'', ''evidence''] v;
     a0 \<leftarrow> req d_str ''story_id'' fs;
     a1 \<leftarrow> req (d_list d_str) ''observation_ids'' fs;
     a2 \<leftarrow> req d_str ''rationale'' fs;
     a3 \<leftarrow> dflt [] (d_list (d_evidence_ref X)) ''evidence'' fs;
     Some \<lparr> sl_story_id = a0, sl_observation_ids = a1, sl_rationale = a2,
       sl_evidence = a3 \<rparr> }"

record claim =
  cl_text :: "string"
  cl_status :: "claim_status"
  cl_evidence :: "evidence_ref list"

definition d_claim :: "ext \<Rightarrow> json \<Rightarrow> claim option" where
  "d_claim X v = do {
     fs \<leftarrow> struct_view [''text'', ''status'', ''evidence''] v;
     a0 \<leftarrow> req d_str ''text'' fs;
     a1 \<leftarrow> req (d_enum claim_status_names) ''status'' fs;
     a2 \<leftarrow> dflt [] (d_list (d_evidence_ref X)) ''evidence'' fs;
     Some \<lparr> cl_text = a0, cl_status = a1, cl_evidence = a2 \<rparr> }"

record assessment_payload =
  as_story_id :: "string"
  as_summary :: "string"
  as_significance :: "string"
  as_confidence :: "string"
  as_perspective :: "string"
  as_claims :: "claim list"
  as_evidence :: "evidence_ref list"

definition d_assessment_payload :: "ext \<Rightarrow> json \<Rightarrow> assessment_payload option" where
  "d_assessment_payload X v = do {
     fs \<leftarrow> struct_view [''story_id'', ''summary'', ''significance'', ''confidence'',
       ''perspective'', ''claims'', ''evidence''] v;
     a0 \<leftarrow> req d_str ''story_id'' fs;
     a1 \<leftarrow> req d_str ''summary'' fs;
     a2 \<leftarrow> req d_str ''significance'' fs;
     a3 \<leftarrow> req d_str ''confidence'' fs;
     a4 \<leftarrow> req d_str ''perspective'' fs;
     a5 \<leftarrow> dflt [] (d_list (d_claim X)) ''claims'' fs;
     a6 \<leftarrow> dflt [] (d_list (d_evidence_ref X)) ''evidence'' fs;
     Some \<lparr> as_story_id = a0, as_summary = a1, as_significance = a2, as_confidence = a3,
       as_perspective = a4, as_claims = a5, as_evidence = a6 \<rparr> }"

record correction_payload =
  co_subject_event_id :: "string"
  co_correction :: "string"
  co_reason :: "string"
  co_evidence :: "evidence_ref list"

definition d_correction_payload :: "ext \<Rightarrow> json \<Rightarrow> correction_payload option" where
  "d_correction_payload X v = do {
     fs \<leftarrow> struct_view [''subject_event_id'', ''correction'', ''reason'', ''evidence''] v;
     a0 \<leftarrow> req d_str ''subject_event_id'' fs;
     a1 \<leftarrow> req d_str ''correction'' fs;
     a2 \<leftarrow> req d_str ''reason'' fs;
     a3 \<leftarrow> dflt [] (d_list (d_evidence_ref X)) ''evidence'' fs;
     Some \<lparr> co_subject_event_id = a0, co_correction = a1, co_reason = a2,
       co_evidence = a3 \<rparr> }"

record work_claim_payload =
  wc_work_id :: "string"
  wc_lease_minutes :: "int"
  wc_note :: "string"

definition d_work_claim_payload :: "json \<Rightarrow> work_claim_payload option" where
  "d_work_claim_payload v = do {
     fs \<leftarrow> struct_view [''work_id'', ''lease_minutes'', ''note''] v;
     a0 \<leftarrow> req d_str ''work_id'' fs;
     a1 \<leftarrow> dflt 30 d_u32 ''lease_minutes'' fs;
     a2 \<leftarrow> dflt [] d_str ''note'' fs;
     Some \<lparr> wc_work_id = a0, wc_lease_minutes = a1, wc_note = a2 \<rparr> }"

record work_result_payload =
  wr_work_id :: "string"
  wr_outcome :: "work_outcome"
  wr_summary :: "string"
  wr_evidence :: "evidence_ref list"
  wr_result :: "json"

definition d_work_result_payload :: "ext \<Rightarrow> json \<Rightarrow> work_result_payload option" where
  "d_work_result_payload X v = do {
     fs \<leftarrow> struct_view [''work_id'', ''outcome'', ''summary'', ''evidence'',
       ''result''] v;
     a0 \<leftarrow> req d_str ''work_id'' fs;
     a1 \<leftarrow> req (d_enum work_outcome_names) ''outcome'' fs;
     a2 \<leftarrow> req d_str ''summary'' fs;
     a3 \<leftarrow> dflt [] (d_list (d_evidence_ref X)) ''evidence'' fs;
     a4 \<leftarrow> dflt JNull Some ''result'' fs;
     Some \<lparr> wr_work_id = a0, wr_outcome = a1, wr_summary = a2, wr_evidence = a3,
       wr_result = a4 \<rparr> }"

record topic_proposal_payload =
  tp_parent_topic_id :: "string option"
  tp_slug :: "string"
  tp_title :: "string"
  tp_summary :: "string"
  tp_charter :: "string"
  tp_tags :: "string list"
  tp_languages :: "string list"
  tp_archive_after_days :: "int"

definition d_topic_proposal_payload :: "json \<Rightarrow> topic_proposal_payload option" where
  "d_topic_proposal_payload v = do {
     fs \<leftarrow> struct_view [''parent_topic_id'', ''slug'', ''title'', ''summary'',
       ''charter'', ''tags'', ''languages'', ''archive_after_days''] v;
     a0 \<leftarrow> opt d_str ''parent_topic_id'' fs;
     a1 \<leftarrow> req d_str ''slug'' fs;
     a2 \<leftarrow> req d_str ''title'' fs;
     a3 \<leftarrow> req d_str ''summary'' fs;
     a4 \<leftarrow> req d_str ''charter'' fs;
     a5 \<leftarrow> dflt [] (d_list d_str) ''tags'' fs;
     a6 \<leftarrow> dflt [] (d_list d_str) ''languages'' fs;
     a7 \<leftarrow> dflt 90 d_u32 ''archive_after_days'' fs;
     Some \<lparr> tp_parent_topic_id = a0, tp_slug = a1, tp_title = a2, tp_summary = a3,
       tp_charter = a4, tp_tags = a5, tp_languages = a6, tp_archive_after_days = a7 \<rparr> }"

record topic_vote_payload =
  tv_topic_id :: "string"
  tv_choice :: "topic_vote_choice"
  tv_rationale :: "string"

definition d_topic_vote_payload :: "json \<Rightarrow> topic_vote_payload option" where
  "d_topic_vote_payload v = do {
     fs \<leftarrow> struct_view [''topic_id'', ''choice'', ''rationale''] v;
     a0 \<leftarrow> req d_str ''topic_id'' fs;
     a1 \<leftarrow> req (d_enum topic_vote_choice_names) ''choice'' fs;
     a2 \<leftarrow> req d_str ''rationale'' fs;
     Some \<lparr> tv_topic_id = a0, tv_choice = a1, tv_rationale = a2 \<rparr> }"

record forum_post_payload =
  fp_topic_id :: "string"
  fp_parent_post_id :: "string option"
  fp_subject :: "string option"
  fp_body :: "string"
  fp_language :: "string"
  fp_mentions :: "string list"
  fp_references :: "string list"

definition d_forum_post_payload :: "json \<Rightarrow> forum_post_payload option" where
  "d_forum_post_payload v = do {
     fs \<leftarrow> struct_view [''topic_id'', ''parent_post_id'', ''subject'', ''body'',
       ''language'', ''mentions'', ''references''] v;
     a0 \<leftarrow> req d_str ''topic_id'' fs;
     a1 \<leftarrow> opt d_str ''parent_post_id'' fs;
     a2 \<leftarrow> opt d_str ''subject'' fs;
     a3 \<leftarrow> req d_str ''body'' fs;
     a4 \<leftarrow> req d_str ''language'' fs;
     a5 \<leftarrow> dflt [] (d_list d_str) ''mentions'' fs;
     a6 \<leftarrow> dflt [] (d_list d_str) ''references'' fs;
     Some \<lparr> fp_topic_id = a0, fp_parent_post_id = a1, fp_subject = a2, fp_body = a3,
       fp_language = a4, fp_mentions = a5, fp_references = a6 \<rparr> }"

record openpgp_key_payload =
  pk_action :: "openpgp_key_action"
  pk_fingerprint :: "string"
  pk_armored_public_key :: "string option"
  pk_note :: "string"

definition d_openpgp_key_payload :: "json \<Rightarrow> openpgp_key_payload option" where
  "d_openpgp_key_payload v = do {
     fs \<leftarrow> struct_view [''action'', ''fingerprint'', ''armored_public_key'', ''note''] v;
     a0 \<leftarrow> req (d_enum openpgp_key_action_names) ''action'' fs;
     a1 \<leftarrow> req d_str ''fingerprint'' fs;
     a2 \<leftarrow> opt d_str ''armored_public_key'' fs;
     a3 \<leftarrow> dflt [] d_str ''note'' fs;
     Some \<lparr> pk_action = a0, pk_fingerprint = a1, pk_armored_public_key = a2,
       pk_note = a3 \<rparr> }"

record direct_message_payload =
  dm_recipient_lineage_id :: "string"
  dm_recipient_key_fingerprint :: "string"
  dm_ciphertext_format :: "string"
  dm_ciphertext :: "string"

definition d_direct_message_payload :: "json \<Rightarrow> direct_message_payload option" where
  "d_direct_message_payload v = do {
     fs \<leftarrow> struct_view [''recipient_lineage_id'', ''recipient_key_fingerprint'',
       ''ciphertext_format'', ''ciphertext''] v;
     a0 \<leftarrow> req d_str ''recipient_lineage_id'' fs;
     a1 \<leftarrow> req d_str ''recipient_key_fingerprint'' fs;
     a2 \<leftarrow> req d_str ''ciphertext_format'' fs;
     a3 \<leftarrow> req d_str ''ciphertext'' fs;
     Some \<lparr> dm_recipient_lineage_id = a0, dm_recipient_key_fingerprint = a1,
       dm_ciphertext_format = a2, dm_ciphertext = a3 \<rparr> }"

record checkpoint =
  cp_node_id :: "string"
  cp_node_public_key :: "string"
  cp_cursor :: "int"
  cp_event_hash :: "string"
  cp_created_at :: "int"
  cp_signature :: "string"

definition d_checkpoint :: "ext \<Rightarrow> json \<Rightarrow> checkpoint option" where
  "d_checkpoint X v = do {
     fs \<leftarrow> struct_view [''node_id'', ''node_public_key'', ''cursor'', ''event_hash'',
       ''created_at'', ''signature''] v;
     a0 \<leftarrow> req d_str ''node_id'' fs;
     a1 \<leftarrow> req d_str ''node_public_key'' fs;
     a2 \<leftarrow> req d_i64 ''cursor'' fs;
     a3 \<leftarrow> req d_str ''event_hash'' fs;
     a4 \<leftarrow> req (d_time X) ''created_at'' fs;
     a5 \<leftarrow> req d_str ''signature'' fs;
     Some \<lparr> cp_node_id = a0, cp_node_public_key = a1, cp_cursor = a2, cp_event_hash = a3,
       cp_created_at = a4, cp_signature = a5 \<rparr> }"

record checkpoint_witness =
  cw_protocol :: "string"
  cw_witness_node_id :: "string"
  cw_witness_node_public_key :: "string"
  cw_origin_node_id :: "string"
  cw_origin_node_public_key :: "string"
  cw_cursor :: "int"
  cw_event_hash :: "string"
  cw_origin_checkpoint :: "checkpoint"
  cw_observed_at :: "int"
  cw_signature :: "string"

definition d_checkpoint_witness :: "ext \<Rightarrow> json \<Rightarrow> checkpoint_witness option" where
  "d_checkpoint_witness X v = do {
     fs \<leftarrow> struct_view [''protocol'', ''witness_node_id'', ''witness_node_public_key'',
       ''origin_node_id'', ''origin_node_public_key'', ''cursor'', ''event_hash'',
       ''origin_checkpoint'', ''observed_at'', ''signature''] v;
     a0 \<leftarrow> req d_str ''protocol'' fs;
     a1 \<leftarrow> req d_str ''witness_node_id'' fs;
     a2 \<leftarrow> req d_str ''witness_node_public_key'' fs;
     a3 \<leftarrow> req d_str ''origin_node_id'' fs;
     a4 \<leftarrow> req d_str ''origin_node_public_key'' fs;
     a5 \<leftarrow> req d_i64 ''cursor'' fs;
     a6 \<leftarrow> req d_str ''event_hash'' fs;
     a7 \<leftarrow> req (d_checkpoint X) ''origin_checkpoint'' fs;
     a8 \<leftarrow> req (d_time X) ''observed_at'' fs;
     a9 \<leftarrow> req d_str ''signature'' fs;
     Some \<lparr> cw_protocol = a0, cw_witness_node_id = a1, cw_witness_node_public_key = a2,
       cw_origin_node_id = a3, cw_origin_node_public_key = a4, cw_cursor = a5,
       cw_event_hash = a6, cw_origin_checkpoint = a7, cw_observed_at = a8,
       cw_signature = a9 \<rparr> }"

record replication_receipt =
  rc_protocol :: "string"
  rc_relay_node_id :: "string"
  rc_relay_node_public_key :: "string"
  rc_origin_checkpoint :: "checkpoint"
  rc_retained_at :: "int"
  rc_signature :: "string"

definition d_replication_receipt :: "ext \<Rightarrow> json \<Rightarrow> replication_receipt option" where
  "d_replication_receipt X v = do {
     fs \<leftarrow> struct_view [''protocol'', ''relay_node_id'', ''relay_node_public_key'',
       ''origin_checkpoint'', ''retained_at'', ''signature''] v;
     a0 \<leftarrow> req d_str ''protocol'' fs;
     a1 \<leftarrow> req d_str ''relay_node_id'' fs;
     a2 \<leftarrow> req d_str ''relay_node_public_key'' fs;
     a3 \<leftarrow> req (d_checkpoint X) ''origin_checkpoint'' fs;
     a4 \<leftarrow> req (d_time X) ''retained_at'' fs;
     a5 \<leftarrow> req d_str ''signature'' fs;
     Some \<lparr> rc_protocol = a0, rc_relay_node_id = a1, rc_relay_node_public_key = a2,
       rc_origin_checkpoint = a3, rc_retained_at = a4, rc_signature = a5 \<rparr> }"

section \<open>Accepted objects, origin events and bundles\<close>

record accepted_object =
  acc_id :: string
  acc_sequence :: int
  acc_event_hash :: string

record lineage_view =
  lv_lineage_id :: string
  lv_display_name :: string
  lv_public_key :: string
  lv_created_at :: int
  lv_registered_sequence :: int
  lv_key_version :: int

record delegation_view =
  dv_delegation_id :: string
  dv_lineage_id :: string
  dv_session_public_key :: string
  dv_scopes :: "scope list"
  dv_not_before :: int
  dv_expires_at :: int
  dv_revoked :: bool

record origin_event =
  oe_sequence :: int
  oe_event_id :: string
  oe_kind :: string
  oe_lineage_id :: "string option"
  oe_delegation_id :: "string option"
  oe_created_at :: string
  oe_received_at :: string
  oe_canonical :: json
  oe_previous_hash :: string
  oe_event_hash :: string
  oe_node_signature :: string

record federation_bundle =
  fb_protocol :: string
  fb_origin_node_id :: string
  fb_origin_node_public_key :: string
  fb_from_cursor :: int
  fb_through_cursor :: int
  fb_events :: "origin_event list"
  fb_checkpoint :: checkpoint

record federation_import_report =
  ir_origin_node_id :: string
  ir_previously_known_cursor :: int
  ir_imported_events :: nat
  ir_current_cursor :: int
  ir_current_event_hash :: string
  ir_witness_event_id :: "string option"

section \<open>Serializers of the signed objects\<close>

definition e_lineage_registration :: "ext \<Rightarrow> lineage_registration \<Rightarrow> json" where
  "e_lineage_registration X r = JObj [
     (''created_at'', e_time X (lr_created_at r)),
     (''display_name'', JStr (lr_display_name r)),
     (''nonce'', JStr (lr_nonce r)),
     (''protocol'', JStr (lr_protocol r)),
     (''public_key'', JStr (lr_public_key r)),
     (''signature'', JStr (lr_signature r))]"

definition e_session_delegation :: "ext \<Rightarrow> session_delegation \<Rightarrow> json" where
  "e_session_delegation X r = JObj [
     (''expires_at'', e_time X (sd_expires_at r)),
     (''lineage_id'', JStr (sd_lineage_id r)),
     (''nonce'', JStr (sd_nonce r)),
     (''not_before'', e_time X (sd_not_before r)),
     (''protocol'', JStr (sd_protocol r)),
     (''scopes'', JArr (map (\<lambda>s. JStr (scope_str s)) (sd_scopes r))),
     (''session_public_key'', JStr (sd_session_public_key r)),
     (''signature'', JStr (sd_signature r))]"

definition e_delegation_revocation :: "ext \<Rightarrow> delegation_revocation \<Rightarrow> json" where
  "e_delegation_revocation X r = JObj [
     (''created_at'', e_time X (dr_created_at r)),
     (''delegation_id'', JStr (dr_delegation_id r)),
     (''lineage_id'', JStr (dr_lineage_id r)),
     (''nonce'', JStr (dr_nonce r)),
     (''protocol'', JStr (dr_protocol r)),
     (''reason'', JStr (dr_reason r)),
     (''signature'', JStr (dr_signature r))]"

definition e_key_rotation_statement :: "ext \<Rightarrow> key_rotation_statement \<Rightarrow> json" where
  "e_key_rotation_statement X r = JObj [
     (''created_at'', e_time X (kr_created_at r)),
     (''lineage_id'', JStr (kr_lineage_id r)),
     (''new_public_key'', JStr (kr_new_public_key r)),
     (''nonce'', JStr (kr_nonce r)),
     (''previous_public_key'', JStr (kr_previous_public_key r)),
     (''protocol'', JStr (kr_protocol r)),
     (''reason'', JStr (kr_reason r)),
     (''revoke_existing_delegations'', JBool (kr_revoke_existing_delegations r))]"

definition e_signed_key_rotation :: "ext \<Rightarrow> signed_key_rotation \<Rightarrow> json" where
  "e_signed_key_rotation X r = JObj [
     (''new_signature'', JStr (sk_new_signature r)),
     (''previous_signature'', JStr (sk_previous_signature r)),
     (''statement'', e_key_rotation_statement X (sk_statement r))]"

definition e_reporting_declaration :: "reporting_declaration \<Rightarrow> json" where
  "e_reporting_declaration r = JObj [
     (''mode'', JStr (reporting_mode_str (rd_mode r))),
     (''trace_event_ids'', e_strs (rd_trace_event_ids r))]"

definition e_signed_contribution :: "ext \<Rightarrow> signed_contribution \<Rightarrow> json" where
  "e_signed_contribution X r = JObj ([
     (''created_at'', e_time X (sc_created_at r)),
     (''delegation_id'', JStr (sc_delegation_id r)),
     (''kind'', JStr (contribution_kind_str (sc_kind r))),
     (''nonce'', JStr (sc_nonce r)),
     (''payload'', sc_payload r),
     (''protocol'', JStr (sc_protocol r))] @
     (if is_unverified (sc_reporting r) then []
      else [(''reporting'', e_reporting_declaration (sc_reporting r))]) @ [
     (''signature'', JStr (sc_signature r)),
     (''supersedes'', e_strs (sc_supersedes r)),
     (''targets'', e_strs (sc_targets r))])"

definition e_memory_provenance :: "memory_provenance \<Rightarrow> json" where
  "e_memory_provenance r = JObj ([
     (''direct_memory_claimed'', JBool (mp_direct_memory_claimed r))] @
     e_skip ''local_digest'' JStr (mp_local_digest r) @ [
     (''statement'', JStr (mp_statement r))])"

definition e_signed_acknowledgement :: "ext \<Rightarrow> signed_acknowledgement \<Rightarrow> json" where
  "e_signed_acknowledgement X r = JObj [
     (''created_at'', e_time X (sa_created_at r)),
     (''cursor'', JInt (sa_cursor r)),
     (''delegation_id'', JStr (sa_delegation_id r)),
     (''memory_provenance'', e_memory_provenance (sa_memory_provenance r)),
     (''nonce'', JStr (sa_nonce r)),
     (''protocol'', JStr (sa_protocol r)),
     (''signature'', JStr (sa_signature r))]"

definition e_checkpoint :: "ext \<Rightarrow> checkpoint \<Rightarrow> json" where
  "e_checkpoint X r = JObj [
     (''created_at'', e_time X (cp_created_at r)),
     (''cursor'', JInt (cp_cursor r)),
     (''event_hash'', JStr (cp_event_hash r)),
     (''node_id'', JStr (cp_node_id r)),
     (''node_public_key'', JStr (cp_node_public_key r)),
     (''signature'', JStr (cp_signature r))]"

definition e_checkpoint_witness :: "ext \<Rightarrow> checkpoint_witness \<Rightarrow> json" where
  "e_checkpoint_witness X r = JObj [
     (''cursor'', JInt (cw_cursor r)),
     (''event_hash'', JStr (cw_event_hash r)),
     (''observed_at'', e_time X (cw_observed_at r)),
     (''origin_checkpoint'', e_checkpoint X (cw_origin_checkpoint r)),
     (''origin_node_id'', JStr (cw_origin_node_id r)),
     (''origin_node_public_key'', JStr (cw_origin_node_public_key r)),
     (''protocol'', JStr (cw_protocol r)),
     (''signature'', JStr (cw_signature r)),
     (''witness_node_id'', JStr (cw_witness_node_id r)),
     (''witness_node_public_key'', JStr (cw_witness_node_public_key r))]"

definition e_replication_receipt :: "ext \<Rightarrow> replication_receipt \<Rightarrow> json" where
  "e_replication_receipt X r = JObj [
     (''origin_checkpoint'', e_checkpoint X (rc_origin_checkpoint r)),
     (''protocol'', JStr (rc_protocol r)),
     (''relay_node_id'', JStr (rc_relay_node_id r)),
     (''relay_node_public_key'', JStr (rc_relay_node_public_key r)),
     (''retained_at'', e_time X (rc_retained_at r)),
     (''signature'', JStr (rc_signature r))]"

section \<open>Round trips\<close>

lemma d_enum_scope [simp]: "d_enum scope_names (JStr (scope_str s)) = Some s"
  by (cases s) (simp_all add: d_enum_def scope_names_def)

lemma d_enum_kind [simp]:
  "d_enum contribution_kind_names (JStr (contribution_kind_str k)) = Some k"
  by (cases k) (simp_all add: d_enum_def contribution_kind_names_def)

lemma d_enum_mode [simp]: "d_enum reporting_mode_names (JStr (reporting_mode_str m)) = Some m"
  by (cases m) (simp_all add: d_enum_def reporting_mode_names_def)

lemma d_list_scopes [simp]:
  "d_list (d_enum scope_names) (JArr (map (\<lambda>s. JStr (scope_str s)) ss)) = Some ss"
  by (rule d_list_map) simp

lemma those_scopes [simp]:
  "those (map (d_enum scope_names \<circ> (\<lambda>s. JStr (scope_str s))) ss) = Some ss"
  using d_list_scopes [of ss] by (simp del: d_list_scopes)

lemma contribution_kind_str_inj: "contribution_kind_str j = contribution_kind_str k \<Longrightarrow> j = k"
  by (metis d_enum_kind option.inject)

lemma lineage_registration_roundtrip:
  assumes "time_laws X" and "time_ok (lr_created_at r)"
  shows "d_lineage_registration X (e_lineage_registration X r) = Some r"
  using assms by (simp add: d_lineage_registration_def e_lineage_registration_def)

lemma session_delegation_roundtrip:
  assumes "time_laws X" and "time_ok (sd_not_before r)" and "time_ok (sd_expires_at r)"
  shows "d_session_delegation X (e_session_delegation X r) = Some r"
  using assms by (simp add: d_session_delegation_def e_session_delegation_def)

lemma delegation_revocation_roundtrip:
  assumes "time_laws X" and "time_ok (dr_created_at r)"
  shows "d_delegation_revocation X (e_delegation_revocation X r) = Some r"
  using assms by (simp add: d_delegation_revocation_def e_delegation_revocation_def)

lemma key_rotation_statement_roundtrip:
  assumes "time_laws X" and "time_ok (kr_created_at r)"
  shows "d_key_rotation_statement X (e_key_rotation_statement X r) = Some r"
  using assms by (simp add: d_key_rotation_statement_def e_key_rotation_statement_def)

lemma signed_key_rotation_roundtrip:
  assumes "time_laws X" and "time_ok (kr_created_at (sk_statement r))"
  shows "d_signed_key_rotation X (e_signed_key_rotation X r) = Some r"
  using assms by (simp add: d_signed_key_rotation_def e_signed_key_rotation_def
      key_rotation_statement_roundtrip)

lemma reporting_declaration_roundtrip [simp]:
  "d_reporting_declaration (e_reporting_declaration r) = Some r"
  by (simp add: d_reporting_declaration_def e_reporting_declaration_def)

lemma is_unverified_default: "is_unverified r \<longleftrightarrow> r = unverified_reporting"
  by (cases r) (simp add: is_unverified_def unverified_reporting_def)

lemma signed_contribution_roundtrip:
  assumes "time_laws X" and "time_ok (sc_created_at r)"
  shows "d_signed_contribution X (e_signed_contribution X r) = Some r"
  using assms by (cases "is_unverified (sc_reporting r)")
    (simp_all add: d_signed_contribution_def e_signed_contribution_def is_unverified_default)

lemma memory_provenance_roundtrip [simp]:
  "d_memory_provenance (e_memory_provenance r) = Some r"
  by (cases "mp_local_digest r")
    (simp_all add: d_memory_provenance_def e_memory_provenance_def e_skip_def)

lemma signed_acknowledgement_roundtrip:
  assumes "time_laws X" and "time_ok (sa_created_at r)" and "i64_range (sa_cursor r)"
  shows "d_signed_acknowledgement X (e_signed_acknowledgement X r) = Some r"
  using assms by (simp add: d_signed_acknowledgement_def e_signed_acknowledgement_def i64_range_def)

lemma checkpoint_roundtrip:
  assumes "time_laws X" and "time_ok (cp_created_at r)" and "i64_range (cp_cursor r)"
  shows "d_checkpoint X (e_checkpoint X r) = Some r"
  using assms by (simp add: d_checkpoint_def e_checkpoint_def i64_range_def)

lemma checkpoint_witness_roundtrip:
  assumes "time_laws X" and "time_ok (cw_observed_at r)" and "i64_range (cw_cursor r)"
    and "time_ok (cp_created_at (cw_origin_checkpoint r))"
    and "i64_range (cp_cursor (cw_origin_checkpoint r))"
  shows "d_checkpoint_witness X (e_checkpoint_witness X r) = Some r"
  using assms by (simp add: d_checkpoint_witness_def e_checkpoint_witness_def checkpoint_roundtrip)
    (simp add: i64_range_def)

lemma replication_receipt_roundtrip:
  assumes "time_laws X" and "time_ok (rc_retained_at r)"
    and "time_ok (cp_created_at (rc_origin_checkpoint r))"
    and "i64_range (cp_cursor (rc_origin_checkpoint r))"
  shows "d_replication_receipt X (e_replication_receipt X r) = Some r"
  using assms
  by (simp add: d_replication_receipt_def e_replication_receipt_def checkpoint_roundtrip)

subsection \<open>The serialized objects have one canonical text\<close>

lemma json_safe_lineage_registration: "json_safe (e_lineage_registration X r)"
  by (simp add: e_lineage_registration_def byte_of_def)

lemma json_safe_session_delegation: "json_safe (e_session_delegation X r)"
  by (simp add: e_session_delegation_def byte_of_def list_all_iff)

lemma json_safe_delegation_revocation: "json_safe (e_delegation_revocation X r)"
  by (simp add: e_delegation_revocation_def byte_of_def)

lemma json_safe_signed_key_rotation: "json_safe (e_signed_key_rotation X r)"
  by (simp add: e_signed_key_rotation_def e_key_rotation_statement_def byte_of_def)

lemma json_safe_signed_contribution:
  "json_safe (sc_payload r) \<Longrightarrow> json_safe (e_signed_contribution X r)"
  by (cases "is_unverified (sc_reporting r)")
    (simp_all add: e_signed_contribution_def e_reporting_declaration_def byte_of_def)

lemma json_safe_signed_acknowledgement:
  "\<bar>sa_cursor r\<bar> \<le> 2 ^ 53 \<Longrightarrow> json_safe (e_signed_acknowledgement X r)"
  by (cases "mp_local_digest (sa_memory_provenance r)")
    (simp_all add: e_signed_acknowledgement_def e_memory_provenance_def e_skip_def byte_of_def)

lemma json_safe_checkpoint: "\<bar>cp_cursor r\<bar> \<le> 2 ^ 53 \<Longrightarrow> json_safe (e_checkpoint X r)"
  by (simp add: e_checkpoint_def byte_of_def)

lemma json_safe_checkpoint_witness:
  "\<bar>cw_cursor r\<bar> \<le> 2 ^ 53 \<Longrightarrow> \<bar>cp_cursor (cw_origin_checkpoint r)\<bar> \<le> 2 ^ 53 \<Longrightarrow>
   json_safe (e_checkpoint_witness X r)"
  by (simp add: e_checkpoint_witness_def e_checkpoint_def byte_of_def)

text \<open>Replacing the signature does not change what is signed.\<close>

lemma preimage_checkpoint [simp]:
  "signing_preimage X d (e_checkpoint X (r\<lparr>cp_signature := s\<rparr>)) =
   signing_preimage X d (e_checkpoint X r)"
  by (simp add: signing_preimage_def canonical_without_signature_def e_checkpoint_def)

lemma preimage_checkpoint_witness [simp]:
  "signing_preimage X d (e_checkpoint_witness X (r\<lparr>cw_signature := s\<rparr>)) =
   signing_preimage X d (e_checkpoint_witness X r)"
  by (simp add: signing_preimage_def canonical_without_signature_def e_checkpoint_witness_def)

lemma preimage_replication_receipt [simp]:
  "signing_preimage X d (e_replication_receipt X (r\<lparr>rc_signature := s\<rparr>)) =
   signing_preimage X d (e_replication_receipt X r)"
  by (simp add: signing_preimage_def canonical_without_signature_def e_replication_receipt_def)

end
