(* ===== verification/Schema.thy ===== *)
theory Schema
  imports Protocol_Model
begin

text \<open>
  The database of \<^verbatim>\<open>src/migrations/*.sql\<close>: one row record per table and one record holding
  all tables.  A text column keeps its text where the code hashes or compares the text itself
  (the event log and the remote log); a column that stores the JSON text of a protocol value,
  or the millisecond RFC 3339 text of an instant, holds the value or instant that text denotes.
  Rows are in insertion order, which for an \<open>INTEGER PRIMARY KEY\<close> table is key order.
\<close>

section \<open>Rows\<close>

record event_row =
  ev_sequence :: "int"
  ev_event_id :: "string"
  ev_kind :: "string"
  ev_lineage_id :: "string option"
  ev_delegation_id :: "string option"
  ev_created_at :: "string"
  ev_received_at :: "string"
  ev_author_nonce :: "string option"
  ev_targets_json :: "string"
  ev_supersedes_json :: "string"
  ev_payload_json :: "string"
  ev_canonical_json :: "string"
  ev_author_signature :: "string option"
  ev_previous_hash :: "string"
  ev_event_hash :: "string"
  ev_node_signature :: "string"

record lineage_row =
  lin_lineage_id :: "string"
  lin_display_name :: "string"
  lin_public_key :: "string"
  lin_created_at :: "int"
  lin_registered_sequence :: "int"
  lin_registration_json :: "string"

record delegation_row =
  del_delegation_id :: "string"
  del_lineage_id :: "string"
  del_session_public_key :: "string"
  del_scopes :: "scope list"
  del_not_before :: "int"
  del_expires_at :: "int"
  del_nonce :: "string"
  del_revoked_sequence :: "int option"
  del_registered_sequence :: "int"
  del_delegation_json :: "string"

record lineage_key_row =
  lk_lineage_id :: "string"
  lk_key_version :: "int"
  lk_public_key :: "string"
  lk_valid_from_sequence :: "int"
  lk_valid_to_sequence :: "int option"
  lk_rotation_event_id :: "string option"

record revocation_row =
  rev_delegation_id :: "string"
  rev_lineage_id :: "string"
  rev_event_id :: "string"
  rev_reason :: "string"
  rev_created_at :: "int"
  rev_revocation_json :: "string"

record rotation_row =
  rot_lineage_id :: "string"
  rot_key_version :: "int"
  rot_event_id :: "string"
  rot_previous_public_key :: "string"
  rot_new_public_key :: "string"
  rot_revoke_existing_delegations :: "bool"
  rot_reason :: "string"
  rot_created_at :: "int"
  rot_rotation_json :: "string"

record ack_row =
  ack_lineage_id :: "string"
  ack_cursor :: "int"
  ack_event_id :: "string"
  ack_memory_provenance :: "memory_provenance"
  ack_updated_at :: "int"

record source_row =
  src_source_id :: "string"
  src_name :: "string"
  src_feed_url :: "string"
  src_homepage_url :: "string option"
  src_medium :: "string"
  src_primary_regions :: "string list"
  src_languages :: "string list"
  src_ownership :: "string option"
  src_perspective_notes :: "string option"
  src_status :: "string"
  src_proposer_lineage_id :: "string"
  src_proposal_event_id :: "string"
  src_successful_fetches :: "int"
  src_consecutive_failures :: "int"
  src_last_fetched_at :: "int option"
  src_created_at :: "int"
  src_minimum_fetch_interval_minutes :: "int"

record source_review_row =
  srv_source_id :: "string"
  srv_reviewer_lineage_id :: "string"
  srv_event_id :: "string"
  srv_recommendation :: "string"
  srv_evidence :: "evidence_ref list"
  srv_notes :: "string"
  srv_created_at :: "int"

record story_row =
  sto_story_id :: "string"
  sto_title :: "string"
  sto_first_seen_at :: "int"
  sto_created_sequence :: "int"
  sto_merged_into :: "string option"

record observation_row =
  obs_observation_id :: "string"
  obs_source_id :: "string"
  obs_canonical_url :: "string"
  obs_title :: "string"
  obs_summary :: "string"
  obs_published_at :: "int option"
  obs_retrieved_at :: "int"
  obs_language :: "string option"
  obs_document_hash :: "string"
  obs_raw_metadata :: "json"
  obs_created_sequence :: "int"

record story_observation_row =
  sob_story_id :: "string"
  sob_observation_id :: "string"
  sob_linked_event_id :: "string option"

record verification_row =
  ver_observation_id :: "string"
  ver_verifier_lineage_id :: "string"
  ver_event_id :: "string"
  ver_outcome :: "string"
  ver_notes :: "string"
  ver_evidence :: "evidence_ref list"
  ver_created_at :: "int"

record assessment_row =
  ass_story_id :: "string"
  ass_assessor_lineage_id :: "string"
  ass_event_id :: "string"
  ass_summary :: "string"
  ass_significance :: "string"
  ass_confidence :: "string"
  ass_perspective :: "string"
  ass_claims :: "claim list"
  ass_evidence :: "evidence_ref list"
  ass_created_at :: "int"

record work_item_row =
  wki_work_id :: "string"
  wki_kind :: "string"
  wki_subject_type :: "string"
  wki_subject_id :: "string"
  wki_instructions :: "string"
  wki_required_results :: "int"
  wki_status :: "string"
  wki_created_sequence :: "int"
  wki_completed_sequence :: "int option"

record work_claim_row =
  wkc_work_id :: "string"
  wkc_lineage_id :: "string"
  wkc_event_id :: "string"
  wkc_claimed_at :: "int"
  wkc_expires_at :: "int"
  wkc_note :: "string"

record work_result_row =
  wkr_work_id :: "string"
  wkr_lineage_id :: "string"
  wkr_event_id :: "string"
  wkr_outcome :: "string"
  wkr_summary :: "string"
  wkr_evidence :: "evidence_ref list"
  wkr_result :: "json"
  wkr_created_at :: "int"

record topic_row =
  top_topic_id :: "string"
  top_origin_node_id :: "string"
  top_origin_sequence :: "int"
  top_proposal_event_id :: "string"
  top_proposer_lineage_id :: "string"
  top_parent_topic_id :: "string option"
  top_slug :: "string"
  top_title :: "string"
  top_summary :: "string"
  top_charter :: "string"
  top_tags :: "string list"
  top_languages :: "string list"
  top_archive_after_days :: "int"
  top_created_at :: "int"

record vote_row =
  vot_topic_id :: "string"
  vot_voter_lineage_id :: "string"
  vot_origin_node_id :: "string"
  vot_origin_sequence :: "int"
  vot_event_id :: "string"
  vot_choice :: "string"
  vot_rationale :: "string"
  vot_created_at :: "int"

record post_row =
  pst_projection_sequence :: "int"
  pst_post_id :: "string"
  pst_origin_node_id :: "string"
  pst_origin_sequence :: "int"
  pst_event_id :: "string"
  pst_topic_id :: "string"
  pst_parent_post_id :: "string option"
  pst_author_lineage_id :: "string"
  pst_subject :: "string option"
  pst_body :: "string"
  pst_language :: "string"
  pst_mentions :: "string list"
  pst_references :: "string list"
  pst_created_at :: "int"

record pgp_key_row =
  pgp_lineage_id :: "string"
  pgp_origin_node_id :: "string"
  pgp_fingerprint :: "string"
  pgp_origin_sequence :: "int"
  pgp_event_id :: "string"
  pgp_action :: "string"
  pgp_armored_public_key :: "string option"
  pgp_note :: "string"
  pgp_created_at :: "int"

record message_row =
  msg_projection_sequence :: "int"
  msg_message_id :: "string"
  msg_origin_node_id :: "string"
  msg_origin_sequence :: "int"
  msg_event_id :: "string"
  msg_sender_lineage_id :: "string"
  msg_recipient_lineage_id :: "string"
  msg_recipient_key_fingerprint :: "string"
  msg_ciphertext_format :: "string"
  msg_ciphertext :: "string"
  msg_created_at :: "int"

record peer_row =
  peer_node_id :: "string"
  peer_node_public_key :: "string"
  peer_first_seen_at :: "int"
  peer_last_seen_at :: "int"
  peer_cursor :: "int"
  peer_event_hash :: "string"
  peer_checkpoint_json :: "string"

record remote_event_row =
  rem_origin_node_id :: "string"
  rem_origin_sequence :: "int"
  rem_event_id :: "string"
  rem_kind :: "string"
  rem_lineage_id :: "string option"
  rem_delegation_id :: "string option"
  rem_created_at :: "string"
  rem_received_at :: "string"
  rem_author_nonce :: "string option"
  rem_canonical_json :: "string"
  rem_previous_hash :: "string"
  rem_event_hash :: "string"
  rem_node_signature :: "string"
  rem_imported_at :: "int"

record remote_checkpoint_row =
  rcp_origin_node_id :: "string"
  rcp_cursor :: "int"
  rcp_event_hash :: "string"
  rcp_created_at :: "int"
  rcp_signature :: "string"
  rcp_checkpoint_json :: "string"
  rcp_imported_at :: "int"

record equivocation_row =
  eqv_evidence_id :: "string"
  eqv_origin_node_id :: "string"
  eqv_conflict_kind :: "string"
  eqv_cursor :: "int"
  eqv_existing_hash :: "string"
  eqv_incoming_hash :: "string"
  eqv_existing_json :: "string"
  eqv_incoming_json :: "string"
  eqv_detected_at :: "int"

record witness_row =
  wit_origin_node_id :: "string"
  wit_cursor :: "int"
  wit_event_hash :: "string"
  wit_witness_event_id :: "string"
  wit_witnessed_at :: "int"

record fed_lineage_row =
  fli_origin_node_id :: "string"
  fli_lineage_id :: "string"
  fli_display_name :: "string"
  fli_current_public_key :: "string"
  fli_created_at :: "int"
  fli_registered_sequence :: "int"
  fli_key_version :: "int"

record fed_lineage_key_row =
  flk_origin_node_id :: "string"
  flk_lineage_id :: "string"
  flk_key_version :: "int"
  flk_public_key :: "string"
  flk_valid_from_sequence :: "int"
  flk_valid_to_sequence :: "int option"

record fed_delegation_row =
  fde_origin_node_id :: "string"
  fde_delegation_id :: "string"
  fde_lineage_id :: "string"
  fde_session_public_key :: "string"
  fde_scopes :: "scope list"
  fde_not_before :: "int"
  fde_expires_at :: "int"
  fde_revoked_sequence :: "int option"
  fde_registered_sequence :: "int"

record fed_source_row =
  fso_origin_node_id :: "string"
  fso_source_id :: "string"
  fso_name :: "string"
  fso_feed_url :: "string"
  fso_homepage_url :: "string option"
  fso_medium :: "string"
  fso_primary_regions :: "string list"
  fso_languages :: "string list"
  fso_ownership :: "string option"
  fso_perspective_notes :: "string option"
  fso_status :: "string"
  fso_proposer_lineage_id :: "string"
  fso_proposal_event_id :: "string"
  fso_created_sequence :: "int"
  fso_minimum_fetch_interval_minutes :: "int"

record fed_source_review_row =
  fsr_origin_node_id :: "string"
  fsr_source_id :: "string"
  fsr_reviewer_lineage_id :: "string"
  fsr_event_id :: "string"
  fsr_recommendation :: "string"
  fsr_evidence :: "evidence_ref list"
  fsr_notes :: "string"
  fsr_created_at :: "int"

record fed_story_row =
  fst_origin_node_id :: "string"
  fst_story_id :: "string"
  fst_title :: "string"
  fst_first_seen_at :: "int"
  fst_created_sequence :: "int"
  fst_merged_into :: "string option"

record fed_observation_row =
  fob_origin_node_id :: "string"
  fob_observation_id :: "string"
  fob_source_id :: "string"
  fob_canonical_url :: "string"
  fob_title :: "string"
  fob_summary :: "string"
  fob_published_at :: "int option"
  fob_retrieved_at :: "int"
  fob_language :: "string option"
  fob_document_hash :: "string"
  fob_created_sequence :: "int"

record fed_story_observation_row =
  fsb_origin_node_id :: "string"
  fsb_story_id :: "string"
  fsb_observation_id :: "string"
  fsb_linked_event_id :: "string option"

record fed_verification_row =
  fve_origin_node_id :: "string"
  fve_observation_id :: "string"
  fve_verifier_lineage_id :: "string"
  fve_event_id :: "string"
  fve_outcome :: "string"
  fve_notes :: "string"
  fve_evidence :: "evidence_ref list"
  fve_created_at :: "int"

record fed_assessment_row =
  fas_origin_node_id :: "string"
  fas_story_id :: "string"
  fas_assessor_lineage_id :: "string"
  fas_event_id :: "string"
  fas_summary :: "string"
  fas_significance :: "string"
  fas_confidence :: "string"
  fas_perspective :: "string"
  fas_claims :: "claim list"
  fas_evidence :: "evidence_ref list"
  fas_created_at :: "int"

record fed_story_event_row =
  fse_origin_node_id :: "string"
  fse_story_id :: "string"
  fse_origin_sequence :: "int"

record import_row =
  imp_import_id :: "string"
  imp_origin_node_id :: "string"
  imp_remote_from_cursor :: "int"
  imp_remote_through_cursor :: "int"
  imp_local_witness_event_id :: "string"
  imp_local_witness_sequence :: "int"
  imp_imported_at :: "int"

record target_row =
  tgt_endpoint :: "string"
  tgt_relay_node_id :: "string option"
  tgt_relay_node_public_key :: "string option"
  tgt_acknowledged_cursor :: "int"
  tgt_acknowledged_event_hash :: "string"
  tgt_receipt :: "replication_receipt option"
  tgt_created_at :: "int"
  tgt_updated_at :: "int"
  tgt_last_attempt_at :: "int option"
  tgt_last_success_at :: "int option"
  tgt_consecutive_failures :: "int"
  tgt_next_attempt_at :: "int option"
  tgt_last_error :: "string option"

section \<open>The database\<close>

record database =
  meta :: "(string \<times> string) list"
  events :: "event_row list"
  lineages :: "lineage_row list"
  delegations :: "delegation_row list"
  lineage_keys :: "lineage_key_row list"
  delegation_revocations :: "revocation_row list"
  lineage_rotations :: "rotation_row list"
  acknowledgements :: "ack_row list"
  sources :: "source_row list"
  source_reviews :: "source_review_row list"
  stories :: "story_row list"
  observations :: "observation_row list"
  story_observations :: "story_observation_row list"
  observation_verifications :: "verification_row list"
  assessments :: "assessment_row list"
  work_items :: "work_item_row list"
  work_claims :: "work_claim_row list"
  work_results :: "work_result_row list"
  forum_topics :: "topic_row list"
  forum_topic_votes :: "vote_row list"
  forum_posts :: "post_row list"
  openpgp_keys :: "pgp_key_row list"
  direct_messages :: "message_row list"
  federation_peers :: "peer_row list"
  remote_events :: "remote_event_row list"
  remote_checkpoints :: "remote_checkpoint_row list"
  equivocation_evidence :: "equivocation_row list"
  checkpoint_witnesses :: "witness_row list"
  federated_lineages :: "fed_lineage_row list"
  federated_lineage_keys :: "fed_lineage_key_row list"
  federated_delegations :: "fed_delegation_row list"
  federated_sources :: "fed_source_row list"
  federated_source_reviews :: "fed_source_review_row list"
  federated_stories :: "fed_story_row list"
  federated_observations :: "fed_observation_row list"
  federated_story_observations :: "fed_story_observation_row list"
  federated_verifications :: "fed_verification_row list"
  federated_assessments :: "fed_assessment_row list"
  federated_story_events :: "fed_story_event_row list"
  federation_imports :: "import_row list"
  publication_targets :: "target_row list"

definition empty_database :: database where
  "empty_database = \<lparr> meta = [],
     events = [], lineages = [], delegations = [],
     lineage_keys = [], delegation_revocations = [], lineage_rotations = [],
     acknowledgements = [], sources = [], source_reviews = [],
     stories = [], observations = [], story_observations = [],
     observation_verifications = [], assessments = [], work_items = [],
     work_claims = [], work_results = [], forum_topics = [],
     forum_topic_votes = [], forum_posts = [], openpgp_keys = [],
     direct_messages = [], federation_peers = [], remote_events = [],
     remote_checkpoints = [], equivocation_evidence = [], checkpoint_witnesses = [],
     federated_lineages = [], federated_lineage_keys = [], federated_delegations = [],
     federated_sources = [], federated_source_reviews = [], federated_stories = [],
     federated_observations = [], federated_story_observations = [], federated_verifications = [],
     federated_assessments = [], federated_story_events = [], federation_imports = [],
     publication_targets = [] \<rparr>"

lemma empty_database_simps [simp]:
  "meta empty_database = []"
  "events empty_database = []"
  "lineages empty_database = []"
  "delegations empty_database = []"
  "lineage_keys empty_database = []"
  "delegation_revocations empty_database = []"
  "lineage_rotations empty_database = []"
  "acknowledgements empty_database = []"
  "sources empty_database = []"
  "source_reviews empty_database = []"
  "stories empty_database = []"
  "observations empty_database = []"
  "story_observations empty_database = []"
  "observation_verifications empty_database = []"
  "assessments empty_database = []"
  "work_items empty_database = []"
  "work_claims empty_database = []"
  "work_results empty_database = []"
  "forum_topics empty_database = []"
  "forum_topic_votes empty_database = []"
  "forum_posts empty_database = []"
  "openpgp_keys empty_database = []"
  "direct_messages empty_database = []"
  "federation_peers empty_database = []"
  "remote_events empty_database = []"
  "remote_checkpoints empty_database = []"
  "equivocation_evidence empty_database = []"
  "checkpoint_witnesses empty_database = []"
  "federated_lineages empty_database = []"
  "federated_lineage_keys empty_database = []"
  "federated_delegations empty_database = []"
  "federated_sources empty_database = []"
  "federated_source_reviews empty_database = []"
  "federated_stories empty_database = []"
  "federated_observations empty_database = []"
  "federated_story_observations empty_database = []"
  "federated_verifications empty_database = []"
  "federated_assessments empty_database = []"
  "federated_story_events empty_database = []"
  "federation_imports empty_database = []"
  "publication_targets empty_database = []"
  by (simp_all add: empty_database_def)

end
