(* ===== verification/Reference_Ext.thy ===== *)
theory Reference_Ext
  imports Protocol_Model
begin

text \<open>
  A small executable instance \<open>demo_ext\<close> of the third-party parameter.  It is not the real
  SHA-256 or Ed25519; it shows that the documented laws of theory External hold together, and
  the concrete examples of the other theories run on it.
\<close>

section \<open>Hexadecimal\<close>

fun hex_digit :: "bool \<Rightarrow> bool \<Rightarrow> bool \<Rightarrow> bool \<Rightarrow> char" where
  "hex_digit a b c d =
     (if d then if c then if b then if a then CHR ''f'' else CHR ''e''
                          else if a then CHR ''d'' else CHR ''c''
                else if b then if a then CHR ''b'' else CHR ''a''
                     else if a then CHR ''9'' else CHR ''8''
      else if c then if b then if a then CHR ''7'' else CHR ''6''
                     else if a then CHR ''5'' else CHR ''4''
           else if b then if a then CHR ''3'' else CHR ''2''
                else if a then CHR ''1'' else CHR ''0'')"

definition hex_table :: "(char \<times> bool \<times> bool \<times> bool \<times> bool) list" where
  "hex_table = concat (map (\<lambda>d. concat (map (\<lambda>c. concat (map (\<lambda>b. map (\<lambda>a.
     (hex_digit a b c d, a, b, c, d)) [False, True]) [False, True])) [False, True])) [False, True])"

fun demo_hex_encode :: "string \<Rightarrow> string" where
  "demo_hex_encode [] = []"
| "demo_hex_encode (Char a b c d e f g h # cs) =
     hex_digit e f g h # hex_digit a b c d # demo_hex_encode cs"

fun demo_hex_decode :: "string \<Rightarrow> string option" where
  "demo_hex_decode [] = Some []"
| "demo_hex_decode [_] = None"
| "demo_hex_decode (x # y # cs) =
     (case (map_of hex_table x, map_of hex_table y, demo_hex_decode cs) of
        (Some (e, f, g, h), Some (a, b, c, d), Some r) \<Rightarrow> Some (Char a b c d e f g h # r)
      | _ \<Rightarrow> None)"

section \<open>Hashes, signatures and integers\<close>

definition pad :: "nat \<Rightarrow> string \<Rightarrow> string" where
  "pad n s = take n (s @ replicate n (char_of (0 :: nat)))"

definition demo_sha256 :: "string \<Rightarrow> string" where
  "demo_sha256 m = pad 32 (rev m)"

definition demo_sign :: "string \<Rightarrow> string \<Rightarrow> string" where
  "demo_sign sk m = pad 64 (pad 32 sk @ demo_sha256 m)"

fun parse_int :: "string \<Rightarrow> int option" where
  "parse_int [] = None"
| "parse_int (c # cs) =
     (if c = CHR ''-'' then map_option (\<lambda>n. - n) (parse_digits cs)
      else parse_digits (c # cs))"

section \<open>A self-delimiting JSON text\<close>

definition counted :: "string \<Rightarrow> string" where
  "counted s = dec_digits (len s) @ CHR '':'' # s"

definition read_counted :: "string \<Rightarrow> (string \<times> string) option" where
  "read_counted s = do {
     (d, r) \<leftarrow> split_once (CHR '':'') s;
     n \<leftarrow> parse_digits d;
     if n \<le> len r then Some (take (nat n) r, drop (nat n) r) else None }"

fun demo_print :: "json \<Rightarrow> string" where
  "demo_print JNull = ''n''"
| "demo_print (JBool b) = (if b then ''t'' else ''f'')"
| "demo_print (JInt i) = CHR ''i'' # counted (show_int i)"
| "demo_print (JFloat s) = CHR ''d'' # counted s"
| "demo_print (JStr s) = CHR ''s'' # counted s"
| "demo_print (JArr vs) = CHR ''['' # concat (map demo_print vs) @ '']''"
| "demo_print (JObj fs) =
     CHR ''{'' # concat (map (\<lambda>f. CHR '','' # counted (fst f) @ demo_print (snd f)) fs) @ ''}''"

fun read_value :: "nat \<Rightarrow> string \<Rightarrow> (json \<times> string) option"
  and read_items :: "nat \<Rightarrow> string \<Rightarrow> (json list \<times> string) option"
  and read_members :: "nat \<Rightarrow> string \<Rightarrow> ((string \<times> json) list \<times> string) option" where
  "read_value 0 s = None"
| "read_value (Suc n) [] = None"
| "read_value (Suc n) (c # cs) =
     (if c = CHR ''n'' then Some (JNull, cs)
      else if c = CHR ''t'' then Some (JBool True, cs)
      else if c = CHR ''f'' then Some (JBool False, cs)
      else if c = CHR ''i'' then do {
        (t, r) \<leftarrow> read_counted cs; i \<leftarrow> parse_int t; Some (JInt i, r) }
      else if c = CHR ''d'' then map_option (\<lambda>(t, r). (JFloat t, r)) (read_counted cs)
      else if c = CHR ''s'' then map_option (\<lambda>(t, r). (JStr t, r)) (read_counted cs)
      else if c = CHR ''['' then map_option (\<lambda>(vs, r). (JArr vs, r)) (read_items n cs)
      else if c = CHR ''{'' then map_option (\<lambda>(fs, r). (JObj fs, r)) (read_members n cs)
      else None)"
| "read_items 0 s = None"
| "read_items (Suc n) [] = None"
| "read_items (Suc n) (c # cs) =
     (if c = CHR '']'' then Some ([], cs)
      else do {
        (v, r) \<leftarrow> read_value n (c # cs);
        (vs, r') \<leftarrow> read_items n r;
        Some (v # vs, r') })"
| "read_members 0 s = None"
| "read_members (Suc n) [] = None"
| "read_members (Suc n) (c # cs) =
     (if c = CHR ''}'' then Some ([], cs)
      else if c = CHR '','' then do {
        (k, r) \<leftarrow> read_counted cs;
        (v, r') \<leftarrow> read_value n r;
        (fs, r'') \<leftarrow> read_members n r';
        Some ((k, v) # fs, r'') }
      else None)"

definition demo_parse :: "string \<Rightarrow> json option" where
  "demo_parse s = (case read_value (Suc (length s)) s of Some (v, []) \<Rightarrow> Some v | _ \<Rightarrow> None)"

definition demo_ext :: ext where
  "demo_ext = \<lparr>
     x_sha256 = demo_sha256,
     x_hex_encode = demo_hex_encode, x_hex_decode = demo_hex_decode,
     x_b64_encode = (\<lambda>b. b), x_b64_decode = Some,
     x_ed_key_ok = (\<lambda>_. True),
     x_ed_verify = (\<lambda>pk m s. s = demo_sign pk m),
     x_ed_sign = demo_sign, x_ed_public = (\<lambda>sk. pad 32 sk),
     x_json_parse = demo_parse, x_json_print = demo_print, x_jcs = (\<lambda>v. Some (demo_print v)),
     x_time_millis = (\<lambda>t. show_int (millis t)), x_time_parse = parse_int,
     x_time_ser = show_int, x_time_de = parse_int,
     x_url_parse = (\<lambda>s. Some \<lparr> u_scheme = ''https'', u_username = [], u_password = None,
        u_host = Some ''example.org'', u_text_no_fragment = s \<rparr>),
     x_lowercase = (\<lambda>s. s),
     x_alphanumeric = (\<lambda>c. list_all ascii_alphanumeric c) \<rparr>"

section \<open>The laws hold\<close>

lemma hex_table_digit: "map_of hex_table (hex_digit a b c d) = Some (a, b, c, d)"
  by (cases a; cases b; cases c; cases d) (simp_all add: hex_table_def)

lemma lower_hex_digit_hex_digit: "lower_hex_digit (hex_digit a b c d)"
  by (cases a; cases b; cases c; cases d)
    (simp_all add: lower_hex_digit_def ascii_digit_def byte_of_def)

declare hex_digit.simps [simp del]

lemma hex_roundtrip: "demo_hex_decode (demo_hex_encode b) = Some b"
  by (induction b rule: demo_hex_encode.induct) (simp_all add: hex_table_digit)

lemma hex_shape:
  "length (demo_hex_encode b) = 2 * length b \<and> list_all lower_hex_digit (demo_hex_encode b)"
  by (induction b rule: demo_hex_encode.induct) (simp_all add: lower_hex_digit_hex_digit)

lemma hex_zero: "demo_hex_encode zero_bytes = zero_hash"
proof -
  have "demo_hex_encode (replicate n (char_of (0 :: nat))) = replicate (2 * n) (CHR ''0'')" for n
    by (induction n) (simp_all add: char_of_def hex_digit.simps numeral_2_eq_2)
  from this [of 32] show ?thesis by (simp add: zero_bytes_def zero_hash_def)
qed

lemma length_pad [simp]: "length (pad n s) = n"
  by (simp add: pad_def)

lemma pad_id [simp]: "length s = n \<Longrightarrow> pad n s = s"
  by (simp add: pad_def)

lemma parse_int_show_int: "parse_int (show_int i) = Some i"
proof (cases "i < 0")
  case True
  then show ?thesis by (simp add: show_int_def parse_digits_dec_digits)
next
  case False
  then have "0 \<le> i" by simp
  then obtain c cs where d: "dec_digits i = c # cs" "c \<noteq> CHR ''-''" by (rule dec_digits_hd)
  with False show ?thesis
    using parse_digits_dec_digits [of i] by (simp add: show_int_def)
qed

lemma read_counted_counted [simp]: "read_counted (counted s @ rest) = Some (s, rest)"
  by (simp add: read_counted_def counted_def split_once_append colon_notin_dec_digits
      parse_digits_dec_digits) (simp add: len_def)

lemma length_counted: "length s < length (counted s)"
  by (simp add: counted_def)

lemma demo_print_hd: "\<exists>c cs. demo_print v = c # cs \<and> c \<noteq> CHR '']''"
  by (cases v) auto

lemma read_items_print:
  assumes "\<And>v n rest. v \<in> set vs \<Longrightarrow> length (demo_print v) < n \<Longrightarrow>
             read_value n (demo_print v @ rest) = Some (v, rest)"
    and "length (concat (map demo_print vs)) + 1 < n"
  shows "read_items n (concat (map demo_print vs) @ CHR '']'' # rest) = Some (vs, rest)"
  using assms
proof (induction vs arbitrary: n)
  case Nil
  then show ?case by (cases n) auto
next
  case (Cons v vs)
  obtain m where n: "n = Suc m" using Cons.prems(2) by (cases n) auto
  obtain c cs where c: "demo_print v = c # cs" "c \<noteq> CHR '']''" using demo_print_hd by blast
  let ?rest = "concat (map demo_print vs) @ CHR '']'' # rest"
  have v: "read_value m (c # cs @ ?rest) = Some (v, ?rest)"
    using Cons.prems(1) [of v m ?rest] Cons.prems(2) n c by simp
  have vs: "read_items m ?rest = Some (vs, rest)"
    using Cons.IH [of m] Cons.prems n c by simp
  from v vs n c show ?case by simp
qed

lemma read_members_print:
  assumes "\<And>f n rest. f \<in> set fs \<Longrightarrow> length (demo_print (snd f)) < n \<Longrightarrow>
             read_value n (demo_print (snd f) @ rest) = Some (snd f, rest)"
    and "length (concat (map (\<lambda>f. CHR '','' # counted (fst f) @ demo_print (snd f)) fs)) + 1 < n"
  shows "read_members n
           (concat (map (\<lambda>f. CHR '','' # counted (fst f) @ demo_print (snd f)) fs) @ CHR ''}'' # rest)
         = Some (fs, rest)"
  using assms
proof (induction fs arbitrary: n)
  case Nil
  then show ?case by (cases n) auto
next
  case (Cons f fs)
  obtain m where n: "n = Suc m" using Cons.prems(2) by (cases n) auto
  let ?rest = "concat (map (\<lambda>f. CHR '','' # counted (fst f) @ demo_print (snd f)) fs) @ CHR ''}'' # rest"
  have v: "read_value m (demo_print (snd f) @ ?rest) = Some (snd f, ?rest)"
    using Cons.prems(1) [of f m ?rest] Cons.prems(2) n by simp
  have fs: "read_members m ?rest = Some (fs, rest)"
    using Cons.IH [of m] Cons.prems n by simp
  from v fs n show ?case by simp
qed

lemma read_value_print: "length (demo_print v) < n \<Longrightarrow> read_value n (demo_print v @ rest) = Some (v, rest)"
proof (induction v arbitrary: n rest)
  case (JInt i)
  then show ?case by (cases n) (auto simp: parse_int_show_int)
next
  case (JArr vs)
  then obtain m where n: "n = Suc m" by (cases n) auto
  have "read_items m (concat (map demo_print vs) @ CHR '']'' # rest) = Some (vs, rest)"
    by (rule read_items_print) (use JArr n in auto)
  with n show ?case by simp
next
  case (JObj fs)
  then obtain m where n: "n = Suc m" by (cases n) auto
  have "read_members m
      (concat (map (\<lambda>f. CHR '','' # counted (fst f) @ demo_print (snd f)) fs) @ CHR ''}'' # rest)
      = Some (fs, rest)"
  proof (rule read_members_print)
    fix f n' rest'
    assume "f \<in> set fs" "length (demo_print (snd f)) < n'"
    then show "read_value n' (demo_print (snd f) @ rest') = Some (snd f, rest')"
      using JObj.IH [of f "snd f"] by (simp add: snds.intros prod_set_defs)
  qed (use JObj.prems n in auto)
  with n show ?case by simp
qed (case_tac n; auto)+

lemma demo_parse_print: "demo_parse (demo_print v) = Some v"
  using read_value_print [of v "Suc (length (demo_print v))" "[]"] by (simp add: demo_parse_def)

lemma demo_laws: "ext_laws demo_ext"
  by (simp add: ext_laws_def ext_laws_defs demo_ext_def demo_sha256_def demo_sign_def
      hex_roundtrip hex_shape hex_zero demo_parse_print parse_int_show_int)

definition demo_me :: node_identity where
  "demo_me = \<lparr> node_id = prefixed_id demo_ext ''cwnode_'' (pad 32 ''node''),
     node_public_key = pad 32 ''node'', node_secret = pad 32 ''node'' \<rparr>"

lemma demo_me_ok: "identity_ok demo_ext demo_me"
  by (simp add: identity_ok_def demo_me_def demo_ext_def)

end
