(* ===== verification/Event_Log.thy ===== *)
theory Event_Log
  imports Schema Reference_Ext
begin

text \<open>
  The append-only event log (\<open>append_event\<close>, \<open>verify_log\<close> and the readers of
  \<^verbatim>\<open>src/src/db.rs\<close>).  Each event commits to its predecessor through
  \<open>SHA-256(domain, previous hash, canonical record)\<close> and carries a node signature over that
  hash; \<open>verify_log\<close> replays the chain and re-derives every convenience column from the
  authenticated object.  The locale \<open>hash_chain\<close> states what both verifiers of such a chain
  (this one and the federation one) have in common.
\<close>

section \<open>Appending\<close>

definition MAX_CANONICAL_OBJECT_BYTES :: int where
  "MAX_CANONICAL_OBJECT_BYTES = 64 * 1024"

record event_input =
  in_kind :: string
  in_lineage_id :: "string option"
  in_delegation_id :: "string option"
  in_created_at :: int
  in_author_nonce :: "string option"
  in_targets :: "string list"
  in_supersedes :: "string list"
  in_payload :: json
  in_canonical_json :: string
  in_author_signature :: "string option"

text \<open>The object whose canonical text enters the chain.\<close>

definition log_object ::
  "string \<Rightarrow> string option \<Rightarrow> string option \<Rightarrow> string \<Rightarrow> string \<Rightarrow> json \<Rightarrow> json" where
  "log_object kind lineage delegation created received canonical = JObj [
     (''canonical'', canonical),
     (''created_at'', JStr created),
     (''delegation_id'', e_opt JStr delegation),
     (''kind'', JStr kind),
     (''lineage_id'', e_opt JStr lineage),
     (''received_at'', JStr received)]"

definition from_text :: "ext \<Rightarrow> (json \<Rightarrow> 'a option) \<Rightarrow> string \<Rightarrow> 'a result" where
  "from_text X d s = and_then (ok_or (x_json_parse X s) Json) (from_value d)"

definition canonical_log_input :: "ext \<Rightarrow> event_input \<Rightarrow> int \<Rightarrow> string result" where
  "canonical_log_input X input received_at =
     and_then (from_text X Some (in_canonical_json input)) (\<lambda>canonical_value.
       ok_or (x_jcs X (log_object (in_kind input) (in_lineage_id input) (in_delegation_id input)
                (timestamp X (in_created_at input)) (timestamp X received_at) canonical_value))
         Internal)"

definition canonical_log_record :: "ext \<Rightarrow> event_row \<Rightarrow> string result" where
  "canonical_log_record X row =
     and_then (from_text X Some (ev_canonical_json row)) (\<lambda>canonical_value.
       ok_or (x_jcs X (log_object (ev_kind row) (ev_lineage_id row) (ev_delegation_id row)
                (ev_created_at row) (ev_received_at row) canonical_value))
         Internal)"

text \<open>\<open>ORDER BY sequence DESC LIMIT 1\<close>\<close>

definition last_event_hash :: "database \<Rightarrow> string" where
  "last_event_hash db = (if events db = [] then zero_hash else ev_event_hash (last (events db)))"

definition next_sequence :: "database \<Rightarrow> int" where
  "next_sequence db = (if events db = [] then 1 else ev_sequence (last (events db)) + 1)"

text \<open>The UNIQUE constraints of the table \<open>events\<close> (a null never collides) and its foreign keys.\<close>

definition event_clash :: "event_row \<Rightarrow> event_row \<Rightarrow> bool" where
  "event_clash r s \<longleftrightarrow>
     ev_event_id r = ev_event_id s \<or> ev_event_hash r = ev_event_hash s \<or>
     (ev_delegation_id r \<noteq> None \<and> ev_author_nonce r \<noteq> None \<and>
      ev_delegation_id r = ev_delegation_id s \<and> ev_author_nonce r = ev_author_nonce s)"

definition event_references :: "database \<Rightarrow> event_row \<Rightarrow> bool" where
  "event_references db r \<longleftrightarrow>
     (case ev_lineage_id r of None \<Rightarrow> True
      | Some l \<Rightarrow> list_ex (\<lambda>x. lin_lineage_id x = l) (lineages db)) \<and>
     (case ev_delegation_id r of None \<Rightarrow> True
      | Some d \<Rightarrow> list_ex (\<lambda>x. del_delegation_id x = d) (delegations db))"

definition insert_event :: "event_row \<Rightarrow> database \<Rightarrow> database result" where
  "insert_event r db =
     and_then (fail_if (\<not> event_references db r) Database) (\<lambda>_.
     and_then (insert_unique event_clash r (events db)) (\<lambda>evs.
       Inr (db\<lparr>events := evs\<rparr>)))"

text \<open>The row \<open>append_event\<close> writes after hashing \<open>canonical_event\<close> onto \<open>previous\<close>.\<close>

definition new_event_row ::
  "ext \<Rightarrow> node_identity \<Rightarrow> int \<Rightarrow> event_input \<Rightarrow> database \<Rightarrow> string \<Rightarrow> string \<Rightarrow> event_row" where
  "new_event_row X me now input db previous canonical_event =
     (let hash = event_hash X previous canonical_event in
      \<lparr> ev_sequence = next_sequence db,
        ev_event_id = prefixed_id X ''cwevt_'' (in_canonical_json input), ev_kind = in_kind input,
        ev_lineage_id = in_lineage_id input, ev_delegation_id = in_delegation_id input,
        ev_created_at = timestamp X (in_created_at input), ev_received_at = timestamp X now,
        ev_author_nonce = in_author_nonce input,
        ev_targets_json = x_json_print X (e_strs (in_targets input)),
        ev_supersedes_json = x_json_print X (e_strs (in_supersedes input)),
        ev_payload_json = x_json_print X (in_payload input),
        ev_canonical_json = in_canonical_json input,
        ev_author_signature = in_author_signature input,
        ev_previous_hash = last_event_hash db, ev_event_hash = x_hex_encode X hash,
        ev_node_signature = sign_hash X me hash \<rparr>)"

text \<open>\<open>append_event\<close>; \<open>now\<close> is the value of \<open>Utc::now()\<close>.\<close>

definition append_event ::
  "ext \<Rightarrow> node_identity \<Rightarrow> int \<Rightarrow> event_input \<Rightarrow> database \<Rightarrow> (accepted_object \<times> database) result" where
  "append_event X me now input db =
     and_then (fail_if (len (in_canonical_json input) > MAX_CANONICAL_OBJECT_BYTES) Validation) (\<lambda>_.
     and_then (decode_hash X Internal (last_event_hash db)) (\<lambda>previous_bytes.
     and_then (canonical_log_input X input now) (\<lambda>canonical_event.
     let row = new_event_row X me now input db previous_bytes canonical_event in
     and_then (insert_event row db) (\<lambda>db'.
       Inr (\<lparr> acc_id = ev_event_id row, acc_sequence = ev_sequence row,
              acc_event_hash = ev_event_hash row \<rparr>, db')))))"

section \<open>Reading\<close>

definition current_head :: "database \<Rightarrow> int \<times> string" where
  "current_head db =
     (if events db = [] then (0, zero_hash)
      else (ev_sequence (last (events db)), ev_event_hash (last (events db))))"

definition event_hash_at :: "database \<Rightarrow> int \<Rightarrow> string result" where
  "event_hash_at db cursor =
     (if cursor < 0 then Inl Validation
      else if cursor = 0 then Inr zero_hash
      else ok_or (map_option ev_event_hash (first_row (\<lambda>r. ev_sequence r = cursor) (events db)))
             NotFound)"

definition origin_event_of :: "ext \<Rightarrow> event_row \<Rightarrow> origin_event result" where
  "origin_event_of X raw =
     and_then (from_text X Some (ev_canonical_json raw)) (\<lambda>canonical.
       Inr \<lparr> oe_sequence = ev_sequence raw, oe_event_id = ev_event_id raw, oe_kind = ev_kind raw,
             oe_lineage_id = ev_lineage_id raw, oe_delegation_id = ev_delegation_id raw,
             oe_created_at = ev_created_at raw, oe_received_at = ev_received_at raw,
             oe_canonical = canonical, oe_previous_hash = ev_previous_hash raw,
             oe_event_hash = ev_event_hash raw, oe_node_signature = ev_node_signature raw \<rparr>)"

definition origin_events_after :: "ext \<Rightarrow> database \<Rightarrow> int \<Rightarrow> nat \<Rightarrow> origin_event list result" where
  "origin_events_after X db after limit =
     map_result (origin_event_of X) (take limit (filter (\<lambda>r. ev_sequence r > after) (events db)))"

section \<open>Re-deriving the convenience columns\<close>

record authenticated_projection =
  pj_targets :: "string list"
  pj_supersedes :: "string list"
  pj_payload :: json
  pj_author_signature :: "string option"
  pj_author_nonce :: "string option"

record federated_observation_payload =
  fop_observation_id :: string
  fop_story_id :: string
  fop_source_id :: string
  fop_canonical_url :: string
  fop_title :: string
  fop_summary :: string
  fop_published_at :: "int option"
  fop_retrieved_at :: int
  fop_language :: "string option"
  fop_document_hash :: string
  fop_raw_metadata :: json

definition d_federated_observation_payload ::
  "ext \<Rightarrow> json \<Rightarrow> federated_observation_payload option" where
  "d_federated_observation_payload X v = do {
     fs \<leftarrow> struct_view [''observation_id'', ''story_id'', ''source_id'', ''canonical_url'', ''title'',
       ''summary'', ''published_at'', ''retrieved_at'', ''language'', ''document_hash'',
       ''raw_metadata''] v;
     a0 \<leftarrow> req d_str ''observation_id'' fs;
     a1 \<leftarrow> req d_str ''story_id'' fs;
     a2 \<leftarrow> req d_str ''source_id'' fs;
     a3 \<leftarrow> req d_str ''canonical_url'' fs;
     a4 \<leftarrow> req d_str ''title'' fs;
     a5 \<leftarrow> req d_str ''summary'' fs;
     a6 \<leftarrow> opt (d_time X) ''published_at'' fs;
     a7 \<leftarrow> req (d_time X) ''retrieved_at'' fs;
     a8 \<leftarrow> opt d_str ''language'' fs;
     a9 \<leftarrow> req d_str ''document_hash'' fs;
     a10 \<leftarrow> req Some ''raw_metadata'' fs;
     Some \<lparr> fop_observation_id = a0, fop_story_id = a1, fop_source_id = a2, fop_canonical_url = a3,
       fop_title = a4, fop_summary = a5, fop_published_at = a6, fop_retrieved_at = a7,
       fop_language = a8, fop_document_hash = a9, fop_raw_metadata = a10 \<rparr> }"

record federated_observation_envelope =
  foe_protocol :: string
  foe_kind :: string
  foe_payload :: federated_observation_payload

definition d_federated_observation_envelope ::
  "ext \<Rightarrow> json \<Rightarrow> federated_observation_envelope option" where
  "d_federated_observation_envelope X v = do {
     fs \<leftarrow> struct_view [''protocol'', ''kind'', ''payload''] v;
     a0 \<leftarrow> req d_str ''protocol'' fs;
     a1 \<leftarrow> req d_str ''kind'' fs;
     a2 \<leftarrow> req (d_federated_observation_payload X) ''payload'' fs;
     Some \<lparr> foe_protocol = a0, foe_kind = a1, foe_payload = a2 \<rparr> }"

definition mk_projection ::
  "string list \<Rightarrow> string list \<Rightarrow> json \<Rightarrow> string option \<Rightarrow> string option \<Rightarrow> authenticated_projection" where
  "mk_projection ts ss p sig nonce =
     \<lparr> pj_targets = ts, pj_supersedes = ss, pj_payload = p, pj_author_signature = sig,
       pj_author_nonce = nonce \<rparr>"

definition contribution_projection ::
  "ext \<Rightarrow> string \<Rightarrow> json \<Rightarrow> authenticated_projection result" where
  "contribution_projection X kind canonical =
     and_then (from_value (d_signed_contribution X) canonical) (\<lambda>obj.
     if contribution_kind_str (sc_kind obj) \<noteq> kind then Inl Unauthorized
     else Inr (mk_projection (sc_targets obj) (sc_supersedes obj) (sc_payload obj)
                 (Some (sc_signature obj)) (Some (sc_nonce obj))))"

text \<open>\<open>expected_projection\<close> reads only the kind and the lineage of the row.\<close>

definition expected_projection ::
  "ext \<Rightarrow> string \<Rightarrow> string option \<Rightarrow> json \<Rightarrow> authenticated_projection result" where
  "expected_projection X kind lineage canonical =
    (if kind = ''lineage_registered'' then
       and_then (from_value (d_lineage_registration X) canonical) (\<lambda>obj.
       and_then (verifying_key_from_b64 X (lr_public_key obj)) (\<lambda>key.
         Inr (mk_projection [lineage_id_of X key] [] canonical
                (Some (lr_signature obj)) (Some (lr_nonce obj)))))
     else if kind = ''delegation_registered'' then
       and_then (from_value (d_session_delegation X) canonical) (\<lambda>obj.
       and_then (canonical_without_signature X (e_session_delegation X obj)) (\<lambda>bytes.
         Inr (mk_projection [prefixed_id X ''cwdel_'' bytes] [] canonical
                (Some (sd_signature obj)) (Some (sd_nonce obj)))))
     else if kind = ''delegation_revoked'' then
       and_then (from_value (d_delegation_revocation X) canonical) (\<lambda>obj.
         Inr (mk_projection [dr_delegation_id obj] [] canonical
                (Some (dr_signature obj)) (Some (dr_nonce obj))))
     else if kind = ''lineage_key_rotated'' then
       and_then (from_value (d_signed_key_rotation X) canonical) (\<lambda>obj.
         Inr (mk_projection [kr_lineage_id (sk_statement obj)] [] canonical
                (Some (sk_previous_signature obj)) (Some (kr_nonce (sk_statement obj)))))
     else if kind = ''acknowledgement'' then
       and_then (from_value (d_signed_acknowledgement X) canonical) (\<lambda>obj.
       and_then (ok_or lineage Unauthorized) (\<lambda>l.
         Inr (mk_projection [l] [] canonical (Some (sa_signature obj)) (Some (sa_nonce obj)))))
     else if kind = ''observation'' then
       and_then (ok_or (json_get ''payload'' canonical) Unauthorized) (\<lambda>payload.
       and_then (from_value (d_federated_observation_envelope X) canonical) (\<lambda>obj.
         Inr (mk_projection [fop_story_id (foe_payload obj), fop_source_id (foe_payload obj)] []
                payload None None)))
     else if kind = ''checkpoint_witnessed'' then
       and_then (from_value (d_checkpoint_witness X) canonical) (\<lambda>obj.
         Inr (mk_projection [cw_origin_node_id obj] [] canonical (Some (cw_signature obj)) None))
     else contribution_projection X kind canonical)"

definition validate_raw_event_projection :: "ext \<Rightarrow> event_row \<Rightarrow> unit result" where
  "validate_raw_event_projection X row =
     and_then (from_text X Some (ev_canonical_json row)) (\<lambda>canonical.
     and_then (ok_or (x_jcs X canonical) Internal) (\<lambda>canonical_bytes.
     and_then (fail_if (canonical_bytes \<noteq> ev_canonical_json row) Unauthorized) (\<lambda>_.
     and_then (fail_if (prefixed_id X ''cwevt_'' canonical_bytes \<noteq> ev_event_id row) Unauthorized) (\<lambda>_.
     and_then (expected_projection X (ev_kind row) (ev_lineage_id row) canonical) (\<lambda>expected.
     and_then (from_text X (d_list d_str) (ev_targets_json row)) (\<lambda>stored_targets.
     and_then (from_text X (d_list d_str) (ev_supersedes_json row)) (\<lambda>stored_supersedes.
     and_then (from_text X Some (ev_payload_json row)) (\<lambda>stored_payload.
       fail_if (stored_targets \<noteq> pj_targets expected \<or> stored_supersedes \<noteq> pj_supersedes expected \<or>
                stored_payload \<noteq> pj_payload expected \<or>
                ev_author_signature row \<noteq> pj_author_signature expected \<or>
                ev_author_nonce row \<noteq> pj_author_nonce expected) Unauthorized))))))))"

record event_view =
  evv_sequence :: int
  evv_event_id :: string
  evv_kind :: string
  evv_lineage_id :: "string option"
  evv_delegation_id :: "string option"
  evv_created_at :: int
  evv_received_at :: int
  evv_targets :: "string list"
  evv_supersedes :: "string list"
  evv_payload :: json
  evv_canonical :: json
  evv_author_signature :: "string option"
  evv_previous_hash :: string
  evv_event_hash :: string
  evv_node_signature :: string

definition event_view_of :: "ext \<Rightarrow> event_row \<Rightarrow> event_view result" where
  "event_view_of X raw =
     and_then (from_text X Some (ev_canonical_json raw)) (\<lambda>canonical.
     and_then (expected_projection X (ev_kind raw) (ev_lineage_id raw) canonical) (\<lambda>projection.
     and_then (parse_timestamp X (ev_created_at raw)) (\<lambda>created.
     and_then (parse_timestamp X (ev_received_at raw)) (\<lambda>received.
       Inr \<lparr> evv_sequence = ev_sequence raw, evv_event_id = ev_event_id raw, evv_kind = ev_kind raw,
         evv_lineage_id = ev_lineage_id raw, evv_delegation_id = ev_delegation_id raw,
         evv_created_at = created, evv_received_at = received,
         evv_targets = pj_targets projection, evv_supersedes = pj_supersedes projection,
         evv_payload = pj_payload projection, evv_canonical = canonical,
         evv_author_signature = pj_author_signature projection,
         evv_previous_hash = ev_previous_hash raw, evv_event_hash = ev_event_hash raw,
         evv_node_signature = ev_node_signature raw \<rparr>))))"

definition event_views_between ::
  "ext \<Rightarrow> database \<Rightarrow> int \<Rightarrow> int \<Rightarrow> nat \<Rightarrow> event_view list result" where
  "event_views_between X db after through limit =
     map_result (event_view_of X)
       (take limit (filter (\<lambda>r. ev_sequence r > after \<and> ev_sequence r \<le> through) (events db)))"

definition events_after :: "ext \<Rightarrow> database \<Rightarrow> int \<Rightarrow> nat \<Rightarrow> event_view list result" where
  "events_after X db after limit = event_views_between X db after (2 ^ 63 - 1) limit"

section \<open>Verifying\<close>

text \<open>The loop state of \<open>verify_log\<close>: the previous hash, the sequence expected next, cursor, head.\<close>

record log_cursor =
  lc_previous :: string
  lc_expected :: int
  lc_cursor :: int
  lc_head :: string

definition verify_row :: "ext \<Rightarrow> string \<Rightarrow> event_row \<Rightarrow> log_cursor \<Rightarrow> log_cursor result" where
  "verify_row X key row s =
     and_then (fail_if (ev_sequence row \<noteq> lc_expected s) Unauthorized) (\<lambda>_.
     and_then (fail_if (ev_previous_hash row \<noteq> x_hex_encode X (lc_previous s)) Unauthorized) (\<lambda>_.
     and_then (canonical_log_record X row) (\<lambda>canonical_event.
     let expected = event_hash X (lc_previous s) canonical_event in
     and_then (fail_if (ev_event_hash row \<noteq> x_hex_encode X expected) Unauthorized) (\<lambda>_.
     and_then (signature_from_b64 X (ev_node_signature row)) (\<lambda>signature.
     and_then (fail_if (\<not> x_ed_verify X key expected signature) Unauthorized) (\<lambda>_.
     and_then (validate_raw_event_projection X row) (\<lambda>_.
       Inr \<lparr> lc_previous = expected, lc_expected = lc_expected s + 1,
             lc_cursor = ev_sequence row, lc_head = ev_event_hash row \<rparr>)))))))"

definition log_start :: log_cursor where
  "log_start = \<lparr> lc_previous = zero_bytes, lc_expected = 1, lc_cursor = 0, lc_head = zero_hash \<rparr>"

definition verify_rows :: "ext \<Rightarrow> node_identity \<Rightarrow> event_row list \<Rightarrow> log_cursor result" where
  "verify_rows X me rows =
     and_then (verifying_key_from_b64 X (node_public_key me)) (\<lambda>key.
       fold_result (verify_row X key) rows log_start)"

definition verify_log :: "ext \<Rightarrow> node_identity \<Rightarrow> database \<Rightarrow> (int \<times> string) result" where
  "verify_log X me db =
     and_then (verify_rows X me (events db)) (\<lambda>s. Inr (lc_cursor s, lc_head s))"

section \<open>Hash chains\<close>

text \<open>
  A chain verifier consumes records from a state.  \<open>digest\<close> is the hash the state has reached
  (none before the first record of a partial chain), \<open>before\<close> the hash a record is checked
  against, \<open>content\<close> what the record adds and \<open>hash\<close> the compression of both.
\<close>

fun chain_inputs ::
  "('r \<Rightarrow> 's \<Rightarrow> 's result) \<Rightarrow> ('r \<Rightarrow> 's \<Rightarrow> 'h) \<Rightarrow> ('r \<Rightarrow> 'c) \<Rightarrow> 'r list \<Rightarrow> 's \<Rightarrow> ('h \<times> 'c) list" where
  "chain_inputs check before content [] s = []"
| "chain_inputs check before content (r # rs) s =
     (before r s, content r) #
     (case check r s of Inl e \<Rightarrow> [] | Inr s' \<Rightarrow> chain_inputs check before content rs s')"

lemma chain_inputs_append:
  assumes "fold_result check rs s = Inr t"
  shows "chain_inputs check before content (rs @ rs') s =
         chain_inputs check before content rs s @ chain_inputs check before content rs' t"
  using assms by (induction rs arbitrary: s) (auto split: sum.splits)

lemma chain_inputs_content:
  assumes "fold_result check rs s = Inr t"
  shows "map snd (chain_inputs check before content rs s) = map content rs"
  using assms by (induction rs arbitrary: s) (auto split: sum.splits)

locale hash_chain =
  fixes check :: "'r \<Rightarrow> 's \<Rightarrow> 's result"
    and digest :: "'s \<Rightarrow> 'h option"
    and before :: "'r \<Rightarrow> 's \<Rightarrow> 'h"
    and content :: "'r \<Rightarrow> 'c"
    and hash :: "'h \<Rightarrow> 'c \<Rightarrow> 'h"
  assumes links: "check r s = Inr s' \<Longrightarrow> digest s = Some h \<Longrightarrow> before r s = h"
    and extends: "check r s = Inr s' \<Longrightarrow> digest s' = Some (hash (before r s) (content r))"
begin

lemma reached:
  assumes "fold_result check rs s = Inr m" and "rs \<noteq> []" and "check r m = Inr t"
  shows "digest m = Some (before r m)"
proof -
  obtain us u where "rs = us @ [u]" using assms(2) by (cases rs rule: rev_cases) auto
  with assms(1) obtain m0 where "check u m0 = Inr m" by (auto simp: fold_result_snoc_Inr)
  then have "digest m = Some (hash (before u m0) (content u))" by (rule extends)
  with links [OF assms(3)] show ?thesis by simp
qed

text \<open>
  Two verified chains of the same length that reach the same digest hashed the same inputs,
  unless two of the inputs they hashed collide.
\<close>

lemma agree:
  assumes "fold_result check rs s = Inr t" and "fold_result check rs' s' = Inr t'"
    and "length rs = length rs'" and "digest t = digest t'"
    and "inj_on (\<lambda>(h, c). hash h c)
           (set (chain_inputs check before content rs s) \<union>
            set (chain_inputs check before content rs' s'))"
  shows "chain_inputs check before content rs s = chain_inputs check before content rs' s'"
  using assms
proof (induction rs arbitrary: t rs' t' rule: rev_induct)
  case Nil
  then show ?case by simp
next
  case (snoc r rs)
  obtain r' us where rs': "rs' = us @ [r']" using snoc.prems(3) by (cases rs' rule: rev_cases) auto
  obtain m where m: "fold_result check rs s = Inr m" "check r m = Inr t"
    using snoc.prems(1) by (auto simp: fold_result_snoc_Inr)
  obtain m' where m': "fold_result check us s' = Inr m'" "check r' m' = Inr t'"
    using snoc.prems(2) rs' by (auto simp: fold_result_snoc_Inr)
  note parts = chain_inputs_append [OF m(1), of before content "[r]"]
    chain_inputs_append [OF m'(1), of before content "[r']"]
  let ?ins = "set (chain_inputs check before content (rs @ [r]) s) \<union>
              set (chain_inputs check before content rs' s')"
  have same: "hash (before r m) (content r) = hash (before r' m') (content r')"
    using extends [OF m(2)] extends [OF m'(2)] snoc.prems(4) by simp
  have mem: "(before r m, content r) \<in> ?ins" "(before r' m', content r') \<in> ?ins"
    using parts rs' by auto
  have "(before r m, content r) = (before r' m', content r')"
    by (rule inj_onD [OF snoc.prems(5) _ mem]) (simp add: same)
  then have eq: "before r m = before r' m'" "content r = content r'" by auto
  have "chain_inputs check before content rs s = chain_inputs check before content us s'"
  proof (cases "rs = [] \<or> us = []")
    case True
    then show ?thesis using snoc.prems(3) rs' by auto
  next
    case False
    have "digest m = Some (before r m)" using reached [OF m(1) _ m(2)] False by blast
    moreover have "digest m' = Some (before r' m')" using reached [OF m'(1) _ m'(2)] False by blast
    ultimately have "digest m = digest m'" using eq by simp
    moreover have "inj_on (\<lambda>(h, c). hash h c)
        (set (chain_inputs check before content rs s) \<union>
         set (chain_inputs check before content us s'))"
      using snoc.prems(5) parts rs' by (auto intro: inj_on_subset)
    ultimately show ?thesis using snoc.IH m(1) m'(1) snoc.prems(3) rs' by simp
  qed
  with parts rs' eq m m' show ?case by simp
qed

end

section \<open>Lemmas on the log\<close>

lemma verify_row_Inr:
  assumes "verify_row X key row s = Inr s'"
  shows "ev_sequence row = lc_expected s"
    and "ev_previous_hash row = x_hex_encode X (lc_previous s)"
    and "\<exists>c. canonical_log_record X row = Inr c \<and> lc_previous s' = event_hash X (lc_previous s) c"
    and "ev_event_hash row = x_hex_encode X (lc_previous s')"
    and "lc_expected s' = lc_expected s + 1"
    and "lc_cursor s' = ev_sequence row" and "lc_head s' = ev_event_hash row"
  using assms by (auto simp: verify_row_def Let_def)

definition record_bytes :: "ext \<Rightarrow> event_row \<Rightarrow> string" where
  "record_bytes X row = (case canonical_log_record X row of Inr c \<Rightarrow> c | Inl _ \<Rightarrow> [])"

interpretation local_log: hash_chain
  "verify_row X key" "\<lambda>s. Some (lc_previous s)" "\<lambda>r s. lc_previous s" "record_bytes X" "event_hash X"
  for X key
proof
  fix r s s' h
  assume "verify_row X key r s = Inr s'" and "Some (lc_previous s) = Some h"
  then show "lc_previous s = h" by simp
next
  fix r s s'
  assume "verify_row X key r s = Inr s'"
  then show "Some (lc_previous s') = Some (event_hash X (lc_previous s) (record_bytes X r))"
    using verify_row_Inr(3) by (fastforce simp: record_bytes_def)
qed

text \<open>What the loop state of a successful verification says about the rows read so far.\<close>

definition cursor_ok :: "ext \<Rightarrow> event_row list \<Rightarrow> log_cursor \<Rightarrow> bool" where
  "cursor_ok X rows s \<longleftrightarrow>
     length (lc_previous s) = 32 \<and> lc_head s = x_hex_encode X (lc_previous s) \<and>
     lc_cursor s = int (length rows) \<and> lc_expected s = lc_cursor s + 1 \<and>
     (rows \<noteq> [] \<longrightarrow> ev_sequence (last rows) = lc_cursor s \<and> ev_event_hash (last rows) = lc_head s)"

lemma verified_cursor:
  assumes "hash_laws X" and "hex_laws X" and "fold_result (verify_row X key) rows log_start = Inr s"
  shows "cursor_ok X rows s"
  using assms(3)
proof (induction rows arbitrary: s rule: rev_induct)
  case Nil
  then show ?case using assms(2) by (auto simp: cursor_ok_def log_start_def zero_bytes_def hex_laws_def)
next
  case (snoc r rows)
  obtain m where m: "fold_result (verify_row X key) rows log_start = Inr m" "verify_row X key r m = Inr s"
    using snoc.prems by (auto simp: fold_result_snoc_Inr)
  have "cursor_ok X rows m" using snoc.IH m(1) by blast
  with verify_row_Inr [OF m(2)] assms(1) show ?case by (auto simp: cursor_ok_def)
qed

lemma verified_sequences:
  assumes "hash_laws X" and "hex_laws X" and "fold_result (verify_row X key) rows log_start = Inr s"
    and "i < length rows"
  shows "ev_sequence (rows ! i) = int i + 1"
proof -
  obtain m where m: "fold_result (verify_row X key) (take i rows) log_start = Inr m"
    "fold_result (verify_row X key) (drop i rows) m = Inr s"
    using assms(3) fold_result_append_Inr [of "verify_row X key" "take i rows" "drop i rows" log_start s]
    by auto
  have "drop i rows = rows ! i # drop (Suc i) rows" using assms(4) by (simp add: Cons_nth_drop_Suc)
  then obtain m' where "verify_row X key (rows ! i) m = Inr m'"
    using m(2) by (auto split: sum.splits)
  then have "ev_sequence (rows ! i) = lc_expected m" by (rule verify_row_Inr(1))
  with verified_cursor [OF assms(1,2) m(1)] assms(4) show ?thesis by (simp add: cursor_ok_def)
qed

subsection \<open>Appending keeps the log verifiable\<close>

text \<open>
  An input is faithful when its canonical text is the canonical form of a safe value and the
  convenience columns are the ones that value determines.
\<close>

definition faithful_input :: "ext \<Rightarrow> event_input \<Rightarrow> bool" where
  "faithful_input X input \<longleftrightarrow>
     (\<exists>v. json_safe v \<and> x_jcs X v = Some (in_canonical_json input) \<and> json_safe (in_payload input) \<and>
          expected_projection X (in_kind input) (in_lineage_id input) v =
            Inr (mk_projection (in_targets input) (in_supersedes input) (in_payload input)
                   (in_author_signature input) (in_author_nonce input)))"

text \<open>The projections of the objects the node itself serializes.\<close>

lemma projection_lineage_registered:
  assumes "time_laws X" and "time_ok (lr_created_at r)"
    and "verifying_key_from_b64 X (lr_public_key r) = Inr key"
  shows "expected_projection X ''lineage_registered'' l (e_lineage_registration X r) =
    Inr (mk_projection [lineage_id_of X key] [] (e_lineage_registration X r)
          (Some (lr_signature r)) (Some (lr_nonce r)))"
  using assms
  by (simp add: expected_projection_def lineage_registration_roundtrip from_value_eval)

lemma projection_delegation_registered:
  assumes "time_laws X" and "time_ok (sd_not_before r)" and "time_ok (sd_expires_at r)"
    and "canonical_without_signature X (e_session_delegation X r) = Inr bytes"
  shows "expected_projection X ''delegation_registered'' l (e_session_delegation X r) =
    Inr (mk_projection [prefixed_id X ''cwdel_'' bytes] [] (e_session_delegation X r)
          (Some (sd_signature r)) (Some (sd_nonce r)))"
  using assms by (simp add: expected_projection_def session_delegation_roundtrip from_value_eval)

lemma projection_delegation_revoked:
  assumes "time_laws X" and "time_ok (dr_created_at r)"
  shows "expected_projection X ''delegation_revoked'' l (e_delegation_revocation X r) =
    Inr (mk_projection [dr_delegation_id r] [] (e_delegation_revocation X r)
          (Some (dr_signature r)) (Some (dr_nonce r)))"
  using assms by (simp add: expected_projection_def delegation_revocation_roundtrip from_value_eval)

lemma projection_lineage_key_rotated:
  assumes "time_laws X" and "time_ok (kr_created_at (sk_statement r))"
  shows "expected_projection X ''lineage_key_rotated'' l (e_signed_key_rotation X r) =
    Inr (mk_projection [kr_lineage_id (sk_statement r)] [] (e_signed_key_rotation X r)
          (Some (sk_previous_signature r)) (Some (kr_nonce (sk_statement r))))"
  using assms by (simp add: expected_projection_def signed_key_rotation_roundtrip from_value_eval)

lemma projection_acknowledgement:
  assumes "time_laws X" and "time_ok (sa_created_at r)" and "i64_range (sa_cursor r)"
  shows "expected_projection X ''acknowledgement'' (Some l) (e_signed_acknowledgement X r) =
    Inr (mk_projection [l] [] (e_signed_acknowledgement X r)
          (Some (sa_signature r)) (Some (sa_nonce r)))"
  using assms by (simp add: expected_projection_def signed_acknowledgement_roundtrip from_value_eval)

lemma projection_contribution:
  assumes "time_laws X" and "time_ok (sc_created_at r)"
  shows "expected_projection X (contribution_kind_str (sc_kind r)) l (e_signed_contribution X r) =
    Inr (mk_projection (sc_targets r) (sc_supersedes r) (sc_payload r)
          (Some (sc_signature r)) (Some (sc_nonce r)))"
proof -
  have "contribution_projection X (contribution_kind_str (sc_kind r)) (e_signed_contribution X r) =
    Inr (mk_projection (sc_targets r) (sc_supersedes r) (sc_payload r)
          (Some (sc_signature r)) (Some (sc_nonce r)))"
    using assms by (simp add: contribution_projection_def signed_contribution_roundtrip from_value_eval)
  then show ?thesis by (cases "sc_kind r") (simp_all add: expected_projection_def)
qed

lemma projection_witness:
  assumes "d_checkpoint_witness X (e_checkpoint_witness X r) = Some r"
  shows "expected_projection X ''checkpoint_witnessed'' l (e_checkpoint_witness X r) =
    Inr (mk_projection [cw_origin_node_id r] [] (e_checkpoint_witness X r) (Some (cw_signature r)) None)"
  using assms by (simp add: expected_projection_def from_value_eval)

lemma from_text_eval: "x_json_parse X s = Some v \<Longrightarrow> from_text X d s = from_value d v"
  by (simp add: from_text_def)

lemma from_text_Inr [simp]:
  "from_text X d s = Inr r \<longleftrightarrow> (\<exists>v. x_json_parse X s = Some v \<and> d v = Some r)"
  by (simp add: from_text_def)

lemma new_event_row_simps [simp]:
  "ev_sequence (new_event_row X me now input db prev c) = next_sequence db"
  "ev_event_id (new_event_row X me now input db prev c) = prefixed_id X ''cwevt_'' (in_canonical_json input)"
  "ev_kind (new_event_row X me now input db prev c) = in_kind input"
  "ev_lineage_id (new_event_row X me now input db prev c) = in_lineage_id input"
  "ev_delegation_id (new_event_row X me now input db prev c) = in_delegation_id input"
  "ev_author_nonce (new_event_row X me now input db prev c) = in_author_nonce input"
  "ev_canonical_json (new_event_row X me now input db prev c) = in_canonical_json input"
  "ev_previous_hash (new_event_row X me now input db prev c) = last_event_hash db"
  "ev_event_hash (new_event_row X me now input db prev c) = x_hex_encode X (event_hash X prev c)"
  by (simp_all add: new_event_row_def Let_def)

lemma append_event_Inr:
  assumes "append_event X me now input db = Inr (acc, db')"
  obtains row prev c where
    "decode_hash X Internal (last_event_hash db) = Inr prev"
    "canonical_log_input X input now = Inr c"
    "len (in_canonical_json input) \<le> MAX_CANONICAL_OBJECT_BYTES"
    "row = new_event_row X me now input db prev c"
    "event_references db row" "\<forall>r\<in>set (events db). \<not> event_clash row r"
    "db' = db\<lparr>events := events db @ [row]\<rparr>"
    "acc = \<lparr> acc_id = ev_event_id row, acc_sequence = ev_sequence row, acc_event_hash = ev_event_hash row \<rparr>"
  using assms by (auto simp: append_event_def insert_event_def Let_def not_less)

lemma append_event_frame:
  assumes "append_event X me now input db = Inr (acc, db')"
  shows "\<exists>prev c. db' = db\<lparr>events := events db @ [new_event_row X me now input db prev c]\<rparr> \<and>
           acc_sequence acc = next_sequence db \<and>
           acc_id acc = prefixed_id X ''cwevt_'' (in_canonical_json input)"
  using assms by (rule append_event_Inr) auto

lemma faithful_projection:
  assumes "ext_laws X" and "faithful_input X input"
    and "ev_canonical_json row = in_canonical_json input" "ev_kind row = in_kind input"
    and "ev_lineage_id row = in_lineage_id input" "ev_author_nonce row = in_author_nonce input"
    and "ev_event_id row = prefixed_id X ''cwevt_'' (in_canonical_json input)"
    and "ev_targets_json row = x_json_print X (e_strs (in_targets input))"
    and "ev_supersedes_json row = x_json_print X (e_strs (in_supersedes input))"
    and "ev_payload_json row = x_json_print X (in_payload input)"
    and "ev_author_signature row = in_author_signature input"
  shows "validate_raw_event_projection X row = Inr ()"
proof -
  have laws: "json_laws X" using assms(1) by (simp add: ext_laws_def)
  obtain v where v: "json_safe v" "x_jcs X v = Some (in_canonical_json input)"
    "json_safe (in_payload input)"
    "expected_projection X (in_kind input) (in_lineage_id input) v =
       Inr (mk_projection (in_targets input) (in_supersedes input) (in_payload input)
              (in_author_signature input) (in_author_nonce input))"
    using assms(2) by (auto simp: faithful_input_def)
  have "x_json_parse X (in_canonical_json input) = Some v" using jcs_parse laws v by blast
  with v assms(3-) laws show ?thesis
    by (simp add: validate_raw_event_projection_def from_text_eval from_value_eval print_parse
        mk_projection_def)
qed

lemma append_event_verify_rows:
  assumes laws: "ext_laws X" and me: "identity_ok X me" and faithful: "faithful_input X input"
    and verified: "verify_rows X me (events db) = Inr s"
    and appended: "append_event X me now input db = Inr (acc, db')"
  shows "\<exists>s'. verify_rows X me (events db') = Inr s' \<and> lc_cursor s' = acc_sequence acc \<and>
              lc_head s' = acc_event_hash acc \<and> acc_sequence acc = lc_cursor s + 1"
proof -
  from laws have hl: "hash_laws X" "hex_laws X" "b64_laws X" "sig_laws X" by (simp_all add: ext_laws_def)
  note key = identity_key [OF hl(3,4) me]
  from verified key have fold: "fold_result (verify_row X (x_ed_public X (node_secret me))) (events db) log_start = Inr s"
    by (simp add: verify_rows_def)
  note cur = verified_cursor [OF hl(1,2) fold]
  from appended show ?thesis
  proof (rule append_event_Inr, goal_cases)
    case (1 row prev c)
    have head: "last_event_hash db = x_hex_encode X (lc_previous s)"
      using cur fold hl(2)
      by (auto simp: last_event_hash_def cursor_ok_def log_start_def hex_laws_def)
    have prev: "prev = lc_previous s"
      using 1(1) head decode_hash_encode [OF hl(2)] cur by (simp add: cursor_ok_def)
    have seq: "next_sequence db = lc_expected s"
      using cur fold by (auto simp: next_sequence_def cursor_ok_def log_start_def)
    have log_rec: "canonical_log_record X row = Inr c"
      using 1(2) 1(4)
      by (simp add: canonical_log_record_def canonical_log_input_def new_event_row_def Let_def)
    have proj: "validate_raw_event_projection X row = Inr ()"
      by (rule faithful_projection [OF laws faithful]) (simp_all add: 1(4) new_event_row_def Let_def)
    have "verify_row X (x_ed_public X (node_secret me)) row s =
        Inr \<lparr> lc_previous = event_hash X prev c, lc_expected = lc_expected s + 1,
              lc_cursor = ev_sequence row, lc_head = ev_event_hash row \<rparr>"
      using log_rec proj verify_sign_hash [OF hl(3,4) me] 1(4) prev seq head
      by (simp add: verify_row_def new_event_row_def Let_def)
    moreover have "events db' = events db @ [row]" using 1(7) by simp
    ultimately show ?thesis
      using key fold cur seq 1(4,8)
      by (simp add: verify_rows_def fold_result_append_Inr cursor_ok_def new_event_row_def Let_def)
  qed
qed

subsection \<open>Verified logs\<close>

definition hash_bytes :: "ext \<Rightarrow> string \<Rightarrow> string" where
  "hash_bytes X h = (case x_hex_decode X h of Some b \<Rightarrow> b | None \<Rightarrow> [])"

text \<open>The bytes whose SHA-256 is a row's event hash.\<close>

definition log_preimage :: "ext \<Rightarrow> event_row \<Rightarrow> string" where
  "log_preimage X row = LOG_DOMAIN @ hash_bytes X (ev_previous_hash row) @ record_bytes X row"

text \<open>The part of a row that the chain fixes.\<close>

definition chained :: "ext \<Rightarrow> event_row \<Rightarrow> int \<times> string \<times> string \<times> string result" where
  "chained X row = (ev_sequence row, ev_previous_hash row, ev_event_hash row, canonical_log_record X row)"

definition row_linked :: "ext \<Rightarrow> event_row \<Rightarrow> bool" where
  "row_linked X r \<longleftrightarrow>
     length (hash_bytes X (ev_previous_hash r)) = 32 \<and>
     ev_previous_hash r = x_hex_encode X (hash_bytes X (ev_previous_hash r)) \<and>
     canonical_log_record X r = Inr (record_bytes X r) \<and>
     ev_event_hash r = x_hex_encode X (x_sha256 X (log_preimage X r))"

lemma verified_inputs:
  assumes "hash_laws X" and "hex_laws X" and "fold_result (verify_row X key) rows log_start = Inr s"
  shows "chain_inputs (verify_row X key) (\<lambda>r s. lc_previous s) (record_bytes X) rows log_start =
           map (\<lambda>r. (hash_bytes X (ev_previous_hash r), record_bytes X r)) rows \<and>
         list_all (row_linked X) rows"
  using assms(3)
proof (induction rows arbitrary: s rule: rev_induct)
  case Nil
  then show ?case by simp
next
  case (snoc r rows)
  obtain m where m: "fold_result (verify_row X key) rows log_start = Inr m" "verify_row X key r m = Inr s"
    using snoc.prems by (auto simp: fold_result_snoc_Inr)
  note facts = verify_row_Inr [OF m(2)] and cur = verified_cursor [OF assms(1,2) m(1)]
  have prev: "hash_bytes X (ev_previous_hash r) = lc_previous m"
    using facts(2) assms(2) by (simp add: hash_bytes_def hex_laws_def)
  have "row_linked X r"
    using facts(2,3,4) prev cur
    by (auto simp: row_linked_def record_bytes_def log_preimage_def event_hash_def cursor_ok_def)
  with snoc.IH [OF m(1)] m(2) prev show ?case by (simp add: chain_inputs_append [OF m(1)])
qed

lemma verify_log_rows:
  assumes "verify_log X me db = Inr (n, h)"
  obtains key s where "verifying_key_from_b64 X (node_public_key me) = Inr key"
    "fold_result (verify_row X key) (events db) log_start = Inr s" "n = lc_cursor s" "h = lc_head s"
  using assms by (auto simp: verify_log_def verify_rows_def)

lemma row_linked_chained:
  assumes "row_linked X r" and "row_linked X r'" and "ev_sequence r = ev_sequence r'"
    and "hash_bytes X (ev_previous_hash r) = hash_bytes X (ev_previous_hash r')"
    and "record_bytes X r = record_bytes X r'"
  shows "chained X r = chained X r'"
  using assms unfolding row_linked_def chained_def log_preimage_def by metis

abbreviation chain_pair :: "ext \<Rightarrow> event_row \<Rightarrow> string \<times> string" where
  "chain_pair X r \<equiv> (hash_bytes X (ev_previous_hash r), record_bytes X r)"

text \<open>With a 32-byte previous hash the hashed message determines the pair it is made of.\<close>

lemma chain_pair_inj:
  assumes "list_all (row_linked X) rows" and "inj_on (x_sha256 X) (log_preimage X ` set rows)"
  shows "inj_on (\<lambda>(h, c). event_hash X h c) (chain_pair X ` set rows)"
proof (rule inj_onI, clarsimp)
  fix r r'
  assume r: "r \<in> set rows" "r' \<in> set rows"
    and eq: "event_hash X (hash_bytes X (ev_previous_hash r)) (record_bytes X r) =
             event_hash X (hash_bytes X (ev_previous_hash r')) (record_bytes X r')"
  have "log_preimage X r = log_preimage X r'"
    by (rule inj_onD [OF assms(2)]) (use eq r in \<open>auto simp: log_preimage_def event_hash_def\<close>)
  moreover have "length (hash_bytes X (ev_previous_hash r)) = 32"
    "length (hash_bytes X (ev_previous_hash r')) = 32"
    using assms(1) r by (auto simp: list_all_iff row_linked_def)
  ultimately show "hash_bytes X (ev_previous_hash r) = hash_bytes X (ev_previous_hash r') \<and>
      record_bytes X r = record_bytes X r'"
    by (auto simp: log_preimage_def)
qed

lemma json_safe_log_object: "json_safe v \<Longrightarrow> json_safe (log_object k l d c r v)"
  by (cases l; cases d) (simp_all add: log_object_def byte_of_def)

lemma verified_head_decodes:
  assumes "hash_laws X" and "hex_laws X" and "verify_log X me db = Inr (n, h)"
  shows "\<exists>prev. decode_hash X Internal (last_event_hash db) = Inr prev"
proof -
  obtain k s where s: "fold_result (verify_row X k) (events db) log_start = Inr s"
    using assms(3) by (rule verify_log_rows)
  have "last_event_hash db = x_hex_encode X (lc_previous s)" "length (lc_previous s) = 32"
    using verified_cursor [OF assms(1,2) s] s assms(2)
    by (auto simp: last_event_hash_def cursor_ok_def log_start_def hex_laws_def)
  then show ?thesis using decode_hash_encode [OF assms(2)] by simp
qed

text \<open>An input the chain and the table constraints admit is appended.\<close>

lemma append_event_progress:
  assumes "ext_laws X" and "faithful_input X input" and "verify_log X me db = Inr (n, h)"
    and "len (in_canonical_json input) \<le> MAX_CANONICAL_OBJECT_BYTES"
    and "\<And>prev c. event_references db (new_event_row X me now input db prev c)"
    and "\<And>prev c r. r \<in> set (events db) \<Longrightarrow> \<not> event_clash (new_event_row X me now input db prev c) r"
  shows "\<exists>acc db'. append_event X me now input db = Inr (acc, db')"
proof -
  have laws: "hash_laws X" "hex_laws X" "json_laws X" using assms(1) by (simp_all add: ext_laws_def)
  obtain prev where prev: "decode_hash X Internal (last_event_hash db) = Inr prev"
    using verified_head_decodes [OF laws(1,2) assms(3)] by blast
  obtain v where v: "json_safe v" "x_jcs X v = Some (in_canonical_json input)"
    using assms(2) by (auto simp: faithful_input_def)
  have "x_json_parse X (in_canonical_json input) = Some v" using jcs_parse laws(3) v by blast
  moreover obtain c where "x_jcs X (log_object (in_kind input) (in_lineage_id input)
      (in_delegation_id input) (timestamp X (in_created_at input)) (timestamp X now) v) = Some c"
    using jcs_total [OF laws(3) json_safe_log_object [OF v(1)]] by blast
  ultimately have "canonical_log_input X input now = Inr c"
    by (simp add: canonical_log_input_def from_text_eval from_value_eval)
  with prev assms(4-6) show ?thesis
    by (auto simp: append_event_def insert_event_def Let_def)
qed

lemma verify_log_append_head:
  assumes "append_event X me now input db = Inr (acc, db')"
  shows "current_head db' = (acc_sequence acc, acc_event_hash acc)"
  using assms by (rule append_event_Inr) (auto simp: current_head_def)

section \<open>Operations that write one event\<close>

text \<open>
  The contract of every operation that accepts a signed object: on success it appended exactly
  one event, with columns its canonical object determines, and did nothing else to the log.
  \<open>wire_ok\<close> says which arguments the serializers render without loss.
\<close>

lemma verify_log_events: "events db = events db' \<Longrightarrow> verify_log X me db = verify_log X me db'"
  by (simp add: verify_log_def)

locale logged_operation =
  fixes X :: ext and me :: node_identity
    and op :: "'a \<Rightarrow> database \<Rightarrow> (accepted_object \<times> database) result"
    and wire_ok :: "'a \<Rightarrow> bool"
  assumes logged: "ext_laws X \<Longrightarrow> wire_ok a \<Longrightarrow> op a db = Inr (acc, db') \<Longrightarrow>
    \<exists>now input db1. faithful_input X input \<and> append_event X me now input db = Inr (acc, db1) \<and>
      events db' = events db1"
begin

lemma keeps_verified:
  assumes "ext_laws X" and "identity_ok X me" and "wire_ok a"
    and "verify_log X me db = Inr (n, h)" and "op a db = Inr (acc, db')"
  shows "verify_log X me db' = Inr (acc_sequence acc, acc_event_hash acc) \<and> acc_sequence acc = n + 1"
proof -
  obtain now input db1 where l: "faithful_input X input" "append_event X me now input db = Inr (acc, db1)"
    "events db' = events db1"
    using logged [OF assms(1,3,5)] by blast
  from assms(4) obtain s where s: "verify_rows X me (events db) = Inr s" "n = lc_cursor s"
    by (auto simp: verify_log_def)
  from append_event_verify_rows [OF assms(1,2) l(1) s(1) l(2)] s(2) l(3)
  show ?thesis by (auto simp: verify_log_def)
qed

lemma grows:
  assumes "ext_laws X" and "wire_ok a" and "op a db = Inr (acc, db')"
  shows "\<exists>row. events db' = events db @ [row] \<and> ev_event_id row = acc_id acc"
proof -
  obtain now input db1 where l: "append_event X me now input db = Inr (acc, db1)"
    "events db' = events db1"
    using logged [OF assms] by blast
  from append_event_frame [OF l(1)] l(2) show ?thesis by auto
qed

end

section \<open>Properties\<close>

text \<open>C1: appending an event whose columns come from its canonical object to a log that verifies
  gives a log that verifies, one event longer, whose head is the accepted event.\<close>

theorem verify_log_append:
  assumes "ext_laws X" and "identity_ok X me" and "faithful_input X input"
    and "verify_log X me db = Inr (n, h)"
    and "append_event X me now input db = Inr (acc, db')"
  shows "verify_log X me db' = Inr (acc_sequence acc, acc_event_hash acc) \<and>
         acc_sequence acc = n + 1 \<and> current_head db' = (acc_sequence acc, acc_event_hash acc)"
proof -
  from assms(4) obtain s where s: "verify_rows X me (events db) = Inr s" "n = lc_cursor s"
    by (auto simp: verify_log_def)
  from append_event_verify_rows [OF assms(1-3) s(1) assms(5)] s(2) verify_log_append_head [OF assms(5)]
  show ?thesis by (auto simp: verify_log_def)
qed

definition demo_registration :: lineage_registration where
  "demo_registration = \<lparr> lr_protocol = PROTOCOL_VERSION, lr_display_name = ''Ada'',
     lr_public_key = pad 32 ''key'', lr_created_at = 0,
     lr_nonce = ''nonce-0123456789'', lr_signature = ''sig'' \<rparr>"

definition demo_input :: event_input where
  "demo_input = \<lparr> in_kind = ''lineage_registered'', in_lineage_id = None, in_delegation_id = None,
     in_created_at = 0, in_author_nonce = Some (lr_nonce demo_registration),
     in_targets = [lineage_id_of demo_ext (pad 32 ''key'')], in_supersedes = [],
     in_payload = e_lineage_registration demo_ext demo_registration,
     in_canonical_json = demo_print (e_lineage_registration demo_ext demo_registration),
     in_author_signature = Some (lr_signature demo_registration) \<rparr>"

definition demo_log :: database where
  "demo_log = (case append_event demo_ext demo_me 0 demo_input empty_database of
     Inr (_, db) \<Rightarrow> db | Inl _ \<Rightarrow> empty_database)"

lemma demo_input_faithful: "faithful_input demo_ext demo_input"
  unfolding faithful_input_def
proof (intro exI conjI)
  show "json_safe (e_lineage_registration demo_ext demo_registration)"
    by (rule json_safe_lineage_registration)
  then show "json_safe (in_payload demo_input)" by (simp add: demo_input_def)
  show "x_jcs demo_ext (e_lineage_registration demo_ext demo_registration) =
        Some (in_canonical_json demo_input)"
    by (simp add: demo_ext_def demo_input_def)
  show "expected_projection demo_ext (in_kind demo_input) (in_lineage_id demo_input)
          (e_lineage_registration demo_ext demo_registration) =
        Inr (mk_projection (in_targets demo_input) (in_supersedes demo_input) (in_payload demo_input)
               (in_author_signature demo_input) (in_author_nonce demo_input))"
    using projection_lineage_registered [of demo_ext demo_registration "pad 32 ''key''" None] demo_laws
      verifying_key_encode [of demo_ext "pad 32 ''key''"]
    by (simp add: ext_laws_def demo_input_def demo_registration_def demo_ext_def time_ok_def)
qed

lemma demo_empty_verified: "verify_log demo_ext demo_me empty_database = Inr (0, zero_hash)"
  using identity_key [of demo_ext demo_me] demo_laws demo_me_ok
  by (simp add: verify_log_def verify_rows_def log_start_def ext_laws_def)

lemma demo_length: "len (in_canonical_json demo_input) \<le> MAX_CANONICAL_OBJECT_BYTES"
  by code_simp

lemma demo_log_appended:
  "\<exists>acc row. append_event demo_ext demo_me 0 demo_input empty_database = Inr (acc, demo_log) \<and>
     events demo_log = [row] \<and> ev_canonical_json row = in_canonical_json demo_input \<and>
     ev_event_id row = prefixed_id demo_ext ''cwevt_'' (in_canonical_json demo_input)"
proof -
  obtain acc db' where a: "append_event demo_ext demo_me 0 demo_input empty_database = Inr (acc, db')"
    using append_event_progress [OF demo_laws demo_input_faithful demo_empty_verified demo_length, of 0]
    by (auto simp: demo_input_def new_event_row_def event_references_def Let_def)
  then have "db' = demo_log" by (simp add: demo_log_def)
  with a have "append_event demo_ext demo_me 0 demo_input empty_database = Inr (acc, demo_log)" by simp
  moreover from append_event_frame [OF this] obtain prev c where
    d: "demo_log = empty_database\<lparr>events := [new_event_row demo_ext demo_me 0 demo_input empty_database prev c]\<rparr>"
    by auto
  have "events demo_log = [new_event_row demo_ext demo_me 0 demo_input empty_database prev c]"
    by (subst d) simp
  ultimately show ?thesis by auto
qed

theorem verify_log_append_witness:
  "\<exists>hash. verify_log demo_ext demo_me demo_log = Inr (1, hash)"
proof -
  obtain acc where acc: "append_event demo_ext demo_me 0 demo_input empty_database = Inr (acc, demo_log)"
    using demo_log_appended by blast
  from verify_log_append [OF demo_laws demo_me_ok demo_input_faithful demo_empty_verified acc]
  show ?thesis by auto
qed


lemma demo_log_verified: "\<exists>hash. verify_log demo_ext demo_me demo_log = Inr (1, hash)"
proof -
  obtain acc where acc: "append_event demo_ext demo_me 0 demo_input empty_database = Inr (acc, demo_log)"
    using demo_log_appended by blast
  have "verify_rows demo_ext demo_me (events empty_database) = Inr log_start"
    using identity_key [of demo_ext demo_me] demo_laws demo_me_ok
    by (simp add: verify_rows_def ext_laws_def)
  from append_event_verify_rows [OF demo_laws demo_me_ok demo_input_faithful this acc]
  show ?thesis by (auto simp: verify_log_def log_start_def)
qed


text \<open>Appending the canonical text of an event that is already in the log is refused,
  whatever the other columns say, and the log does not change.\<close>

theorem append_event_replay_refused:
  assumes "r \<in> set (events db)"
    and "ev_event_id r = prefixed_id X ''cwevt_'' (ev_canonical_json r)"
    and "in_canonical_json input = ev_canonical_json r"
  shows "\<exists>e. append_event X me now input db = Inl e"
proof (cases "append_event X me now input db")
  case (Inr p)
  obtain acc db' where "p = (acc, db')" by (cases p)
  with Inr have "append_event X me now input db = Inr (acc, db')" by simp
  then show ?thesis
    by (rule append_event_Inr) (use assms in \<open>auto simp: event_clash_def new_event_row_def Let_def\<close>)
qed simp

end
