(* ===== verification/Federation.thy ===== *)
theory Federation
  imports Event_Log
begin

text \<open>
  Exchange of logs between nodes (\<^verbatim>\<open>src/src/federation.rs\<close>): the bundle a node serves from its log, the
  checkpoint that closes it, the verifier a receiving node runs before it looks at any event, and
  the witness and receipt objects that answer a bundle.  The verifier is the second instance of the
  locale \<open>hash_chain\<close>: its chain may start in the middle of a log.  All cursor arithmetic is on
  \<open>i64\<close>; \<open>bundle_cursors_in_range\<close> below shows that the checks that precede it exclude overflow.
\<close>

definition MAX_FEDERATION_EVENTS :: nat where
  "MAX_FEDERATION_EVENTS = 500"

section \<open>Verifying what a peer sent\<close>

definition verify_checkpoint :: "ext \<Rightarrow> checkpoint \<Rightarrow> unit result" where
  "verify_checkpoint X c =
     and_then (verifying_key_from_b64 X (cp_node_public_key c)) (\<lambda>key.
     and_then (fail_if (prefixed_id X ''cwnode_'' key \<noteq> cp_node_id c) Unauthorized) (\<lambda>_.
       verify_object X key CHECKPOINT_DOMAIN (e_checkpoint X c) (cp_signature c)))"

definition canonical_origin_record :: "ext \<Rightarrow> origin_event \<Rightarrow> string result" where
  "canonical_origin_record X e =
     ok_or (x_jcs X (log_object (oe_kind e) (oe_lineage_id e) (oe_delegation_id e)
              (oe_created_at e) (oe_received_at e) (oe_canonical e))) Internal"

text \<open>The state of the loop over the events: the sequence expected next and the hash before it.\<close>

record bundle_state =
  bs_expected :: int
  bs_previous :: "string option"

definition verify_origin_event ::
  "ext \<Rightarrow> string \<Rightarrow> int \<Rightarrow> origin_event \<Rightarrow> bundle_state \<Rightarrow> bundle_state result" where
  "verify_origin_event X node_key from_cursor e s =
     and_then (fail_if (len (x_json_print X (oe_canonical e)) > MAX_CANONICAL_OBJECT_BYTES) Validation) (\<lambda>_.
     and_then (fail_if (oe_sequence e \<noteq> bs_expected s) Validation) (\<lambda>_.
     and_then (case bs_previous s of
         Some previous \<Rightarrow> fail_if (oe_previous_hash e \<noteq> previous) Unauthorized
       | None \<Rightarrow> fail_if (from_cursor = 0 \<and> oe_previous_hash e \<noteq> zero_hash) Unauthorized) (\<lambda>_.
     and_then (decode_hash X Validation (oe_previous_hash e)) (\<lambda>previous.
     and_then (canonical_origin_record X e) (\<lambda>canonical_record.
     let expected_hash = event_hash X previous canonical_record in
     and_then (fail_if (oe_event_hash e \<noteq> x_hex_encode X expected_hash) Unauthorized) (\<lambda>_.
     and_then (ok_or (x_jcs X (oe_canonical e)) Internal) (\<lambda>canonical.
     and_then (fail_if (oe_event_id e \<noteq> prefixed_id X ''cwevt_'' canonical) Unauthorized) (\<lambda>_.
     and_then (signature_from_b64 X (oe_node_signature e)) (\<lambda>signature.
     and_then (fail_if (\<not> x_ed_verify X node_key expected_hash signature) Unauthorized) (\<lambda>_.
       Inr \<lparr> bs_expected = bs_expected s + 1, bs_previous = Some (oe_event_hash e) \<rparr>))))))))))"

definition bundle_start :: "int \<Rightarrow> bundle_state" where
  "bundle_start from_cursor = \<lparr> bs_expected = from_cursor + 1, bs_previous = None \<rparr>"

definition verify_bundle :: "ext \<Rightarrow> federation_bundle \<Rightarrow> unit result" where
  "verify_bundle X b =
     and_then (fail_if (fb_protocol b \<noteq> PROTOCOL_VERSION) Validation) (\<lambda>_.
     and_then (fail_if (fb_from_cursor b < 0 \<or> fb_through_cursor b < fb_from_cursor b) Validation) (\<lambda>_.
     and_then (fail_if (length (fb_events b) > MAX_FEDERATION_EVENTS) Validation) (\<lambda>_.
     and_then (verifying_key_from_b64 X (fb_origin_node_public_key b)) (\<lambda>node_key.
     and_then (fail_if (prefixed_id X ''cwnode_'' node_key \<noteq> fb_origin_node_id b) Unauthorized) (\<lambda>_.
     and_then (verify_checkpoint X (fb_checkpoint b)) (\<lambda>_.
     and_then (fail_if (cp_node_id (fb_checkpoint b) \<noteq> fb_origin_node_id b \<or>
                        cp_node_public_key (fb_checkpoint b) \<noteq> fb_origin_node_public_key b \<or>
                        cp_cursor (fb_checkpoint b) \<noteq> fb_through_cursor b) Unauthorized) (\<lambda>_.
     and_then (fail_if (len (fb_events b) \<noteq> fb_through_cursor b - fb_from_cursor b) Validation) (\<lambda>_.
     and_then (fold_result (verify_origin_event X node_key (fb_from_cursor b)) (fb_events b)
                 (bundle_start (fb_from_cursor b))) (\<lambda>_.
     and_then (fail_if (fb_events b \<noteq> [] \<and>
                        cp_event_hash (fb_checkpoint b) \<noteq> oe_event_hash (last (fb_events b))) Unauthorized) (\<lambda>_.
       fail_if (fb_through_cursor b = 0 \<and> cp_event_hash (fb_checkpoint b) \<noteq> zero_hash)
         Unauthorized))))))))))"

definition verify_replication_receipt :: "ext \<Rightarrow> replication_receipt \<Rightarrow> unit result" where
  "verify_replication_receipt X r =
     and_then (fail_if (rc_protocol r \<noteq> PROTOCOL_VERSION) Validation) (\<lambda>_.
     and_then (verify_checkpoint X (rc_origin_checkpoint r)) (\<lambda>_.
     and_then (fail_if (cp_cursor (rc_origin_checkpoint r) < 0) Validation) (\<lambda>_.
     and_then (decode_hash X Validation (cp_event_hash (rc_origin_checkpoint r))) (\<lambda>_.
     and_then (fail_if (cp_cursor (rc_origin_checkpoint r) = 0 \<and>
                        cp_event_hash (rc_origin_checkpoint r) \<noteq> zero_hash) Unauthorized) (\<lambda>_.
     and_then (verifying_key_from_b64 X (rc_relay_node_public_key r)) (\<lambda>relay_key.
     and_then (fail_if (prefixed_id X ''cwnode_'' relay_key \<noteq> rc_relay_node_id r) Unauthorized) (\<lambda>_.
     and_then (fail_if (rc_relay_node_id r = cp_node_id (rc_origin_checkpoint r)) Validation) (\<lambda>_.
       verify_object X relay_key REPLICATION_RECEIPT_DOMAIN (e_replication_receipt X r)
         (rc_signature r)))))))))"

section \<open>Serving the own log\<close>

definition checkpoint_at :: "ext \<Rightarrow> node_identity \<Rightarrow> int \<Rightarrow> int \<Rightarrow> database \<Rightarrow> checkpoint result" where
  "checkpoint_at X me now cursor db =
     and_then (event_hash_at db cursor) (\<lambda>hash.
     let c = \<lparr> cp_node_id = node_id me, cp_node_public_key = node_public_key me, cp_cursor = cursor,
               cp_event_hash = hash, cp_created_at = now, cp_signature = [] \<rparr> in
     and_then (sign_object X (node_secret me) CHECKPOINT_DOMAIN (e_checkpoint X c)) (\<lambda>s.
       Inr (c\<lparr>cp_signature := s\<rparr>)))"

text \<open>\<open>limit.clamp(1, MAX_FEDERATION_EVENTS)\<close>\<close>

definition clamp_limit :: "nat \<Rightarrow> nat" where
  "clamp_limit n = max 1 (min n MAX_FEDERATION_EVENTS)"

definition federation_bundle_after ::
  "ext \<Rightarrow> node_identity \<Rightarrow> int \<Rightarrow> int \<Rightarrow> nat \<Rightarrow> database \<Rightarrow> federation_bundle result" where
  "federation_bundle_after X me now after limit db =
     and_then (fail_if (after < 0) Validation) (\<lambda>_.
     and_then (fail_if (after > fst (current_head db)) Validation) (\<lambda>_.
     and_then (origin_events_after X db after (clamp_limit limit)) (\<lambda>evs.
     let through = (if evs = [] then after else oe_sequence (last evs)) in
     and_then (checkpoint_at X me now through db) (\<lambda>c.
       Inr \<lparr> fb_protocol = PROTOCOL_VERSION, fb_origin_node_id = node_id me,
             fb_origin_node_public_key = node_public_key me, fb_from_cursor = after,
             fb_through_cursor = through, fb_events = evs, fb_checkpoint = c \<rparr>))))"

section \<open>Answers to a bundle\<close>

definition make_checkpoint_witness ::
  "ext \<Rightarrow> node_identity \<Rightarrow> int \<Rightarrow> federation_bundle \<Rightarrow> checkpoint_witness result" where
  "make_checkpoint_witness X me now b =
     (let w = \<lparr> cw_protocol = PROTOCOL_VERSION, cw_witness_node_id = node_id me,
                cw_witness_node_public_key = node_public_key me, cw_origin_node_id = fb_origin_node_id b,
                cw_origin_node_public_key = fb_origin_node_public_key b,
                cw_cursor = cp_cursor (fb_checkpoint b), cw_event_hash = cp_event_hash (fb_checkpoint b),
                cw_origin_checkpoint = fb_checkpoint b, cw_observed_at = now, cw_signature = [] \<rparr> in
      and_then (sign_object X (node_secret me) WITNESS_DOMAIN (e_checkpoint_witness X w)) (\<lambda>s.
        Inr (w\<lparr>cw_signature := s\<rparr>)))"

definition make_replication_receipt ::
  "ext \<Rightarrow> node_identity \<Rightarrow> int \<Rightarrow> checkpoint \<Rightarrow> replication_receipt result" where
  "make_replication_receipt X me now c =
     and_then (verify_checkpoint X c) (\<lambda>_.
     and_then (fail_if (cp_node_id c = node_id me) Validation) (\<lambda>_.
     let r = \<lparr> rc_protocol = PROTOCOL_VERSION, rc_relay_node_id = node_id me,
               rc_relay_node_public_key = node_public_key me, rc_origin_checkpoint = c,
               rc_retained_at = now, rc_signature = [] \<rparr> in
     and_then (sign_object X (node_secret me) REPLICATION_RECEIPT_DOMAIN (e_replication_receipt X r)) (\<lambda>s.
       Inr (r\<lparr>rc_signature := s\<rparr>))))"

section \<open>Lemmas on the verifier\<close>

lemma verify_origin_event_Inr:
  assumes "verify_origin_event X key from_cursor e s = Inr s'"
  shows "oe_sequence e = bs_expected s" and "bs_expected s' = bs_expected s + 1"
    and "bs_previous s' = Some (oe_event_hash e)"
    and "bs_previous s = Some p \<Longrightarrow> oe_previous_hash e = p"
    and "\<exists>c. canonical_origin_record X e = Inr c \<and>
      oe_event_hash e = x_hex_encode X (event_hash X (hash_bytes X (oe_previous_hash e)) c)"
    and "length (hash_bytes X (oe_previous_hash e)) = 32"
    and "\<exists>c. x_jcs X (oe_canonical e) = Some c \<and> oe_event_id e = prefixed_id X ''cwevt_'' c"
  using assms
  by (auto simp: verify_origin_event_def Let_def decode_hash_def hash_bytes_def
      split: if_splits option.splits)

definition origin_bytes :: "ext \<Rightarrow> origin_event \<Rightarrow> string" where
  "origin_bytes X e = (case canonical_origin_record X e of Inr c \<Rightarrow> c | Inl _ \<Rightarrow> [])"

interpretation bundle_chain: hash_chain
  "verify_origin_event X key from_cursor" "\<lambda>s. map_option (hash_bytes X) (bs_previous s)"
  "\<lambda>e s. hash_bytes X (oe_previous_hash e)" "origin_bytes X"
  "\<lambda>h c. hash_bytes X (x_hex_encode X (event_hash X h c))"
  for X key from_cursor
proof
  fix e s s' h
  assume "verify_origin_event X key from_cursor e s = Inr s'" and "map_option (hash_bytes X) (bs_previous s) = Some h"
  then show "hash_bytes X (oe_previous_hash e) = h" by (auto dest: verify_origin_event_Inr(4))
next
  fix e s s'
  assume v: "verify_origin_event X key from_cursor e s = Inr s'"
  then show "map_option (hash_bytes X) (bs_previous s') = Some (hash_bytes X
      (x_hex_encode X (event_hash X (hash_bytes X (oe_previous_hash e)) (origin_bytes X e))))"
    using verify_origin_event_Inr(3,5) [OF v] by (auto simp: origin_bytes_def)
qed

text \<open>The events of a verified bundle are numbered without a gap.\<close>

lemma bundle_sequences:
  assumes "fold_result (verify_origin_event X key f) es s = Inr t"
  shows "map oe_sequence es = map (\<lambda>i. bs_expected s + int i) [0..<length es] \<and>
    bs_expected t = bs_expected s + len es"
  using assms
proof (induction es arbitrary: t rule: rev_induct)
  case Nil
  then show ?case by simp
next
  case (snoc e es)
  obtain m where m: "fold_result (verify_origin_event X key f) es s = Inr m"
    "verify_origin_event X key f e m = Inr t"
    using snoc.prems by (auto simp: fold_result_snoc_Inr)
  from snoc.IH [OF m(1)] verify_origin_event_Inr(1,2) [OF m(2)] show ?case by (simp add: len_def)
qed

lemma verify_bundle_Inr:
  assumes "verify_bundle X b = Inr u"
  obtains key t where "verifying_key_from_b64 X (fb_origin_node_public_key b) = Inr key"
    "prefixed_id X ''cwnode_'' key = fb_origin_node_id b"
    "verify_checkpoint X (fb_checkpoint b) = Inr ()"
    "cp_node_id (fb_checkpoint b) = fb_origin_node_id b"
    "cp_cursor (fb_checkpoint b) = fb_through_cursor b"
    "0 \<le> fb_from_cursor b" "len (fb_events b) = fb_through_cursor b - fb_from_cursor b"
    "length (fb_events b) \<le> MAX_FEDERATION_EVENTS"
    "fold_result (verify_origin_event X key (fb_from_cursor b)) (fb_events b)
       (bundle_start (fb_from_cursor b)) = Inr t"
    "fb_events b \<noteq> [] \<longrightarrow> cp_event_hash (fb_checkpoint b) = oe_event_hash (last (fb_events b))"
    "fb_through_cursor b = 0 \<longrightarrow> cp_event_hash (fb_checkpoint b) = zero_hash"
  using assms by (auto simp: verify_bundle_def not_less)

text \<open>No addition or subtraction of the verifier leaves the range of \<open>i64\<close>.\<close>

lemma bundle_cursors_in_range:
  assumes "i64_range (fb_from_cursor b)" and "i64_range (fb_through_cursor b)"
    and "0 \<le> fb_from_cursor b" and "fb_from_cursor b \<le> fb_through_cursor b"
    and "len (fb_events b) = fb_through_cursor b - fb_from_cursor b" and "i < length (fb_events b)"
  shows "i64_range (fb_through_cursor b - fb_from_cursor b) \<and> i64_range (fb_from_cursor b + int i + 1)"
  using assms by (auto simp: i64_range_def len_def)

text \<open>The bytes whose SHA-256 is the hash of an event.\<close>

definition origin_preimage :: "ext \<Rightarrow> origin_event \<Rightarrow> string" where
  "origin_preimage X e = LOG_DOMAIN @ hash_bytes X (oe_previous_hash e) @ origin_bytes X e"

lemma bundle_inputs:
  assumes "fold_result (verify_origin_event X key f) es s = Inr t"
  shows "chain_inputs (verify_origin_event X key f) (\<lambda>e s. hash_bytes X (oe_previous_hash e)) (origin_bytes X) es s =
    map (\<lambda>e. (hash_bytes X (oe_previous_hash e), origin_bytes X e)) es"
  using assms by (induction es arbitrary: s) (auto split: sum.splits)

lemma bundle_events_checked:
  assumes "fold_result (verify_origin_event X key f) es s = Inr t" and "e \<in> set es"
  obtains m m' where "verify_origin_event X key f e m = Inr m'"
proof -
  obtain us vs where "es = us @ [e] @ vs" using assms(2) by (auto simp: in_set_conv_decomp)
  with assms(1) show ?thesis
    by (auto simp: fold_result_append_Inr fold_result_single simp del: fold_result.simps append_Cons intro: that)
qed

lemma bundle_reaches:
  assumes "fold_result (verify_origin_event X key f) es s = Inr t" and "es \<noteq> []"
  shows "bs_previous t = Some (oe_event_hash (last es))"
proof -
  obtain us u where "es = us @ [u]" using assms(2) by (cases es rule: rev_cases) auto
  with assms(1) show ?thesis
    by (auto simp: fold_result_snoc_Inr dest: verify_origin_event_Inr(3))
qed

lemma origin_pair_inj:
  assumes hex: "hex_laws X" and ok: "\<And>e. e \<in> E \<Longrightarrow> length (hash_bytes X (oe_previous_hash e)) = 32"
    and inj: "inj_on (x_sha256 X) (origin_preimage X ` E)"
  shows "inj_on (\<lambda>(h, c). hash_bytes X (x_hex_encode X (event_hash X h c)))
    ((\<lambda>e. (hash_bytes X (oe_previous_hash e), origin_bytes X e)) ` E)"
proof (rule inj_onI, clarsimp)
  fix e e'
  assume e: "e \<in> E" "e' \<in> E"
    and eq: "hash_bytes X (x_hex_encode X (event_hash X (hash_bytes X (oe_previous_hash e)) (origin_bytes X e))) =
      hash_bytes X (x_hex_encode X (event_hash X (hash_bytes X (oe_previous_hash e')) (origin_bytes X e')))"
  have "hash_bytes X (x_hex_encode X b) = b" for b using hex by (simp add: hash_bytes_def hex_laws_def)
  with eq have "x_sha256 X (origin_preimage X e) = x_sha256 X (origin_preimage X e')"
    by (simp add: origin_preimage_def event_hash_def)
  then have "origin_preimage X e = origin_preimage X e'"
    by (rule inj_onD [OF inj]) (use e in simp_all)
  then show "hash_bytes X (oe_previous_hash e) = hash_bytes X (oe_previous_hash e') \<and>
      origin_bytes X e = origin_bytes X e'"
    using ok [OF e(1)] ok [OF e(2)] by (simp add: origin_preimage_def)
qed

text \<open>What the hash of an event fixes, besides its place in the chain.\<close>

definition attested :: "ext \<Rightarrow> origin_event \<Rightarrow> int \<times> string \<times> string \<times> string result" where
  "attested X e = (oe_sequence e, hash_bytes X (oe_previous_hash e), oe_event_hash e,
     canonical_origin_record X e)"

lemma attested_eq:
  assumes "verify_origin_event X key f e m = Inr m'" and "verify_origin_event X key' f' e' n = Inr n'"
    and "oe_sequence e = oe_sequence e'"
    and "hash_bytes X (oe_previous_hash e) = hash_bytes X (oe_previous_hash e')"
    and "origin_bytes X e = origin_bytes X e'"
  shows "attested X e = attested X e'"
  using verify_origin_event_Inr(5) [OF assms(1)] verify_origin_event_Inr(5) [OF assms(2)] assms(3-5)
  by (auto simp: attested_def origin_bytes_def)

lemma chains_agree:
  assumes laws: "hex_laws X"
    and run: "fold_result (verify_origin_event X key f) es (bundle_start f) = Inr t"
      "fold_result (verify_origin_event X key f) es' (bundle_start f) = Inr t'"
    and len: "length es = length es'" and ends: "es \<noteq> [] \<Longrightarrow> oe_event_hash (last es) = oe_event_hash (last es')"
    and inj: "inj_on (x_sha256 X) (origin_preimage X ` set (es @ es'))"
  shows "map (attested X) es = map (attested X) es'"
proof (cases "es = []")
  case True
  then show ?thesis using len by simp
next
  case False
  then have ne: "es' \<noteq> []" using len by auto
  let ?pair = "\<lambda>e. (hash_bytes X (oe_previous_hash e), origin_bytes X e)"
  have ok: "length (hash_bytes X (oe_previous_hash e)) = 32" if "e \<in> set (es @ es')" for e
    using that run by (auto elim!: bundle_events_checked intro: verify_origin_event_Inr(6))
  have "inj_on (\<lambda>(h, c). hash_bytes X (x_hex_encode X (event_hash X h c))) (?pair ` set (es @ es'))"
    by (rule origin_pair_inj [OF laws ok inj])
  moreover have "bs_previous t = bs_previous t'"
    using bundle_reaches [OF run(1) False] bundle_reaches [OF run(2) ne] ends [OF False] by simp
  ultimately have pairs: "map ?pair es = map ?pair es'"
    using bundle_chain.agree [OF run len] bundle_inputs [OF run(1)] bundle_inputs [OF run(2)]
    by (simp add: image_Un)
  show ?thesis
  proof (rule nth_equalityI)
    fix i assume "i < length (map (attested X) es)"
    then have i: "i < length es" "i < length es'" using len by simp_all
    have "map oe_sequence es ! i = map oe_sequence es' ! i"
      using bundle_sequences [OF run(1)] bundle_sequences [OF run(2)] len by simp
    then have seq: "oe_sequence (es ! i) = oe_sequence (es' ! i)" using i by simp
    have eq: "?pair (es ! i) = ?pair (es' ! i)" using arg_cong [OF pairs, of "\<lambda>l. l ! i"] i by simp
    obtain m m' where m: "verify_origin_event X key f (es ! i) m = Inr m'"
      using bundle_events_checked [OF run(1)] i by (metis nth_mem)
    obtain n n' where n: "verify_origin_event X key f (es' ! i) n = Inr n'"
      using bundle_events_checked [OF run(2)] i by (metis nth_mem)
    from attested_eq [OF m n seq] eq i show "map (attested X) es ! i = map (attested X) es' ! i" by simp
  qed (use len in simp)
qed

section \<open>Lemmas on the served bundle\<close>

text \<open>A stored row is portable when its canonical text is that of a safe value of bounded size: the
  receiving node measures and hashes the value it parsed, not the text.\<close>

definition portable_row :: "ext \<Rightarrow> event_row \<Rightarrow> bool" where
  "portable_row X r \<longleftrightarrow> (\<exists>v. json_safe v \<and> x_jcs X v = Some (ev_canonical_json r)) \<and>
     len (ev_canonical_json r) \<le> MAX_CANONICAL_OBJECT_BYTES"

definition portable_log :: "ext \<Rightarrow> database \<Rightarrow> bool" where
  "portable_log X db \<longleftrightarrow> (\<forall>r\<in>set (events db). portable_row X r)"

lemma portable_log_append:
  assumes "portable_log X db" and "faithful_input X input"
    and "append_event X me now input db = Inr (acc, db')"
  shows "portable_log X db'"
  using assms(3)
proof (rule append_event_Inr)
  fix row prev c
  assume "row = new_event_row X me now input db prev c" "db' = db\<lparr>events := events db @ [row]\<rparr>"
    "len (in_canonical_json input) \<le> MAX_CANONICAL_OBJECT_BYTES"
  with assms(1,2) show ?thesis by (auto simp: portable_log_def portable_row_def faithful_input_def)
qed

lemma portable_log_cong: "events db = events db' \<Longrightarrow> portable_log X db = portable_log X db'"
  by (simp add: portable_log_def)

context logged_operation
begin

lemma keeps_portable:
  assumes "ext_laws X" and "wire_ok a" and "portable_log X db" and "op a db = Inr (acc, db')"
  shows "portable_log X db'"
proof -
  obtain now input db1 where "faithful_input X input" "append_event X me now input db = Inr (acc, db1)"
    "events db' = events db1"
    using logged [OF assms(1,2,4)] by blast
  with assms(3) show ?thesis using portable_log_append portable_log_cong by blast
qed

end

text \<open>A row that verifies locally, read out as an origin event, verifies at a peer.\<close>

lemma origin_event_of_portable:
  assumes laws: "json_laws X" and p: "portable_row X r"
  obtains v where "x_json_parse X (ev_canonical_json r) = Some v" "x_jcs X v = Some (ev_canonical_json r)"
    "len (x_json_print X v) \<le> MAX_CANONICAL_OBJECT_BYTES"
proof -
  from p obtain v where v: "json_safe v" "x_jcs X v = Some (ev_canonical_json r)"
    by (auto simp: portable_row_def)
  with p jcs_parse [OF laws v] jcs_length [OF laws v] show ?thesis
    by (intro that) (auto simp: portable_row_def len_def)
qed

lemma served_event_verifies:
  assumes laws: "ext_laws X" and p: "portable_row X r" and row: "verify_row X key r c = Inr c'"
    and cur: "length (lc_previous c) = 32" and e: "origin_event_of X r = Inr e"
    and s: "bs_expected s = lc_expected c"
      "bs_previous s = None \<longrightarrow> from_cursor = 0 \<longrightarrow> lc_previous c = zero_bytes"
      "bs_previous s \<noteq> None \<longrightarrow> bs_previous s = Some (x_hex_encode X (lc_previous c))"
  shows "verify_origin_event X key from_cursor e s =
    Inr \<lparr> bs_expected = lc_expected c', bs_previous = Some (lc_head c') \<rparr>"
proof -
  have l: "hex_laws X" "json_laws X" using laws by (simp_all add: ext_laws_def)
  obtain v where v: "x_json_parse X (ev_canonical_json r) = Some v" "x_jcs X v = Some (ev_canonical_json r)"
    "len (x_json_print X v) \<le> MAX_CANONICAL_OBJECT_BYTES"
    using origin_event_of_portable [OF l(2) p] by blast
  have d: "decode_hash X Validation (x_hex_encode X (lc_previous c)) = Inr (lc_previous c)"
    by (rule decode_hash_encode [OF l(1) cur])
  have z: "x_hex_encode X zero_bytes = zero_hash" using l(1) by (simp add: hex_laws_def)
  from row v have r: "ev_event_id r = prefixed_id X ''cwevt_'' (ev_canonical_json r)"
    by (auto simp: verify_row_def validate_raw_event_projection_def from_text_eval Let_def)
  from row obtain b sig where b: "canonical_log_record X r = Inr b"
    "ev_event_hash r = x_hex_encode X (event_hash X (lc_previous c) b)"
    "signature_from_b64 X (ev_node_signature r) = Inr sig"
    "x_ed_verify X key (event_hash X (lc_previous c) b) sig"
    by (auto simp: verify_row_def Let_def)
  have e': "oe_canonical e = v" "oe_sequence e = lc_expected c" "oe_event_id e = ev_event_id r"
    "oe_previous_hash e = x_hex_encode X (lc_previous c)" "oe_event_hash e = ev_event_hash r"
    "oe_node_signature e = ev_node_signature r" "canonical_origin_record X e = Inr b"
    using e v(1) b(1) verify_row_Inr(1,2) [OF row]
    by (auto simp: origin_event_of_def from_text_eval canonical_log_record_def canonical_origin_record_def
        from_value_eval)
  show ?thesis
    using v b d e' r s z verify_row_Inr(5,7) [OF row]
    by (cases "bs_previous s") (simp_all add: verify_origin_event_def not_less)
qed

lemma served_chain_verifies:
  assumes laws: "ext_laws X" and "fold_result (verify_row X key) rs c = Inr c'"
    and "\<forall>r\<in>set rs. portable_row X r" and "length (lc_previous c) = 32"
    and "map_result (origin_event_of X) rs = Inr es" and "bs_expected s = lc_expected c"
    and "bs_previous s = None \<longrightarrow> from_cursor = 0 \<longrightarrow> lc_previous c = zero_bytes"
    and "bs_previous s \<noteq> None \<longrightarrow> bs_previous s = Some (x_hex_encode X (lc_previous c))"
  shows "\<exists>t. fold_result (verify_origin_event X key from_cursor) es s = Inr t"
  using assms(2-)
proof (induction rs arbitrary: c s es)
  case Nil
  then show ?case by simp
next
  case (Cons r rs)
  obtain m where m: "verify_row X key r c = Inr m" "fold_result (verify_row X key) rs m = Inr c'"
    using Cons.prems(1) by (auto split: sum.splits)
  obtain e es' where e: "es = e # es'" "origin_event_of X r = Inr e" "map_result (origin_event_of X) rs = Inr es'"
    using Cons.prems(4) by (auto split: sum.splits)
  let ?s = "\<lparr> bs_expected = lc_expected m, bs_previous = Some (lc_head m) \<rparr>"
  have step: "verify_origin_event X key from_cursor e s = Inr ?s"
    using served_event_verifies [OF laws _ m(1) Cons.prems(3) e(2) Cons.prems(5-7)] Cons.prems(2) by simp
  have "length (lc_previous m) = 32" "lc_head m = x_hex_encode X (lc_previous m)"
    using verify_row_Inr(3,4,7) [OF m(1)] laws by (auto simp: ext_laws_def)
  then have "\<exists>t. fold_result (verify_origin_event X key from_cursor) es' ?s = Inr t"
    by (intro Cons.IH [OF m(2) _ _ e(3)]) (use Cons.prems(2) in simp_all)
  with step e(1) show ?case by simp
qed

lemma verified_row_numbers:
  assumes "hash_laws X" and "hex_laws X" and "verify_log X me db = Inr (n, h)"
  shows "map ev_sequence (events db) = map (\<lambda>i. int i + 1) [0..<length (events db)]"
    and "n = len (events db)" and "current_head db = (n, h)"
proof -
  obtain key s where s: "fold_result (verify_row X key) (events db) log_start = Inr s" "n = lc_cursor s" "h = lc_head s"
    using assms(3) by (rule verify_log_rows)
  show "map ev_sequence (events db) = map (\<lambda>i. int i + 1) [0..<length (events db)]"
    using verified_sequences [OF assms(1,2) s(1)] by (intro nth_equalityI) simp_all
  have c: "cursor_ok X (events db) s" by (rule verified_cursor [OF assms(1,2) s(1)])
  then show "n = len (events db)" by (simp add: cursor_ok_def len_def s(2))
  show "current_head db = (n, h)"
  proof (cases "events db = []")
    case True
    then have "s = log_start" using s(1) by simp
    with True s(2,3) show ?thesis by (simp add: current_head_def log_start_def)
  next
    case False
    with c s(2,3) show ?thesis by (simp add: cursor_ok_def current_head_def)
  qed
qed

lemma numbered_filter:
  assumes "map f xs = map (\<lambda>i. int i + 1) [0..<length xs]"
  shows "filter (\<lambda>x. f x > int k) xs = drop k xs"
proof -
  have nth: "f (xs ! i) = int i + 1" if "i < length xs" for i
    using arg_cong [OF assms, of "\<lambda>l. l ! i"] that by simp
  have "filter (\<lambda>x. f x > int k) (take k xs) = []"
    using nth by (auto simp: filter_empty_conv in_set_conv_nth)
  moreover have "filter (\<lambda>x. f x > int k) (drop k xs) = drop k xs"
    using nth by (auto simp: filter_id_conv in_set_conv_nth)
  ultimately show ?thesis by (metis append_take_drop_id filter_append self_append_conv2)
qed

lemma numbered_row:
  assumes "map f xs = map (\<lambda>i. int i + 1) [0..<length xs]" and "i < length xs"
  shows "first_row (\<lambda>x. f x = int i + 1) xs = Some (xs ! i)"
proof -
  have nth: "f (xs ! i) = int i + 1" if "i < length xs" for i
    using arg_cong [OF assms(1), of "\<lambda>l. l ! i"] that by simp
  have "distinct (map f xs)" using assms(1) by (simp add: distinct_map inj_on_def)
  from first_row_key [OF this nth_mem [OF assms(2)] nth [OF assms(2)]] show ?thesis .
qed

text \<open>Every row of a portable log can be read out.\<close>

lemma origin_event_of_Inr:
  "origin_event_of X r = Inr e \<Longrightarrow> oe_sequence e = ev_sequence r \<and> oe_event_hash e = ev_event_hash r"
  by (auto simp: origin_event_of_def)

lemma origin_events_total:
  assumes "json_laws X" and "\<forall>r\<in>set rs. portable_row X r"
  shows "\<exists>es. map_result (origin_event_of X) rs = Inr es \<and> length es = length rs \<and>
    (\<forall>i<length rs. oe_sequence (es ! i) = ev_sequence (rs ! i) \<and> oe_event_hash (es ! i) = ev_event_hash (rs ! i))"
proof -
  have "\<exists>e. origin_event_of X r = Inr e" if "r \<in> set rs" for r
  proof -
    have "portable_row X r" using assms(2) that by blast
    then obtain v where "x_json_parse X (ev_canonical_json r) = Some v"
      by (rule origin_event_of_portable [OF assms(1)])
    then have "from_text X Some (ev_canonical_json r) = Inr v" by simp
    then show ?thesis unfolding origin_event_of_def by (simp only: and_then_simps) blast
  qed
  then have "\<forall>r\<in>set rs. \<exists>e. origin_event_of X r = Inr e" by blast
  from bchoice [OF this] obtain g where g: "\<forall>r\<in>set rs. origin_event_of X r = Inr (g r)" ..
  have "map_result (origin_event_of X) rs = Inr (map g rs)"
    using g by (auto simp: map_result_Inr list_all2_conv_all_nth)
  moreover have "oe_sequence (g r) = ev_sequence r \<and> oe_event_hash (g r) = ev_event_hash r" if "r \<in> set rs" for r
    by (rule origin_event_of_Inr [OF bspec [OF g that]])
  ultimately show ?thesis by (intro exI [of _ "map g rs"]) simp
qed

lemma checkpoint_at_verifies:
  assumes laws: "ext_laws X" and me: "identity_ok X me" and h: "event_hash_at db cursor = Inr hash"
    and c: "\<bar>cursor\<bar> \<le> 2 ^ 53"
  obtains cp where "checkpoint_at X me now cursor db = Inr cp" "verify_checkpoint X cp = Inr ()"
    "cp_node_id cp = node_id me" "cp_node_public_key cp = node_public_key me" "cp_cursor cp = cursor"
    "cp_event_hash cp = hash"
proof -
  let ?c = "\<lparr> cp_node_id = node_id me, cp_node_public_key = node_public_key me, cp_cursor = cursor,
               cp_event_hash = hash, cp_created_at = now, cp_signature = [] \<rparr>"
  have l: "b64_laws X" "sig_laws X" "json_laws X" using laws by (simp_all add: ext_laws_def)
  have "json_safe (JObj (remove_key ''signature'' (case e_checkpoint X ?c of JObj fs \<Rightarrow> fs)))"
    using c by (simp add: e_checkpoint_def byte_of_def)
  then obtain t where "canonical_without_signature X (e_checkpoint X ?c) = Inr t"
    using jcs_total [OF l(3)] by (fastforce simp: canonical_without_signature_def e_checkpoint_def)
  then obtain s where s: "sign_object X (node_secret me) CHECKPOINT_DOMAIN (e_checkpoint X ?c) = Inr s"
    by (auto simp: sign_object_def signing_preimage_def)
  have len: "length (node_secret me) = 32" using me by (simp add: identity_ok_def)
  have "verify_object X (x_ed_public X (node_secret me)) CHECKPOINT_DOMAIN
      (e_checkpoint X (?c\<lparr>cp_signature := s\<rparr>)) s = Inr ()"
    by (rule verify_sign_object [OF l(1,2) len s]) (simp only: preimage_checkpoint)
  then have "verify_checkpoint X (?c\<lparr>cp_signature := s\<rparr>) = Inr ()"
    using identity_key [OF l(1,2) me] me by (simp add: verify_checkpoint_def identity_ok_def)
  moreover have "checkpoint_at X me now cursor db = Inr (?c\<lparr>cp_signature := s\<rparr>)"
    using h s by (simp add: checkpoint_at_def)
  ultimately show ?thesis by (intro that [of "?c\<lparr>cp_signature := s\<rparr>"]) simp_all
qed

lemma event_hash_at_verified:
  assumes "map ev_sequence (events db) = map (\<lambda>i. int i + 1) [0..<length (events db)]"
    and "0 < k" and "k \<le> length (events db)"
  shows "event_hash_at db (int k) = Inr (ev_event_hash (events db ! (k - 1)))"
  using numbered_row [OF assms(1), of "k - 1"] assms(2,3) by (simp add: event_hash_at_def of_nat_diff)

text \<open>The slice of a verified log that answers a request.\<close>

lemma verified_slice:
  assumes laws: "ext_laws X" and v: "fold_result (verify_row X key) rows log_start = Inr s"
    and port: "\<forall>r\<in>set rows. portable_row X r" and k: "k \<le> length rows"
    and es: "map_result (origin_event_of X) (take m (drop k rows)) = Inr es"
  shows "\<exists>t. fold_result (verify_origin_event X key (int k)) es (bundle_start (int k)) = Inr t"
proof -
  have l: "hash_laws X" "hex_laws X" using laws by (simp_all add: ext_laws_def)
  have "rows = take k rows @ take m (drop k rows) @ drop m (drop k rows)" by (simp only: append_take_drop_id)
  with v obtain c c' where c: "fold_result (verify_row X key) (take k rows) log_start = Inr c"
    "fold_result (verify_row X key) (take m (drop k rows)) c = Inr c'"
    by (metis fold_result_append_Inr)
  have cur: "cursor_ok X (take k rows) c" by (rule verified_cursor [OF l c(1)])
  have zero: "lc_previous c = zero_bytes" if "k = 0" using c(1) that by (auto simp: log_start_def)
  have p: "\<forall>r\<in>set (take m (drop k rows)). portable_row X r"
    using port by (meson in_set_dropD in_set_takeD)
  show ?thesis
    by (rule served_chain_verifies [OF laws c(2) p _ es])
      (use cur k zero in \<open>auto simp: cursor_ok_def bundle_start_def\<close>)
qed

lemma served_through:
  assumes "map ev_sequence rows = map (\<lambda>i. int i + 1) [0..<length rows]" and "k \<le> length rows" and "0 < m"
    and "length es = length (take m (drop k rows))"
    and "\<forall>i<length (take m (drop k rows)). oe_sequence (es ! i) = ev_sequence (take m (drop k rows) ! i) \<and>
      oe_event_hash (es ! i) = ev_event_hash (take m (drop k rows) ! i)"
  shows "(if es = [] then int k else oe_sequence (last es)) = int (min (length rows) (k + m))"
    and "es \<noteq> [] \<Longrightarrow> oe_event_hash (last es) = ev_event_hash (rows ! (min (length rows) (k + m) - 1))"
proof -
  have nth: "ev_sequence (rows ! i) = int i + 1" if "i < length rows" for i
    using arg_cong [OF assms(1), of "\<lambda>l. l ! i"] that by simp
  have last: "oe_sequence (last es) = ev_sequence (rows ! (min (length rows) (k + m) - 1)) \<and>
      oe_event_hash (last es) = ev_event_hash (rows ! (min (length rows) (k + m) - 1))" if "es \<noteq> []"
  proof -
    have i: "length es - 1 < length (take m (drop k rows))" using that assms(4) by (cases es) auto
    have "take m (drop k rows) ! (length es - 1) = rows ! (min (length rows) (k + m) - 1)"
      using i assms(2,4) by (auto simp: min_def)
    with assms(5) i that show ?thesis by (simp add: last_conv_nth)
  qed
  have empty: "es = [] \<longleftrightarrow> k = length rows" using assms(2-4) by auto
  show "(if es = [] then int k else oe_sequence (last es)) = int (min (length rows) (k + m))"
    using last nth [of "min (length rows) (k + m) - 1"] empty assms(2,3) by (auto simp: of_nat_diff)
  show "es \<noteq> [] \<Longrightarrow> oe_event_hash (last es) = ev_event_hash (rows ! (min (length rows) (k + m) - 1))"
    using last by simp
qed

text \<open>The events that answer a request from cursor \<open>k\<close>, at most \<open>m\<close> of them.\<close>

lemma served_events:
  assumes laws: "ext_laws X" and v: "verify_log X me db = Inr (n, h)" and port: "portable_log X db"
    and k: "k \<le> length (events db)" "0 < m" and u: "u = min (length (events db)) (k + m)"
  obtains key es t hash where "verifying_key_from_b64 X (node_public_key me) = Inr key"
    "origin_events_after X db (int k) m = Inr es" "length es = u - k"
    "(if es = [] then int k else oe_sequence (last es)) = int u"
    "fold_result (verify_origin_event X key (int k)) es (bundle_start (int k)) = Inr t"
    "event_hash_at db (int u) = Inr hash" "u = 0 \<longrightarrow> hash = zero_hash"
    "es \<noteq> [] \<longrightarrow> hash = oe_event_hash (last es)"
proof -
  have l: "hash_laws X" "hex_laws X" "json_laws X" using laws by (simp_all add: ext_laws_def)
  note nums = verified_row_numbers [OF l(1,2) v]
  let ?rs = "take m (drop k (events db))"
  have p: "\<forall>r\<in>set (events db). portable_row X r" using port by (simp add: portable_log_def)
  then have "\<forall>r\<in>set ?rs. portable_row X r" by (meson in_set_dropD in_set_takeD)
  then obtain es where es: "map_result (origin_event_of X) ?rs = Inr es" "length es = length ?rs"
    "\<forall>i<length ?rs. oe_sequence (es ! i) = ev_sequence (?rs ! i) \<and> oe_event_hash (es ! i) = ev_event_hash (?rs ! i)"
    using origin_events_total [OF l(3)] by blast
  obtain key s where s: "verifying_key_from_b64 X (node_public_key me) = Inr key"
    "fold_result (verify_row X key) (events db) log_start = Inr s"
    using v by (rule verify_log_rows)
  obtain t where t: "fold_result (verify_origin_event X key (int k)) es (bundle_start (int k)) = Inr t"
    using verified_slice [OF laws s(2) p k(1) es(1)] by blast
  note thr = served_through [OF nums(1) k es(2,3), folded u]
  have len: "length es = u - k" using es(2) k u by auto
  have first: "event_hash_at db (int u) = Inr (ev_event_hash (events db ! (u - 1)))" if "0 < u"
    by (rule event_hash_at_verified [OF nums(1) that]) (simp add: u)
  show ?thesis
  proof (cases "u = 0")
    case True
    then show ?thesis
      using es(1) len t thr(1) s(1) numbered_filter [OF nums(1), of k]
      by (intro that [of key es t zero_hash]) (auto simp: origin_events_after_def event_hash_at_def)
  next
    case False
    with first show ?thesis
      using es(1) len t thr s(1) numbered_filter [OF nums(1), of k]
      by (intro that [of key es t "ev_event_hash (events db ! (u - 1))"]) (auto simp: origin_events_after_def)
  qed
qed

lemma served_bundle:
  assumes "ext_laws X" and "identity_ok X me" and "verify_log X me db = Inr (n, h)" and "portable_log X db"
    and "0 \<le> after" and "after \<le> n" and "n \<le> 2 ^ 53"
  shows "\<exists>b. federation_bundle_after X me now after limit db = Inr b \<and> verify_bundle X b = Inr () \<and>
    fb_from_cursor b = after \<and> fb_through_cursor b = min n (after + int (clamp_limit limit))"
proof -
  have l: "hash_laws X" "hex_laws X" "b64_laws X" "sig_laws X" using assms(1) by (simp_all add: ext_laws_def)
  note nums = verified_row_numbers [OF l(1,2) assms(3)]
  define k where "k = nat after"
  define m where "m = clamp_limit limit"
  define u where "u = min (length (events db)) (k + m)"
  have k: "after = int k" "k \<le> length (events db)" "0 < m" "m \<le> MAX_FEDERATION_EVENTS"
    using assms(5,6) nums(2) by (auto simp: k_def len_def m_def clamp_limit_def MAX_FEDERATION_EVENTS_def)
  obtain key es t hash where e: "verifying_key_from_b64 X (node_public_key me) = Inr key"
    "origin_events_after X db (int k) m = Inr es" "length es = u - k"
    "(if es = [] then int k else oe_sequence (last es)) = int u"
    "fold_result (verify_origin_event X key (int k)) es (bundle_start (int k)) = Inr t"
    "event_hash_at db (int u) = Inr hash" "u = 0 \<longrightarrow> hash = zero_hash"
    "es \<noteq> [] \<longrightarrow> hash = oe_event_hash (last es)"
    by (rule served_events [OF assms(1,3,4) k(2,3) u_def])
  have u: "k \<le> u" "int u = min n (after + int m)" "\<bar>int u\<bar> \<le> 2 ^ 53"
    using k nums(2) assms(7) by (auto simp: u_def len_def)
  obtain c where c: "checkpoint_at X me now (int u) db = Inr c" "verify_checkpoint X c = Inr ()"
    "cp_node_id c = node_id me" "cp_node_public_key c = node_public_key me" "cp_cursor c = int u"
    "cp_event_hash c = hash"
    by (rule checkpoint_at_verifies [OF assms(1,2) e(6) u(3)])
  let ?b = "\<lparr> fb_protocol = PROTOCOL_VERSION, fb_origin_node_id = node_id me,
             fb_origin_node_public_key = node_public_key me, fb_from_cursor = after,
             fb_through_cursor = int u, fb_events = es, fb_checkpoint = c \<rparr>"
  have "federation_bundle_after X me now after limit db = Inr ?b"
    using e(2,4) c(1) k(1) assms(5,6) nums(3) by (simp add: federation_bundle_after_def m_def Let_def)
  moreover have "key = x_ed_public X (node_secret me)" using e(1) identity_key [OF l(3,4) assms(2)] by simp
  then have "verify_bundle X ?b = Inr ()"
    using e k u c assms(2) by (auto simp: verify_bundle_def identity_ok_def len_def)
  ultimately show ?thesis using u(2) by (auto simp: m_def)
qed

text \<open>What a replication receipt is worth.\<close>

lemma replication_receipt_verifies:
  assumes "b64_laws X" and "sig_laws X" and "identity_ok X me"
    and "make_replication_receipt X me now c = Inr r"
  shows "rc_origin_checkpoint r = c \<and> rc_relay_node_id r = node_id me \<and>
    (verify_replication_receipt X r = Inr () \<longleftrightarrow> 0 \<le> cp_cursor c \<and>
       (\<exists>b. decode_hash X Validation (cp_event_hash c) = Inr b) \<and>
       (cp_cursor c = 0 \<longrightarrow> cp_event_hash c = zero_hash))"
proof -
  let ?r = "\<lparr> rc_protocol = PROTOCOL_VERSION, rc_relay_node_id = node_id me,
               rc_relay_node_public_key = node_public_key me, rc_origin_checkpoint = c,
               rc_retained_at = now, rc_signature = [] \<rparr>"
  from assms(4) obtain s where s: "verify_checkpoint X c = Inr ()" "cp_node_id c \<noteq> node_id me"
    "sign_object X (node_secret me) REPLICATION_RECEIPT_DOMAIN (e_replication_receipt X ?r) = Inr s"
    "r = ?r\<lparr>rc_signature := s\<rparr>"
    by (auto simp: make_replication_receipt_def Let_def)
  have "length (node_secret me) = 32" using assms(3) by (simp add: identity_ok_def)
  then have "verify_object X (x_ed_public X (node_secret me)) REPLICATION_RECEIPT_DOMAIN
      (e_replication_receipt X r) s = Inr ()"
    unfolding s(4) by (rule verify_sign_object [OF assms(1,2) _ s(3)]) (simp only: preimage_replication_receipt)
  then show ?thesis
    using s identity_key [OF assms(1-3)] assms(3)
    by (auto simp: verify_replication_receipt_def identity_ok_def not_less)
qed

section \<open>Properties\<close>

text \<open>C5: two bundles of one origin cannot disagree quietly.  Two bundles that verify under the same
  public key, cover the same range and close with the same checkpoint hash carry the same sequence
  numbers, hashes and canonical records, unless two of the messages they hash collide in SHA-256.\<close>

theorem verified_bundles_agree:
  assumes "hex_laws X" and "verify_bundle X b = Inr ()" and "verify_bundle X b' = Inr ()"
    and "fb_origin_node_public_key b = fb_origin_node_public_key b'"
    and "fb_from_cursor b = fb_from_cursor b'" and "fb_through_cursor b = fb_through_cursor b'"
    and "cp_event_hash (fb_checkpoint b) = cp_event_hash (fb_checkpoint b')"
    and "inj_on (x_sha256 X) (origin_preimage X ` set (fb_events b @ fb_events b'))"
  shows "map (attested X) (fb_events b) = map (attested X) (fb_events b')"
proof -
  from assms(2) obtain key t where k: "verifying_key_from_b64 X (fb_origin_node_public_key b) = Inr key"
    "len (fb_events b) = fb_through_cursor b - fb_from_cursor b"
    "fold_result (verify_origin_event X key (fb_from_cursor b)) (fb_events b) (bundle_start (fb_from_cursor b)) = Inr t"
    "fb_events b \<noteq> [] \<longrightarrow> cp_event_hash (fb_checkpoint b) = oe_event_hash (last (fb_events b))"
    by (rule verify_bundle_Inr)
  from assms(3) obtain key' t' where k': "verifying_key_from_b64 X (fb_origin_node_public_key b') = Inr key'"
    "len (fb_events b') = fb_through_cursor b' - fb_from_cursor b'"
    "fold_result (verify_origin_event X key' (fb_from_cursor b')) (fb_events b') (bundle_start (fb_from_cursor b')) = Inr t'"
    "fb_events b' \<noteq> [] \<longrightarrow> cp_event_hash (fb_checkpoint b') = oe_event_hash (last (fb_events b'))"
    by (rule verify_bundle_Inr)
  have len: "length (fb_events b) = length (fb_events b')" using k(2) k'(2) assms(5,6) by (simp add: len_def)
  have key: "key' = key" using k(1) k'(1) assms(4) by simp
  show ?thesis
  proof (rule chains_agree [OF assms(1) k(3) _ len _ assms(8)])
    show "fold_result (verify_origin_event X key (fb_from_cursor b)) (fb_events b') (bundle_start (fb_from_cursor b)) = Inr t'"
      using k'(3) key assms(5) by simp
    show "oe_event_hash (last (fb_events b)) = oe_event_hash (last (fb_events b'))" if "fb_events b \<noteq> []"
      using that k(4) k'(4) assms(7) len by fastforce
  qed
qed

section \<open>Example\<close>

text \<open>Two requests for the log with one registration, and a relay that answers the first.\<close>

definition demo_relay :: node_identity where
  "demo_relay = \<lparr> node_id = prefixed_id demo_ext ''cwnode_'' (x_ed_public demo_ext (pad 32 ''relay'')),
     node_public_key = x_b64_encode demo_ext (x_ed_public demo_ext (pad 32 ''relay'')),
     node_secret = pad 32 ''relay'' \<rparr>"

lemma demo_log_portable: "portable_log demo_ext demo_log"
proof -
  obtain acc where "append_event demo_ext demo_me 0 demo_input empty_database = Inr (acc, demo_log)"
    using demo_log_appended by blast
  from portable_log_append [OF _ demo_input_faithful this] show ?thesis by (simp add: portable_log_def)
qed

definition demo_bundle :: "int \<Rightarrow> federation_bundle result" where
  "demo_bundle now = federation_bundle_after demo_ext demo_me now 0 10 demo_log"

lemma demo_bundle_case:
  "(case demo_bundle 3 of Inl _ \<Rightarrow> False | Inr b \<Rightarrow>
     (case demo_bundle 4 of Inl _ \<Rightarrow> False | Inr b' \<Rightarrow>
       verify_bundle demo_ext b = Inr () \<and> verify_bundle demo_ext b' = Inr () \<and> length (fb_events b) = 1 \<and>
       fb_events b = fb_events b' \<and> cp_created_at (fb_checkpoint b) = 3 \<and> cp_created_at (fb_checkpoint b') = 4))"
  by code_simp

text \<open>The two answers differ only in the time of their checkpoints.\<close>

theorem verified_bundles_agree_witness:
  "\<exists>b b'. demo_bundle 3 = Inr b \<and> demo_bundle 4 = Inr b' \<and> b \<noteq> b' \<and>
     map (attested demo_ext) (fb_events b) = map (attested demo_ext) (fb_events b')"
proof -
  obtain b b' where b: "demo_bundle 3 = Inr b" "demo_bundle 4 = Inr b'" "verify_bundle demo_ext b = Inr ()"
    "verify_bundle demo_ext b' = Inr ()" "length (fb_events b) = 1" "fb_events b = fb_events b'"
    "cp_created_at (fb_checkpoint b) = 3" "cp_created_at (fb_checkpoint b') = 4"
    using demo_bundle_case by (auto split: sum.splits)
  obtain e where e: "fb_events b = [e]" using b(5) by (auto simp: length_Suc_conv)
  have hex: "hex_laws demo_ext" using demo_laws by (simp add: ext_laws_def)
  have k: "fb_origin_node_public_key b = fb_origin_node_public_key b'" "fb_from_cursor b = fb_from_cursor b'"
    using b(1,2) by (auto simp: demo_bundle_def federation_bundle_after_def Let_def)
  have t: "fb_through_cursor b = fb_through_cursor b'"
    using b(3,4,6) k(2) by (auto simp: verify_bundle_def)
  have c: "cp_event_hash (fb_checkpoint b) = cp_event_hash (fb_checkpoint b')"
    using b(3,4) b(6) e by (auto simp: verify_bundle_def)
  have "inj_on (x_sha256 demo_ext) (origin_preimage demo_ext ` set (fb_events b @ fb_events b'))"
    using e b(6) by auto
  from verified_bundles_agree [OF hex b(3,4) k t c this] b show ?thesis by force
qed

end
