(* ===== verification/Authority.thy ===== *)
theory Authority
  imports Event_Log Reference_Ext
begin

text \<open>
  Lineages, their signing keys and session delegations: the validators of
  \<^verbatim>\<open>src/src/service.rs\<close>, the signed operations the service accepts and the transactions of
  \<^verbatim>\<open>src/src/db.rs\<close> that record them.  A transaction that returns an error leaves the database as
  it was.  \<open>now\<close> is the clock the validators read, \<open>received\<close> the one the log stamps.
\<close>

section \<open>Validators\<close>

definition MAX_DELEGATION_DAYS :: int where "MAX_DELEGATION_DAYS = 30"
definition MAX_CLOCK_SKEW_MINUTES :: int where "MAX_CLOCK_SKEW_MINUTES = 5"

definition require_protocol :: "string \<Rightarrow> unit result" where
  "require_protocol protocol = fail_if (protocol \<noteq> PROTOCOL_VERSION) Validation"

definition validate_display_name :: "string \<Rightarrow> unit result" where
  "validate_display_name name =
     (let n = len (trim name) in fail_if (n < 2 \<or> n > 80) Validation)"

definition nonce_char :: "char \<Rightarrow> bool" where
  "nonce_char c \<longleftrightarrow> ascii_alphanumeric c \<or> c = CHR ''-'' \<or> c = CHR ''_''"

definition require_nonce :: "string \<Rightarrow> unit result" where
  "require_nonce nonce = check_all [
     fail_if (len nonce < 16 \<or> len nonce > 128) Validation,
     fail_if (\<not> list_all nonce_char nonce) Validation]"

definition require_control_reason :: "string \<Rightarrow> unit result" where
  "require_control_reason reason =
     (let r = trim reason in fail_if (r = [] \<or> len r > 1000) Validation)"

definition validate_authored_time_at :: "int \<Rightarrow> int \<Rightarrow> unit result" where
  "validate_authored_time_at created_at accepted_at =
     fail_if (created_at > accepted_at + minutes MAX_CLOCK_SKEW_MINUTES) Validation"

definition validate_authority_change_at :: "string \<Rightarrow> string \<Rightarrow> int \<Rightarrow> int \<Rightarrow> unit result" where
  "validate_authority_change_at nonce reason created_at accepted_at = check_all [
     require_nonce nonce,
     require_control_reason reason,
     validate_authored_time_at created_at accepted_at]"

definition validate_delegation_at :: "ext \<Rightarrow> session_delegation \<Rightarrow> int \<Rightarrow> unit result" where
  "validate_delegation_at X d accepted_at = check_all [
     require_nonce (sd_nonce d),
     fail_if (sd_scopes d = []) Validation,
     fail_if (\<not> distinct (sd_scopes d)) Validation,
     fail_if (sd_expires_at d \<le> sd_not_before d) Validation,
     fail_if (sd_expires_at d - sd_not_before d > days MAX_DELEGATION_DAYS) Validation,
     fail_if (sd_not_before d > accepted_at + minutes MAX_CLOCK_SKEW_MINUTES) Validation,
     and_then (verifying_key_from_b64 X (sd_session_public_key d)) (\<lambda>_. Inr ())]"

definition validate_memory_provenance :: "string \<Rightarrow> unit result" where
  "validate_memory_provenance statement = fail_if (blank statement) Validation"

definition validate_lists :: "string list \<Rightarrow> string list \<Rightarrow> unit result" where
  "validate_lists targets supersedes = check_all [
     fail_if (len targets > 32 \<or> len supersedes > 32) Validation,
     fail_if (list_ex (\<lambda>v. len v > 160) targets \<or> list_ex (\<lambda>v. len v > 160) supersedes)
       Validation]"

section \<open>Lookups\<close>

definition sql_max :: "int \<Rightarrow> int list \<Rightarrow> int" where
  "sql_max d xs = (case xs of [] \<Rightarrow> d | y # ys \<Rightarrow> fold max ys y)"

definition lineage_keys_of :: "database \<Rightarrow> string \<Rightarrow> lineage_key_row list" where
  "lineage_keys_of db l = filter (\<lambda>k. lk_lineage_id k = l) (lineage_keys db)"

definition lineage_from_connection :: "database \<Rightarrow> string \<Rightarrow> lineage_view result" where
  "lineage_from_connection db lineage =
     and_then (ok_or (first_row (\<lambda>r. lin_lineage_id r = lineage) (lineages db)) NotFound) (\<lambda>raw.
       Inr \<lparr> lv_lineage_id = lin_lineage_id raw, lv_display_name = lin_display_name raw,
             lv_public_key = lin_public_key raw, lv_created_at = lin_created_at raw,
             lv_registered_sequence = lin_registered_sequence raw,
             lv_key_version = sql_max 0 (map lk_key_version (lineage_keys_of db (lin_lineage_id raw))) \<rparr>)"

definition delegation :: "database \<Rightarrow> string \<Rightarrow> delegation_view result" where
  "delegation db d =
     and_then (ok_or (first_row (\<lambda>r. del_delegation_id r = d) (delegations db)) NotFound) (\<lambda>raw.
       Inr \<lparr> dv_delegation_id = del_delegation_id raw, dv_lineage_id = del_lineage_id raw,
             dv_session_public_key = del_session_public_key raw, dv_scopes = del_scopes raw,
             dv_not_before = del_not_before raw, dv_expires_at = del_expires_at raw,
             dv_revoked = (del_revoked_sequence raw \<noteq> None) \<rparr>)"

definition last_acknowledged_cursor :: "database \<Rightarrow> string \<Rightarrow> int" where
  "last_acknowledged_cursor db lineage =
     (case first_row (\<lambda>r. ack_lineage_id r = lineage) (acknowledgements db) of
        None \<Rightarrow> 0 | Some r \<Rightarrow> ack_cursor r)"

definition authorize_delegation ::
  "database \<Rightarrow> string \<Rightarrow> scope \<Rightarrow> int \<Rightarrow> int \<Rightarrow> delegation_view result" where
  "authorize_delegation db d needed created_at accepted_at =
     and_then (delegation db d) (\<lambda>v.
     and_then (check_all [
       fail_if (dv_revoked v) Unauthorized,
       fail_if (created_at < dv_not_before v \<or> created_at > dv_expires_at v) Unauthorized,
       fail_if (accepted_at > dv_expires_at v + minutes MAX_CLOCK_SKEW_MINUTES) Unauthorized,
       validate_authored_time_at created_at accepted_at,
       fail_if (needed \<notin> set (dv_scopes v)) Unauthorized]) (\<lambda>_. Inr v))"

section \<open>Database transactions\<close>

definition lineage_clash :: "lineage_row \<Rightarrow> lineage_row \<Rightarrow> bool" where
  "lineage_clash r s \<longleftrightarrow> lin_lineage_id r = lin_lineage_id s \<or> lin_public_key r = lin_public_key s"

definition lineage_key_clash :: "lineage_key_row \<Rightarrow> lineage_key_row \<Rightarrow> bool" where
  "lineage_key_clash r s \<longleftrightarrow>
     (lk_lineage_id r = lk_lineage_id s \<and> lk_key_version r = lk_key_version s) \<or>
     lk_public_key r = lk_public_key s"

definition delegation_clash :: "delegation_row \<Rightarrow> delegation_row \<Rightarrow> bool" where
  "delegation_clash r s \<longleftrightarrow>
     del_delegation_id r = del_delegation_id s \<or>
     (del_lineage_id r = del_lineage_id s \<and> del_nonce r = del_nonce s)"

definition revocation_clash :: "revocation_row \<Rightarrow> revocation_row \<Rightarrow> bool" where
  "revocation_clash r s \<longleftrightarrow>
     rev_delegation_id r = rev_delegation_id s \<or> rev_event_id r = rev_event_id s"

definition rotation_clash :: "rotation_row \<Rightarrow> rotation_row \<Rightarrow> bool" where
  "rotation_clash r s \<longleftrightarrow>
     (rot_lineage_id r = rot_lineage_id s \<and> rot_key_version r = rot_key_version s) \<or>
     rot_event_id r = rot_event_id s \<or> rot_new_public_key r = rot_new_public_key s"

text \<open>The event a control operation writes: no delegation, one target, no supersession.\<close>

definition control_input ::
  "string \<Rightarrow> string option \<Rightarrow> int \<Rightarrow> string \<Rightarrow> string \<Rightarrow> json \<Rightarrow> string \<Rightarrow> string \<Rightarrow> event_input" where
  "control_input kind lineage created nonce target payload canonical signature =
     \<lparr> in_kind = kind, in_lineage_id = lineage, in_delegation_id = None, in_created_at = created,
       in_author_nonce = Some nonce, in_targets = [target], in_supersedes = [],
       in_payload = payload, in_canonical_json = canonical, in_author_signature = Some signature \<rparr>"

definition db_register_lineage ::
  "ext \<Rightarrow> node_identity \<Rightarrow> int \<Rightarrow> string \<Rightarrow> lineage_registration \<Rightarrow> database \<Rightarrow>
   (accepted_object \<times> database) result" where
  "db_register_lineage X me received lineage reg db =
     and_then (fail_if
       (list_ex (\<lambda>r. lin_lineage_id r = lineage \<or> lin_public_key r = lr_public_key reg) (lineages db) \<or>
        list_ex (\<lambda>k. lk_public_key k = lr_public_key reg) (lineage_keys db)) Conflict) (\<lambda>_.
     let v = e_lineage_registration X reg in
     and_then (canonical_json X v) (\<lambda>canonical.
     and_then (append_event X me received
       (control_input ''lineage_registered'' None (lr_created_at reg) (lr_nonce reg) lineage v canonical
          (lr_signature reg)) db) (\<lambda>(accepted, db1).
     and_then (insert_unique lineage_clash
       \<lparr> lin_lineage_id = lineage, lin_display_name = lr_display_name reg,
         lin_public_key = lr_public_key reg, lin_created_at = millis (lr_created_at reg),
         lin_registered_sequence = acc_sequence accepted, lin_registration_json = canonical \<rparr>
       (lineages db1)) (\<lambda>ls.
     and_then (insert_unique lineage_key_clash
       \<lparr> lk_lineage_id = lineage, lk_key_version = 0, lk_public_key = lr_public_key reg,
         lk_valid_from_sequence = acc_sequence accepted, lk_valid_to_sequence = None,
         lk_rotation_event_id = None \<rparr> (lineage_keys db1)) (\<lambda>ks.
       Inr (accepted, db1\<lparr>lineages := ls, lineage_keys := ks\<rparr>))))))"

definition db_register_delegation ::
  "ext \<Rightarrow> node_identity \<Rightarrow> int \<Rightarrow> string \<Rightarrow> session_delegation \<Rightarrow> database \<Rightarrow>
   (accepted_object \<times> database) result" where
  "db_register_delegation X me received delegation_id d db =
     and_then (fail_if (list_ex (\<lambda>r. del_delegation_id r = delegation_id) (delegations db)) Conflict) (\<lambda>_.
     and_then (fail_if (\<not> list_ex (\<lambda>r. lin_lineage_id r = sd_lineage_id d) (lineages db)) NotFound) (\<lambda>_.
     let v = e_session_delegation X d in
     and_then (canonical_json X v) (\<lambda>canonical.
     and_then (append_event X me received
       (control_input ''delegation_registered'' (Some (sd_lineage_id d)) (sd_not_before d) (sd_nonce d)
          delegation_id v canonical (sd_signature d)) db) (\<lambda>(accepted, db1).
     and_then (insert_unique delegation_clash
       \<lparr> del_delegation_id = delegation_id, del_lineage_id = sd_lineage_id d,
         del_session_public_key = sd_session_public_key d, del_scopes = sd_scopes d,
         del_not_before = millis (sd_not_before d), del_expires_at = millis (sd_expires_at d),
         del_nonce = sd_nonce d, del_revoked_sequence = None,
         del_registered_sequence = acc_sequence accepted, del_delegation_json = canonical \<rparr>
       (delegations db1)) (\<lambda>ds.
       Inr (accepted, db1\<lparr>delegations := ds\<rparr>))))))"

definition mark_revoked :: "(delegation_row \<Rightarrow> bool) \<Rightarrow> int \<Rightarrow> delegation_row list \<Rightarrow> delegation_row list" where
  "mark_revoked P n ds =
     update_rows (\<lambda>r. P r \<and> del_revoked_sequence r = None) (\<lambda>r. r\<lparr>del_revoked_sequence := Some n\<rparr>) ds"

definition db_revoke_delegation ::
  "ext \<Rightarrow> node_identity \<Rightarrow> int \<Rightarrow> delegation_revocation \<Rightarrow> database \<Rightarrow>
   (accepted_object \<times> database) result" where
  "db_revoke_delegation X me received r db =
     and_then (ok_or (first_row (\<lambda>d. del_delegation_id d = dr_delegation_id r) (delegations db)) NotFound) (\<lambda>owner.
     and_then (fail_if (del_lineage_id owner \<noteq> dr_lineage_id r) Unauthorized) (\<lambda>_.
     and_then (fail_if (del_revoked_sequence owner \<noteq> None) Conflict) (\<lambda>_.
     let v = e_delegation_revocation X r in
     and_then (canonical_json X v) (\<lambda>canonical.
     and_then (append_event X me received
       (control_input ''delegation_revoked'' (Some (dr_lineage_id r)) (dr_created_at r) (dr_nonce r)
          (dr_delegation_id r) v canonical (dr_signature r)) db) (\<lambda>(accepted, db1).
     and_then (insert_unique revocation_clash
       \<lparr> rev_delegation_id = dr_delegation_id r, rev_lineage_id = dr_lineage_id r,
         rev_event_id = acc_id accepted, rev_reason = dr_reason r,
         rev_created_at = millis (dr_created_at r), rev_revocation_json = canonical \<rparr>
       (delegation_revocations db1)) (\<lambda>rs.
       Inr (accepted, db1\<lparr>
         delegations := mark_revoked (\<lambda>d. del_delegation_id d = dr_delegation_id r)
                          (acc_sequence accepted) (delegations db1),
         delegation_revocations := rs\<rparr>)))))))"

text \<open>The statements of a key rotation that follow the event, in their order.\<close>

definition apply_rotation ::
  "key_rotation_statement \<Rightarrow> int \<Rightarrow> string \<Rightarrow> accepted_object \<Rightarrow> database \<Rightarrow> database result" where
  "apply_rotation st version canonical accepted db =
     (let l = kr_lineage_id st; n = acc_sequence accepted;
          closed = update_rows (\<lambda>k. lk_lineage_id k = l \<and> lk_valid_to_sequence k = None)
                     (\<lambda>k. k\<lparr>lk_valid_to_sequence := Some n\<rparr>) (lineage_keys db) in
      and_then (fail_if (list_ex (\<lambda>r. lin_lineage_id r \<noteq> l \<and> lin_public_key r = kr_new_public_key st)
                  (lineages db)) Database) (\<lambda>_.
      and_then (insert_unique lineage_key_clash
        \<lparr> lk_lineage_id = l, lk_key_version = version, lk_public_key = kr_new_public_key st,
          lk_valid_from_sequence = n, lk_valid_to_sequence = None,
          lk_rotation_event_id = Some (acc_id accepted) \<rparr> closed) (\<lambda>ks.
      and_then (insert_unique rotation_clash
        \<lparr> rot_lineage_id = l, rot_key_version = version, rot_event_id = acc_id accepted,
          rot_previous_public_key = kr_previous_public_key st,
          rot_new_public_key = kr_new_public_key st,
          rot_revoke_existing_delegations = kr_revoke_existing_delegations st,
          rot_reason = kr_reason st, rot_created_at = millis (kr_created_at st),
          rot_rotation_json = canonical \<rparr> (lineage_rotations db)) (\<lambda>rs.
        Inr (db\<lparr>
          lineages := update_rows (\<lambda>r. lin_lineage_id r = l)
                        (\<lambda>r. r\<lparr>lin_public_key := kr_new_public_key st\<rparr>) (lineages db),
          lineage_keys := ks, lineage_rotations := rs,
          delegations := (if kr_revoke_existing_delegations st
                          then mark_revoked (\<lambda>d. del_lineage_id d = l) n (delegations db)
                          else delegations db)\<rparr>)))))"

definition db_rotate_lineage_key ::
  "ext \<Rightarrow> node_identity \<Rightarrow> int \<Rightarrow> signed_key_rotation \<Rightarrow> database \<Rightarrow>
   (accepted_object \<times> database) result" where
  "db_rotate_lineage_key X me received rotation db =
     (let st = sk_statement rotation in
      and_then (ok_or (first_row (\<lambda>r. lin_lineage_id r = kr_lineage_id st) (lineages db)) NotFound) (\<lambda>current.
      and_then (fail_if (lin_public_key current \<noteq> kr_previous_public_key st) Conflict) (\<lambda>_.
      and_then (fail_if (list_ex (\<lambda>k. lk_public_key k = kr_new_public_key st) (lineage_keys db)) Conflict) (\<lambda>_.
      let version = sql_max (- 1) (map lk_key_version (lineage_keys_of db (kr_lineage_id st))) + 1;
          v = e_signed_key_rotation X rotation in
      and_then (canonical_json X v) (\<lambda>canonical.
      and_then (append_event X me received
        (control_input ''lineage_key_rotated'' (Some (kr_lineage_id st)) (kr_created_at st) (kr_nonce st)
           (kr_lineage_id st) v canonical (sk_previous_signature rotation)) db) (\<lambda>(accepted, db1).
      and_then (apply_rotation st version canonical accepted db1) (\<lambda>db2.
        Inr (accepted, db2))))))))"

definition acknowledgement_input ::
  "ext \<Rightarrow> string \<Rightarrow> signed_acknowledgement \<Rightarrow> string \<Rightarrow> event_input" where
  "acknowledgement_input X lineage a canonical =
     \<lparr> in_kind = ''acknowledgement'', in_lineage_id = Some lineage,
       in_delegation_id = Some (sa_delegation_id a), in_created_at = sa_created_at a,
       in_author_nonce = Some (sa_nonce a), in_targets = [lineage], in_supersedes = [],
       in_payload = e_signed_acknowledgement X a, in_canonical_json = canonical,
       in_author_signature = Some (sa_signature a) \<rparr>"

definition append_acknowledgement ::
  "ext \<Rightarrow> node_identity \<Rightarrow> int \<Rightarrow> string \<Rightarrow> signed_acknowledgement \<Rightarrow> database \<Rightarrow>
   (accepted_object \<times> database) result" where
  "append_acknowledgement X me received lineage a db =
     (let head = sql_max 0 (map ev_sequence (events db));
          previous_cursor = last_acknowledged_cursor db lineage in
      and_then (fail_if (sa_cursor a > head) Validation) (\<lambda>_.
      and_then (fail_if (sa_cursor a < previous_cursor) Conflict) (\<lambda>_.
      and_then (canonical_json X (e_signed_acknowledgement X a)) (\<lambda>canonical.
      and_then (append_event X me received (acknowledgement_input X lineage a canonical) db) (\<lambda>(accepted, db1).
      let effective_cursor = (if sa_cursor a = head then acc_sequence accepted else sa_cursor a) in
        Inr (accepted, db1\<lparr>acknowledgements := upsert ack_lineage_id (\<lambda>_ new. new)
          \<lparr> ack_lineage_id = lineage, ack_cursor = effective_cursor, ack_event_id = acc_id accepted,
            ack_memory_provenance = sa_memory_provenance a, ack_updated_at = millis (sa_created_at a) \<rparr>
          (acknowledgements db1)\<rparr>))))))"

section \<open>Signed operations of the service\<close>

definition register_lineage ::
  "ext \<Rightarrow> node_identity \<Rightarrow> int \<Rightarrow> int \<Rightarrow> lineage_registration \<Rightarrow> database \<Rightarrow>
   (accepted_object \<times> database) result" where
  "register_lineage X me now received reg db =
     and_then (check_all [
       require_protocol (lr_protocol reg),
       validate_display_name (lr_display_name reg),
       require_nonce (lr_nonce reg),
       validate_authored_time_at (lr_created_at reg) now]) (\<lambda>_.
     and_then (verifying_key_from_b64 X (lr_public_key reg)) (\<lambda>public_key.
     and_then (verify_object X public_key LINEAGE_DOMAIN (e_lineage_registration X reg)
                 (lr_signature reg)) (\<lambda>_.
       db_register_lineage X me received (lineage_id_of X public_key) reg db)))"

definition register_delegation ::
  "ext \<Rightarrow> node_identity \<Rightarrow> int \<Rightarrow> int \<Rightarrow> session_delegation \<Rightarrow> database \<Rightarrow>
   (accepted_object \<times> database) result" where
  "register_delegation X me now received d db =
     and_then (check_all [require_protocol (sd_protocol d), validate_delegation_at X d now]) (\<lambda>_.
     and_then (lineage_from_connection db (sd_lineage_id d)) (\<lambda>lineage.
     and_then (verifying_key_from_b64 X (lv_public_key lineage)) (\<lambda>lineage_key.
     and_then (verify_object X lineage_key DELEGATION_DOMAIN (e_session_delegation X d)
                 (sd_signature d)) (\<lambda>_.
     and_then (canonical_without_signature X (e_session_delegation X d)) (\<lambda>bytes.
       db_register_delegation X me received (prefixed_id X ''cwdel_'' bytes) d db)))))"

definition revoke_delegation ::
  "ext \<Rightarrow> node_identity \<Rightarrow> int \<Rightarrow> int \<Rightarrow> delegation_revocation \<Rightarrow> database \<Rightarrow>
   (accepted_object \<times> database) result" where
  "revoke_delegation X me now received r db =
     and_then (check_all [
       require_protocol (dr_protocol r),
       validate_authority_change_at (dr_nonce r) (dr_reason r) (dr_created_at r) now]) (\<lambda>_.
     and_then (lineage_from_connection db (dr_lineage_id r)) (\<lambda>lineage.
     and_then (verifying_key_from_b64 X (lv_public_key lineage)) (\<lambda>lineage_key.
     and_then (verify_object X lineage_key REVOCATION_DOMAIN (e_delegation_revocation X r)
                 (dr_signature r)) (\<lambda>_.
       db_revoke_delegation X me received r db))))"

definition rotate_lineage_key ::
  "ext \<Rightarrow> node_identity \<Rightarrow> int \<Rightarrow> int \<Rightarrow> signed_key_rotation \<Rightarrow> database \<Rightarrow>
   (accepted_object \<times> database) result" where
  "rotate_lineage_key X me now received rotation db =
     (let st = sk_statement rotation; v = e_key_rotation_statement X st in
      and_then (check_all [
        require_protocol (kr_protocol st),
        validate_authority_change_at (kr_nonce st) (kr_reason st) (kr_created_at st) now,
        fail_if (kr_previous_public_key st = kr_new_public_key st) Validation]) (\<lambda>_.
      and_then (lineage_from_connection db (kr_lineage_id st)) (\<lambda>lineage.
      and_then (fail_if (lv_public_key lineage \<noteq> kr_previous_public_key st) Conflict) (\<lambda>_.
      and_then (verifying_key_from_b64 X (kr_previous_public_key st)) (\<lambda>previous_key.
      and_then (verifying_key_from_b64 X (kr_new_public_key st)) (\<lambda>new_key.
      and_then (verify_object X previous_key KEY_ROTATION_DOMAIN v (sk_previous_signature rotation)) (\<lambda>_.
      and_then (verify_object X new_key KEY_ROTATION_DOMAIN v (sk_new_signature rotation)) (\<lambda>_.
        db_rotate_lineage_key X me received rotation db))))))))"

definition acknowledge ::
  "ext \<Rightarrow> node_identity \<Rightarrow> int \<Rightarrow> int \<Rightarrow> signed_acknowledgement \<Rightarrow> database \<Rightarrow>
   (accepted_object \<times> database) result" where
  "acknowledge X me now received a db =
     and_then (check_all [
       require_protocol (sa_protocol a),
       require_nonce (sa_nonce a),
       fail_if (sa_cursor a < 0) Validation,
       validate_memory_provenance (mp_statement (sa_memory_provenance a))]) (\<lambda>_.
     and_then (authorize_delegation db (sa_delegation_id a) S_Ack (sa_created_at a) now) (\<lambda>d.
     and_then (verifying_key_from_b64 X (dv_session_public_key d)) (\<lambda>session_key.
     and_then (verify_object X session_key ACK_DOMAIN (e_signed_acknowledgement X a)
                 (sa_signature a)) (\<lambda>_.
       append_acknowledgement X me received (dv_lineage_id d) a db))))"

section \<open>Invariant: one open key per lineage, versions without gaps\<close>

definition history_ok :: "lineage_key_row list \<Rightarrow> bool" where
  "history_ok ks \<longleftrightarrow>
     ks \<noteq> [] \<and> map lk_key_version ks = map int [0..<length ks] \<and>
     (\<forall>i. Suc i < length ks \<longrightarrow>
        lk_valid_to_sequence (ks ! i) = Some (lk_valid_from_sequence (ks ! Suc i))) \<and>
     lk_valid_to_sequence (last ks) = None"

definition authority_ok :: "database \<Rightarrow> bool" where
  "authority_ok db \<longleftrightarrow>
     distinct (map lin_lineage_id (lineages db)) \<and>
     distinct (map lk_public_key (lineage_keys db)) \<and>
     distinct (map del_delegation_id (delegations db)) \<and>
     (\<forall>x\<in>set (lineages db). history_ok (lineage_keys_of db (lin_lineage_id x)) \<and>
        lk_public_key (last (lineage_keys_of db (lin_lineage_id x))) = lin_public_key x) \<and>
     lk_lineage_id ` set (lineage_keys db) \<subseteq> lin_lineage_id ` set (lineages db)"

text \<open>The public keys of a lineage, oldest first.\<close>

definition key_history :: "database \<Rightarrow> string \<Rightarrow> string list" where
  "key_history db l = map lk_public_key (lineage_keys_of db l)"

lemma sql_max_eq: "xs \<noteq> [] \<Longrightarrow> sql_max d xs = Max (set xs)"
  by (cases xs) (simp_all add: sql_max_def Max.set_eq_fold [symmetric])

lemma sql_max_versions: "n > 0 \<Longrightarrow> sql_max d (map int [0..<n]) = int n - 1"
proof -
  assume n: "n > 0"
  have "Max (int ` {0..<n}) = int n - 1"
    using n by (intro Max_eqI) (auto simp: image_iff intro!: bexI [of _ "n - 1"])
  with n show ?thesis by (simp add: sql_max_eq)
qed

abbreviation close_keys :: "string \<Rightarrow> int \<Rightarrow> lineage_key_row list \<Rightarrow> lineage_key_row list" where
  "close_keys l n ks \<equiv> update_rows (\<lambda>k. lk_lineage_id k = l \<and> lk_valid_to_sequence k = None)
     (\<lambda>k. k\<lparr>lk_valid_to_sequence := Some n\<rparr>) ks"

lemma filter_close_keys:
  "filter (\<lambda>k. lk_lineage_id k = l') (close_keys l n ks) =
     (if l' = l then close_keys l n (filter (\<lambda>k. lk_lineage_id k = l) ks)
      else filter (\<lambda>k. lk_lineage_id k = l') ks)"
  by (induction ks) (auto simp: update_rows_def)

lemma history_ok_extend:
  assumes ok: "history_ok ks" and l: "\<forall>k\<in>set ks. lk_lineage_id k = l"
    and new: "lk_key_version new = int (length ks)" "lk_valid_from_sequence new = n"
      "lk_valid_to_sequence new = None"
  shows "history_ok (close_keys l n ks @ [new])"
proof -
  from ok have ne: "ks \<noteq> []" and vs: "map lk_key_version ks = map int [0..<length ks]"
    and link: "\<And>i. Suc i < length ks \<Longrightarrow>
        lk_valid_to_sequence (ks ! i) = Some (lk_valid_from_sequence (ks ! Suc i))"
    and open_last: "lk_valid_to_sequence (last ks) = None"
    by (auto simp: history_ok_def)
  have nth: "close_keys l n ks ! i = (if lk_valid_to_sequence (ks ! i) = None
      then (ks ! i)\<lparr>lk_valid_to_sequence := Some n\<rparr> else ks ! i)" if "i < length ks" for i
    using that l by (simp add: update_rows_def)
  have last_nth: "last ks = ks ! (length ks - 1)" using ne by (rule last_conv_nth)
  have "lk_valid_to_sequence ((close_keys l n ks @ [new]) ! i) =
      Some (lk_valid_from_sequence ((close_keys l n ks @ [new]) ! Suc i))"
    if i: "Suc i < length ks + 1" for i
  proof (cases "Suc i < length ks")
    case True
    then show ?thesis using nth [of i] nth [of "Suc i"] link [of i] by (simp add: nth_append)
  next
    case False
    then have "i = length ks - 1" using i by simp
    then show ?thesis using nth [of i] open_last last_nth ne new by (simp add: nth_append)
  qed
  moreover have "map lk_key_version (close_keys l n ks @ [new]) = map int [0..<length ks + 1]"
    using vs new by (simp add: update_rows_keys [where key = lk_key_version])
  ultimately show ?thesis using new(3) by (simp add: history_ok_def)
qed

subsection \<open>What each transaction changes\<close>

lemma db_register_lineage_Inr:
  assumes "db_register_lineage X me received l reg db = Inr (acc, db')"
  obtains canonical row lin key where
    "canonical_json X (e_lineage_registration X reg) = Inr canonical"
    "append_event X me received (control_input ''lineage_registered'' None (lr_created_at reg)
       (lr_nonce reg) l (e_lineage_registration X reg) canonical (lr_signature reg)) db =
     Inr (acc, db\<lparr>events := events db @ [row]\<rparr>)"
    "\<forall>r\<in>set (lineages db). lin_lineage_id r \<noteq> l"
    "\<forall>k\<in>set (lineage_keys db). lk_public_key k \<noteq> lr_public_key reg"
    "lin_lineage_id lin = l" "lin_public_key lin = lr_public_key reg"
    "lk_lineage_id key = l" "lk_public_key key = lr_public_key reg" "lk_key_version key = 0"
    "lk_valid_to_sequence key = None"
    "db' = db\<lparr>events := events db @ [row], lineages := lineages db @ [lin],
              lineage_keys := lineage_keys db @ [key]\<rparr>"
proof -
  from assms obtain canonical db1 where a:
    "canonical_json X (e_lineage_registration X reg) = Inr canonical"
    "append_event X me received (control_input ''lineage_registered'' None (lr_created_at reg)
       (lr_nonce reg) l (e_lineage_registration X reg) canonical (lr_signature reg)) db = Inr (acc, db1)"
    by (auto simp: db_register_lineage_def Let_def)
  from append_event_frame [OF a(2)] obtain row where r: "db1 = db\<lparr>events := events db @ [row]\<rparr>" by blast
  show ?thesis
    by (rule that [OF a(1) a(2) [unfolded r]])
      (use assms a r in \<open>auto simp: db_register_lineage_def Let_def list_ex_iff\<close>)
qed

lemma db_register_delegation_Inr:
  assumes "db_register_delegation X me received i d db = Inr (acc, db')"
  obtains canonical row del where
    "canonical_json X (e_session_delegation X d) = Inr canonical"
    "append_event X me received (control_input ''delegation_registered'' (Some (sd_lineage_id d))
       (sd_not_before d) (sd_nonce d) i (e_session_delegation X d) canonical (sd_signature d)) db =
     Inr (acc, db\<lparr>events := events db @ [row]\<rparr>)"
    "\<forall>r\<in>set (delegations db). del_delegation_id r \<noteq> i"
    "\<exists>r\<in>set (lineages db). lin_lineage_id r = sd_lineage_id d"
    "del_delegation_id del = i" "del_lineage_id del = sd_lineage_id d" "del_scopes del = sd_scopes d"
    "del_session_public_key del = sd_session_public_key d" "del_revoked_sequence del = None"
    "del_not_before del = millis (sd_not_before d)" "del_expires_at del = millis (sd_expires_at d)"
    "db' = db\<lparr>events := events db @ [row], delegations := delegations db @ [del]\<rparr>"
proof -
  from assms obtain canonical db1 where a:
    "canonical_json X (e_session_delegation X d) = Inr canonical"
    "append_event X me received (control_input ''delegation_registered'' (Some (sd_lineage_id d))
       (sd_not_before d) (sd_nonce d) i (e_session_delegation X d) canonical (sd_signature d)) db =
     Inr (acc, db1)"
    by (auto simp: db_register_delegation_def Let_def)
  from append_event_frame [OF a(2)] obtain row where r: "db1 = db\<lparr>events := events db @ [row]\<rparr>" by blast
  show ?thesis
    by (rule that [OF a(1) a(2) [unfolded r]])
      (use assms a r in \<open>auto simp: db_register_delegation_def Let_def list_ex_iff\<close>)
qed

lemma db_revoke_delegation_Inr:
  assumes "db_revoke_delegation X me received r db = Inr (acc, db')"
  obtains canonical row owner rs where
    "canonical_json X (e_delegation_revocation X r) = Inr canonical"
    "append_event X me received (control_input ''delegation_revoked'' (Some (dr_lineage_id r))
       (dr_created_at r) (dr_nonce r) (dr_delegation_id r) (e_delegation_revocation X r) canonical
       (dr_signature r)) db = Inr (acc, db\<lparr>events := events db @ [row]\<rparr>)"
    "first_row (\<lambda>d. del_delegation_id d = dr_delegation_id r) (delegations db) = Some owner"
    "del_lineage_id owner = dr_lineage_id r" "del_revoked_sequence owner = None"
    "db' = db\<lparr>events := events db @ [row],
       delegations := mark_revoked (\<lambda>d. del_delegation_id d = dr_delegation_id r) (acc_sequence acc)
                        (delegations db),
       delegation_revocations := rs\<rparr>"
proof -
  from assms obtain owner canonical db1 where a:
    "first_row (\<lambda>d. del_delegation_id d = dr_delegation_id r) (delegations db) = Some owner"
    "canonical_json X (e_delegation_revocation X r) = Inr canonical"
    "append_event X me received (control_input ''delegation_revoked'' (Some (dr_lineage_id r))
       (dr_created_at r) (dr_nonce r) (dr_delegation_id r) (e_delegation_revocation X r) canonical
       (dr_signature r)) db = Inr (acc, db1)"
    by (auto simp: db_revoke_delegation_def Let_def)
  from append_event_frame [OF a(3)] obtain row where r: "db1 = db\<lparr>events := events db @ [row]\<rparr>" by blast
  show ?thesis
    by (rule that [OF a(2) a(3) [unfolded r] a(1)])
      (use assms a r in \<open>auto simp: db_revoke_delegation_def Let_def\<close>)
qed

lemma db_rotate_lineage_key_Inr:
  assumes "db_rotate_lineage_key X me received rotation db = Inr (acc, db')"
  obtains canonical row current new rs where
    "canonical_json X (e_signed_key_rotation X rotation) = Inr canonical"
    "append_event X me received (control_input ''lineage_key_rotated''
       (Some (kr_lineage_id (sk_statement rotation))) (kr_created_at (sk_statement rotation))
       (kr_nonce (sk_statement rotation)) (kr_lineage_id (sk_statement rotation))
       (e_signed_key_rotation X rotation) canonical (sk_previous_signature rotation)) db =
     Inr (acc, db\<lparr>events := events db @ [row]\<rparr>)"
    "first_row (\<lambda>r. lin_lineage_id r = kr_lineage_id (sk_statement rotation)) (lineages db) = Some current"
    "lin_public_key current = kr_previous_public_key (sk_statement rotation)"
    "\<forall>k\<in>set (lineage_keys db). lk_public_key k \<noteq> kr_new_public_key (sk_statement rotation)"
    "lk_lineage_id new = kr_lineage_id (sk_statement rotation)"
    "lk_public_key new = kr_new_public_key (sk_statement rotation)"
    "lk_key_version new =
       sql_max (- 1) (map lk_key_version (lineage_keys_of db (kr_lineage_id (sk_statement rotation)))) + 1"
    "lk_valid_from_sequence new = acc_sequence acc" "lk_valid_to_sequence new = None"
    "db' = db\<lparr>events := events db @ [row],
       lineages := update_rows (\<lambda>r. lin_lineage_id r = kr_lineage_id (sk_statement rotation))
                     (\<lambda>r. r\<lparr>lin_public_key := kr_new_public_key (sk_statement rotation)\<rparr>) (lineages db),
       lineage_keys := close_keys (kr_lineage_id (sk_statement rotation)) (acc_sequence acc)
                         (lineage_keys db) @ [new],
       lineage_rotations := rs,
       delegations := (if kr_revoke_existing_delegations (sk_statement rotation)
          then mark_revoked (\<lambda>d. del_lineage_id d = kr_lineage_id (sk_statement rotation))
                 (acc_sequence acc) (delegations db)
          else delegations db)\<rparr>"
proof -
  let ?st = "sk_statement rotation"
  from assms obtain current canonical db1 where a:
    "first_row (\<lambda>r. lin_lineage_id r = kr_lineage_id ?st) (lineages db) = Some current"
    "canonical_json X (e_signed_key_rotation X rotation) = Inr canonical"
    "append_event X me received (control_input ''lineage_key_rotated'' (Some (kr_lineage_id ?st))
       (kr_created_at ?st) (kr_nonce ?st) (kr_lineage_id ?st) (e_signed_key_rotation X rotation)
       canonical (sk_previous_signature rotation)) db = Inr (acc, db1)"
    by (auto simp: db_rotate_lineage_key_def Let_def)
  from append_event_frame [OF a(3)] obtain row where r: "db1 = db\<lparr>events := events db @ [row]\<rparr>" by blast
  let ?new = "\<lparr> lk_lineage_id = kr_lineage_id ?st,
      lk_key_version = sql_max (- 1) (map lk_key_version (lineage_keys_of db (kr_lineage_id ?st))) + 1,
      lk_public_key = kr_new_public_key ?st, lk_valid_from_sequence = acc_sequence acc,
      lk_valid_to_sequence = None, lk_rotation_event_id = Some (acc_id acc) \<rparr>"
  from assms a r obtain rs where "lin_public_key current = kr_previous_public_key ?st"
    "\<forall>k\<in>set (lineage_keys db). lk_public_key k \<noteq> kr_new_public_key ?st"
    "db' = db\<lparr>events := events db @ [row],
       lineages := update_rows (\<lambda>r. lin_lineage_id r = kr_lineage_id ?st)
                     (\<lambda>r. r\<lparr>lin_public_key := kr_new_public_key ?st\<rparr>) (lineages db),
       lineage_keys := close_keys (kr_lineage_id ?st) (acc_sequence acc) (lineage_keys db) @ [?new],
       lineage_rotations := rs,
       delegations := (if kr_revoke_existing_delegations ?st
          then mark_revoked (\<lambda>d. del_lineage_id d = kr_lineage_id ?st) (acc_sequence acc) (delegations db)
          else delegations db)\<rparr>"
    by (auto simp: db_rotate_lineage_key_def apply_rotation_def Let_def list_ex_iff split del: if_split cong: if_cong)
  then show ?thesis by (intro that [OF a(2) a(3) [unfolded r] a(1), of ?new rs]) simp_all
qed

lemma append_acknowledgement_Inr:
  assumes "append_acknowledgement X me received l a db = Inr (acc, db')"
  obtains canonical row where
    "canonical_json X (e_signed_acknowledgement X a) = Inr canonical"
    "append_event X me received (acknowledgement_input X l a canonical) db =
     Inr (acc, db\<lparr>events := events db @ [row]\<rparr>)"
    "sa_cursor a \<le> sql_max 0 (map ev_sequence (events db))"
    "last_acknowledged_cursor db l \<le> sa_cursor a"
    "db' = db\<lparr>events := events db @ [row], acknowledgements := upsert ack_lineage_id (\<lambda>_ new. new)
          \<lparr> ack_lineage_id = l,
            ack_cursor = (if sa_cursor a = sql_max 0 (map ev_sequence (events db))
                          then acc_sequence acc else sa_cursor a),
            ack_event_id = acc_id acc, ack_memory_provenance = sa_memory_provenance a,
            ack_updated_at = millis (sa_created_at a) \<rparr> (acknowledgements db)\<rparr>"
proof -
  from assms obtain canonical db1 where a:
    "canonical_json X (e_signed_acknowledgement X a) = Inr canonical"
    "append_event X me received (acknowledgement_input X l a canonical) db = Inr (acc, db1)"
    by (auto simp: append_acknowledgement_def Let_def)
  from append_event_frame [OF a(2)] obtain row where r: "db1 = db\<lparr>events := events db @ [row]\<rparr>" by blast
  show ?thesis
    by (rule that [OF a(1) a(2) [unfolded r]])
      (use assms a r in \<open>auto simp: append_acknowledgement_def Let_def not_less\<close>)
qed

subsection \<open>Preservation\<close>

lemma authority_ok_cong:
  "lineages db' = lineages db \<Longrightarrow> lineage_keys db' = lineage_keys db \<Longrightarrow>
   map del_delegation_id (delegations db') = map del_delegation_id (delegations db) \<Longrightarrow>
   authority_ok db' = authority_ok db"
  by (simp add: authority_ok_def lineage_keys_of_def)

lemma mark_revoked_ids [simp]: "map del_delegation_id (mark_revoked P n ds) = map del_delegation_id ds"
  by (simp add: mark_revoked_def)

lemma unregistered_no_keys:
  assumes "authority_ok db" and "\<forall>r\<in>set (lineages db). lin_lineage_id r \<noteq> l"
  shows "lineage_keys_of db l = []"
proof -
  have "lk_lineage_id ` set (lineage_keys db) \<subseteq> lin_lineage_id ` set (lineages db)"
    using assms(1) by (simp add: authority_ok_def)
  with assms(2) show ?thesis by (fastforce simp: lineage_keys_of_def filter_empty_conv)
qed

lemma authority_ok_register_lineage:
  assumes "authority_ok db" and "db_register_lineage X me received l reg db = Inr (acc, db')"
  shows "authority_ok db' \<and> key_history db' = (key_history db)(l := [lr_public_key reg])"
  using assms(2)
proof (rule db_register_lineage_Inr, goal_cases)
  case (1 canonical row lin key)
  have none: "lineage_keys_of db l = []" using unregistered_no_keys assms(1) 1(3) by blast
  have keys: "lineage_keys_of db' l' = (if l' = l then [key] else lineage_keys_of db l')" for l'
    using none 1(7,11) by (simp add: lineage_keys_of_def)
  have "history_ok [key]" using 1(9,10) by (simp add: history_ok_def)
  then have "authority_ok db'"
    using assms(1) 1(3-8) keys unfolding authority_ok_def 1(11) by (auto simp: image_iff)
  then show ?thesis using keys 1(8) by (auto simp: key_history_def fun_eq_iff)
qed

lemma authority_ok_register_delegation:
  assumes "authority_ok db" and "db_register_delegation X me received i d db = Inr (acc, db')"
  shows "authority_ok db' \<and> key_history db' = key_history db"
  using assms(2)
  by (rule db_register_delegation_Inr)
    (use assms(1) in \<open>auto simp: authority_ok_def key_history_def lineage_keys_of_def fun_eq_iff image_iff\<close>)

lemma authority_ok_revoke_delegation:
  assumes "authority_ok db" and "db_revoke_delegation X me received r db = Inr (acc, db')"
  shows "authority_ok db' \<and> key_history db' = key_history db"
  using assms(2)
  by (rule db_revoke_delegation_Inr)
    (use assms(1) in \<open>auto simp: authority_ok_def key_history_def lineage_keys_of_def fun_eq_iff\<close>)

lemma authority_ok_append_acknowledgement:
  assumes "authority_ok db" and "append_acknowledgement X me received l a db = Inr (acc, db')"
  shows "authority_ok db' \<and> key_history db' = key_history db"
  using assms(2)
  by (rule append_acknowledgement_Inr)
    (use assms(1) in \<open>auto simp: authority_ok_def key_history_def lineage_keys_of_def fun_eq_iff\<close>)

lemma rotation_keys:
  assumes "db_rotate_lineage_key X me received rotation db = Inr (acc, db')"
    and "l = kr_lineage_id (sk_statement rotation)"
  obtains new where
    "\<And>l'. lineage_keys_of db' l' =
       (if l' = l then close_keys l (acc_sequence acc) (lineage_keys_of db l) @ [new]
        else lineage_keys_of db l')"
    "lk_public_key new = kr_new_public_key (sk_statement rotation)"
    "lk_key_version new = sql_max (- 1) (map lk_key_version (lineage_keys_of db l)) + 1"
    "lk_valid_from_sequence new = acc_sequence acc" "lk_valid_to_sequence new = None"
    "lk_lineage_id new = l"
    "lineage_keys db' = close_keys l (acc_sequence acc) (lineage_keys db) @ [new]"
  using assms(1)
proof (rule db_rotate_lineage_key_Inr, goal_cases)
  case (1 canonical row current new rs)
  show ?case
    by (rule that [of new])
      (use 1 assms(2) in \<open>simp_all add: lineage_keys_of_def filter_close_keys\<close>)
qed

lemma key_history_rotate:
  assumes "db_rotate_lineage_key X me received rotation db = Inr (acc, db')"
  shows "key_history db' = (key_history db)(kr_lineage_id (sk_statement rotation) :=
    key_history db (kr_lineage_id (sk_statement rotation)) @ [kr_new_public_key (sk_statement rotation)])"
  by (rule rotation_keys [OF assms refl]) (auto simp: key_history_def fun_eq_iff)

lemma authority_ok_rotate:
  assumes ok: "authority_ok db" and rot: "db_rotate_lineage_key X me received rotation db = Inr (acc, db')"
  shows "authority_ok db'"
  using rot
proof (rule db_rotate_lineage_key_Inr, goal_cases)
  case (1 canonical row current new rs)
  let ?l = "kr_lineage_id (sk_statement rotation)" and ?new = "kr_new_public_key (sk_statement rotation)"
  have keys: "lineage_keys_of db' l' =
      (if l' = ?l then close_keys ?l (acc_sequence acc) (lineage_keys_of db ?l) @ [new]
       else lineage_keys_of db l')" for l'
    using 1(6,11) by (simp add: lineage_keys_of_def filter_close_keys)
  have cur: "current \<in> set (lineages db)" "lin_lineage_id current = ?l" using first_row_Some [OF 1(3)] by auto
  have old: "history_ok (lineage_keys_of db ?l)" using ok cur by (auto simp: authority_ok_def)
  then have "lk_key_version new = int (length (lineage_keys_of db ?l))"
    using 1(8) sql_max_versions [of "length (lineage_keys_of db ?l)" "- 1"]
    by (simp add: history_ok_def)
  then have hist: "history_ok (close_keys ?l (acc_sequence acc) (lineage_keys_of db ?l) @ [new])"
    using history_ok_extend [OF old] 1(9,10) by (simp add: lineage_keys_of_def)
  have lins: "lineages db' = update_rows (\<lambda>r. lin_lineage_id r = ?l)
      (\<lambda>r. r\<lparr>lin_public_key := ?new\<rparr>) (lineages db)" using 1(11) by simp
  have "\<forall>x\<in>set (lineages db'). history_ok (lineage_keys_of db' (lin_lineage_id x)) \<and>
      lk_public_key (last (lineage_keys_of db' (lin_lineage_id x))) = lin_public_key x"
    using ok hist 1(7) by (auto simp: authority_ok_def lins in_update_rows keys)
  moreover have "distinct (map lin_lineage_id (lineages db'))"
    using ok by (simp add: authority_ok_def lins)
  moreover have "distinct (map lk_public_key (lineage_keys db'))"
    using ok 1(5,7,11) by (auto simp: authority_ok_def in_update_rows)
  moreover have "distinct (map del_delegation_id (delegations db'))"
    using ok 1(11) by (simp add: authority_ok_def)
  moreover have "lk_lineage_id ` set (lineage_keys db') \<subseteq> lin_lineage_id ` set (lineages db')"
  proof -
    have "lk_lineage_id ` set (lineage_keys db') = lk_lineage_id ` set (lineage_keys db) \<union> {?l}"
      using 1(6,11) by (auto simp: update_rows_def image_iff)
    moreover have "lin_lineage_id ` set (lineages db') = lin_lineage_id ` set (lineages db)"
      by (simp add: lins flip: set_map)
    moreover have "?l \<in> lin_lineage_id ` set (lineages db)" using cur by (metis imageI)
    ultimately show ?thesis using ok by (simp add: authority_ok_def)
  qed
  ultimately show ?thesis unfolding authority_ok_def by blast
qed

section \<open>The service operations as logged operations\<close>

text \<open>An accepted object that came over the wire carries instants RFC 3339 can express.\<close>

lemma faithful_control:
  assumes "json_laws X" and "json_safe v" and "canonical_json X v = Inr canonical"
    and "expected_projection X kind lineage v = Inr (mk_projection [target] [] v (Some sig) (Some nonce))"
  shows "faithful_input X (control_input kind lineage created nonce target v canonical sig)"
  using assms by (auto simp: faithful_input_def control_input_def canonical_json_def)

lemma logged_intro:
  assumes "faithful_input X input" and "append_event X me now input db = Inr (acc, db1)"
    and "events db' = events db1"
  shows "\<exists>now input db1. faithful_input X input \<and> append_event X me now input db = Inr (acc, db1) \<and>
    events db' = events db1"
  using assms by blast

lemma register_lineage_Inr:
  assumes "register_lineage X me now received reg db = Inr (acc, db')"
  obtains key where "verifying_key_from_b64 X (lr_public_key reg) = Inr key"
    "verify_object X key LINEAGE_DOMAIN (e_lineage_registration X reg) (lr_signature reg) = Inr ()"
    "db_register_lineage X me received (lineage_id_of X key) reg db = Inr (acc, db')"
  using assms by (auto simp: register_lineage_def)

lemma register_delegation_Inr:
  assumes "register_delegation X me now received d db = Inr (acc, db')"
  obtains lineage key bytes where "validate_delegation_at X d now = Inr ()"
    "lineage_from_connection db (sd_lineage_id d) = Inr lineage"
    "verifying_key_from_b64 X (lv_public_key lineage) = Inr key"
    "verify_object X key DELEGATION_DOMAIN (e_session_delegation X d) (sd_signature d) = Inr ()"
    "canonical_without_signature X (e_session_delegation X d) = Inr bytes"
    "db_register_delegation X me received (prefixed_id X ''cwdel_'' bytes) d db = Inr (acc, db')"
  using assms by (auto simp: register_delegation_def)

lemma revoke_delegation_Inr:
  assumes "revoke_delegation X me now received r db = Inr (acc, db')"
  obtains lineage key where
    "lineage_from_connection db (dr_lineage_id r) = Inr lineage"
    "verifying_key_from_b64 X (lv_public_key lineage) = Inr key"
    "verify_object X key REVOCATION_DOMAIN (e_delegation_revocation X r) (dr_signature r) = Inr ()"
    "db_revoke_delegation X me received r db = Inr (acc, db')"
  using assms by (auto simp: revoke_delegation_def)

lemma rotate_lineage_key_Inr:
  assumes "rotate_lineage_key X me now received rotation db = Inr (acc, db')"
  obtains lineage old new where
    "lineage_from_connection db (kr_lineage_id (sk_statement rotation)) = Inr lineage"
    "lv_public_key lineage = kr_previous_public_key (sk_statement rotation)"
    "verifying_key_from_b64 X (kr_previous_public_key (sk_statement rotation)) = Inr old"
    "verifying_key_from_b64 X (kr_new_public_key (sk_statement rotation)) = Inr new"
    "verify_object X old KEY_ROTATION_DOMAIN (e_key_rotation_statement X (sk_statement rotation))
       (sk_previous_signature rotation) = Inr ()"
    "verify_object X new KEY_ROTATION_DOMAIN (e_key_rotation_statement X (sk_statement rotation))
       (sk_new_signature rotation) = Inr ()"
    "db_rotate_lineage_key X me received rotation db = Inr (acc, db')"
  using assms by (auto simp: rotate_lineage_key_def Let_def)

lemma acknowledge_Inr:
  assumes "acknowledge X me now received a db = Inr (acc, db')"
  obtains d key where "0 \<le> sa_cursor a"
    "authorize_delegation db (sa_delegation_id a) S_Ack (sa_created_at a) now = Inr d"
    "verifying_key_from_b64 X (dv_session_public_key d) = Inr key"
    "verify_object X key ACK_DOMAIN (e_signed_acknowledgement X a) (sa_signature a) = Inr ()"
    "append_acknowledgement X me received (dv_lineage_id d) a db = Inr (acc, db')"
  using assms by (auto simp: acknowledge_def)

definition wire_delegation :: "session_delegation \<Rightarrow> bool" where
  "wire_delegation d \<longleftrightarrow> time_ok (sd_not_before d) \<and> time_ok (sd_expires_at d)"

definition wire_acknowledgement :: "signed_acknowledgement \<Rightarrow> bool" where
  "wire_acknowledgement a \<longleftrightarrow> time_ok (sa_created_at a) \<and> \<bar>sa_cursor a\<bar> \<le> 2 ^ 53"

lemma faithful_acknowledgement:
  assumes "json_laws X" and "time_laws X" and "wire_acknowledgement a"
    and "canonical_json X (e_signed_acknowledgement X a) = Inr canonical"
  shows "faithful_input X (acknowledgement_input X l a canonical)"
proof -
  have r: "i64_range (sa_cursor a)" "time_ok (sa_created_at a)"
    using assms(3) by (auto simp: wire_acknowledgement_def i64_range_def abs_le_iff)
  have "json_safe (e_signed_acknowledgement X a)"
    using assms(3) json_safe_signed_acknowledgement by (simp add: wire_acknowledgement_def)
  with assms(4) projection_acknowledgement [OF assms(2) r(2,1)] show ?thesis
    by (auto simp: faithful_input_def acknowledgement_input_def canonical_json_def)
qed

interpretation lineage_log: logged_operation X me
  "\<lambda>(now, received, obj). register_lineage X me now received obj"
  "\<lambda>(now, received, obj). time_ok (lr_created_at obj)" for X me
proof
  fix a db acc db'
  assume laws: "ext_laws X" and wire: "case a of (now, received, obj) \<Rightarrow> time_ok (lr_created_at obj)"
    and acc: "(case a of (now, received, obj) \<Rightarrow> register_lineage X me now received obj) db = Inr (acc, db')"
  obtain now received obj where a: "a = (now, received, obj)" by (cases a) auto
  have j: "json_laws X" "time_laws X" using laws by (simp_all add: ext_laws_def)
  have w: "time_ok (lr_created_at obj)" using wire a by simp
  from acc a have "register_lineage X me now received obj db = Inr (acc, db')" by simp
  then show "\<exists>now input db1. faithful_input X input \<and> append_event X me now input db = Inr (acc, db1) \<and>
      events db' = events db1"
  proof (rule register_lineage_Inr)
    fix key assume key: "verifying_key_from_b64 X (lr_public_key obj) = Inr key"
    assume "db_register_lineage X me received (lineage_id_of X key) obj db = Inr (acc, db')"
    then show ?thesis
    proof (rule db_register_lineage_Inr, goal_cases)
      case (1 canonical row lin lk)
      show ?case
        by (rule logged_intro [OF faithful_control [OF j(1) json_safe_lineage_registration 1(1)] 1(2)])
          (use w key j(2) 1 in \<open>simp_all add: projection_lineage_registered\<close>)
    qed
  qed
qed

interpretation delegation_log: logged_operation X me
  "\<lambda>(now, received, obj). register_delegation X me now received obj"
  "\<lambda>(now, received, obj). wire_delegation obj" for X me
proof
  fix a db acc db'
  assume laws: "ext_laws X" and wire: "case a of (now, received, obj) \<Rightarrow> wire_delegation obj"
    and acc: "(case a of (now, received, obj) \<Rightarrow> register_delegation X me now received obj) db = Inr (acc, db')"
  obtain now received obj where a: "a = (now, received, obj)" by (cases a) auto
  have j: "json_laws X" "time_laws X" using laws by (simp_all add: ext_laws_def)
  have w: "wire_delegation obj" using wire a by simp
  from acc a have "register_delegation X me now received obj db = Inr (acc, db')" by simp
  then show "\<exists>now input db1. faithful_input X input \<and> append_event X me now input db = Inr (acc, db1) \<and>
      events db' = events db1"
  proof (rule register_delegation_Inr)
    fix bytes assume bytes: "canonical_without_signature X (e_session_delegation X obj) = Inr bytes"
    assume "db_register_delegation X me received (prefixed_id X ''cwdel_'' bytes) obj db = Inr (acc, db')"
    then show ?thesis
    proof (rule db_register_delegation_Inr, goal_cases)
      case (1 canonical row del)
      show ?case
        by (rule logged_intro [OF faithful_control [OF j(1) json_safe_session_delegation 1(1)] 1(2)])
          (use w bytes j(2) 1 in \<open>simp_all add: projection_delegation_registered wire_delegation_def\<close>)
    qed
  qed
qed

interpretation revocation_log: logged_operation X me
  "\<lambda>(now, received, obj). revoke_delegation X me now received obj"
  "\<lambda>(now, received, obj). time_ok (dr_created_at obj)" for X me
proof
  fix a db acc db'
  assume laws: "ext_laws X" and wire: "case a of (now, received, obj) \<Rightarrow> time_ok (dr_created_at obj)"
    and acc: "(case a of (now, received, obj) \<Rightarrow> revoke_delegation X me now received obj) db = Inr (acc, db')"
  obtain now received obj where a: "a = (now, received, obj)" by (cases a) auto
  have j: "json_laws X" "time_laws X" using laws by (simp_all add: ext_laws_def)
  have w: "time_ok (dr_created_at obj)" using wire a by simp
  from acc a have "revoke_delegation X me now received obj db = Inr (acc, db')" by simp
  then show "\<exists>now input db1. faithful_input X input \<and> append_event X me now input db = Inr (acc, db1) \<and>
      events db' = events db1"
  proof (rule revoke_delegation_Inr)
    assume "db_revoke_delegation X me received obj db = Inr (acc, db')"
    then show ?thesis
    proof (rule db_revoke_delegation_Inr, goal_cases)
      case (1 canonical row owner rs)
      show ?case
        by (rule logged_intro [OF faithful_control [OF j(1) json_safe_delegation_revocation 1(1)] 1(2)])
          (use w j(2) 1 in \<open>simp_all add: projection_delegation_revoked\<close>)
    qed
  qed
qed

interpretation rotation_log: logged_operation X me
  "\<lambda>(now, received, obj). rotate_lineage_key X me now received obj"
  "\<lambda>(now, received, obj). time_ok (kr_created_at (sk_statement obj))" for X me
proof
  fix a db acc db'
  assume laws: "ext_laws X" and wire: "case a of (now, received, obj) \<Rightarrow> time_ok (kr_created_at (sk_statement obj))"
    and acc: "(case a of (now, received, obj) \<Rightarrow> rotate_lineage_key X me now received obj) db = Inr (acc, db')"
  obtain now received obj where a: "a = (now, received, obj)" by (cases a) auto
  have j: "json_laws X" "time_laws X" using laws by (simp_all add: ext_laws_def)
  have w: "time_ok (kr_created_at (sk_statement obj))" using wire a by simp
  from acc a have "rotate_lineage_key X me now received obj db = Inr (acc, db')" by simp
  then show "\<exists>now input db1. faithful_input X input \<and> append_event X me now input db = Inr (acc, db1) \<and>
      events db' = events db1"
  proof (rule rotate_lineage_key_Inr)
    assume "db_rotate_lineage_key X me received obj db = Inr (acc, db')"
    then show ?thesis
    proof (rule db_rotate_lineage_key_Inr, goal_cases)
      case (1 canonical row current new rs)
      show ?case
        by (rule logged_intro [OF faithful_control [OF j(1) json_safe_signed_key_rotation 1(1)] 1(2)])
          (use w j(2) 1 in \<open>simp_all add: projection_lineage_key_rotated\<close>)
    qed
  qed
qed

interpretation acknowledgement_log: logged_operation X me
  "\<lambda>(now, received, obj). acknowledge X me now received obj"
  "\<lambda>(now, received, obj). wire_acknowledgement obj" for X me
proof
  fix a db acc db'
  assume laws: "ext_laws X" and wire: "case a of (now, received, obj) \<Rightarrow> wire_acknowledgement obj"
    and acc: "(case a of (now, received, obj) \<Rightarrow> acknowledge X me now received obj) db = Inr (acc, db')"
  obtain now received obj where a: "a = (now, received, obj)" by (cases a) auto
  have j: "json_laws X" "time_laws X" using laws by (simp_all add: ext_laws_def)
  have w: "wire_acknowledgement obj" using wire a by simp
  from acc a have "acknowledge X me now received obj db = Inr (acc, db')" by simp
  then show "\<exists>now input db1. faithful_input X input \<and> append_event X me now input db = Inr (acc, db1) \<and>
      events db' = events db1"
  proof (rule acknowledge_Inr)
    fix d assume "append_acknowledgement X me received (dv_lineage_id d) obj db = Inr (acc, db')"
    then show ?thesis
    proof (rule append_acknowledgement_Inr, goal_cases)
      case (1 canonical row)
      have "faithful_input X (acknowledgement_input X (dv_lineage_id d) obj canonical)"
        by (rule faithful_acknowledgement [OF j w 1(1)])
      then show ?case by (rule logged_intro [OF _ 1(2)]) (use 1 in simp)
    qed
  qed
qed

section \<open>Authorization and acknowledgement lemmas\<close>

lemma authorize_delegation_Inr:
  "authorize_delegation db d sc created accepted = Inr v \<longleftrightarrow>
     delegation db d = Inr v \<and> \<not> dv_revoked v \<and>
     dv_not_before v \<le> created \<and> created \<le> dv_expires_at v \<and>
     accepted \<le> dv_expires_at v + minutes MAX_CLOCK_SKEW_MINUTES \<and>
     created \<le> accepted + minutes MAX_CLOCK_SKEW_MINUTES \<and> sc \<in> set (dv_scopes v)"
  by (auto simp: authorize_delegation_def validate_authored_time_at_def not_less)

lemma authorize_revoked:
  assumes "first_row (\<lambda>r. del_delegation_id r = d) (delegations db) = Some row"
    and "del_revoked_sequence row \<noteq> None"
  shows "authorize_delegation db d sc created accepted = Inl Unauthorized"
  using assms by (auto simp: authorize_delegation_def delegation_def)

lemma first_row_mark_revoked:
  assumes "first_row (\<lambda>r. del_delegation_id r = d) ds = Some row"
  shows "first_row (\<lambda>r. del_delegation_id r = d) (mark_revoked P n ds) =
    Some (if P row \<and> del_revoked_sequence row = None then row\<lparr>del_revoked_sequence := Some n\<rparr> else row)"
  using assms by (induction ds) (auto simp: mark_revoked_def update_rows_def split: if_splits)

lemma verified_head_max:
  assumes "hash_laws X" and "hex_laws X" and "verify_log X me db = Inr (n, h)"
  shows "sql_max 0 (map ev_sequence (events db)) = n"
proof -
  obtain k s where s: "fold_result (verify_row X k) (events db) log_start = Inr s" "n = lc_cursor s"
    using assms(3) by (rule verify_log_rows)
  have seqs: "map ev_sequence (events db) = map (\<lambda>i. int i + 1) [0..<length (events db)]"
    by (rule nth_equalityI) (simp_all add: verified_sequences [OF assms(1,2) s(1)])
  have "n = int (length (events db))" using verified_cursor [OF assms(1,2) s(1)] s(2)
    by (simp add: cursor_ok_def)
  moreover have "Max ((\<lambda>i. int i + 1) ` {0..<k}) = int k" if "k > 0" for k
    using that by (intro Max_eqI) (auto simp: image_iff intro!: bexI [of _ "k - 1"])
  ultimately show ?thesis
    by (cases "events db = []") (simp_all add: seqs sql_max_eq, simp add: sql_max_def)
qed

lemma acknowledged_cursor_upsert:
  "last_acknowledged_cursor (db\<lparr>acknowledgements :=
      upsert ack_lineage_id (\<lambda>_ new. new) row (acknowledgements db)\<rparr>) l =
   (if l = ack_lineage_id row then ack_cursor row else last_acknowledged_cursor db l)"
  by (auto simp: last_acknowledged_cursor_def upsert_replace_lookup)

lemma current_key_history:
  assumes "authority_ok db" and "lineage_from_connection db l = Inr v"
  shows "last (key_history db l) = lv_public_key v \<and> lv_key_version v = int (length (key_history db l)) - 1"
proof -
  obtain row where row: "first_row (\<lambda>r. lin_lineage_id r = l) (lineages db) = Some row"
    "lv_public_key v = lin_public_key row"
    "lv_key_version v = sql_max 0 (map lk_key_version (lineage_keys_of db (lin_lineage_id row)))"
    using assms(2) by (auto simp: lineage_from_connection_def)
  have m: "row \<in> set (lineages db)" "lin_lineage_id row = l" using first_row_Some [OF row(1)] by auto
  then have "history_ok (lineage_keys_of db l)"
    "lk_public_key (last (lineage_keys_of db l)) = lin_public_key row"
    using assms(1) by (auto simp: authority_ok_def)
  with row m sql_max_versions [of "length (lineage_keys_of db l)" 0] show ?thesis
    by (simp add: key_history_def history_ok_def last_map)
qed

lemma first_row_update_rows:
  assumes "first_row P tbl = Some r" and "\<And>r. P (f r) = P r"
  shows "\<exists>r'. first_row P (update_rows Q f tbl) = Some r'"
  using assms by (induction tbl) (auto simp: update_rows_def split: if_splits)

lemma rotated_lineage_known:
  assumes "db_rotate_lineage_key X me received rotation db = Inr (acc, db')"
    and "lineage_from_connection db l = Inr v"
  shows "\<exists>v'. lineage_from_connection db' l = Inr v'"
  using assms(1)
proof (rule db_rotate_lineage_key_Inr, goal_cases)
  case (1 canonical row current new rs)
  obtain r where r: "first_row (\<lambda>r. lin_lineage_id r = l) (lineages db) = Some r"
    using assms(2) by (auto simp: lineage_from_connection_def)
  have "\<exists>r'. first_row (\<lambda>r. lin_lineage_id r = l) (lineages db') = Some r'"
    unfolding 1(11) using first_row_update_rows [OF r] by simp
  then show ?case by (auto simp: lineage_from_connection_def)
qed

section \<open>Properties\<close>

text \<open>C7: key rotation refines appending to an abstract key history.  An accepted rotation was signed by
  the current key and by the new key, appends the new key to that lineage's history and to no other,
  makes it the current key under the next version number, and never reuses a key.\<close>

theorem rotate_lineage_key_refines_history:
  assumes "authority_ok db" and "rotate_lineage_key X me now received rotation db = Inr (acc, db')"
    and "l = kr_lineage_id (sk_statement rotation)" and "k = kr_new_public_key (sk_statement rotation)"
  shows "key_history db' = (key_history db)(l := key_history db l @ [k]) \<and> authority_ok db' \<and>
    (\<exists>v. lineage_from_connection db' l = Inr v \<and> lv_public_key v = k \<and>
         lv_key_version v = len (key_history db l)) \<and>
    (\<forall>l'. k \<notin> set (key_history db l')) \<and>
    (\<exists>old new. verifying_key_from_b64 X (last (key_history db l)) = Inr old \<and>
       verifying_key_from_b64 X k = Inr new \<and>
       verify_object X old KEY_ROTATION_DOMAIN (e_key_rotation_statement X (sk_statement rotation))
         (sk_previous_signature rotation) = Inr () \<and>
       verify_object X new KEY_ROTATION_DOMAIN (e_key_rotation_statement X (sk_statement rotation))
         (sk_new_signature rotation) = Inr ())"
proof -
  obtain lineage old new where r:
    "lineage_from_connection db l = Inr lineage"
    "lv_public_key lineage = kr_previous_public_key (sk_statement rotation)"
    "verifying_key_from_b64 X (kr_previous_public_key (sk_statement rotation)) = Inr old"
    "verifying_key_from_b64 X k = Inr new"
    "verify_object X old KEY_ROTATION_DOMAIN (e_key_rotation_statement X (sk_statement rotation))
       (sk_previous_signature rotation) = Inr ()"
    "verify_object X new KEY_ROTATION_DOMAIN (e_key_rotation_statement X (sk_statement rotation))
       (sk_new_signature rotation) = Inr ()"
    "db_rotate_lineage_key X me received rotation db = Inr (acc, db')"
    using assms(2) unfolding assms(3,4) by (rule rotate_lineage_key_Inr)
  have hist: "key_history db' = (key_history db)(l := key_history db l @ [k])"
    using key_history_rotate [OF r(7)] assms(3,4) by simp
  have ok: "authority_ok db'" by (rule authority_ok_rotate [OF assms(1) r(7)])
  have lastk: "last (key_history db l) = kr_previous_public_key (sk_statement rotation)"
    using current_key_history [OF assms(1) r(1)] r(2) by simp
  have fresh: "\<forall>l'. k \<notin> set (key_history db l')"
    using r(7) assms(4)
    by (auto elim!: db_rotate_lineage_key_Inr simp: key_history_def lineage_keys_of_def)
  obtain v where v: "lineage_from_connection db' l = Inr v"
    using rotated_lineage_known [OF r(7,1)] by blast
  have "lv_public_key v = k \<and> lv_key_version v = len (key_history db l)"
    using current_key_history [OF ok v] hist by (simp add: len_def)
  with v hist ok fresh r lastk show ?thesis by auto
qed

text \<open>C8: an accepted revocation is final.  From then on the delegation authorizes nothing, whatever the
  scope asked for and whatever the times; other delegations keep their state.\<close>

theorem revoke_delegation_final:
  assumes "revoke_delegation X me now received r db = Inr (acc, db')"
  shows "authorize_delegation db' (dr_delegation_id r) sc created accepted = Inl Unauthorized \<and>
         (\<forall>d. d \<noteq> dr_delegation_id r \<longrightarrow> delegation db' d = delegation db d)"
proof -
  from assms have "db_revoke_delegation X me received r db = Inr (acc, db')"
    by (rule revoke_delegation_Inr)
  then show ?thesis
  proof (rule db_revoke_delegation_Inr, goal_cases)
    case (1 canonical row owner rs)
    have "authorize_delegation db' (dr_delegation_id r) sc created accepted = Inl Unauthorized"
      using first_row_mark_revoked [OF 1(3)] first_row_Some [OF 1(3)] 1(5,6)
      by (intro authorize_revoked) auto
    moreover have "first_row (\<lambda>x. del_delegation_id x = d)
        (mark_revoked (\<lambda>x. del_delegation_id x = dr_delegation_id r) n ds) =
        first_row (\<lambda>x. del_delegation_id x = d) ds" if "d \<noteq> dr_delegation_id r" for d n ds
      using that by (induction ds) (auto simp: mark_revoked_def update_rows_def)
    ultimately show ?case using 1(6) by (simp add: delegation_def)
  qed
qed

text \<open>A rotation that asks for it ends every session.  After it no delegation of the lineage, however
  issued, authorizes anything.\<close>

lemma rotate_revokes_all:
  assumes "authority_ok db" and "rotate_lineage_key X me now received rotation db = Inr (acc, db')"
    and "kr_revoke_existing_delegations (sk_statement rotation)"
    and "row \<in> set (delegations db)" and "del_lineage_id row = kr_lineage_id (sk_statement rotation)"
  shows "authorize_delegation db' (del_delegation_id row) sc created accepted = Inl Unauthorized"
proof -
  have row: "first_row (\<lambda>x. del_delegation_id x = del_delegation_id row) (delegations db) = Some row"
    using assms(1,4) first_row_key [of del_delegation_id "delegations db" row] by (simp add: authority_ok_def)
  from assms(2) have "db_rotate_lineage_key X me received rotation db = Inr (acc, db')"
    by (rule rotate_lineage_key_Inr)
  then show ?thesis
  proof (rule db_rotate_lineage_key_Inr, goal_cases)
    case (1 canonical ev current new rs)
    then show ?case
      using first_row_mark_revoked [OF row] assms(3,5) by (intro authorize_revoked) auto
  qed
qed

text \<open>Acknowledgement cursors.  On a verified log an accepted acknowledgement moves its lineage's
  cursor forward, never past the new head; acknowledging the head also consumes the acknowledgement's
  own event; no other lineage's cursor moves.\<close>

lemma acknowledge_cursor:
  assumes "hash_laws X" and "hex_laws X" and "verify_log X me db = Inr (head, h)"
    and "acknowledge X me now received a db = Inr (acc, db')"
  shows "\<exists>d. delegation db (sa_delegation_id a) = Inr d \<and>
    last_acknowledged_cursor db' = (last_acknowledged_cursor db)
      (dv_lineage_id d := if sa_cursor a = head then head + 1 else sa_cursor a) \<and>
    last_acknowledged_cursor db (dv_lineage_id d) \<le> sa_cursor a \<and> 0 \<le> sa_cursor a \<and> sa_cursor a \<le> head"
proof -
  obtain d where d: "0 \<le> sa_cursor a" "delegation db (sa_delegation_id a) = Inr d"
    "append_acknowledgement X me received (dv_lineage_id d) a db = Inr (acc, db')"
    using assms(4) by (elim acknowledge_Inr) (auto simp: authorize_delegation_Inr)
  have max: "sql_max 0 (map ev_sequence (events db)) = head"
    by (rule verified_head_max [OF assms(1-3)])
  have "acc_sequence acc = head + 1"
  proof -
    obtain k s where s: "fold_result (verify_row X k) (events db) log_start = Inr s" "head = lc_cursor s"
      using assms(3) by (rule verify_log_rows)
    from d(3) show ?thesis
      by (rule append_acknowledgement_Inr)
        (use append_event_frame verified_cursor [OF assms(1,2) s(1)] s(2) in
          \<open>fastforce simp: next_sequence_def cursor_ok_def\<close>)
  qed
  with d max show ?thesis
    by (elim append_acknowledgement_Inr)
      (auto intro!: exI [of _ d] simp: fun_eq_iff acknowledged_cursor_upsert
        last_acknowledged_cursor_def upsert_replace_lookup)
qed

section \<open>A concrete history\<close>

definition accepted_db :: "(accepted_object \<times> database) result \<Rightarrow> database" where
  "accepted_db r = (case r of Inr (_, db) \<Rightarrow> db | Inl _ \<Rightarrow> empty_database)"

definition demo_signature :: "string \<Rightarrow> string \<Rightarrow> json \<Rightarrow> string" where
  "demo_signature sk domain v = (case sign_object demo_ext sk domain v of Inr s \<Rightarrow> s | Inl _ \<Rightarrow> [])"

definition demo_key :: string where "demo_key = pad 32 ''lineage-key''"
definition demo_new_key :: string where "demo_new_key = pad 32 ''rotated-key''"
definition demo_session_key :: string where "demo_session_key = pad 32 ''session-key''"
definition demo_lineage :: string where "demo_lineage = lineage_id_of demo_ext demo_key"

definition demo_delegation_id :: string where "demo_delegation_id = ''cwdel_demo''"

text \<open>One lineage with its first key and one session, no event yet.\<close>

definition demo_db :: database where
  "demo_db = empty_database\<lparr>
     lineages := [\<lparr> lin_lineage_id = demo_lineage, lin_display_name = ''Ada'',
       lin_public_key = demo_key, lin_created_at = 0, lin_registered_sequence = 0,
       lin_registration_json = [] \<rparr>],
     lineage_keys := [\<lparr> lk_lineage_id = demo_lineage, lk_key_version = 0, lk_public_key = demo_key,
       lk_valid_from_sequence = 0, lk_valid_to_sequence = None, lk_rotation_event_id = None \<rparr>],
     delegations := [\<lparr> del_delegation_id = demo_delegation_id, del_lineage_id = demo_lineage,
       del_session_public_key = demo_session_key,
       del_scopes = [S_Contribute, S_Ack, S_SourceReview, S_Work, S_Forum, S_DirectMessage, S_Forge],
       del_not_before = 0, del_expires_at = days 1, del_nonce = ''delegation-nonce'',
       del_revoked_sequence = None, del_registered_sequence = 0, del_delegation_json = [] \<rparr>]\<rparr>"

definition demo_revocation :: delegation_revocation where
  "demo_revocation =
     (let r = \<lparr> dr_protocol = PROTOCOL_VERSION, dr_lineage_id = demo_lineage,
                dr_delegation_id = demo_delegation_id, dr_reason = ''lost'', dr_created_at = 0,
                dr_nonce = ''revocation-nonce'', dr_signature = [] \<rparr> in
      r\<lparr>dr_signature := demo_signature demo_key REVOCATION_DOMAIN (e_delegation_revocation demo_ext r)\<rparr>)"

definition demo_rotation :: signed_key_rotation where
  "demo_rotation =
     (let st = \<lparr> kr_protocol = PROTOCOL_VERSION, kr_lineage_id = demo_lineage,
                 kr_previous_public_key = demo_key, kr_new_public_key = demo_new_key,
                 kr_revoke_existing_delegations = True, kr_reason = ''yearly'', kr_created_at = 0,
                 kr_nonce = ''rotation-nonce-1'' \<rparr>;
          v = e_key_rotation_statement demo_ext st in
      \<lparr> sk_statement = st,
        sk_previous_signature = demo_signature demo_key KEY_ROTATION_DOMAIN v,
        sk_new_signature = demo_signature demo_new_key KEY_ROTATION_DOMAIN v \<rparr>)"

definition demo_acknowledgement :: signed_acknowledgement where
  "demo_acknowledgement =
     (let a = \<lparr> sa_protocol = PROTOCOL_VERSION, sa_delegation_id = demo_delegation_id, sa_cursor = 0,
                sa_memory_provenance = \<lparr> mp_statement = ''read'', mp_local_digest = None,
                  mp_direct_memory_claimed = False \<rparr>,
                sa_created_at = 0, sa_nonce = ''acknowledge-nonce'', sa_signature = [] \<rparr> in
      a\<lparr>sa_signature := demo_signature demo_session_key ACK_DOMAIN (e_signed_acknowledgement demo_ext a)\<rparr>)"

lemma accepted_db_eq: "\<not> isl r \<Longrightarrow> \<exists>acc. r = Inr (acc, accepted_db r)"
  by (cases r) (auto simp: accepted_db_def)

lemma demo_db_ok: "authority_ok demo_db"
  by (simp add: demo_db_def authority_ok_def lineage_keys_of_def history_ok_def)

lemma demo_db_verified: "verify_log demo_ext demo_me demo_db = Inr (0, zero_hash)"
  using verify_log_events [of demo_db empty_database demo_ext demo_me] demo_empty_verified
  by (simp add: demo_db_def)

lemma demo_rotation_step:
  "\<exists>acc db'. rotate_lineage_key demo_ext demo_me 0 0 demo_rotation demo_db = Inr (acc, db')"
proof -
  have "\<not> isl (rotate_lineage_key demo_ext demo_me 0 0 demo_rotation demo_db)" by code_simp
  then show ?thesis using accepted_db_eq by blast
qed

lemma demo_revocation_step:
  "\<exists>acc db'. revoke_delegation demo_ext demo_me 0 0 demo_revocation demo_db = Inr (acc, db')"
proof -
  have "\<not> isl (revoke_delegation demo_ext demo_me 0 0 demo_revocation demo_db)" by code_simp
  then show ?thesis using accepted_db_eq by blast
qed

theorem rotate_lineage_key_refines_history_witness:
  "\<exists>acc db'. rotate_lineage_key demo_ext demo_me 0 0 demo_rotation demo_db = Inr (acc, db') \<and>
     key_history db' demo_lineage = [demo_key, demo_new_key]"
proof -
  obtain acc db' where r: "rotate_lineage_key demo_ext demo_me 0 0 demo_rotation demo_db = Inr (acc, db')"
    using demo_rotation_step by blast
  have st: "kr_lineage_id (sk_statement demo_rotation) = demo_lineage"
    "kr_new_public_key (sk_statement demo_rotation) = demo_new_key"
    by (simp_all add: demo_rotation_def Let_def)
  have "key_history demo_db demo_lineage = [demo_key]"
    by (simp add: key_history_def lineage_keys_of_def demo_db_def)
  with rotate_lineage_key_refines_history [OF demo_db_ok r refl refl] r st show ?thesis by auto
qed

theorem revoke_delegation_final_witness:
  "\<exists>acc db'. revoke_delegation demo_ext demo_me 0 0 demo_revocation demo_db = Inr (acc, db') \<and>
     authorize_delegation db' (dr_delegation_id demo_revocation) S_Work 0 0 = Inl Unauthorized"
proof -
  obtain acc db' where r: "revoke_delegation demo_ext demo_me 0 0 demo_revocation demo_db = Inr (acc, db')"
    using demo_revocation_step by blast
  from revoke_delegation_final [OF r] r show ?thesis by blast
qed

end
