(* ===== verification/Content_Rules.thy ===== *)
theory Content_Rules
  imports Reference_Ext
begin

text \<open>
  The content rules of a contribution: \<open>validate_contribution_content\<close> of \<^verbatim>\<open>src/src/db.rs\<close> with the
  per-kind validators it calls, and the repository, revision and artifact validators of
  \<^verbatim>\<open>src/src/forge.rs\<close>.  They look only at the signed object, never at the database, and run both
  when a contribution is accepted locally and when one is imported from a peer.
\<close>

section \<open>Building blocks\<close>

definition some_and :: "('a \<Rightarrow> bool) \<Rightarrow> 'a option \<Rightarrow> bool" where
  "some_and P x = (case x of None \<Rightarrow> False | Some v \<Rightarrow> P v)"

definition within :: "int \<Rightarrow> int \<Rightarrow> int \<Rightarrow> bool" where
  "within lo hi n \<longleftrightarrow> lo \<le> n \<and> n \<le> hi"

definition is_sha256_hex :: "string \<Rightarrow> bool" where
  "is_sha256_hex v \<longleftrightarrow> len v = 64 \<and> list_all lower_hex_digit v"

definition validate_prefixed_identifier :: "string \<Rightarrow> string \<Rightarrow> unit result" where
  "validate_prefixed_identifier v pre =
     and_then (ok_or (strip_prefix pre v) Validation) (\<lambda>digest.
       fail_if (len digest \<noteq> 64 \<or> \<not> list_all lower_hex_digit digest) Validation)"

definition validate_sha256_value :: "string \<Rightarrow> unit result" where
  "validate_sha256_value v = fail_if (\<not> is_sha256_hex v) Validation"

definition validate_bounded_text :: "string \<Rightarrow> int \<Rightarrow> int \<Rightarrow> unit result" where
  "validate_bounded_text v lo hi = fail_if (\<not> within lo hi (char_count (trim v))) Validation"

definition validate_bounded_list :: "string list \<Rightarrow> int \<Rightarrow> int \<Rightarrow> unit result" where
  "validate_bounded_list vs maximum_count maximum_chars =
     fail_if (len vs > maximum_count \<or>
       list_ex (\<lambda>v. blank v \<or> char_count v > maximum_chars) vs) Validation"

definition slug_char :: "char \<Rightarrow> bool" where
  "slug_char c \<longleftrightarrow> ascii_lowercase c \<or> ascii_digit c \<or> c = CHR ''-''"

definition slug_ok :: "int \<Rightarrow> int \<Rightarrow> string \<Rightarrow> bool" where
  "slug_ok lo hi v \<longleftrightarrow>
     within lo hi (len v) \<and> \<not> (v \<noteq> [] \<and> hd v = CHR ''-'') \<and> \<not> (v \<noteq> [] \<and> last v = CHR ''-'') \<and>
     \<not> contains_str ''--'' v \<and> list_all slug_char v"

definition validate_slug :: "string \<Rightarrow> int \<Rightarrow> int \<Rightarrow> unit result" where
  "validate_slug v lo hi = fail_if (\<not> slug_ok lo hi v) Validation"

definition coverage_key :: "ext \<Rightarrow> string \<Rightarrow> string" where
  "coverage_key X v = x_lowercase X (trim v)"

definition validate_unique_labels ::
  "ext \<Rightarrow> string list \<Rightarrow> int \<Rightarrow> int \<Rightarrow> bool \<Rightarrow> unit result" where
  "validate_unique_labels X vs maximum_count maximum_length required = check_all [
     fail_if ((required \<and> vs = []) \<or> len vs > maximum_count) Validation,
     fail_if (list_ex (\<lambda>v. blank v \<or> char_count v > maximum_length) vs) Validation,
     fail_if (\<not> distinct (map (coverage_key X) vs)) Validation]"

definition validate_openpgp_fingerprint :: "string \<Rightarrow> unit result" where
  "validate_openpgp_fingerprint v =
     fail_if (\<not> (len v = 40 \<or> len v = 64) \<or> \<not> list_all upper_hex_digit v) Validation"

definition validate_ascii_armor :: "string \<Rightarrow> string \<Rightarrow> string \<Rightarrow> int \<Rightarrow> unit result" where
  "validate_ascii_armor v begin_line end_line maximum_bytes =
     (let t = trim v in check_all [
        fail_if (len t > maximum_bytes \<or> \<not> prefix begin_line t \<or> \<not> suffix end_line t) Validation,
        fail_if (\<not> is_ascii t) Validation])"

definition normalize_http_url :: "ext \<Rightarrow> string \<Rightarrow> string result" where
  "normalize_http_url X v =
     and_then (ok_or (x_url_parse X v) Validation) (\<lambda>url.
     and_then (check_all [
       fail_if (\<not> (u_scheme url = ''http'' \<or> u_scheme url = ''https'')) Validation,
       fail_if (u_host url = None) Validation,
       fail_if (u_username url \<noteq> [] \<or> u_password url \<noteq> None) Validation]) (\<lambda>_.
       Inr (u_text_no_fragment url)))"

definition validate_evidence_ref :: "ext \<Rightarrow> evidence_ref \<Rightarrow> unit result" where
  "validate_evidence_ref X r = check_all [
     fail_if (len (er_url r) > 2048) Validation,
     and_then (normalize_http_url X (er_url r)) (\<lambda>_. Inr ()),
     fail_if (some_and (\<lambda>t. len t > 500) (er_title r) \<or> some_and (\<lambda>d. len d > 256) (er_digest r))
       Validation]"

definition validate_evidence_refs :: "ext \<Rightarrow> evidence_ref list \<Rightarrow> bool \<Rightarrow> unit result" where
  "validate_evidence_refs X evidence required = check_all [
     fail_if (required \<and> evidence = []) Validation,
     fail_if (len evidence > 64) Validation,
     check_each (validate_evidence_ref X) evidence]"

definition validate_forum_reference :: "string \<Rightarrow> unit result" where
  "validate_forum_reference v =
     and_then (ok_or (find (\<lambda>p. prefix p v)
       [''cwevt_'', ''cwsrc_'', ''cwobs_'', ''cwstory_'', ''cwwork_'', ''cwtopic_'', ''cwpost_'']) Validation)
       (validate_prefixed_identifier v)"

section \<open>Supersession and targets\<close>

definition require_exact_targets :: "string list \<Rightarrow> string list \<Rightarrow> unit result" where
  "require_exact_targets actual expected =
     fail_if (\<not> distinct actual \<or> \<not> distinct expected \<or> set actual \<noteq> set expected) Validation"

definition require_no_supersessions :: "signed_contribution \<Rightarrow> unit result" where
  "require_no_supersessions c = fail_if (sc_supersedes c \<noteq> []) Validation"

definition require_previous_superseded :: "signed_contribution \<Rightarrow> string option \<Rightarrow> unit result" where
  "require_previous_superseded c previous_event_id =
     (case previous_event_id of
        Some p \<Rightarrow> fail_if (\<not> sc_supersedes c = [p]) Validation
      | None \<Rightarrow> fail_if (sc_supersedes c \<noteq> []) Validation)"

section \<open>Sources, reporting and verification traces\<close>

definition validate_labels :: "ext \<Rightarrow> string list \<Rightarrow> unit result" where
  "validate_labels X vs = check_all [
     fail_if (list_ex (\<lambda>v. blank v \<or> len v > 80) vs) Validation,
     fail_if (\<not> distinct (map (coverage_key X) vs)) Validation]"

definition validate_source_proposal :: "ext \<Rightarrow> source_proposal_payload \<Rightarrow> unit result" where
  "validate_source_proposal X p = check_all [
     fail_if (len (trim (sp_name p)) < 2 \<or> len (sp_name p) > 160) Validation,
     and_then (normalize_http_url X (sp_feed_url p)) (\<lambda>_. Inr ()),
     (case sp_homepage_url p of None \<Rightarrow> Inr ()
      | Some u \<Rightarrow> and_then (normalize_http_url X u) (\<lambda>_. Inr ())),
     fail_if (len (trim (sp_medium p)) < 2 \<or> len (sp_medium p) > 160) Validation,
     fail_if (\<not> within DEFAULT_SOURCE_MINIMUM_FETCH_INTERVAL_MINUTES
                 MAX_SOURCE_MINIMUM_FETCH_INTERVAL_MINUTES (sp_minimum_fetch_interval_minutes p))
       Validation,
     fail_if (sp_primary_regions p = [] \<or> len (sp_primary_regions p) > 32) Validation,
     fail_if (sp_languages p = [] \<or> len (sp_languages p) > 32) Validation,
     validate_labels X (sp_primary_regions p),
     validate_labels X (sp_languages p),
     fail_if (some_and (\<lambda>v. blank v \<or> len v > 200) (sp_ownership p) \<or>
              some_and (\<lambda>v. blank v \<or> len v > 2000) (sp_perspective_notes p)) Validation,
     fail_if (len (trim (sp_rationale p)) < 20 \<or> len (sp_rationale p) > 4000) Validation]"

definition validate_reporting_declaration :: "signed_contribution \<Rightarrow> unit result" where
  "validate_reporting_declaration c =
     (let ids = rd_trace_event_ids (sc_reporting c) in check_all [
        fail_if (len ids > 16) Validation,
        fail_if (\<not> distinct ids) Validation,
        check_each (\<lambda>i. validate_prefixed_identifier i ''cwevt_'') ids,
        (case rd_mode (sc_reporting c) of
           RM_Unverified \<Rightarrow> fail_if (ids \<noteq> []) Validation
         | RM_Traceable \<Rightarrow> fail_if (ids = []) Validation)])"

definition tool_bad :: "verification_tool \<Rightarrow> bool" where
  "tool_bad t \<longleftrightarrow>
     blank (tl_name t) \<or> len (tl_name t) > 128 \<or>
     some_and (\<lambda>v. blank v \<or> len v > 128) (tl_version t) \<or>
     some_and (\<lambda>v. blank v \<or> len v > 2048) (tl_invocation t)"

fun validate_checks :: "ext \<Rightarrow> string list \<Rightarrow> verification_check list \<Rightarrow> unit result" where
  "validate_checks X seen [] = Inr ()"
| "validate_checks X seen (c # cs) =
     and_then (fail_if (blank (vc_name c) \<or> len (vc_name c) > 200 \<or> vc_name c \<in> set seen \<or>
                        vc_observed c = JNull) Validation) (\<lambda>_.
     and_then (validate_evidence_refs X (vc_evidence c) False) (\<lambda>_.
       validate_checks X (vc_name c # seen) cs))"

fun validate_artifacts :: "string list \<Rightarrow> verification_artifact list \<Rightarrow> unit result" where
  "validate_artifacts seen [] = Inr ()"
| "validate_artifacts seen (a # as) =
     and_then (fail_if (blank (va_name a) \<or> len (va_name a) > 200 \<or> va_name a \<in> set seen \<or>
                        \<not> is_sha256_hex (va_sha256 a) \<or>
                        some_and (\<lambda>t. blank t \<or> len t > 200) (va_media_type a)) Validation) (\<lambda>_.
       validate_artifacts (va_name a # seen) as)"

definition derived_outcome :: "verification_check list \<Rightarrow> trace_outcome" where
  "derived_outcome checks =
     (if list_ex (\<lambda>c. vc_outcome c = TO_Failed) checks then TO_Failed
      else if list_ex (\<lambda>c. vc_outcome c = TO_Inconclusive) checks then TO_Inconclusive
      else TO_Passed)"

definition trace_body_checks ::
  "ext \<Rightarrow> signed_contribution \<Rightarrow> verification_trace_payload \<Rightarrow> unit result list" where
  "trace_body_checks X c p = [
     fail_if (blank (vt_subject_id p) \<or> len (vt_subject_id p) > 512 \<or>
              list_ex is_control (utf8_chars (vt_subject_id p))) Validation,
     fail_if (\<not> within 10 4000 (char_count (trim (vt_assertion p))) \<or>
              \<not> within 10 4000 (char_count (trim (vt_method p)))) Validation,
     fail_if (vt_started_at p > vt_completed_at p \<or> vt_completed_at p > sc_created_at c) Validation,
     fail_if (len (vt_tools p) > 16) Validation,
     fail_if (list_ex tool_bad (vt_tools p)) Validation,
     fail_if (vt_checks p = [] \<or> len (vt_checks p) > 64) Validation,
     validate_checks X [] (vt_checks p),
     fail_if (vt_outcome p \<noteq> derived_outcome (vt_checks p)) Validation]"

definition trace_reference_checks ::
  "ext \<Rightarrow> signed_contribution \<Rightarrow> verification_trace_payload \<Rightarrow> unit result list" where
  "trace_reference_checks X c p = [
     validate_evidence_refs X (vt_evidence p) False,
     fail_if (len (vt_artifacts p) > 32) Validation,
     validate_artifacts [] (vt_artifacts p),
     fail_if (some_and (\<lambda>d. \<not> is_sha256_hex d) (vt_output_digest p)) Validation,
     fail_if (len (vt_parent_trace_event_ids p) > 16) Validation,
     fail_if (\<not> distinct (vt_parent_trace_event_ids p)) Validation,
     check_each (\<lambda>i. validate_prefixed_identifier i ''cwevt_'') (vt_parent_trace_event_ids p),
     fail_if (len (vt_limitations p) > 16 \<or>
              list_ex (\<lambda>l. blank l \<or> len l > 1000) (vt_limitations p)) Validation,
     require_exact_targets (sc_targets c) (vt_subject_id p # vt_parent_trace_event_ids p)]"

definition validate_verification_trace ::
  "ext \<Rightarrow> signed_contribution \<Rightarrow> verification_trace_payload \<Rightarrow> unit result" where
  "validate_verification_trace X c p = check_all (
     [fail_if (\<not> is_unverified (sc_reporting c)) Validation, require_no_supersessions c] @
     trace_body_checks X c p @ trace_reference_checks X c p)"

section \<open>Forge payloads\<close>

definition MAX_FORGE_ARTIFACT_BYTES :: int where "MAX_FORGE_ARTIFACT_BYTES = 64 * 1024 * 1024"

definition validate_sha256 :: "string \<Rightarrow> unit result" where
  "validate_sha256 v = fail_if (len v \<noteq> 64 \<or> \<not> list_all lower_hex_digit v) Validation"

definition validate_prefixed_digest :: "string \<Rightarrow> string \<Rightarrow> unit result" where
  "validate_prefixed_digest v pre =
     and_then (ok_or (strip_prefix pre v) Validation) validate_sha256"

definition validate_repository_id :: "string \<Rightarrow> unit result" where
  "validate_repository_id v = validate_prefixed_digest v ''cwrepo_''"

definition validate_git_revision :: "string \<Rightarrow> unit result" where
  "validate_git_revision v =
     fail_if (\<not> (len v = 40 \<or> len v = 64) \<or> \<not> list_all lower_hex_digit v) Validation"

definition mime_char :: "char \<Rightarrow> bool" where
  "mime_char c \<longleftrightarrow> ascii_alphanumeric c \<or> c \<in> set ''/+.-_;= ''"

definition validate_artifact_ref :: "forge_artifact_ref \<Rightarrow> unit result" where
  "validate_artifact_ref a = check_all [
     validate_sha256 (fa_sha256 a),
     fail_if (fa_size_bytes a = 0 \<or> fa_size_bytes a > MAX_FORGE_ARTIFACT_BYTES) Validation,
     fail_if (fa_media_type a = [] \<or> len (fa_media_type a) > 160 \<or>
              \<not> list_all mime_char (fa_media_type a)) Validation]"

fun purpose_media_types :: "forge_artifact_purpose \<Rightarrow> string list" where
  "purpose_media_types FP_Patch = [''application/x-git-bundle'', ''text/x-diff'', ''text/x-patch'',
     ''application/vnd.commonwake.patch+json'']"
| "purpose_media_types FP_SourceCandidate = [''application/x-git-bundle'']"
| "purpose_media_types FP_Evidence = [''application/json'', ''application/jsonl'', ''text/plain'',
     ''text/markdown'', ''application/octet-stream'']"

definition validate_artifact_purpose :: "forge_artifact_purpose \<Rightarrow> forge_artifact_ref \<Rightarrow> unit result" where
  "validate_artifact_purpose purpose a = check_all [
     validate_artifact_ref a,
     fail_if (fa_media_type a \<notin> set (purpose_media_types purpose)) Validation]"

definition path_bad :: "string \<Rightarrow> bool" where
  "path_bad p \<longleftrightarrow>
     p = [] \<or> len p > 512 \<or> prefix ''/'' p \<or> prefix [CHR 0x5C] p \<or> CHR 0x5C \<in> set p \<or>
     CHR 0x00 \<in> set p \<or> list_ex (\<lambda>c. c = [] \<or> c = ''.'' \<or> c = ''..'') (split_char (CHR ''/'') p)"

definition validate_repository_paths :: "string list \<Rightarrow> unit result" where
  "validate_repository_paths paths = check_all [
     fail_if (paths = [] \<or> len paths > 128) Validation,
     fail_if (\<not> distinct paths) Validation,
     fail_if (list_ex path_bad paths) Validation]"

definition validate_repository_patch :: "repository_patch_payload \<Rightarrow> unit result" where
  "validate_repository_patch p = check_all [
     validate_repository_id (rp_repository_id p),
     validate_git_revision (rp_base_revision p),
     validate_git_revision (rp_proposed_revision p),
     validate_artifact_purpose FP_Patch (rp_artifact p),
     validate_bounded_text (rp_title p) 3 200,
     validate_bounded_text (rp_summary p) 20 8000,
     validate_bounded_text (rp_compatibility_notes p) 10 4000,
     validate_bounded_text (rp_risk_notes p) 10 4000,
     validate_bounded_text (rp_test_plan p) 10 8000,
     validate_repository_paths (rp_changed_paths p)]"

definition validate_code_review :: "code_review_payload \<Rightarrow> unit result" where
  "validate_code_review p = check_all [
     validate_repository_id (cr_repository_id p),
     validate_prefixed_identifier (cr_proposal_event_id p) ''cwevt_'',
     validate_git_revision (cr_reviewed_revision p),
     validate_sha256_value (cr_artifact_sha256 p),
     validate_bounded_text (cr_summary p) 20 8000,
     validate_bounded_list (cr_findings p) 64 2000]"

definition validate_build_attestation :: "build_attestation_payload \<Rightarrow> unit result" where
  "validate_build_attestation p = check_all [
     validate_repository_id (ba_repository_id p),
     validate_prefixed_identifier (ba_proposal_event_id p) ''cwevt_'',
     validate_git_revision (ba_source_revision p),
     validate_sha256_value (ba_artifact_sha256 p),
     validate_bounded_text (ba_environment p) 3 4000,
     validate_bounded_text (ba_summary p) 20 8000,
     validate_bounded_list (ba_commands p) 64 2000,
     validate_bounded_list (ba_limitations p) 64 2000]"

definition validate_release_proposal :: "release_proposal_payload \<Rightarrow> unit result" where
  "validate_release_proposal p = check_all [
     validate_repository_id (rl_repository_id p),
     validate_git_revision (rl_candidate_revision p),
     validate_git_revision (rl_rollback_revision p),
     validate_artifact_purpose FP_SourceCandidate (rl_source_artifact p),
     validate_slug (rl_channel p) 2 64,
     validate_bounded_text (rl_version p) 1 80,
     fail_if (\<not> within 1 720 (rl_minimum_adoption_delay_hours p)) Validation,
     fail_if (len (rl_included_patch_event_ids p) > 64) Validation,
     fail_if (\<not> distinct (rl_included_patch_event_ids p)) Validation,
     check_each (\<lambda>i. validate_prefixed_identifier i ''cwevt_'') (rl_included_patch_event_ids p),
     validate_bounded_text (rl_summary p) 20 8000,
     validate_bounded_text (rl_migration_notes p) 10 8000]"

definition validate_release_review :: "release_review_payload \<Rightarrow> unit result" where
  "validate_release_review p = check_all [
     validate_repository_id (rv_repository_id p),
     validate_prefixed_identifier (rv_release_proposal_event_id p) ''cwevt_'',
     validate_git_revision (rv_reviewed_revision p),
     validate_sha256_value (rv_artifact_sha256 p),
     validate_bounded_text (rv_summary p) 20 8000,
     validate_bounded_text (rv_rollback_assessment p) 10 4000]"

section \<open>Stories, assessments and the commons\<close>

definition validate_story_link :: "ext \<Rightarrow> story_link_payload \<Rightarrow> unit result" where
  "validate_story_link X p = check_all [
     fail_if (sl_observation_ids p = [] \<or> len (sl_observation_ids p) > 64) Validation,
     fail_if (\<not> distinct (sl_observation_ids p)) Validation,
     fail_if (len (trim (sl_rationale p)) < 10) Validation,
     validate_evidence_refs X (sl_evidence p) False]"

definition validate_claim :: "ext \<Rightarrow> claim \<Rightarrow> unit result" where
  "validate_claim X c = check_all [
     fail_if (blank (cl_text c)) Validation,
     validate_evidence_refs X (cl_evidence c) False]"

definition validate_assessment :: "ext \<Rightarrow> assessment_payload \<Rightarrow> unit result" where
  "validate_assessment X p = check_all [
     fail_if (len (trim (as_summary p)) < 10 \<or> len (trim (as_significance p)) < 10 \<or>
              blank (as_confidence p) \<or> blank (as_perspective p) \<or> len (as_claims p) > 64) Validation,
     validate_evidence_refs X (as_evidence p) True,
     check_each (validate_claim X) (as_claims p)]"

definition validate_topic_proposal :: "ext \<Rightarrow> topic_proposal_payload \<Rightarrow> unit result" where
  "validate_topic_proposal X p = check_all [
     (case tp_parent_topic_id p of None \<Rightarrow> Inr ()
      | Some t \<Rightarrow> validate_prefixed_identifier t ''cwtopic_''),
     fail_if (\<not> slug_ok 2 64 (tp_slug p)) Validation,
     fail_if (\<not> within 2 120 (char_count (trim (tp_title p))) \<or>
              \<not> within 20 1000 (char_count (trim (tp_summary p))) \<or>
              \<not> within 20 8000 (char_count (trim (tp_charter p)))) Validation,
     validate_unique_labels X (tp_tags p) 16 48 False,
     validate_unique_labels X (tp_languages p) 16 32 True,
     fail_if (\<not> within 7 3650 (tp_archive_after_days p)) Validation]"

definition validate_topic_vote :: "topic_vote_payload \<Rightarrow> unit result" where
  "validate_topic_vote p = check_all [
     validate_prefixed_identifier (tv_topic_id p) ''cwtopic_'',
     fail_if (\<not> within 10 2000 (char_count (trim (tv_rationale p)))) Validation]"

definition validate_forum_post :: "forum_post_payload \<Rightarrow> unit result" where
  "validate_forum_post p = check_all [
     validate_prefixed_identifier (fp_topic_id p) ''cwtopic_'',
     (case fp_parent_post_id p of None \<Rightarrow> Inr ()
      | Some i \<Rightarrow> validate_prefixed_identifier i ''cwpost_''),
     fail_if (blank (fp_body p) \<or> len (fp_body p) > 32000) Validation,
     fail_if (some_and (\<lambda>s. blank s \<or> char_count s > 200) (fp_subject p) \<or>
              blank (fp_language p) \<or> char_count (fp_language p) > 32) Validation,
     fail_if (len (fp_mentions p) > 16) Validation,
     fail_if (\<not> distinct (fp_mentions p)) Validation,
     check_each (\<lambda>i. validate_prefixed_identifier i ''cwlin_'') (fp_mentions p),
     fail_if (len (fp_references p) > 16) Validation,
     fail_if (\<not> distinct (fp_references p)) Validation,
     check_each validate_forum_reference (fp_references p)]"

definition validate_openpgp_key :: "openpgp_key_payload \<Rightarrow> unit result" where
  "validate_openpgp_key p = check_all [
     validate_openpgp_fingerprint (pk_fingerprint p),
     fail_if (len (pk_note p) > 2000) Validation,
     (case pk_action p of
        PK_Publish \<Rightarrow> and_then (ok_or (pk_armored_public_key p) Validation) (\<lambda>certificate. check_all [
          validate_ascii_armor certificate ''-----BEGIN PGP PUBLIC KEY BLOCK-----''
            ''-----END PGP PUBLIC KEY BLOCK-----'' 32768,
          fail_if (contains_str ''PRIVATE KEY'' certificate) Validation])
      | PK_Revoke \<Rightarrow> fail_if (pk_armored_public_key p \<noteq> None) Validation)]"

definition validate_direct_message :: "direct_message_payload \<Rightarrow> unit result" where
  "validate_direct_message p = check_all [
     validate_prefixed_identifier (dm_recipient_lineage_id p) ''cwlin_'',
     validate_openpgp_fingerprint (dm_recipient_key_fingerprint p),
     fail_if (dm_ciphertext_format p \<noteq> ''openpgp-armored'') Validation,
     validate_ascii_armor (dm_ciphertext p) ''-----BEGIN PGP MESSAGE-----''
       ''-----END PGP MESSAGE-----'' 49152]"

definition validate_work_claim :: "work_claim_payload \<Rightarrow> unit result" where
  "validate_work_claim p = fail_if (\<not> within 1 240 (wc_lease_minutes p)) Validation"

section \<open>The dispatcher\<close>

text \<open>\<open>serde_json::from_value(contribution.payload)?\<close> followed by the validator of the kind.\<close>

definition with_payload :: "(json \<Rightarrow> 'a option) \<Rightarrow> signed_contribution \<Rightarrow> ('a \<Rightarrow> 'b result) \<Rightarrow> 'b result" where
  "with_payload d c k = and_then (from_value d (sc_payload c)) k"

definition validate_payload :: "ext \<Rightarrow> signed_contribution \<Rightarrow> unit result" where
  "validate_payload X c = (case sc_kind c of
       K_SourceProposal \<Rightarrow> with_payload d_source_proposal_payload c (validate_source_proposal X)
     | K_SourceReview \<Rightarrow> with_payload (d_source_review_payload X) c
         (\<lambda>p. validate_evidence_refs X (sr_evidence p) True)
     | K_VerificationTrace \<Rightarrow> with_payload (d_verification_trace_payload X) c
         (validate_verification_trace X c)
     | K_ObservationVerification \<Rightarrow> with_payload (d_observation_verification_payload X) c
         (\<lambda>p. validate_evidence_refs X (ov_evidence p) True)
     | K_StoryLink \<Rightarrow> with_payload (d_story_link_payload X) c (validate_story_link X)
     | K_Assessment \<Rightarrow> with_payload (d_assessment_payload X) c (validate_assessment X)
     | K_Correction \<Rightarrow> with_payload (d_correction_payload X) c
         (\<lambda>p. validate_evidence_refs X (co_evidence p) True)
     | K_WorkClaim \<Rightarrow> with_payload d_work_claim_payload c validate_work_claim
     | K_WorkResult \<Rightarrow> with_payload (d_work_result_payload X) c
         (\<lambda>p. validate_evidence_refs X (wr_evidence p) True)
     | K_TopicProposal \<Rightarrow> with_payload d_topic_proposal_payload c (validate_topic_proposal X)
     | K_TopicVote \<Rightarrow> with_payload d_topic_vote_payload c validate_topic_vote
     | K_ForumPost \<Rightarrow> with_payload d_forum_post_payload c validate_forum_post
     | K_OpenPgpKey \<Rightarrow> with_payload d_openpgp_key_payload c validate_openpgp_key
     | K_DirectMessage \<Rightarrow> with_payload d_direct_message_payload c validate_direct_message
     | K_RepositoryPatch \<Rightarrow> with_payload d_repository_patch_payload c validate_repository_patch
     | K_CodeReview \<Rightarrow> with_payload d_code_review_payload c validate_code_review
     | K_BuildAttestation \<Rightarrow> with_payload d_build_attestation_payload c validate_build_attestation
     | K_ReleaseProposal \<Rightarrow> with_payload d_release_proposal_payload c validate_release_proposal
     | K_ReleaseReview \<Rightarrow> with_payload d_release_review_payload c validate_release_review
     | _ \<Rightarrow> Inr ())"

definition validate_contribution_content :: "ext \<Rightarrow> signed_contribution \<Rightarrow> unit result" where
  "validate_contribution_content X c = check_all [
     validate_reporting_declaration c,
     fail_if (\<not> is_object (sc_payload c)) Validation,
     validate_payload X c]"

section \<open>Lemmas\<close>

lemma validate_prefixed_identifier_Inr:
  "validate_prefixed_identifier v pre = Inr u \<longleftrightarrow>
     (\<exists>d. v = pre @ d \<and> len d = 64 \<and> list_all lower_hex_digit d)"
  by (auto simp: validate_prefixed_identifier_def)

lemma validate_checks_Inr:
  "validate_checks X seen cs = Inr u \<Longrightarrow>
     distinct (map vc_name cs) \<and> set (map vc_name cs) \<inter> set seen = {} \<and>
     (\<forall>c\<in>set cs. vc_observed c \<noteq> JNull)"
  by (induction X seen cs rule: validate_checks.induct) auto

lemma derived_outcome_passed:
  "derived_outcome cs = TO_Passed \<longleftrightarrow> (\<forall>c\<in>set cs. vc_outcome c = TO_Passed)"
proof
  assume d: "derived_outcome cs = TO_Passed"
  show "\<forall>c\<in>set cs. vc_outcome c = TO_Passed"
  proof
    fix c assume "c \<in> set cs"
    with d have "vc_outcome c \<noteq> TO_Failed" "vc_outcome c \<noteq> TO_Inconclusive"
      by (auto simp: derived_outcome_def list_ex_iff split: if_splits)
    then show "vc_outcome c = TO_Passed" by (cases "vc_outcome c") auto
  qed
qed (auto simp: derived_outcome_def list_ex_iff)

lemma derived_outcome_failed:
  "derived_outcome cs = TO_Failed \<longleftrightarrow> (\<exists>c\<in>set cs. vc_outcome c = TO_Failed)"
  by (auto simp: derived_outcome_def list_ex_iff)

text \<open>Resolving a slash path against a directory: \<open>.\<close> and empty components stay, \<open>..\<close> goes up, and
  going up from the root of the repository is an escape.\<close>

fun resolve :: "string list \<Rightarrow> string list \<Rightarrow> string list option" where
  "resolve stack [] = Some (rev stack)"
| "resolve stack (c # cs) =
     (if c = [] \<or> c = ''.'' then resolve stack cs
      else if c = ''..'' then (case stack of [] \<Rightarrow> None | _ # up \<Rightarrow> resolve up cs)
      else resolve (c # stack) cs)"

fun join_path :: "string list \<Rightarrow> string" where
  "join_path [] = []"
| "join_path [c] = c"
| "join_path (c # cs) = c @ ''/'' @ join_path cs"

lemma resolve_plain:
  "\<forall>c\<in>set cs. c \<noteq> [] \<and> c \<noteq> ''.'' \<and> c \<noteq> ''..'' \<Longrightarrow> resolve stack cs = Some (rev stack @ cs)"
  by (induction cs arbitrary: stack) auto

lemma split_char_ne: "split_char d s \<noteq> []"
  by (induction s) (auto split: list.splits)

lemma join_split: "join_path (split_char (CHR ''/'') s) = s"
proof (induction s)
  case Nil
  then show ?case by simp
next
  case (Cons c cs)
  obtain p ps where ps: "split_char (CHR ''/'') cs = p # ps"
    using split_char_ne by (cases "split_char (CHR ''/'') cs") auto
  with Cons show ?case by (cases ps) auto
qed

section \<open>Properties\<close>

text \<open>A verification trace cannot overstate its result.  In an accepted trace the declared outcome is
  the one its checks determine: passed exactly when every check passed, failed exactly when one
  failed; check names are unique, every check reports an observation, the times are ordered, and the
  event targets are the subject and the parent traces.\<close>

lemma accepted_trace_is_honest:
  assumes "sc_kind c = K_VerificationTrace" and "validate_contribution_content X c = Inr ()"
  shows "\<exists>p. d_verification_trace_payload X (sc_payload c) = Some p \<and>
    (vt_outcome p = TO_Passed \<longleftrightarrow> (\<forall>k\<in>set (vt_checks p). vc_outcome k = TO_Passed)) \<and>
    (vt_outcome p = TO_Failed \<longleftrightarrow> (\<exists>k\<in>set (vt_checks p). vc_outcome k = TO_Failed)) \<and>
    vt_checks p \<noteq> [] \<and> distinct (map vc_name (vt_checks p)) \<and>
    (\<forall>k\<in>set (vt_checks p). vc_observed k \<noteq> JNull) \<and>
    vt_started_at p \<le> vt_completed_at p \<and> vt_completed_at p \<le> sc_created_at c \<and>
    set (sc_targets c) = insert (vt_subject_id p) (set (vt_parent_trace_event_ids p)) \<and>
    sc_supersedes c = []"
proof -
  obtain p where p: "d_verification_trace_payload X (sc_payload c) = Some p"
    "validate_verification_trace X c p = Inr ()"
    using assms by (auto simp: validate_contribution_content_def validate_payload_def with_payload_def)
  from p(2) have "validate_checks X [] (vt_checks p) = Inr ()"
    by (simp add: validate_verification_trace_def trace_body_checks_def)
  note checks = validate_checks_Inr [OF this]
  have "vt_outcome p = derived_outcome (vt_checks p)" "vt_checks p \<noteq> []"
    "vt_started_at p \<le> vt_completed_at p" "vt_completed_at p \<le> sc_created_at c"
    "set (sc_targets c) = insert (vt_subject_id p) (set (vt_parent_trace_event_ids p))"
    "sc_supersedes c = []"
    using p(2) by (auto simp: validate_verification_trace_def trace_body_checks_def
        trace_reference_checks_def require_exact_targets_def require_no_supersessions_def not_less)
  with p(1) checks show ?thesis
    by (intro exI [of _ p]) (simp add: derived_outcome_passed derived_outcome_failed)
qed

definition demo_trace :: signed_contribution where
  "demo_trace = \<lparr> sc_protocol = PROTOCOL_VERSION, sc_delegation_id = ''cwdel_demo'',
     sc_kind = K_VerificationTrace, sc_created_at = 9, sc_nonce = ''trace-nonce-0001'',
     sc_targets = [''cwobs_1''], sc_supersedes = [], sc_reporting = unverified_reporting,
     sc_payload = JObj [
       (''assertion'', JStr ''the page loads''),
       (''checks'', JArr [JObj [(''name'', JStr ''status''), (''observed'', JInt 200),
          (''outcome'', JStr ''passed'')]]),
       (''completed_at'', JStr ''8''), (''method'', JStr ''one HTTP GET''), (''outcome'', JStr ''passed''),
       (''started_at'', JStr ''7''), (''subject_id'', JStr ''cwobs_1'')],
     sc_signature = [] \<rparr>"

text \<open>C40: patch paths stay inside the repository.  Every path of an accepted patch resolves, without ever
  leaving the repository root, to exactly the components it is written with, and joining those gives
  back the path.\<close>

theorem accepted_patch_paths_stay_inside:
  assumes "validate_repository_patch p = Inr ()" and "path \<in> set (rp_changed_paths p)"
  shows "\<exists>cs. resolve [] (split_char (CHR ''/'') path) = Some cs \<and> join_path cs = path \<and> cs \<noteq> [] \<and>
             CHR 0x5C \<notin> set path \<and> CHR 0x00 \<notin> set path"
proof -
  from assms have ok: "\<not> path_bad path"
    by (auto simp: validate_repository_patch_def validate_repository_paths_def list_ex_iff)
  then have "\<forall>c\<in>set (split_char (CHR ''/'') path). c \<noteq> [] \<and> c \<noteq> ''.'' \<and> c \<noteq> ''..''"
    by (auto simp: path_bad_def list_ex_iff)
  from resolve_plain [OF this, of "[]"] ok show ?thesis
    by (auto simp: join_split path_bad_def split_char_ne)
qed

definition demo_patch :: repository_patch_payload where
  "demo_patch = \<lparr> rp_repository_id = ''cwrepo_'' @ replicate 64 (CHR ''a''),
     rp_base_revision = replicate 40 (CHR ''0''), rp_proposed_revision = replicate 40 (CHR ''1''),
     rp_artifact = \<lparr> fa_sha256 = replicate 64 (CHR ''b''), fa_size_bytes = 10,
       fa_media_type = ''text/x-diff'' \<rparr>,
     rp_title = ''A patch'', rp_summary = ''It fixes a small thing.'', rp_changed_paths = [''src/main.rs''],
     rp_compatibility_notes = ''compatible'', rp_risk_notes = ''low risk!!'', rp_test_plan = ''cargo test'' \<rparr>"

theorem accepted_patch_paths_stay_inside_witness:
  "\<exists>cs. resolve [] (split_char (CHR ''/'') ''src/main.rs'') = Some cs \<and> join_path cs = ''src/main.rs''"
proof -
  have "validate_repository_patch demo_patch = Inr ()" by code_simp
  moreover have "''src/main.rs'' \<in> set (rp_changed_paths demo_patch)" by (simp add: demo_patch_def)
  ultimately show ?thesis using accepted_patch_paths_stay_inside by blast
qed

text \<open>No secret key enters through a key announcement.  Text accepted as a published OpenPGP
  certificate is pure ASCII apart from surrounding white space, is framed as a public key block, and
  nowhere contains the words that mark private key material; a revocation carries no key at all.\<close>

lemma accepted_openpgp_key_is_public:
  assumes "validate_openpgp_key p = Inr ()"
  shows "case pk_armored_public_key p of
      Some k \<Rightarrow> pk_action p = PK_Publish \<and> \<not> contains_str ''PRIVATE KEY'' k \<and> is_ascii (trim k) \<and>
        prefix ''-----BEGIN PGP PUBLIC KEY BLOCK-----'' (trim k) \<and>
        suffix ''-----END PGP PUBLIC KEY BLOCK-----'' (trim k) \<and> len (trim k) \<le> 32768
    | None \<Rightarrow> pk_action p = PK_Revoke"
  using assms
  by (cases "pk_action p"; cases "pk_armored_public_key p")
    (auto simp: validate_openpgp_key_def validate_ascii_armor_def Let_def)

end
