(* ===== verification/Commons.thy ===== *)
theory Commons
  imports Schema Content_Rules
begin

text \<open>
  The topic commons of \<^verbatim>\<open>src/src/db.rs\<close>: routing rules (\<open>validate_commons_routing\<close>), the projection of
  topics, votes, posts, OpenPGP keys and sealed messages (\<open>project_commons_contribution\<close>), the vote
  tally with the approval and dormancy rule, and the cursor pages over posts and messages.  Local and
  imported contributions go through the same projection, told apart by their origin node.
\<close>

section \<open>Ordered collections\<close>

text \<open>\<open>BTreeSet<String>\<close> and \<open>BTreeMap<String, BTreeSet<String>>\<close> as sorted lists, and
  \<open>ORDER BY\<close> as a stable insertion sort.\<close>

fun btree_insert :: "string \<Rightarrow> string list \<Rightarrow> string list" where
  "btree_insert c [] = [c]"
| "btree_insert c (d # ds) =
     (if c = d then d # ds else if str_less c d then c # d # ds else d # btree_insert c ds)"

fun entry_insert :: "string \<Rightarrow> string \<Rightarrow> (string \<times> string list) list \<Rightarrow> (string \<times> string list) list" where
  "entry_insert k c [] = [(k, [c])]"
| "entry_insert k c ((k', cs) # m) =
     (if k = k' then (k', btree_insert c cs) # m
      else if str_less k k' then (k, [c]) # (k', cs) # m
      else (k', cs) # entry_insert k c m)"

fun insort_by :: "('a \<Rightarrow> 'a \<Rightarrow> bool) \<Rightarrow> 'a \<Rightarrow> 'a list \<Rightarrow> 'a list" where
  "insort_by lt x [] = [x]"
| "insort_by lt x (y # ys) = (if lt x y then x # y # ys else y # insort_by lt x ys)"

definition order_by :: "('a \<Rightarrow> 'a \<Rightarrow> bool) \<Rightarrow> 'a list \<Rightarrow> 'a list" where
  "order_by lt xs = fold (insort_by lt) xs []"

text \<open>\<open>AUTOINCREMENT\<close>: larger than every key so far (rows are never deleted).\<close>

definition next_key :: "('r \<Rightarrow> int) \<Rightarrow> 'r list \<Rightarrow> int" where
  "next_key key tbl = fold (\<lambda>r. max (key r)) tbl 0 + 1"

text \<open>\<open>INSERT .. ON CONFLICT(key) DO UPDATE .. WHERE excluded.seq > seq\<close> on a table with a second
  unique constraint, whose violation by another row is a database error.\<close>

definition newest_upsert ::
  "('r \<Rightarrow> 'k) \<Rightarrow> ('r \<Rightarrow> 'u) \<Rightarrow> ('r \<Rightarrow> int) \<Rightarrow> 'r \<Rightarrow> 'r list \<Rightarrow> 'r list result" where
  "newest_upsert key unique seq r tbl =
     and_then (fail_if (list_ex (\<lambda>old. key old \<noteq> key r \<and> unique old = unique r) tbl) Database)
       (\<lambda>_. Inr (upsert key (\<lambda>old new. if seq new > seq old then new else old) r tbl))"

section \<open>Votes and approval\<close>

record topic_vote_tally =
  ta_approvals :: int
  ta_rejections :: int
  ta_needs_revision :: int
  ta_conflicted_lineages :: "string list"

definition no_tally :: topic_vote_tally where
  "no_tally = \<lparr> ta_approvals = 0, ta_rejections = 0, ta_needs_revision = 0,
     ta_conflicted_lineages = [] \<rparr>"

definition vote_less :: "vote_row \<Rightarrow> vote_row \<Rightarrow> bool" where
  "vote_less a b \<longleftrightarrow> str_less (vot_voter_lineage_id a) (vot_voter_lineage_id b) \<or>
     (vot_voter_lineage_id a = vot_voter_lineage_id b \<and>
      str_less (vot_origin_node_id a) (vot_origin_node_id b))"

definition votes_on :: "string \<Rightarrow> database \<Rightarrow> vote_row list" where
  "votes_on topic_id db =
     order_by vote_less (filter (\<lambda>v. vot_topic_id v = topic_id) (forum_topic_votes db))"

definition group_votes :: "string \<Rightarrow> vote_row list \<Rightarrow> (string \<times> string list) list" where
  "group_votes proposer_lineage_id vs = fold (\<lambda>v m.
     if vot_voter_lineage_id v \<noteq> proposer_lineage_id
     then entry_insert (vot_voter_lineage_id v) (vot_choice v) m else m) vs []"

definition count_lineage ::
  "string \<times> string list \<Rightarrow> topic_vote_tally \<Rightarrow> topic_vote_tally result" where
  "count_lineage = (\<lambda>(lineage_id, choices) t.
     if length choices \<noteq> 1
     then Inr (t\<lparr>ta_conflicted_lineages := ta_conflicted_lineages t @ [lineage_id]\<rparr>)
     else if hd choices = ''approve'' then Inr (t\<lparr>ta_approvals := ta_approvals t + 1\<rparr>)
     else if hd choices = ''reject'' then Inr (t\<lparr>ta_rejections := ta_rejections t + 1\<rparr>)
     else if hd choices = ''needs_revision''
     then Inr (t\<lparr>ta_needs_revision := ta_needs_revision t + 1\<rparr>)
     else Inl Internal)"

definition tally_votes :: "string \<Rightarrow> string \<Rightarrow> database \<Rightarrow> topic_vote_tally result" where
  "tally_votes topic_id proposer_lineage_id db =
     fold_result count_lineage (group_votes proposer_lineage_id (votes_on topic_id db)) no_tally"

definition approves :: "topic_vote_tally \<Rightarrow> bool" where
  "approves t \<longleftrightarrow> ta_approvals t \<ge> 2 \<and> ta_approvals t > ta_rejections t"

definition topic_is_approved :: "string \<Rightarrow> database \<Rightarrow> bool result" where
  "topic_is_approved topic_id db =
     and_then (ok_or (first_row (\<lambda>t. top_topic_id t = topic_id) (forum_topics db)) NotFound) (\<lambda>t.
     and_then (tally_votes topic_id (top_proposer_lineage_id t) db) (\<lambda>tally. Inr (approves tally)))"

definition topic_status :: "bool \<Rightarrow> int \<Rightarrow> int \<Rightarrow> int \<Rightarrow> string" where
  "topic_status approved last_activity_at archive_after_days now =
     (if \<not> approved then ''proposed''
      else if now - last_activity_at > days archive_after_days then ''dormant'' else ''active'')"

record topic_view_record =
  tw_topic :: topic_row
  tw_last_activity_at :: int
  tw_status :: string
  tw_tally :: topic_vote_tally
  tw_votes :: "vote_row list"
  tw_post_count :: int

definition latest_post :: "string \<Rightarrow> database \<Rightarrow> int option" where
  "latest_post topic_id db =
     (case map pst_created_at (filter (\<lambda>p. pst_topic_id p = topic_id) (forum_posts db)) of
        [] \<Rightarrow> None | t # ts \<Rightarrow> Some (fold max ts t))"

text \<open>A view carries the topic row with its creation time and dormancy interval as read, the tally,
  the vote rows in order, and the derived activity, status and post count.\<close>

definition topic_view :: "string \<Rightarrow> int \<Rightarrow> database \<Rightarrow> topic_view_record result" where
  "topic_view topic_id now db =
     and_then (ok_or (first_row (\<lambda>t. top_topic_id t = topic_id) (forum_topics db)) NotFound) (\<lambda>t.
     and_then (tally_votes topic_id (top_proposer_lineage_id t) db) (\<lambda>tally.
     let last_activity_at =
           (case latest_post topic_id db of Some p \<Rightarrow> p | None \<Rightarrow> top_created_at t) in
     and_then (fail_if (\<not> (0 \<le> top_archive_after_days t \<and> top_archive_after_days t < 2 ^ 32)) Internal)
       (\<lambda>_. Inr \<lparr> tw_topic = t, tw_last_activity_at = last_activity_at,
          tw_status = topic_status (approves tally) last_activity_at (top_archive_after_days t) now,
          tw_tally = tally, tw_votes = votes_on topic_id db,
          tw_post_count = count_rows (\<lambda>p. pst_topic_id p = topic_id) (forum_posts db) \<rparr>)))"

section \<open>OpenPGP keys\<close>

definition openpgp_key_is_active :: "string \<Rightarrow> string \<Rightarrow> database \<Rightarrow> bool" where
  "openpgp_key_is_active lineage_id fp db =
     (let rows = filter (\<lambda>k. pgp_lineage_id k = lineage_id \<and> pgp_fingerprint k = fp)
            (Schema.openpgp_keys db) in
      count_rows (\<lambda>k. pgp_action k = ''publish'') rows > 0 \<and>
      count_rows (\<lambda>k. pgp_action k = ''revoke'') rows = 0)"

definition key_less :: "pgp_key_row \<Rightarrow> pgp_key_row \<Rightarrow> bool" where
  "key_less a b \<longleftrightarrow> pgp_created_at a > pgp_created_at b \<or>
     (pgp_created_at a = pgp_created_at b \<and>
       (str_less (pgp_origin_node_id a) (pgp_origin_node_id b) \<or>
        (pgp_origin_node_id a = pgp_origin_node_id b \<and>
         str_less (pgp_fingerprint a) (pgp_fingerprint b))))"

definition openpgp_key_views :: "string \<Rightarrow> bool \<Rightarrow> database \<Rightarrow> pgp_key_row list" where
  "openpgp_key_views lineage_id include_revoked db =
     (let mine = filter (\<lambda>k. pgp_lineage_id k = lineage_id) (Schema.openpgp_keys db);
          revoked = map pgp_fingerprint (filter (\<lambda>k. pgp_action k = ''revoke'') mine) in
      filter (\<lambda>k. include_revoked \<or>
          (pgp_action k = ''publish'' \<and> pgp_fingerprint k \<notin> set revoked)) (order_by key_less mine))"

section \<open>Routing\<close>

definition validate_commons_routing :: "string \<Rightarrow> signed_contribution \<Rightarrow> unit result" where
  "validate_commons_routing lineage_id c = (case sc_kind c of
       K_TopicProposal \<Rightarrow> with_payload d_topic_proposal_payload c (\<lambda>p. check_all [
         require_exact_targets (sc_targets c)
           (case tp_parent_topic_id p of None \<Rightarrow> [] | Some t \<Rightarrow> [t]),
         require_no_supersessions c])
     | K_TopicVote \<Rightarrow> with_payload d_topic_vote_payload c (\<lambda>p.
         require_exact_targets (sc_targets c) [tv_topic_id p])
     | K_ForumPost \<Rightarrow> with_payload d_forum_post_payload c (\<lambda>p. check_all [
         require_exact_targets (sc_targets c) (fp_topic_id p # fp_mentions p @ fp_references p),
         require_no_supersessions c])
     | K_OpenPgpKey \<Rightarrow> require_exact_targets (sc_targets c) [lineage_id]
     | K_DirectMessage \<Rightarrow> with_payload d_direct_message_payload c (\<lambda>p. check_all [
         require_exact_targets (sc_targets c) [dm_recipient_lineage_id p],
         require_no_supersessions c])
     | K_RepositoryPatch \<Rightarrow> with_payload d_repository_patch_payload c (\<lambda>p. check_all [
         require_exact_targets (sc_targets c) [rp_repository_id p],
         require_no_supersessions c])
     | K_CodeReview \<Rightarrow> with_payload d_code_review_payload c (\<lambda>p. check_all [
         require_exact_targets (sc_targets c) [cr_proposal_event_id p],
         require_no_supersessions c])
     | K_BuildAttestation \<Rightarrow> with_payload d_build_attestation_payload c (\<lambda>p. check_all [
         require_exact_targets (sc_targets c) [ba_proposal_event_id p],
         require_no_supersessions c])
     | K_ReleaseProposal \<Rightarrow> with_payload d_release_proposal_payload c (\<lambda>p. check_all [
         require_exact_targets (sc_targets c) (rl_repository_id p # rl_included_patch_event_ids p),
         require_no_supersessions c])
     | K_ReleaseReview \<Rightarrow> with_payload d_release_review_payload c (\<lambda>p. check_all [
         require_exact_targets (sc_targets c) [rv_release_proposal_event_id p],
         require_no_supersessions c])
     | _ \<Rightarrow> Inr ())"

definition projection_node_id :: "database \<Rightarrow> string result" where
  "projection_node_id db = ok_or (map_of (meta db) ''node_id'') Internal"

section \<open>Projection\<close>

text \<open>One definition per arm of \<open>project_commons_contribution\<close>.  \<open>INSERT OR IGNORE\<close> also skips a row
  that violates a \<open>CHECK\<close> constraint.\<close>

definition project_topic ::
  "ext \<Rightarrow> string \<Rightarrow> int \<Rightarrow> string \<Rightarrow> string \<Rightarrow> int \<Rightarrow> topic_proposal_payload \<Rightarrow> database \<Rightarrow> database" where
  "project_topic X origin sequence lineage_id event_id created_at p db =
     (let row = \<lparr> top_topic_id = prefixed_id X ''cwtopic_'' event_id, top_origin_node_id = origin,
            top_origin_sequence = sequence, top_proposal_event_id = event_id,
            top_proposer_lineage_id = lineage_id, top_parent_topic_id = tp_parent_topic_id p,
            top_slug = tp_slug p, top_title = tp_title p, top_summary = tp_summary p,
            top_charter = tp_charter p, top_tags = tp_tags p, top_languages = tp_languages p,
            top_archive_after_days = tp_archive_after_days p, top_created_at = millis created_at \<rparr> in
      if within 7 3650 (tp_archive_after_days p)
      then db\<lparr>forum_topics := insert_or_ignore (\<lambda>new old.
             top_topic_id old = top_topic_id new \<or>
             (top_origin_node_id old = top_origin_node_id new \<and>
              top_proposal_event_id old = top_proposal_event_id new)) row (forum_topics db)\<rparr>
      else db)"

definition vote_key :: "vote_row \<Rightarrow> string \<times> string \<times> string" where
  "vote_key v = (vot_topic_id v, vot_voter_lineage_id v, vot_origin_node_id v)"

definition new_vote :: "string \<Rightarrow> int \<Rightarrow> string \<Rightarrow> string \<Rightarrow> int \<Rightarrow> topic_vote_payload \<Rightarrow> vote_row" where
  "new_vote origin sequence lineage_id event_id created_at p =
     \<lparr> vot_topic_id = tv_topic_id p, vot_voter_lineage_id = lineage_id,
       vot_origin_node_id = origin, vot_origin_sequence = sequence, vot_event_id = event_id,
       vot_choice = topic_vote_choice_str (tv_choice p), vot_rationale = tv_rationale p,
       vot_created_at = millis created_at \<rparr>"

definition project_vote ::
  "string \<Rightarrow> int \<Rightarrow> string \<Rightarrow> string \<Rightarrow> int \<Rightarrow> topic_vote_payload \<Rightarrow> database \<Rightarrow> database result" where
  "project_vote origin sequence lineage_id event_id created_at p db =
     and_then (newest_upsert vote_key (\<lambda>v. (vot_origin_node_id v, vot_event_id v)) vot_origin_sequence
                 (new_vote origin sequence lineage_id event_id created_at p) (forum_topic_votes db))
       (\<lambda>tbl. Inr (db\<lparr>forum_topic_votes := tbl\<rparr>))"

definition project_post ::
  "ext \<Rightarrow> string \<Rightarrow> int \<Rightarrow> string \<Rightarrow> string \<Rightarrow> int \<Rightarrow> forum_post_payload \<Rightarrow> database \<Rightarrow> database" where
  "project_post X origin sequence lineage_id event_id created_at p db =
     (let row = \<lparr> pst_projection_sequence = next_key pst_projection_sequence (forum_posts db),
            pst_post_id = prefixed_id X ''cwpost_'' event_id, pst_origin_node_id = origin,
            pst_origin_sequence = sequence, pst_event_id = event_id, pst_topic_id = fp_topic_id p,
            pst_parent_post_id = fp_parent_post_id p, pst_author_lineage_id = lineage_id,
            pst_subject = fp_subject p, pst_body = fp_body p, pst_language = fp_language p,
            pst_mentions = fp_mentions p, pst_references = fp_references p,
            pst_created_at = millis created_at \<rparr> in
      db\<lparr>forum_posts := insert_or_ignore (\<lambda>new old.
           pst_post_id old = pst_post_id new \<or>
           (pst_origin_node_id old = pst_origin_node_id new \<and> pst_event_id old = pst_event_id new))
         row (forum_posts db)\<rparr>)"

definition pgp_key :: "pgp_key_row \<Rightarrow> string \<times> string \<times> string" where
  "pgp_key k = (pgp_lineage_id k, pgp_origin_node_id k, pgp_fingerprint k)"

definition project_openpgp_key ::
  "string \<Rightarrow> int \<Rightarrow> string \<Rightarrow> string \<Rightarrow> int \<Rightarrow> openpgp_key_payload \<Rightarrow> database \<Rightarrow> database result" where
  "project_openpgp_key origin sequence lineage_id event_id created_at p db =
     (let previous_action = map_option pgp_action
            (first_row (\<lambda>k. pgp_key k = (lineage_id, origin, pk_fingerprint p)) (Schema.openpgp_keys db));
          row = \<lparr> pgp_lineage_id = lineage_id, pgp_origin_node_id = origin,
            pgp_fingerprint = pk_fingerprint p, pgp_origin_sequence = sequence,
            pgp_event_id = event_id, pgp_action = openpgp_key_action_str (pk_action p),
            pgp_armored_public_key = pk_armored_public_key p, pgp_note = pk_note p,
            pgp_created_at = millis created_at \<rparr> in
      and_then (fail_if (previous_action = Some ''revoke'' \<and> pk_action p = PK_Publish) Validation) (\<lambda>_.
      and_then (newest_upsert pgp_key (\<lambda>k. (pgp_origin_node_id k, pgp_event_id k))
                  pgp_origin_sequence row (Schema.openpgp_keys db)) (\<lambda>tbl.
      Inr (db\<lparr>Schema.openpgp_keys := tbl\<rparr>))))"

definition project_message ::
  "ext \<Rightarrow> string \<Rightarrow> int \<Rightarrow> string \<Rightarrow> string \<Rightarrow> int \<Rightarrow> direct_message_payload \<Rightarrow> database \<Rightarrow> database" where
  "project_message X origin sequence lineage_id event_id created_at p db =
     (let row = \<lparr> msg_projection_sequence = next_key msg_projection_sequence (direct_messages db),
            msg_message_id = prefixed_id X ''cwdm_'' event_id, msg_origin_node_id = origin,
            msg_origin_sequence = sequence, msg_event_id = event_id,
            msg_sender_lineage_id = lineage_id,
            msg_recipient_lineage_id = dm_recipient_lineage_id p,
            msg_recipient_key_fingerprint = dm_recipient_key_fingerprint p,
            msg_ciphertext_format = dm_ciphertext_format p, msg_ciphertext = dm_ciphertext p,
            msg_created_at = millis created_at \<rparr> in
      if dm_ciphertext_format p = ''openpgp-armored''
      then db\<lparr>direct_messages := insert_or_ignore (\<lambda>new old.
             msg_message_id old = msg_message_id new \<or>
             (msg_origin_node_id old = msg_origin_node_id new \<and> msg_event_id old = msg_event_id new))
           row (direct_messages db)\<rparr>
      else db)"

definition project_commons_contribution ::
  "ext \<Rightarrow> string \<Rightarrow> int \<Rightarrow> string \<Rightarrow> string \<Rightarrow> signed_contribution \<Rightarrow> database \<Rightarrow> database result" where
  "project_commons_contribution X origin sequence lineage_id event_id c db = (case sc_kind c of
       K_TopicProposal \<Rightarrow> with_payload d_topic_proposal_payload c (\<lambda>p.
         Inr (project_topic X origin sequence lineage_id event_id (sc_created_at c) p db))
     | K_TopicVote \<Rightarrow> with_payload d_topic_vote_payload c (\<lambda>p.
         project_vote origin sequence lineage_id event_id (sc_created_at c) p db)
     | K_ForumPost \<Rightarrow> with_payload d_forum_post_payload c (\<lambda>p.
         Inr (project_post X origin sequence lineage_id event_id (sc_created_at c) p db))
     | K_OpenPgpKey \<Rightarrow> with_payload d_openpgp_key_payload c (\<lambda>p.
         project_openpgp_key origin sequence lineage_id event_id (sc_created_at c) p db)
     | K_DirectMessage \<Rightarrow> with_payload d_direct_message_payload c (\<lambda>p.
         Inr (project_message X origin sequence lineage_id event_id (sc_created_at c) p db))
     | _ \<Rightarrow> Inr db)"

section \<open>Pages\<close>

text \<open>A page holds its rows, the next cursor and the flag that more rows follow.  The query asks for
  one row more than the limit; \<open>next_cursor\<close> is the last row kept, or the cursor given.\<close>

record 'r page =
  pg_rows :: "'r list"
  pg_next_cursor :: int
  pg_has_more :: bool

definition cut_page :: "('r \<Rightarrow> int) \<Rightarrow> int \<Rightarrow> nat \<Rightarrow> 'r list \<Rightarrow> 'r page" where
  "cut_page pos after limit selected =
     (let fetched = take (limit + 1) selected; kept = take limit fetched in
      \<lparr> pg_rows = kept, pg_next_cursor = (if kept = [] then after else pos (last kept)),
        pg_has_more = (length fetched > limit) \<rparr>)"

definition forum_posts_page :: "string \<Rightarrow> int \<Rightarrow> int \<Rightarrow> nat \<Rightarrow> database \<Rightarrow> post_row page result" where
  "forum_posts_page topic_id now after limit db =
     and_then (fail_if (after < 0) Validation) (\<lambda>_.
     and_then (topic_view topic_id now db) (\<lambda>_.
     Inr (cut_page pst_projection_sequence after limit
       (filter (\<lambda>p. pst_topic_id p = topic_id \<and> pst_projection_sequence p > after)
         (forum_posts db)))))"

definition direct_messages_page :: "string \<Rightarrow> int \<Rightarrow> nat \<Rightarrow> database \<Rightarrow> message_row page result" where
  "direct_messages_page lineage_id after limit db =
     and_then (fail_if (after < 0) Validation) (\<lambda>_.
     Inr (cut_page msg_projection_sequence after limit
       (filter (\<lambda>m. msg_recipient_lineage_id m = lineage_id \<and> msg_projection_sequence m > after)
         (direct_messages db))))"

section \<open>Lemmas on ordered collections\<close>

lemma byte_of_eq: "byte_of a = byte_of b \<longleftrightarrow> a = b"
  by (simp add: byte_of_def)

lemma str_less_linear: "a \<noteq> b \<Longrightarrow> str_less a b \<or> str_less b a"
  by (induction a b rule: str_less.induct) (auto simp: byte_of_eq)

abbreviation str_sorted :: "string list \<Rightarrow> bool" where
  "str_sorted \<equiv> sorted_wrt str_less"

lemma str_sorted_distinct: "str_sorted xs \<Longrightarrow> distinct xs"
  by (induction xs) (auto simp: str_less_irrefl)

lemma set_btree_insert [simp]: "set (btree_insert c cs) = insert c (set cs)"
  by (induction c cs rule: btree_insert.induct) auto

lemma str_sorted_btree_insert: "str_sorted cs \<Longrightarrow> str_sorted (btree_insert c cs)"
proof (induction c cs rule: btree_insert.induct)
  case (2 c d ds)
  then show ?case using str_less_linear [of c d] by (auto intro: str_less_trans)
qed simp

lemma keys_entry_insert: "set (map fst (entry_insert k c m)) = insert k (set (map fst m))"
  by (induction k c m rule: entry_insert.induct) auto

lemma str_sorted_entry_insert:
  "str_sorted (map fst m) \<Longrightarrow> str_sorted (map fst (entry_insert k c m))"
proof (induction k c m rule: entry_insert.induct)
  case (2 k c k' cs m)
  from "2.prems" have later: "\<forall>x\<in>set (map fst m). str_less k' x" and tail: "str_sorted (map fst m)"
    by auto
  consider "k = k'" | "k \<noteq> k'" "str_less k k'" | "k \<noteq> k'" "\<not> str_less k k'" "str_less k' k"
    using str_less_linear [of k k'] by blast
  then show ?case
  proof cases
    case 2
    with later tail show ?thesis using str_less_trans [of k k'] by auto
  next
    case 3
    have "\<forall>x\<in>set (map fst (entry_insert k c m)). str_less k' x"
      unfolding keys_entry_insert using later 3 by simp
    with 3 "2.IH" tail show ?thesis by simp
  qed (use later tail in simp)
qed simp

lemma lookup_entry_insert:
  "str_sorted (map fst m) \<Longrightarrow> map_of (entry_insert k c m) l =
     (if l = k then Some (btree_insert c (case map_of m k of None \<Rightarrow> [] | Some cs \<Rightarrow> cs))
      else map_of m l)"
proof (induction k c m rule: entry_insert.induct)
  case (2 k c k' cs m)
  have "str_less k k' \<Longrightarrow> map_of m k = None"
    using "2.prems" by (auto simp: map_of_eq_None_iff dest: str_less_trans str_less_irrefl [THEN notE])
  then show ?case using 2 by (auto simp: str_less_irrefl)
qed simp

lemma set_insort_by [simp]: "set (insort_by lt x ys) = insert x (set ys)"
  by (induction ys) auto

lemma set_order_by [simp]: "set (order_by lt xs) = set xs"
proof -
  have "set (fold (insort_by lt) xs ys) = set xs \<union> set ys" for ys
    by (induction xs arbitrary: ys) auto
  then show ?thesis by (simp add: order_by_def)
qed

lemma next_key_above:
  shows "r \<in> set tbl \<Longrightarrow> key r < next_key key tbl" and "0 < next_key key tbl"
proof -
  have "m \<le> fold (\<lambda>r. max (key r)) tbl m \<and> (\<forall>r\<in>set tbl. key r \<le> fold (\<lambda>r. max (key r)) tbl m)" for m
  proof (induction tbl arbitrary: m)
    case (Cons a tbl)
    from Cons [of "max (key a) m"] show ?case by auto
  qed simp
  from this [of 0] show "r \<in> set tbl \<Longrightarrow> key r < next_key key tbl" and "0 < next_key key tbl"
    by (force simp: next_key_def)+
qed

section \<open>Lemmas on the tally\<close>

text \<open>The choices a lineage has on record for a topic, whatever node they came through.\<close>

definition ballot :: "string \<Rightarrow> database \<Rightarrow> string \<Rightarrow> string set" where
  "ballot topic_id db l = {vot_choice v | v. v \<in> set (forum_topic_votes db) \<and>
     vot_topic_id v = topic_id \<and> vot_voter_lineage_id v = l}"

text \<open>The lineages whose every vote says the same thing, the proposer left out.\<close>

definition united :: "string \<Rightarrow> string \<Rightarrow> database \<Rightarrow> string \<Rightarrow> string set" where
  "united topic_id proposer db choice = {l. l \<noteq> proposer \<and> ballot topic_id db l = {choice}}"

definition divided :: "string \<Rightarrow> string \<Rightarrow> database \<Rightarrow> string set" where
  "divided topic_id proposer db = {l. l \<noteq> proposer \<and> card (ballot topic_id db l) \<ge> 2}"

definition votes_legal :: "database \<Rightarrow> bool" where
  "votes_legal db \<longleftrightarrow>
     list_all (\<lambda>v. vot_choice v \<in> {''approve'', ''reject'', ''needs_revision''}) (forum_topic_votes db)"

definition choices :: "vote_row list \<Rightarrow> string \<Rightarrow> string set" where
  "choices vs l = vot_choice ` {v \<in> set vs. vot_voter_lineage_id v = l}"

lemma choices_eval [simp]:
  "choices [] l = {}"
  "choices (vs @ [v]) l =
     (if vot_voter_lineage_id v = l then insert (vot_choice v) (choices vs l) else choices vs l)"
  by (auto simp: choices_def)

definition grouped :: "string \<Rightarrow> vote_row list \<Rightarrow> (string \<times> string list) list \<Rightarrow> bool" where
  "grouped proposer vs m \<longleftrightarrow> str_sorted (map fst m) \<and>
     (\<forall>l. (map_of m l = None \<longleftrightarrow> l = proposer \<or> choices vs l = {}) \<and>
          (\<forall>cs. map_of m l = Some cs \<longrightarrow> str_sorted cs \<and> set cs = choices vs l))"

lemma groupedD:
  assumes "grouped proposer vs m"
  shows "str_sorted (map fst m)"
    and "map_of m l = None \<longleftrightarrow> l = proposer \<or> choices vs l = {}"
    and "map_of m l = Some cs \<Longrightarrow> str_sorted cs"
    and "map_of m l = Some cs \<Longrightarrow> set cs = choices vs l"
  using assms by (simp_all add: grouped_def)

lemma grouped_snoc_own:
  "grouped proposer vs m \<Longrightarrow> vot_voter_lineage_id v = proposer \<Longrightarrow> grouped proposer (vs @ [v]) m"
  unfolding grouped_def by (metis choices_eval(2) option.discI)

lemma grouped_snoc_other:
  assumes g: "grouped proposer vs m" and other: "vot_voter_lineage_id v \<noteq> proposer"
  shows "grouped proposer (vs @ [v]) (entry_insert (vot_voter_lineage_id v) (vot_choice v) m)"
proof -
  let ?k = "vot_voter_lineage_id v"
  let ?m = "entry_insert ?k (vot_choice v) m"
  have sorted: "str_sorted (map fst m)" using g by (simp add: grouped_def)
  have "(map_of ?m l = None \<longleftrightarrow> l = proposer \<or> choices (vs @ [v]) l = {}) \<and>
      (\<forall>cs. map_of ?m l = Some cs \<longrightarrow> str_sorted cs \<and> set cs = choices (vs @ [v]) l)" for l
  proof (cases "l = ?k")
    case True
    have "(map_of m ?k = None \<longrightarrow> choices vs ?k = {}) \<and>
        (\<forall>cs. map_of m ?k = Some cs \<longrightarrow> str_sorted cs \<and> set cs = choices vs ?k)"
      using g other unfolding grouped_def by blast
    with True other show ?thesis
      by (auto simp: lookup_entry_insert [OF sorted] str_sorted_btree_insert split: option.splits)
  next
    case False
    then show ?thesis using g unfolding grouped_def by (simp add: lookup_entry_insert [OF sorted])
  qed
  with sorted show ?thesis by (simp add: grouped_def str_sorted_entry_insert)
qed

lemma grouped_group_votes: "grouped proposer vs (group_votes proposer vs)"
proof (induction vs rule: rev_induct)
  case Nil
  then show ?case by (simp add: grouped_def group_votes_def)
next
  case (snoc v vs)
  have "group_votes proposer (vs @ [v]) = (if vot_voter_lineage_id v \<noteq> proposer
      then entry_insert (vot_voter_lineage_id v) (vot_choice v) (group_votes proposer vs)
      else group_votes proposer vs)"
    by (simp add: group_votes_def)
  with snoc show ?case by (simp add: grouped_snoc_own grouped_snoc_other)
qed

text \<open>The counting loop on a well-formed map: each column is the number of lineages of its class.\<close>

definition lineages_with :: "(string list \<Rightarrow> bool) \<Rightarrow> (string \<times> string list) list \<Rightarrow> string list" where
  "lineages_with P m = map fst (filter (\<lambda>e. P (snd e)) m)"

lemma lineages_with_eval [simp]:
  "lineages_with P [] = []"
  "lineages_with P (e # m) = (if P (snd e) then fst e # lineages_with P m else lineages_with P m)"
  by (simp_all add: lineages_with_def)

lemma count_lineages:
  assumes "\<forall>e\<in>set m. \<forall>c\<in>set (snd e). c \<in> {''approve'', ''reject'', ''needs_revision''}"
  shows "fold_result count_lineage m t = Inr \<lparr>
     ta_approvals = ta_approvals t + len (lineages_with (\<lambda>cs. cs = [''approve'']) m),
     ta_rejections = ta_rejections t + len (lineages_with (\<lambda>cs. cs = [''reject'']) m),
     ta_needs_revision = ta_needs_revision t + len (lineages_with (\<lambda>cs. cs = [''needs_revision'']) m),
     ta_conflicted_lineages =
       ta_conflicted_lineages t @ lineages_with (\<lambda>cs. length cs \<noteq> 1) m \<rparr>"
  using assms
proof (induction m arbitrary: t)
  case Nil
  then show ?case by (simp add: len_def)
next
  case (Cons e m)
  obtain l cs where e: "e = (l, cs)" by (cases e)
  show ?case
  proof (cases cs rule: remdups_adj.cases)
    case (2 c)
    with e Cons show ?thesis by (auto simp: count_lineage_def len_def)
  qed (use e Cons in \<open>auto simp: count_lineage_def len_def\<close>)
qed

lemma map_of_sorted: "str_sorted (map fst m) \<Longrightarrow> (l, cs) \<in> set m \<longleftrightarrow> map_of m l = Some cs"
  by (metis map_of_SomeD map_of_is_SomeI str_sorted_distinct)

lemma card_sorted: "str_sorted cs \<Longrightarrow> card (set cs) = length cs"
  by (rule distinct_card [OF str_sorted_distinct])

lemma singleton_sorted:
  assumes "str_sorted cs"
  shows "cs = [c] \<longleftrightarrow> set cs = {c}"
proof
  assume single: "set cs = {c}"
  with card_sorted [OF assms] have "length cs = Suc 0" by simp
  with single show "cs = [c]" by (cases cs) auto
qed simp

lemma lineages_with_set:
  assumes g: "grouped proposer vs m"
    and P: "\<And>cs. str_sorted cs \<Longrightarrow> cs \<noteq> [] \<Longrightarrow> P cs \<longleftrightarrow> Q (set cs)" and Q: "\<not> Q {}"
  shows "set (lineages_with P m) = {l. l \<noteq> proposer \<and> Q (choices vs l)}"
    and "distinct (lineages_with P m)"
proof -
  have sorted: "str_sorted (map fst m)" using g by (simp add: grouped_def)
  have "l \<in> set (lineages_with P m) \<longleftrightarrow> l \<noteq> proposer \<and> Q (choices vs l)" for l
  proof (cases "map_of m l")
    case None
    then have "l = proposer \<or> choices vs l = {}" using g by (auto simp: grouped_def)
    moreover have "l \<notin> set (lineages_with P m)"
      using None by (auto simp: lineages_with_def map_of_eq_None_iff)
    ultimately show ?thesis using Q by auto
  next
    case (Some cs)
    with groupedD(2) [OF g, of l] have cs: "l \<noteq> proposer" "choices vs l \<noteq> {}" by auto
    note cs' = groupedD(3,4) [OF g Some]
    have "l \<in> set (lineages_with P m) \<longleftrightarrow> (\<exists>cs'. (l, cs') \<in> set m \<and> P cs')"
      by (force simp: lineages_with_def)
    then have "l \<in> set (lineages_with P m) \<longleftrightarrow> P cs"
      using Some map_of_sorted [OF sorted] by simp
    moreover have "cs \<noteq> []" using cs cs' by auto
    ultimately show ?thesis using cs cs' P [of cs] by simp
  qed
  then show "set (lineages_with P m) = {l. l \<noteq> proposer \<and> Q (choices vs l)}" by blast
  show "distinct (lineages_with P m)"
    using str_sorted_distinct [OF sorted] by (simp add: lineages_with_def distinct_map_filter)
qed

lemma choices_votes_on: "choices (votes_on topic_id db) l = ballot topic_id db l"
  by (auto simp: choices_def votes_on_def ballot_def)

lemma tally_votes_counts:
  assumes legal: "votes_legal db"
  shows "\<exists>t. tally_votes topic_id proposer db = Inr t \<and>
    ta_approvals t = int (card (united topic_id proposer db ''approve'')) \<and>
    ta_rejections t = int (card (united topic_id proposer db ''reject'')) \<and>
    ta_needs_revision t = int (card (united topic_id proposer db ''needs_revision'')) \<and>
    set (ta_conflicted_lineages t) = divided topic_id proposer db \<and>
    distinct (ta_conflicted_lineages t)"
proof -
  define m where "m = group_votes proposer (votes_on topic_id db)"
  have g: "grouped proposer (votes_on topic_id db) m" by (simp add: m_def grouped_group_votes)
  have "\<forall>e\<in>set m. \<forall>c\<in>set (snd e). c \<in> {''approve'', ''reject'', ''needs_revision''}"
  proof (intro ballI)
    fix e c assume e: "e \<in> set m" "c \<in> set (snd e)"
    have "str_sorted (map fst m)" using g by (simp add: grouped_def)
    from map_of_sorted [OF this] e(1) have "map_of m (fst e) = Some (snd e)" by (cases e) auto
    with g e(2) have "c \<in> ballot topic_id db (fst e)"
      unfolding grouped_def choices_votes_on by fastforce
    then show "c \<in> {''approve'', ''reject'', ''needs_revision''}"
      using legal by (auto simp: ballot_def votes_legal_def list_all_iff)
  qed
  note counted = count_lineages [OF this, of no_tally]
  have one: "len (lineages_with (\<lambda>cs. cs = [c]) m) = int (card (united topic_id proposer db c))" for c
  proof -
    have "set (lineages_with (\<lambda>cs. cs = [c]) m) = united topic_id proposer db c"
      and "distinct (lineages_with (\<lambda>cs. cs = [c]) m)"
      using lineages_with_set [OF g, of "\<lambda>cs. cs = [c]" "\<lambda>C. C = {c}"]
      by (auto simp: singleton_sorted choices_votes_on united_def)
    then show ?thesis by (simp add: len_def distinct_card [symmetric])
  qed
  have "str_sorted cs \<Longrightarrow> cs \<noteq> [] \<Longrightarrow> length cs \<noteq> 1 \<longleftrightarrow> card (set cs) \<ge> 2" for cs :: "string list"
    unfolding card_sorted by (cases cs rule: remdups_adj.cases) simp_all
  from lineages_with_set [OF g, of "\<lambda>cs. length cs \<noteq> 1" "\<lambda>C. card C \<ge> 2", OF this]
  have conflicted: "set (lineages_with (\<lambda>cs. length cs \<noteq> 1) m) = divided topic_id proposer db"
      "distinct (lineages_with (\<lambda>cs. length cs \<noteq> 1) m)"
    by (auto simp: choices_votes_on divided_def)
  show ?thesis
    using counted conflicted by (simp add: tally_votes_def m_def [symmetric] no_tally_def one)
qed

section \<open>Lemmas on projection\<close>

text \<open>The invariant of the commons tables: primary keys, the vote \<open>CHECK\<close>, and row order.\<close>

definition commons_ok :: "database \<Rightarrow> bool" where
  "commons_ok db \<longleftrightarrow> distinct (map top_topic_id (forum_topics db)) \<and>
     distinct (map vote_key (forum_topic_votes db)) \<and> votes_legal db \<and>
     distinct (map pgp_key (Schema.openpgp_keys db)) \<and>
     sorted_wrt (<) (0 # map pst_projection_sequence (forum_posts db)) \<and>
     sorted_wrt (<) (0 # map msg_projection_sequence (direct_messages db))"

lemma newest_upsert_Inr:
  "newest_upsert key unique seq r tbl = Inr tbl' \<longleftrightarrow>
     (\<forall>old\<in>set tbl. key old = key r \<or> unique old \<noteq> unique r) \<and>
     tbl' = upsert key (\<lambda>old new. if seq new > seq old then new else old) r tbl"
  by (auto simp: newest_upsert_def list_ex_iff)

lemma upsert_newest_distinct:
  "distinct (map key tbl) \<Longrightarrow>
   distinct (map key (upsert key (\<lambda>old new. if seq new > seq old then new else old) r tbl))"
  by (rule upsert_distinct) simp_all

lemma in_upsert: "x \<in> set (upsert key merge r tbl) \<Longrightarrow>
   x \<in> set tbl \<or> x = r \<or> (\<exists>old\<in>set tbl. key old = key r \<and> x = merge old r)"
  by (auto simp: upsert_def split: if_splits)

lemma sorted_next_key:
  "sorted_wrt (<) (0 # map key tbl) \<Longrightarrow> sorted_wrt (<) (0 # map key tbl @ [next_key key tbl])"
  using next_key_above(1) [of _ tbl key] next_key_above(2) [of key tbl]
  by (auto simp: sorted_wrt_append)

text \<open>Each arm keeps the invariant of the table it writes and leaves the other tables alone.\<close>

lemma commons_ok_topic:
  "commons_ok db \<Longrightarrow> commons_ok (project_topic X origin sequence l e t p db)"
  by (auto simp: commons_ok_def project_topic_def Let_def votes_legal_def insert_or_ignore_def
      list_ex_iff)

lemma commons_ok_vote:
  assumes ok: "commons_ok db" and "project_vote origin sequence l e t p db = Inr db'"
  shows "commons_ok db'"
proof -
  obtain r where r: "db' = db\<lparr>forum_topic_votes :=
      upsert vote_key (\<lambda>old new. if vot_origin_sequence new > vot_origin_sequence old then new else old)
        r (forum_topic_votes db)\<rparr>" "vot_choice r = topic_vote_choice_str (tv_choice p)"
    using assms(2) by (auto simp: project_vote_def newest_upsert_Inr new_vote_def)
  have "vot_choice r \<in> {''approve'', ''reject'', ''needs_revision''}"
    using r(2) by (cases "tv_choice p") auto
  with ok r(1) have "votes_legal db'"
    by (auto simp: commons_ok_def votes_legal_def list_all_iff dest!: in_upsert split: if_splits)
  with ok r(1) show ?thesis by (simp add: commons_ok_def upsert_newest_distinct)
qed

lemma commons_ok_post:
  "commons_ok db \<Longrightarrow> commons_ok (project_post X origin sequence l e t p db)"
  using sorted_next_key [of pst_projection_sequence "forum_posts db"]
  by (simp add: commons_ok_def project_post_def Let_def votes_legal_def insert_or_ignore_def)

lemma commons_ok_openpgp_key:
  "commons_ok db \<Longrightarrow> project_openpgp_key origin sequence l e t p db = Inr db' \<Longrightarrow> commons_ok db'"
  by (auto simp: commons_ok_def project_openpgp_key_def Let_def votes_legal_def newest_upsert_Inr
      upsert_newest_distinct)

lemma commons_ok_message:
  "commons_ok db \<Longrightarrow> commons_ok (project_message X origin sequence l e t p db)"
  using sorted_next_key [of msg_projection_sequence "direct_messages db"]
  by (simp add: commons_ok_def project_message_def Let_def votes_legal_def insert_or_ignore_def)

lemma commons_ok_project:
  "commons_ok db \<Longrightarrow> project_commons_contribution X origin sequence l e c db = Inr db' \<Longrightarrow> commons_ok db'"
  by (auto simp: project_commons_contribution_def with_payload_def
      intro: commons_ok_topic commons_ok_vote commons_ok_post commons_ok_openpgp_key
        commons_ok_message split: contribution_kind.splits)

lemma commons_ok_empty: "commons_ok empty_database"
  by (simp add: commons_ok_def votes_legal_def)

text \<open>A revoked fingerprint stays revoked at its origin through every projection.\<close>

definition revoked_at :: "string \<Rightarrow> string \<Rightarrow> string \<Rightarrow> database \<Rightarrow> bool" where
  "revoked_at l origin fp db \<longleftrightarrow>
     (\<exists>k\<in>set (Schema.openpgp_keys db). pgp_key k = (l, origin, fp) \<and> pgp_action k = ''revoke'')"

lemma openpgp_keys_frame:
  assumes "project_commons_contribution X origin sequence l e c db = Inr db'"
  shows "Schema.openpgp_keys db' = Schema.openpgp_keys db \<or>
    (\<exists>p. project_openpgp_key origin sequence l e (sc_created_at c) p db = Inr db')"
  using assms
  by (auto simp: project_commons_contribution_def with_payload_def project_topic_def project_vote_def
      project_post_def project_message_def Let_def split: contribution_kind.splits)

lemma revoked_at_project_key:
  assumes ok: "commons_ok db" and rev: "revoked_at l o' fp db"
    and p: "project_openpgp_key origin sequence l' e t p db = Inr db'"
  shows "revoked_at l o' fp db'"
proof -
  obtain k where k: "k \<in> set (Schema.openpgp_keys db)" "pgp_key k = (l, o', fp)" "pgp_action k = ''revoke''"
    using rev by (auto simp: revoked_at_def)
  have "distinct (map pgp_key (Schema.openpgp_keys db))" using ok by (simp add: commons_ok_def)
  from first_row_key [OF this k(1,2)] k(3)
  have same: "(l', origin, pk_fingerprint p) = (l, o', fp) \<Longrightarrow> pk_action p \<noteq> PK_Publish"
    using p by (auto simp: project_openpgp_key_def Let_def)
  obtain r where r: "Schema.openpgp_keys db' = upsert pgp_key
      (\<lambda>old new. if pgp_origin_sequence new > pgp_origin_sequence old then new else old)
      r (Schema.openpgp_keys db)"
      "pgp_key r = (l', origin, pk_fingerprint p)" "pgp_action r = openpgp_key_action_str (pk_action p)"
    using p by (auto simp: project_openpgp_key_def Let_def newest_upsert_Inr pgp_key_def)
  show ?thesis
  proof (cases "pgp_key r = pgp_key k")
    case False
    then have "k \<in> set (Schema.openpgp_keys db')"
      using k(1) r(1) by (force simp: upsert_def image_iff)
    with k show ?thesis by (auto simp: revoked_at_def)
  next
    case True
    then have "pgp_action r = ''revoke''"
      using same r(2,3) k(2) by (cases "pk_action p") auto
    moreover have "(if pgp_origin_sequence r > pgp_origin_sequence k then r else k)
        \<in> set (Schema.openpgp_keys db')"
      using True k(1) r(1) by (force simp: upsert_def list_ex_iff image_iff)
    ultimately show ?thesis using True k unfolding revoked_at_def by (metis (full_types))
  qed
qed

lemma revoked_at_project:
  assumes "commons_ok db" and "revoked_at l o' fp db"
    and "project_commons_contribution X origin sequence l' e c db = Inr db'"
  shows "revoked_at l o' fp db'"
  using openpgp_keys_frame [OF assms(3)] assms(2) revoked_at_project_key [OF assms(1,2)]
  by (auto simp: revoked_at_def)

lemma revoked_not_active: "revoked_at l origin fp db \<Longrightarrow> \<not> openpgp_key_is_active l fp db"
  by (auto simp: revoked_at_def openpgp_key_is_active_def pgp_key_def count_rows_def
      filter_empty_conv)

lemma newest_upsert_lookup:
  "first_row (\<lambda>x. key x = k)
     (upsert key (\<lambda>old new. if seq new > seq old then new else old) r tbl) =
   (if k = key r
    then Some (case first_row (\<lambda>x. key x = k) tbl of None \<Rightarrow> r
                 | Some old \<Rightarrow> if seq r > (seq old :: int) then r else old)
    else first_row (\<lambda>x. key x = k) tbl)"
proof (cases "list_ex (\<lambda>old. key old = key r) tbl")
  case True
  let ?f = "\<lambda>old. if key old = key r then (if seq r > seq old then r else old) else old"
  have "k \<noteq> key r \<Longrightarrow> first_row (\<lambda>x. key x = k) (map ?f tbl) = first_row (\<lambda>x. key x = k) tbl" for tbl
    by (induction tbl) auto
  moreover have "list_ex (\<lambda>old. key old = key r) tbl \<Longrightarrow>
    first_row (\<lambda>x. key x = key r) (map ?f tbl) =
      map_option ?f (first_row (\<lambda>x. key x = key r) tbl)" for tbl
    by (induction tbl) auto
  moreover obtain old where old: "first_row (\<lambda>x. key x = key r) tbl = Some old"
    using True by (cases "first_row (\<lambda>x. key x = key r) tbl") (auto simp: list_ex_iff)
  moreover have "key old = key r" using first_row_Some [OF old] by simp
  ultimately show ?thesis using True by (cases "k = key r") (simp_all add: upsert_def)
next
  case False
  then have "first_row (\<lambda>x. key x = key r) tbl = None" by (simp add: list_ex_iff)
  with False show ?thesis
    by (cases "first_row (\<lambda>x. key x = k) tbl") (auto simp: upsert_def simp del: first_row_None)
qed

definition vote_of :: "string \<times> string \<times> string \<Rightarrow> database \<Rightarrow> vote_row option" where
  "vote_of k db = first_row (\<lambda>v. vote_key v = k) (forum_topic_votes db)"

lemma vote_of_project:
  assumes "project_vote origin sequence l e t p db = Inr db'"
  shows "vote_of k db' = (if k = (tv_topic_id p, l, origin)
       then Some (case vote_of k db of None \<Rightarrow> new_vote origin sequence l e t p
          | Some old \<Rightarrow> if sequence > vot_origin_sequence old then new_vote origin sequence l e t p else old)
       else vote_of k db)"
proof -
  have "vote_key (new_vote origin sequence l e t p) = (tv_topic_id p, l, origin)"
    "vot_origin_sequence (new_vote origin sequence l e t p) = sequence"
    by (simp_all add: new_vote_def vote_key_def)
  with assms show ?thesis
    by (auto simp: project_vote_def newest_upsert_Inr vote_of_def newest_upsert_lookup
        simp del: first_row_None split: option.splits)
qed

section \<open>Reading pages\<close>

text \<open>A reader that follows \<open>next_cursor\<close> until \<open>has_more\<close> is false, with a bound on the number of
  requests.\<close>

fun read_pages :: "(int \<Rightarrow> 'r page result) \<Rightarrow> nat \<Rightarrow> int \<Rightarrow> 'r list option" where
  "read_pages fetch 0 after = None"
| "read_pages fetch (Suc n) after = (case fetch after of
       Inl _ \<Rightarrow> None
     | Inr p \<Rightarrow> if pg_has_more p
         then map_option (\<lambda>rs. pg_rows p @ rs) (read_pages fetch n (pg_next_cursor p))
         else Some (pg_rows p))"

lemma filter_beyond_take:
  fixes pos :: "'r \<Rightarrow> int"
  assumes "sorted_wrt (<) (map pos xs)" and "0 < n" and "n \<le> length xs"
  shows "filter (\<lambda>r. pos r > pos (last (take n xs))) xs = drop n xs"
proof -
  obtain ys y where ys: "take n xs = ys @ [y]"
    using assms(2,3) by (cases "take n xs" rule: rev_cases) auto
  then have xs: "xs = ys @ y # drop n xs"
    by (metis append.assoc append_Cons append_Nil append_take_drop_id)
  have "sorted_wrt (<) (map pos (ys @ y # drop n xs))" using assms(1) xs by simp
  then have "\<forall>r\<in>set ys. \<not> pos r > pos y" "\<forall>r\<in>set (drop n xs). pos r > pos y"
    by (auto simp: sorted_wrt_append)
  then have "filter (\<lambda>r. pos r > pos y) (ys @ y # drop n xs) = drop n xs"
    by (auto simp: filter_empty_conv filter_id_conv)
  with ys xs show ?thesis by simp
qed

text \<open>What a paged query promises: the page after a cursor is cut from the selected rows beyond it,
  which are in strictly increasing cursor order.\<close>

locale cursor_pages =
  fixes fetch :: "'d \<Rightarrow> int \<Rightarrow> nat \<Rightarrow> 'r page result"
    and selected :: "'d \<Rightarrow> 'r list" and pos :: "'r \<Rightarrow> int" and readable :: "'d \<Rightarrow> bool"
  assumes cut: "readable d \<Longrightarrow> 0 \<le> after \<Longrightarrow>
      fetch d after limit = Inr (cut_page pos after limit (filter (\<lambda>r. pos r > after) (selected d)))"
    and ordered: "readable d \<Longrightarrow> sorted_wrt (<) (0 # map pos (selected d))"
begin

lemma reads_rest:
  assumes "readable d" and "0 < limit" and "0 \<le> after"
    and "length (filter (\<lambda>r. pos r > after) (selected d)) < fuel"
  shows "read_pages (\<lambda>a. fetch d a limit) fuel after =
           Some (filter (\<lambda>r. pos r > after) (selected d))"
  using assms(3,4)
proof (induction fuel arbitrary: after)
  case 0
  then show ?case by simp
next
  case (Suc fuel)
  let ?rest = "filter (\<lambda>r. pos r > after) (selected d)"
  note page = cut [OF assms(1) Suc.prems(1), of limit]
  show ?case
  proof (cases "length ?rest \<le> limit")
    case True
    then show ?thesis by (simp add: page cut_page_def Let_def)
  next
    case False
    let ?next = "pos (last (take limit ?rest))"
    have sorted: "sorted_wrt (<) (map pos (selected d))" using ordered [OF assms(1)] by simp
    then have "sorted_wrt (<) (map pos ?rest)"
      by (simp add: sorted_wrt_map sorted_wrt_filter)
    from filter_beyond_take [OF this assms(2)] False
    have rest: "filter (\<lambda>r. pos r > ?next) ?rest = drop limit ?rest" by simp
    have kept: "take limit ?rest \<noteq> []" using False assms(2) by (cases ?rest; cases limit) auto
    then have "last (take limit ?rest) \<in> set ?rest" by (meson in_set_takeD last_in_set)
    then have "?next > after" by simp
    then have "filter (\<lambda>r. pos r > ?next) ?rest = filter (\<lambda>r. pos r > ?next) (selected d)"
      by (auto intro: filter_cong)
    with rest have rest': "filter (\<lambda>r. pos r > ?next) (selected d) = drop limit ?rest" by simp
    have "length (drop limit ?rest) < fuel" using Suc.prems(2) assms(2) False by simp
    with Suc.IH [of ?next] rest' \<open>?next > after\<close> Suc.prems(1)
    have "read_pages (\<lambda>a. fetch d a limit) fuel ?next = Some (drop limit ?rest)" by simp
    then show ?thesis using False kept by (simp add: page cut_page_def Let_def min_def)
  qed
qed

lemma reads_all:
  assumes "readable d" and "0 < limit" and "length (selected d) < fuel"
  shows "read_pages (\<lambda>a. fetch d a limit) fuel 0 = Some (selected d)"
proof -
  have "filter (\<lambda>r. pos r > 0) (selected d) = selected d"
    using ordered [OF assms(1)] by (auto simp: filter_id_conv)
  with reads_rest [OF assms(1,2), of 0 fuel] assms(3) show ?thesis by simp
qed

end

definition posts_of :: "string \<Rightarrow> database \<Rightarrow> post_row list" where
  "posts_of topic_id db = filter (\<lambda>p. pst_topic_id p = topic_id) (forum_posts db)"

definition messages_to :: "string \<Rightarrow> database \<Rightarrow> message_row list" where
  "messages_to l db = filter (\<lambda>m. msg_recipient_lineage_id m = l) (direct_messages db)"

interpretation topic_posts: cursor_pages
  "\<lambda>(topic_id, now, db) after limit. forum_posts_page topic_id now after limit db"
  "\<lambda>(topic_id, now, db). posts_of topic_id db" pst_projection_sequence
  "\<lambda>(topic_id, now, db). commons_ok db \<and> (\<exists>v. topic_view topic_id now db = Inr v)"
proof (unfold_locales, goal_cases)
  case (1 d after limit)
  then show ?case by (auto simp: forum_posts_page_def posts_of_def conj_commute intro!: arg_cong [where f = "cut_page _ _ _"])
next
  case (2 d)
  then show ?case
    by (auto simp: commons_ok_def posts_of_def sorted_wrt_map intro: sorted_wrt_filter)
qed

interpretation inbox: cursor_pages
  "\<lambda>(lineage_id, db) after limit. direct_messages_page lineage_id after limit db"
  "\<lambda>(lineage_id, db). messages_to lineage_id db" msg_projection_sequence
  "\<lambda>(lineage_id, db). commons_ok db"
proof (unfold_locales, goal_cases)
  case (1 d after limit)
  then show ?case by (auto simp: direct_messages_page_def messages_to_def conj_commute intro!: arg_cong [where f = "cut_page _ _ _"])
next
  case (2 d)
  then show ?case
    by (auto simp: commons_ok_def messages_to_def sorted_wrt_map intro: sorted_wrt_filter)
qed

section \<open>Properties\<close>

definition demo_vote :: "string \<Rightarrow> string \<Rightarrow> int \<Rightarrow> topic_vote_choice \<Rightarrow> vote_row" where
  "demo_vote voter origin sequence choice = new_vote origin sequence voter (voter @ origin) 0
     \<lparr> tv_topic_id = ''t'', tv_choice = choice, tv_rationale = ''because it fits'' \<rparr>"

definition demo_topic :: topic_row where
  "demo_topic = \<lparr> top_topic_id = ''t'', top_origin_node_id = ''n'', top_origin_sequence = 1,
     top_proposal_event_id = ''e'', top_proposer_lineage_id = ''alice'', top_parent_topic_id = None,
     top_slug = ''topic'', top_title = ''Topic'', top_summary = ''a topic'', top_charter = ''a charter'',
     top_tags = [], top_languages = [''en''], top_archive_after_days = 30, top_created_at = 0 \<rparr>"

text \<open>Bob and Carol approve, Alice proposed, Dave said yes through one node and no through another.\<close>

definition demo_commons :: database where
  "demo_commons = empty_database\<lparr> forum_topics := [demo_topic],
     forum_topic_votes := [demo_vote ''alice'' ''n'' 2 TV_Approve, demo_vote ''bob'' ''n'' 3 TV_Approve,
       demo_vote ''dave'' ''n'' 4 TV_Approve, demo_vote ''dave'' ''m'' 5 TV_Reject,
       demo_vote ''carol'' ''m'' 6 TV_Approve] \<rparr>"

lemma demo_commons_ok: "commons_ok demo_commons"
  by (simp add: commons_ok_def demo_commons_def votes_legal_def demo_vote_def new_vote_def vote_key_def
      demo_topic_def)

text \<open>C31: the approval rule.  On well-formed tables the approval query of a known topic always
  answers, and answers yes exactly when at least two lineages other than the proposer are united for
  approval and they outnumber those united for rejection.  A lineage whose votes, cast through
  different nodes, disagree counts on neither side.\<close>

theorem topic_approval_rule:
  assumes "commons_ok db" and "t \<in> set (forum_topics db)"
  shows "topic_is_approved (top_topic_id t) db = Inr
    (card (united (top_topic_id t) (top_proposer_lineage_id t) db ''approve'') \<ge> 2 \<and>
     card (united (top_topic_id t) (top_proposer_lineage_id t) db ''approve'') >
     card (united (top_topic_id t) (top_proposer_lineage_id t) db ''reject''))"
proof -
  have "distinct (map top_topic_id (forum_topics db))" "votes_legal db"
    using assms(1) by (simp_all add: commons_ok_def)
  from first_row_key [OF this(1) assms(2) refl]
    tally_votes_counts [OF this(2), of "top_topic_id t" "top_proposer_lineage_id t"]
  show ?thesis by (auto simp: topic_is_approved_def approves_def)
qed

theorem topic_approval_rule_witness:
  "card (united ''t'' ''alice'' demo_commons ''approve'') \<ge> 2 \<and>
   card (united ''t'' ''alice'' demo_commons ''approve'') > card (united ''t'' ''alice'' demo_commons ''reject'')"
proof -
  have "demo_topic \<in> set (forum_topics demo_commons)" by (simp add: demo_commons_def)
  from topic_approval_rule [OF demo_commons_ok this]
  have "topic_is_approved ''t'' demo_commons = Inr
    (card (united ''t'' ''alice'' demo_commons ''approve'') \<ge> 2 \<and>
     card (united ''t'' ''alice'' demo_commons ''approve'') >
     card (united ''t'' ''alice'' demo_commons ''reject''))"
    by (simp add: demo_topic_def)
  moreover have "topic_is_approved ''t'' demo_commons = Inr True" by code_simp
  ultimately show ?thesis by simp
qed

text \<open>C32: votes converge.  Projecting two votes in either order leaves the same vote on record for
  every topic, lineage and origin, as long as two votes of one lineage through one origin carry
  different origin sequences.\<close>

theorem votes_commute:
  assumes "project_vote o1 s1 l1 e1 t1 p1 db = Inr d1" and "project_vote o2 s2 l2 e2 t2 p2 d1 = Inr d12"
    and "project_vote o2 s2 l2 e2 t2 p2 db = Inr d2" and "project_vote o1 s1 l1 e1 t1 p1 d2 = Inr d21"
    and "(tv_topic_id p1, l1, o1) \<noteq> (tv_topic_id p2, l2, o2) \<or> s1 \<noteq> s2"
  shows "vote_of k d12 = vote_of k d21"
proof -
  have seq: "vot_origin_sequence (new_vote og s l e t p) = s" for og s l e t p
    by (simp add: new_vote_def)
  show ?thesis
    using assms(5) vote_of_project [OF assms(1), of k] vote_of_project [OF assms(2), of k]
      vote_of_project [OF assms(3), of k] vote_of_project [OF assms(4), of k]
    by (cases "vote_of k db") (auto simp: seq split: if_splits)
qed

definition demo_ballot :: "topic_vote_choice \<Rightarrow> topic_vote_payload" where
  "demo_ballot c = \<lparr> tv_topic_id = ''t'', tv_choice = c, tv_rationale = ''second thoughts'' \<rparr>"

theorem votes_commute_witness:
  "\<exists>d1 d12 d2 d21.
     project_vote ''n'' 7 ''erin'' ''a'' 0 (demo_ballot TV_Reject) demo_commons = Inr d1 \<and>
     project_vote ''n'' 8 ''erin'' ''b'' 0 (demo_ballot TV_Approve) d1 = Inr d12 \<and>
     project_vote ''n'' 8 ''erin'' ''b'' 0 (demo_ballot TV_Approve) demo_commons = Inr d2 \<and>
     project_vote ''n'' 7 ''erin'' ''a'' 0 (demo_ballot TV_Reject) d2 = Inr d21 \<and>
     vote_of (''t'', ''erin'', ''n'') d12 = vote_of (''t'', ''erin'', ''n'') d21"
proof -
  obtain d1 d12 d2 d21 where d:
    "project_vote ''n'' 7 ''erin'' ''a'' 0 (demo_ballot TV_Reject) demo_commons = Inr d1"
    "project_vote ''n'' 8 ''erin'' ''b'' 0 (demo_ballot TV_Approve) d1 = Inr d12"
    "project_vote ''n'' 8 ''erin'' ''b'' 0 (demo_ballot TV_Approve) demo_commons = Inr d2"
    "project_vote ''n'' 7 ''erin'' ''a'' 0 (demo_ballot TV_Reject) d2 = Inr d21"
    by (simp add: project_vote_def newest_upsert_def demo_commons_def demo_vote_def new_vote_def
        demo_ballot_def vote_key_def upsert_def)
  have "vote_of (''t'', ''erin'', ''n'') d12 = vote_of (''t'', ''erin'', ''n'') d21"
    using votes_commute [OF d] by simp
  with d show ?thesis by blast
qed

text \<open>An OpenPGP revocation is final.  Once a lineage has revoked a fingerprint at some origin,
  no sequence of accepted projections, from any origin, makes that fingerprint an active key of the
  lineage again.\<close>

lemma openpgp_revocation_is_final:
  assumes "commons_ok db" and "k \<in> set (Schema.openpgp_keys db)" and "pgp_action k = ''revoke''"
    and "fold_result (\<lambda>(origin, sequence, l, e, c). project_commons_contribution X origin sequence l e c)
           ps db = Inr db'"
  shows "\<not> openpgp_key_is_active (pgp_lineage_id k) (pgp_fingerprint k) db'"
proof -
  let ?R = "\<lambda>d. commons_ok d \<and> revoked_at (pgp_lineage_id k) (pgp_origin_node_id k) (pgp_fingerprint k) d"
  have "?R db" using assms(1-3) by (auto simp: revoked_at_def pgp_key_def)
  with assms(4) have "?R db'"
    by (rule fold_result_invariant [where P = ?R])
      (auto intro: commons_ok_project revoked_at_project)
  then show ?thesis by (blast dest: revoked_not_active)
qed

definition demo_revoked :: pgp_key_row where
  "demo_revoked = \<lparr> pgp_lineage_id = ''bob'', pgp_origin_node_id = ''n'', pgp_fingerprint = ''F'',
     pgp_origin_sequence = 3, pgp_event_id = ''e3'', pgp_action = ''revoke'',
     pgp_armored_public_key = None, pgp_note = [], pgp_created_at = 0 \<rparr>"

definition demo_publish :: signed_contribution where
  "demo_publish = \<lparr> sc_protocol = PROTOCOL_VERSION, sc_delegation_id = ''d'', sc_kind = K_OpenPgpKey,
     sc_created_at = 9, sc_nonce = ''key-nonce-000001'', sc_targets = [''bob''], sc_supersedes = [],
     sc_reporting = unverified_reporting,
     sc_payload = JObj [(''action'', JStr ''publish''), (''armored_public_key'', JStr ''K''),
       (''fingerprint'', JStr ''F'')], sc_signature = [] \<rparr>"

text \<open>C38: paging loses and repeats nothing.  A reader that follows \<open>next_cursor\<close> from the start, with
  any positive page size, receives every post of the topic exactly once and in arrival order, and
  needs at most one request per post and one more.\<close>

theorem forum_posts_paging_complete:
  assumes "commons_ok db" and "topic_view topic_id now db = Inr v" and "0 < limit"
    and "length (posts_of topic_id db) < requests"
  shows "read_pages (\<lambda>after. forum_posts_page topic_id now after limit db) requests 0 =
           Some (posts_of topic_id db)"
  using topic_posts.reads_all [of "(topic_id, now, db)" limit requests] assms by auto

definition demo_forum_post :: forum_post_payload where
  "demo_forum_post = \<lparr> fp_topic_id = ''t'', fp_parent_post_id = None, fp_subject = None,
     fp_body = ''hello'', fp_language = ''en'', fp_mentions = [], fp_references = [] \<rparr>"

definition demo_forum :: database where
  "demo_forum = project_post demo_ext ''m'' 9 ''bob'' ''e9'' 4 demo_forum_post
     (project_post demo_ext ''n'' 8 ''dave'' ''e8'' 3 demo_forum_post demo_commons)"

theorem forum_posts_paging_complete_witness:
  "read_pages (\<lambda>after. forum_posts_page ''t'' 5 after 1 demo_forum) 3 0 =
     Some (posts_of ''t'' demo_forum) \<and> length (posts_of ''t'' demo_forum) = 2"
proof -
  have "isl (topic_view ''t'' 5 demo_forum) = False" by code_simp
  then obtain v where v: "topic_view ''t'' 5 demo_forum = Inr v"
    by (cases "topic_view ''t'' 5 demo_forum") auto
  have "commons_ok demo_forum"
    unfolding demo_forum_def by (intro commons_ok_post demo_commons_ok)
  moreover have "length (posts_of ''t'' demo_forum) = 2" by code_simp
  ultimately show ?thesis using forum_posts_paging_complete [OF _ v, of 1 3] by simp
qed

end
