(* ===== verification/Admission.thy ===== *)
theory Admission
  imports Authority Commons
begin

text \<open>
  The admission rules of a local contribution: \<open>validate_projection\<close> of \<^verbatim>\<open>src/src/db.rs\<close> with the
  reporting gate (\<open>validate_local_reporting\<close>) and the subject checks of reviews and attestations.
  These rules read the database inside the transaction that will append the event; a refusal leaves
  the database as it was.
\<close>

section \<open>Lookups in the event log\<close>

definition event_of_kind :: "database \<Rightarrow> string \<Rightarrow> string \<Rightarrow> event_row option" where
  "event_of_kind db event_id kind =
     first_row (\<lambda>e. ev_event_id e = event_id \<and> ev_kind e = kind) (events db)"

definition trace_subject_from_canonical :: "ext \<Rightarrow> string \<Rightarrow> string result" where
  "trace_subject_from_canonical X canonical =
     and_then (from_text X (d_signed_contribution X) canonical) (\<lambda>c.
     and_then (fail_if (sc_kind c \<noteq> K_VerificationTrace) Unauthorized) (\<lambda>_.
     and_then (from_value (d_verification_trace_payload X) (sc_payload c)) (\<lambda>p.
       Inr (vt_subject_id p))))"

definition local_trace_subject :: "ext \<Rightarrow> database \<Rightarrow> string \<Rightarrow> string option result" where
  "local_trace_subject X db trace_event_id =
     (case event_of_kind db trace_event_id ''verification_trace'' of
        None \<Rightarrow> Inr None
      | Some e \<Rightarrow> and_then (trace_subject_from_canonical X (ev_canonical_json e)) (\<lambda>s. Inr (Some s)))"

definition local_forge_canonical :: "database \<Rightarrow> string \<Rightarrow> string \<Rightarrow> string result" where
  "local_forge_canonical db event_id kind =
     ok_or (map_option ev_canonical_json (event_of_kind db event_id kind)) NotFound"

text \<open>\<open>SELECT lineage_id, canonical_json ..\<close> read as two non-null strings.\<close>

definition forge_proposal :: "database \<Rightarrow> string \<Rightarrow> string \<Rightarrow> (string \<times> string) result" where
  "forge_proposal db event_id kind =
     and_then (ok_or (event_of_kind db event_id kind) NotFound) (\<lambda>e.
     and_then (ok_or (ev_lineage_id e) Database) (\<lambda>l. Inr (l, ev_canonical_json e)))"

section \<open>The reporting gate\<close>

definition report_subject_ids :: "ext \<Rightarrow> signed_contribution \<Rightarrow> string list result" where
  "report_subject_ids X c = (case sc_kind c of
       K_SourceReview \<Rightarrow> with_payload (d_source_review_payload X) c (\<lambda>p. Inr [sr_source_id p])
     | K_ObservationVerification \<Rightarrow>
         with_payload (d_observation_verification_payload X) c (\<lambda>p. Inr [ov_observation_id p])
     | K_StoryLink \<Rightarrow> with_payload (d_story_link_payload X) c (\<lambda>p.
         Inr (sl_story_id p # sl_observation_ids p))
     | K_Assessment \<Rightarrow> with_payload (d_assessment_payload X) c (\<lambda>p. Inr [as_story_id p])
     | K_Correction \<Rightarrow> with_payload (d_correction_payload X) c (\<lambda>p. Inr [co_subject_event_id p])
     | K_WorkResult \<Rightarrow> with_payload (d_work_result_payload X) c (\<lambda>p. Inr [wr_work_id p])
     | _ \<Rightarrow> Inr (sc_targets c))"

definition require_parent_trace :: "ext \<Rightarrow> database \<Rightarrow> string \<Rightarrow> unit result" where
  "require_parent_trace X db parent =
     and_then (local_trace_subject X db parent) (\<lambda>s. fail_if (s = None) NotFound)"

definition require_trace_of :: "ext \<Rightarrow> database \<Rightarrow> string list \<Rightarrow> string \<Rightarrow> unit result" where
  "require_trace_of X db subjects trace_id =
     and_then (local_trace_subject X db trace_id) (\<lambda>s.
     and_then (ok_or s NotFound) (\<lambda>trace_subject.
       fail_if (trace_subject \<notin> set subjects) Validation))"

definition validate_local_reporting :: "ext \<Rightarrow> database \<Rightarrow> signed_contribution \<Rightarrow> unit result" where
  "validate_local_reporting X db c =
     (if sc_kind c = K_VerificationTrace
      then with_payload (d_verification_trace_payload X) c (\<lambda>p.
        check_each (require_parent_trace X db) (vt_parent_trace_event_ids p))
      else if requires_traceable_reporting (sc_kind c) \<and> \<not> is_traceable (sc_reporting c)
      then Inl Validation
      else if \<not> is_traceable (sc_reporting c) then Inr ()
      else and_then (report_subject_ids X c) (\<lambda>subjects.
        and_then (fail_if (subjects = []) Validation) (\<lambda>_.
          check_each (require_trace_of X db subjects) (rd_trace_event_ids (sc_reporting c)))))"

section \<open>Subjects of reviews and attestations\<close>

definition validate_code_review_subject :: "ext \<Rightarrow> code_review_payload \<Rightarrow> string \<Rightarrow> unit result" where
  "validate_code_review_subject X p canonical =
     and_then (from_text X (d_signed_contribution X) canonical) (\<lambda>c.
     with_payload d_repository_patch_payload c (\<lambda>patch.
       fail_if (rp_repository_id patch \<noteq> cr_repository_id p \<or>
                rp_proposed_revision patch \<noteq> cr_reviewed_revision p \<or>
                fa_sha256 (rp_artifact patch) \<noteq> cr_artifact_sha256 p) Validation))"

definition validate_build_attestation_subject ::
  "ext \<Rightarrow> build_attestation_payload \<Rightarrow> string \<Rightarrow> unit result" where
  "validate_build_attestation_subject X p canonical =
     and_then (from_text X (d_signed_contribution X) canonical) (\<lambda>c.
     with_payload d_repository_patch_payload c (\<lambda>patch.
       fail_if (rp_repository_id patch \<noteq> ba_repository_id p \<or>
                rp_proposed_revision patch \<noteq> ba_source_revision p \<or>
                fa_sha256 (rp_artifact patch) \<noteq> ba_artifact_sha256 p) Validation))"

definition validate_release_review_subject ::
  "ext \<Rightarrow> release_review_payload \<Rightarrow> string \<Rightarrow> unit result" where
  "validate_release_review_subject X p canonical =
     and_then (from_text X (d_signed_contribution X) canonical) (\<lambda>c.
     with_payload d_release_proposal_payload c (\<lambda>release.
       fail_if (rl_repository_id release \<noteq> rv_repository_id p \<or>
                rl_candidate_revision release \<noteq> rv_reviewed_revision p \<or>
                fa_sha256 (rl_source_artifact release) \<noteq> rv_artifact_sha256 p) Validation))"

section \<open>Existence checks\<close>

definition ensure_observation :: "database \<Rightarrow> string \<Rightarrow> unit result" where
  "ensure_observation db i =
     fail_if (\<not> list_ex (\<lambda>r. obs_observation_id r = i) (observations db)) NotFound"

definition ensure_story :: "database \<Rightarrow> string \<Rightarrow> unit result" where
  "ensure_story db i = fail_if (\<not> list_ex (\<lambda>r. sto_story_id r = i) (stories db)) NotFound"

definition ensure_open_work :: "database \<Rightarrow> string \<Rightarrow> unit result" where
  "ensure_open_work db work_id =
     (case first_row (\<lambda>w. wki_work_id w = work_id) (work_items db) of
        None \<Rightarrow> Inl NotFound
      | Some w \<Rightarrow> fail_if (wki_status w \<noteq> ''open'') Conflict)"

section \<open>The rules of each kind\<close>

definition admit_source_review :: "database \<Rightarrow> string \<Rightarrow> source_review_payload \<Rightarrow> unit result" where
  "admit_source_review db lineage_id p =
     and_then (ok_or (first_row (\<lambda>s. src_source_id s = sr_source_id p) (sources db)) NotFound) (\<lambda>s.
     check_all [
       fail_if (src_proposer_lineage_id s = lineage_id) Validation,
       fail_if (sr_evidence p = []) Validation])"

definition admit_story_link :: "database \<Rightarrow> story_link_payload \<Rightarrow> unit result" where
  "admit_story_link db p = check_all [
     ensure_story db (sl_story_id p),
     fail_if (sl_observation_ids p = []) Validation,
     check_each (ensure_observation db) (sl_observation_ids p)]"

definition admit_assessment :: "database \<Rightarrow> assessment_payload \<Rightarrow> unit result" where
  "admit_assessment db p = check_all [
     ensure_story db (as_story_id p),
     fail_if (as_evidence p = []) Validation]"

definition admit_correction ::
  "database \<Rightarrow> signed_contribution \<Rightarrow> correction_payload \<Rightarrow> unit result" where
  "admit_correction db c p = check_all [
     fail_if (\<not> list_ex (\<lambda>e. ev_event_id e = co_subject_event_id p) (events db)) NotFound,
     fail_if (len (trim (co_correction p)) < 10 \<or> len (trim (co_reason p)) < 10) Validation,
     fail_if (co_evidence p = []) Validation,
     fail_if (co_subject_event_id p \<notin> set (sc_supersedes c)) Validation]"

definition admit_work_claim :: "database \<Rightarrow> work_claim_payload \<Rightarrow> unit result" where
  "admit_work_claim db p = check_all [
     ensure_open_work db (wc_work_id p),
     fail_if (\<not> within 1 240 (wc_lease_minutes p)) Validation]"

definition admit_work_result :: "database \<Rightarrow> work_result_payload \<Rightarrow> unit result" where
  "admit_work_result db p = check_all [
     ensure_open_work db (wr_work_id p),
     fail_if (len (trim (wr_summary p)) < 10) Validation,
     fail_if (wr_evidence p = []) Validation]"

definition admit_topic_proposal ::
  "int \<Rightarrow> database \<Rightarrow> signed_contribution \<Rightarrow> topic_proposal_payload \<Rightarrow> unit result" where
  "admit_topic_proposal now db c p = check_all [
     require_exact_targets (sc_targets c) (case tp_parent_topic_id p of None \<Rightarrow> [] | Some t \<Rightarrow> [t]),
     require_no_supersessions c,
     (case tp_parent_topic_id p of None \<Rightarrow> Inr ()
      | Some t \<Rightarrow> and_then (topic_view t now db) (\<lambda>_. Inr ()))]"

definition admit_topic_vote ::
  "database \<Rightarrow> string \<Rightarrow> signed_contribution \<Rightarrow> topic_vote_payload \<Rightarrow> unit result" where
  "admit_topic_vote db lineage_id c p =
     and_then (ok_or (first_row (\<lambda>t. top_topic_id t = tv_topic_id p) (forum_topics db)) NotFound) (\<lambda>t.
     and_then (check_all [
       fail_if (top_proposer_lineage_id t = lineage_id) Validation,
       require_exact_targets (sc_targets c) [tv_topic_id p]]) (\<lambda>_.
     and_then (projection_node_id db) (\<lambda>origin.
       require_previous_superseded c
         (map_option vot_event_id (vote_of (tv_topic_id p, lineage_id, origin) db)))))"

definition admit_forum_post ::
  "database \<Rightarrow> signed_contribution \<Rightarrow> forum_post_payload \<Rightarrow> unit result" where
  "admit_forum_post db c p =
     and_then (topic_is_approved (fp_topic_id p) db) (\<lambda>approved.
     check_all [
       fail_if (\<not> approved) Validation,
       (case fp_parent_post_id p of None \<Rightarrow> Inr ()
        | Some i \<Rightarrow> and_then (ok_or (first_row (\<lambda>q. pst_post_id q = i) (forum_posts db)) NotFound)
            (\<lambda>parent. fail_if (pst_topic_id parent \<noteq> fp_topic_id p) Validation)),
       require_exact_targets (sc_targets c) (fp_topic_id p # fp_mentions p @ fp_references p),
       require_no_supersessions c])"

definition keys_with_action :: "database \<Rightarrow> string \<Rightarrow> string \<Rightarrow> string \<Rightarrow> int" where
  "keys_with_action db lineage_id fp action = count_rows (\<lambda>k.
     pgp_lineage_id k = lineage_id \<and> pgp_fingerprint k = fp \<and> pgp_action k = action)
     (Schema.openpgp_keys db)"

definition admit_openpgp_key ::
  "database \<Rightarrow> string \<Rightarrow> signed_contribution \<Rightarrow> openpgp_key_payload \<Rightarrow> unit result" where
  "admit_openpgp_key db lineage_id c p =
     and_then (require_exact_targets (sc_targets c) [lineage_id]) (\<lambda>_.
     and_then (projection_node_id db) (\<lambda>origin.
     let previous = map_option pgp_event_id
           (first_row (\<lambda>k. pgp_key k = (lineage_id, origin, pk_fingerprint p)) (Schema.openpgp_keys db)) in
     check_all [
       fail_if (some_and (\<lambda>e. e \<notin> set (sc_supersedes c)) previous) Validation,
       (if pk_action p = PK_Publish
        then fail_if (keys_with_action db lineage_id (pk_fingerprint p) ''revoke'' > 0) Validation
        else fail_if (keys_with_action db lineage_id (pk_fingerprint p) ''publish'' = 0) Validation)]))"

definition admit_direct_message ::
  "database \<Rightarrow> signed_contribution \<Rightarrow> direct_message_payload \<Rightarrow> unit result" where
  "admit_direct_message db c p = check_all [
     require_exact_targets (sc_targets c) [dm_recipient_lineage_id p],
     require_no_supersessions c,
     fail_if (\<not> openpgp_key_is_active (dm_recipient_lineage_id p) (dm_recipient_key_fingerprint p) db)
       Validation]"

definition admit_repository_patch ::
  "signed_contribution \<Rightarrow> repository_patch_payload \<Rightarrow> unit result" where
  "admit_repository_patch c p = check_all [
     require_exact_targets (sc_targets c) [rp_repository_id p],
     require_no_supersessions c]"

definition admit_code_review ::
  "ext \<Rightarrow> database \<Rightarrow> string \<Rightarrow> signed_contribution \<Rightarrow> code_review_payload \<Rightarrow> unit result" where
  "admit_code_review X db lineage_id c p =
     and_then (check_all [
       require_exact_targets (sc_targets c) [cr_proposal_event_id p],
       require_no_supersessions c]) (\<lambda>_.
     and_then (forge_proposal db (cr_proposal_event_id p) ''repository_patch'') (\<lambda>(proposer, proposal).
     check_all [
       fail_if (proposer = lineage_id) Validation,
       validate_code_review_subject X p proposal]))"

definition admit_build_attestation ::
  "ext \<Rightarrow> database \<Rightarrow> signed_contribution \<Rightarrow> build_attestation_payload \<Rightarrow> unit result" where
  "admit_build_attestation X db c p =
     and_then (check_all [
       require_exact_targets (sc_targets c) [ba_proposal_event_id p],
       require_no_supersessions c]) (\<lambda>_.
     and_then (local_forge_canonical db (ba_proposal_event_id p) ''repository_patch'') (\<lambda>proposal.
       validate_build_attestation_subject X p proposal))"

definition require_patch_of :: "ext \<Rightarrow> database \<Rightarrow> string \<Rightarrow> string \<Rightarrow> unit result" where
  "require_patch_of X db repository_id patch_event_id =
     and_then (local_forge_canonical db patch_event_id ''repository_patch'') (\<lambda>canonical.
     and_then (from_text X (d_signed_contribution X) canonical) (\<lambda>proposal.
     with_payload d_repository_patch_payload proposal (\<lambda>patch.
       fail_if (rp_repository_id patch \<noteq> repository_id) Validation)))"

definition admit_release_proposal ::
  "ext \<Rightarrow> database \<Rightarrow> signed_contribution \<Rightarrow> release_proposal_payload \<Rightarrow> unit result" where
  "admit_release_proposal X db c p = check_all [
     require_exact_targets (sc_targets c) (rl_repository_id p # rl_included_patch_event_ids p),
     require_no_supersessions c,
     check_each (require_patch_of X db (rl_repository_id p)) (rl_included_patch_event_ids p)]"

definition admit_release_review ::
  "ext \<Rightarrow> database \<Rightarrow> string \<Rightarrow> signed_contribution \<Rightarrow> release_review_payload \<Rightarrow> unit result" where
  "admit_release_review X db lineage_id c p =
     and_then (check_all [
       require_exact_targets (sc_targets c) [rv_release_proposal_event_id p],
       require_no_supersessions c]) (\<lambda>_.
     and_then (forge_proposal db (rv_release_proposal_event_id p) ''release_proposal'') (\<lambda>(proposer, proposal).
     check_all [
       fail_if (proposer = lineage_id) Validation,
       validate_release_review_subject X p proposal]))"

definition admit_kind ::
  "ext \<Rightarrow> int \<Rightarrow> database \<Rightarrow> string \<Rightarrow> signed_contribution \<Rightarrow> unit result" where
  "admit_kind X now db l c = (case sc_kind c of
       K_SourceProposal \<Rightarrow> with_payload d_source_proposal_payload c (validate_source_proposal X)
     | K_SourceReview \<Rightarrow> with_payload (d_source_review_payload X) c (admit_source_review db l)
     | K_ObservationVerification \<Rightarrow> with_payload (d_observation_verification_payload X) c (\<lambda>p.
         ensure_observation db (ov_observation_id p))
     | K_StoryLink \<Rightarrow> with_payload (d_story_link_payload X) c (admit_story_link db)
     | K_Assessment \<Rightarrow> with_payload (d_assessment_payload X) c (admit_assessment db)
     | K_Correction \<Rightarrow> with_payload (d_correction_payload X) c (admit_correction db c)
     | K_WorkClaim \<Rightarrow> with_payload d_work_claim_payload c (admit_work_claim db)
     | K_WorkResult \<Rightarrow> with_payload (d_work_result_payload X) c (admit_work_result db)
     | K_TopicProposal \<Rightarrow> with_payload d_topic_proposal_payload c (admit_topic_proposal now db c)
     | K_TopicVote \<Rightarrow> with_payload d_topic_vote_payload c (admit_topic_vote db l c)
     | K_ForumPost \<Rightarrow> with_payload d_forum_post_payload c (admit_forum_post db c)
     | K_OpenPgpKey \<Rightarrow> with_payload d_openpgp_key_payload c (admit_openpgp_key db l c)
     | K_DirectMessage \<Rightarrow> with_payload d_direct_message_payload c (admit_direct_message db c)
     | K_RepositoryPatch \<Rightarrow> with_payload d_repository_patch_payload c (admit_repository_patch c)
     | K_CodeReview \<Rightarrow> with_payload d_code_review_payload c (admit_code_review X db l c)
     | K_BuildAttestation \<Rightarrow> with_payload d_build_attestation_payload c (admit_build_attestation X db c)
     | K_ReleaseProposal \<Rightarrow> with_payload d_release_proposal_payload c (admit_release_proposal X db c)
     | K_ReleaseReview \<Rightarrow> with_payload d_release_review_payload c (admit_release_review X db l c)
     | _ \<Rightarrow> Inr ())"

definition validate_projection ::
  "ext \<Rightarrow> int \<Rightarrow> database \<Rightarrow> string \<Rightarrow> signed_contribution \<Rightarrow> unit result" where
  "validate_projection X now db lineage_id c = check_all [
     validate_contribution_content X c,
     validate_local_reporting X db c,
     admit_kind X now db lineage_id c]"

end
