(* ===== verification/Forge_Store.thy ===== *)
theory Forge_Store
  imports Authority Content_Rules Commons
begin

text \<open>
  The content-addressed artifact store of \<^verbatim>\<open>src/src/forge.rs\<close>.  A store is the part of the data
  directory the code reads and writes: one file of bytes per digest and one receipt file per digest
  and receipt id, which holds the JSON value of the receipt.  Input and output failures, and the
  rename race of two uploads, are outside the model: an operation sees the store of one moment.
\<close>

definition ARTIFACT_UPLOAD_DOMAIN :: string where
  "ARTIFACT_UPLOAD_DOMAIN = ''commonwake.artifact-upload.v1''"

definition ARTIFACT_RECEIPT_DOMAIN :: string where
  "ARTIFACT_RECEIPT_DOMAIN = ''commonwake.artifact-receipt.v1''"

definition MAX_RECEIPTS_PER_ARTIFACT :: int where
  "MAX_RECEIPTS_PER_ARTIFACT = 256"

section \<open>Authorizations and receipts\<close>

record artifact_upload_authorization =
  au_protocol :: string
  au_delegation_id :: string
  au_repository_id :: string
  au_artifact :: forge_artifact_ref
  au_purpose :: forge_artifact_purpose
  au_created_at :: int
  au_nonce :: string
  au_signature :: string

record artifact_receipt =
  ar_protocol :: string
  ar_receipt_id :: string
  ar_authorization :: artifact_upload_authorization
  ar_uploader_lineage_id :: string
  ar_stored_at :: int
  ar_node_id :: string
  ar_node_public_key :: string
  ar_trust_notice :: string
  ar_signature :: string

definition e_forge_artifact_ref :: "forge_artifact_ref \<Rightarrow> json" where
  "e_forge_artifact_ref a = JObj [
     (''media_type'', JStr (fa_media_type a)),
     (''sha256'', JStr (fa_sha256 a)),
     (''size_bytes'', JInt (fa_size_bytes a))]"

definition e_artifact_upload_authorization ::
  "ext \<Rightarrow> artifact_upload_authorization \<Rightarrow> json" where
  "e_artifact_upload_authorization X a = JObj [
     (''artifact'', e_forge_artifact_ref (au_artifact a)),
     (''created_at'', e_time X (au_created_at a)),
     (''delegation_id'', JStr (au_delegation_id a)),
     (''nonce'', JStr (au_nonce a)),
     (''protocol'', JStr (au_protocol a)),
     (''purpose'', JStr (forge_artifact_purpose_str (au_purpose a))),
     (''repository_id'', JStr (au_repository_id a)),
     (''signature'', JStr (au_signature a))]"

definition e_artifact_receipt :: "ext \<Rightarrow> artifact_receipt \<Rightarrow> json" where
  "e_artifact_receipt X r = JObj [
     (''authorization'', e_artifact_upload_authorization X (ar_authorization r)),
     (''node_id'', JStr (ar_node_id r)),
     (''node_public_key'', JStr (ar_node_public_key r)),
     (''protocol'', JStr (ar_protocol r)),
     (''receipt_id'', JStr (ar_receipt_id r)),
     (''signature'', JStr (ar_signature r)),
     (''stored_at'', e_time X (ar_stored_at r)),
     (''trust_notice'', JStr (ar_trust_notice r)),
     (''uploader_lineage_id'', JStr (ar_uploader_lineage_id r))]"

definition d_artifact_upload_authorization ::
  "ext \<Rightarrow> json \<Rightarrow> artifact_upload_authorization option" where
  "d_artifact_upload_authorization X v = do {
     fs \<leftarrow> struct_view [''protocol'', ''delegation_id'', ''repository_id'', ''artifact'', ''purpose'',
       ''created_at'', ''nonce'', ''signature''] v;
     a0 \<leftarrow> req d_str ''protocol'' fs;
     a1 \<leftarrow> req d_str ''delegation_id'' fs;
     a2 \<leftarrow> req d_str ''repository_id'' fs;
     a3 \<leftarrow> req d_forge_artifact_ref ''artifact'' fs;
     a4 \<leftarrow> req (d_enum forge_artifact_purpose_names) ''purpose'' fs;
     a5 \<leftarrow> req (d_time X) ''created_at'' fs;
     a6 \<leftarrow> req d_str ''nonce'' fs;
     a7 \<leftarrow> req d_str ''signature'' fs;
     Some \<lparr> au_protocol = a0, au_delegation_id = a1, au_repository_id = a2, au_artifact = a3,
       au_purpose = a4, au_created_at = a5, au_nonce = a6, au_signature = a7 \<rparr> }"

definition d_artifact_receipt :: "ext \<Rightarrow> json \<Rightarrow> artifact_receipt option" where
  "d_artifact_receipt X v = do {
     fs \<leftarrow> struct_view [''protocol'', ''receipt_id'', ''authorization'', ''uploader_lineage_id'',
       ''stored_at'', ''node_id'', ''node_public_key'', ''trust_notice'', ''signature''] v;
     a0 \<leftarrow> req d_str ''protocol'' fs;
     a1 \<leftarrow> req d_str ''receipt_id'' fs;
     a2 \<leftarrow> req (d_artifact_upload_authorization X) ''authorization'' fs;
     a3 \<leftarrow> req d_str ''uploader_lineage_id'' fs;
     a4 \<leftarrow> req (d_time X) ''stored_at'' fs;
     a5 \<leftarrow> req d_str ''node_id'' fs;
     a6 \<leftarrow> req d_str ''node_public_key'' fs;
     a7 \<leftarrow> req d_str ''trust_notice'' fs;
     a8 \<leftarrow> req d_str ''signature'' fs;
     Some \<lparr> ar_protocol = a0, ar_receipt_id = a1, ar_authorization = a2,
       ar_uploader_lineage_id = a3, ar_stored_at = a4, ar_node_id = a5, ar_node_public_key = a6,
       ar_trust_notice = a7, ar_signature = a8 \<rparr> }"

definition encode_artifact_authorization :: "ext \<Rightarrow> artifact_upload_authorization \<Rightarrow> string" where
  "encode_artifact_authorization X a =
     x_b64_encode X (x_json_print X (e_artifact_upload_authorization X a))"

definition decode_artifact_authorization ::
  "ext \<Rightarrow> string \<Rightarrow> artifact_upload_authorization result" where
  "decode_artifact_authorization X v =
     and_then (ok_or (x_b64_decode X v) Validation) (from_text X (d_artifact_upload_authorization X))"

definition artifact_receipt_id :: "ext \<Rightarrow> artifact_upload_authorization \<Rightarrow> string result" where
  "artifact_receipt_id X a =
     and_then (canonical_without_signature X (e_artifact_upload_authorization X a)) (\<lambda>bytes.
       Inr (prefixed_id X ''cwart_'' bytes))"

definition validate_artifact_authorization_structure ::
  "artifact_upload_authorization \<Rightarrow> unit result" where
  "validate_artifact_authorization_structure a = check_all [
     require_protocol (au_protocol a),
     require_nonce (au_nonce a),
     validate_prefixed_digest (au_delegation_id a) ''cwdel_'',
     validate_repository_id (au_repository_id a),
     validate_artifact_purpose (au_purpose a) (au_artifact a),
     fail_if (au_signature a = []) Validation]"

definition verify_artifact_authorization ::
  "ext \<Rightarrow> artifact_upload_authorization \<Rightarrow> string \<Rightarrow> unit result" where
  "verify_artifact_authorization X a session_public_key =
     and_then (validate_artifact_authorization_structure a) (\<lambda>_.
     and_then (verifying_key_from_b64 X session_public_key) (\<lambda>key.
       verify_object X key ARTIFACT_UPLOAD_DOMAIN (e_artifact_upload_authorization X a) (au_signature a)))"

definition verify_artifact_receipt :: "ext \<Rightarrow> artifact_receipt \<Rightarrow> unit result" where
  "verify_artifact_receipt X r =
     and_then (require_protocol (ar_protocol r)) (\<lambda>_.
     and_then (artifact_receipt_id X (ar_authorization r)) (\<lambda>expected.
     and_then (check_all [
       fail_if (ar_receipt_id r \<noteq> expected) Validation,
       validate_artifact_authorization_structure (ar_authorization r),
       validate_prefixed_digest (ar_uploader_lineage_id r) ''cwlin_'']) (\<lambda>_.
     and_then (verifying_key_from_b64 X (ar_node_public_key r)) (\<lambda>key.
     and_then (check_all [
       fail_if (ar_node_id r \<noteq> prefixed_id X ''cwnode_'' key) Validation,
       fail_if (blank (ar_trust_notice r) \<or> len (ar_trust_notice r) > 2000) Validation]) (\<lambda>_.
       verify_object X key ARTIFACT_RECEIPT_DOMAIN (e_artifact_receipt X r) (ar_signature r))))))"

section \<open>The store\<close>

record forge_store =
  fs_artifacts :: "(string \<times> string) list"
  fs_receipts :: "(string \<times> string \<times> json) list"

definition empty_store :: forge_store where
  "empty_store = \<lparr> fs_artifacts = [], fs_receipts = [] \<rparr>"

definition store_content_addressed ::
  "ext \<Rightarrow> string \<Rightarrow> string \<Rightarrow> forge_store \<Rightarrow> forge_store result" where
  "store_content_addressed X digest bytes st =
     (case map_of (fs_artifacts st) digest of
        Some existing \<Rightarrow>
          if len existing = len bytes \<and> sha256_hex X existing = sha256_hex X bytes
          then Inr st else Inl Conflict
      | None \<Rightarrow> Inr (st\<lparr>fs_artifacts := (digest, bytes) # fs_artifacts st\<rparr>))"

text \<open>The files of the receipt directory of a digest, by receipt id.\<close>

definition receipt_files :: "string \<Rightarrow> forge_store \<Rightarrow> (string \<times> json) list" where
  "receipt_files digest st = map snd (filter (\<lambda>f. fst f = digest) (fs_receipts st))"

definition store_receipt ::
  "ext \<Rightarrow> artifact_receipt \<Rightarrow> forge_store \<Rightarrow> (artifact_receipt \<times> forge_store) result" where
  "store_receipt X r st =
     (let digest = fa_sha256 (au_artifact (ar_authorization r)); files = receipt_files digest st in
      case map_of files (ar_receipt_id r) of
        Some v \<Rightarrow>
          and_then (from_value (d_artifact_receipt X) v) (\<lambda>existing.
          and_then (verify_artifact_receipt X existing) (\<lambda>_. Inr (existing, st)))
      | None \<Rightarrow>
          and_then (fail_if (len files \<ge> MAX_RECEIPTS_PER_ARTIFACT) ResourceExhausted) (\<lambda>_.
            Inr (r, st\<lparr>fs_receipts :=
              fs_receipts st @ [(digest, ar_receipt_id r, e_artifact_receipt X r)]\<rparr>)))"

definition trust_notice_text :: string where
  "trust_notice_text = ''This node attests that it stored bytes matching the signed digest. The receipt does not endorse, build, execute, or adopt those bytes.''"

definition unsigned_receipt ::
  "node_identity \<Rightarrow> int \<Rightarrow> string \<Rightarrow> string \<Rightarrow> artifact_upload_authorization \<Rightarrow> artifact_receipt" where
  "unsigned_receipt me stored_at receipt_id lineage a =
     \<lparr> ar_protocol = PROTOCOL_VERSION, ar_receipt_id = receipt_id, ar_authorization = a,
       ar_uploader_lineage_id = lineage, ar_stored_at = stored_at, ar_node_id = node_id me,
       ar_node_public_key = node_public_key me, ar_trust_notice = trust_notice_text,
       ar_signature = [] \<rparr>"

definition body_checks ::
  "ext \<Rightarrow> artifact_upload_authorization \<Rightarrow> string \<Rightarrow> unit result" where
  "body_checks X a bytes = check_all [
     fail_if (len bytes \<noteq> fa_size_bytes (au_artifact a)) Validation,
     fail_if (sha256_hex X bytes \<noteq> fa_sha256 (au_artifact a)) Validation,
     fail_if (au_purpose a = FP_SourceCandidate \<and>
       \<not> prefix (''# v2 git bundle'' @ [CHR 0x0A]) bytes \<and>
       \<not> prefix (''# v3 git bundle'' @ [CHR 0x0A]) bytes) Validation]"

definition store_forge_artifact ::
  "ext \<Rightarrow> node_identity \<Rightarrow> int \<Rightarrow> int \<Rightarrow> database \<Rightarrow> artifact_upload_authorization \<Rightarrow> string \<Rightarrow>
   forge_store \<Rightarrow> (artifact_receipt \<times> forge_store) result" where
  "store_forge_artifact X me now stored_at db a bytes st =
     and_then (validate_artifact_authorization_structure a) (\<lambda>_.
     and_then (authorize_delegation db (au_delegation_id a) S_Forge (au_created_at a) now) (\<lambda>d.
     and_then (verify_artifact_authorization X a (dv_session_public_key d)) (\<lambda>_.
     and_then (body_checks X a bytes) (\<lambda>_.
     and_then (store_content_addressed X (fa_sha256 (au_artifact a)) bytes st) (\<lambda>st1.
     and_then (artifact_receipt_id X a) (\<lambda>receipt_id.
     let r = unsigned_receipt me stored_at receipt_id (dv_lineage_id d) a in
     and_then (sign_object X (node_secret me) ARTIFACT_RECEIPT_DOMAIN (e_artifact_receipt X r)) (\<lambda>s.
       store_receipt X (r\<lparr>ar_signature := s\<rparr>) st1)))))))"

definition forge_artifact :: "ext \<Rightarrow> string \<Rightarrow> forge_store \<Rightarrow> string result" where
  "forge_artifact X digest st =
     and_then (validate_sha256 digest) (\<lambda>_.
     and_then (ok_or (map_of (fs_artifacts st) digest) NotFound) (\<lambda>bytes.
     and_then (fail_if (bytes = [] \<or> len bytes > MAX_FORGE_ARTIFACT_BYTES \<or>
                        sha256_hex X bytes \<noteq> digest) Unauthorized) (\<lambda>_. Inr bytes)))"

definition has_forge_artifact :: "ext \<Rightarrow> forge_artifact_ref \<Rightarrow> forge_store \<Rightarrow> bool result" where
  "has_forge_artifact X a st =
     and_then (validate_artifact_ref a) (\<lambda>_.
     case forge_artifact X (fa_sha256 a) st of
       Inr bytes \<Rightarrow> Inr (len bytes = fa_size_bytes a)
     | Inl NotFound \<Rightarrow> Inr False
     | Inl e \<Rightarrow> Inl e)"

definition read_receipt :: "ext \<Rightarrow> string \<Rightarrow> string \<times> json \<Rightarrow> artifact_receipt result" where
  "read_receipt X digest f =
     and_then (from_value (d_artifact_receipt X) (snd f)) (\<lambda>r.
     and_then (verify_artifact_receipt X r) (\<lambda>_.
     and_then (fail_if (fa_sha256 (au_artifact (ar_authorization r)) \<noteq> digest) Unauthorized) (\<lambda>_. Inr r)))"

definition artifact_receipts :: "ext \<Rightarrow> string \<Rightarrow> forge_store \<Rightarrow> artifact_receipt list result" where
  "artifact_receipts X digest st =
     and_then (validate_sha256 digest) (\<lambda>_.
     let files = receipt_files digest st in
     and_then (fail_if (len files > MAX_RECEIPTS_PER_ARTIFACT) ResourceExhausted) (\<lambda>_.
       map_result (read_receipt X digest) (order_by (\<lambda>f g. str_less (fst f) (fst g)) files)))"

definition require_local_forge_artifact ::
  "ext \<Rightarrow> forge_store \<Rightarrow> string \<Rightarrow> forge_artifact_ref \<Rightarrow> forge_artifact_purpose \<Rightarrow> unit result" where
  "require_local_forge_artifact X st repository_id a purpose =
     and_then (has_forge_artifact X a st) (\<lambda>present.
     and_then (fail_if (\<not> present) NotFound) (\<lambda>_.
     and_then (artifact_receipts X (fa_sha256 a) st) (\<lambda>rs.
       fail_if (\<not> list_ex (\<lambda>r. au_repository_id (ar_authorization r) = repository_id \<and>
                  au_artifact (ar_authorization r) = a \<and> au_purpose (ar_authorization r) = purpose) rs)
         Validation)))"

definition require_local_forge_artifacts ::
  "ext \<Rightarrow> forge_store \<Rightarrow> signed_contribution \<Rightarrow> unit result" where
  "require_local_forge_artifacts X st c = (case sc_kind c of
       K_RepositoryPatch \<Rightarrow> with_payload d_repository_patch_payload c (\<lambda>p.
         require_local_forge_artifact X st (rp_repository_id p) (rp_artifact p) FP_Patch)
     | K_ReleaseProposal \<Rightarrow> with_payload d_release_proposal_payload c (\<lambda>p.
         require_local_forge_artifact X st (rl_repository_id p) (rl_source_artifact p) FP_SourceCandidate)
     | _ \<Rightarrow> Inr ())"

section \<open>Lemmas\<close>

lemma d_enum_purpose [simp]:
  "d_enum forge_artifact_purpose_names (JStr (forge_artifact_purpose_str p)) = Some p"
  by (cases p) (simp_all add: d_enum_def forge_artifact_purpose_names_def)

lemma forge_artifact_ref_roundtrip [simp]:
  "0 \<le> fa_size_bytes a \<Longrightarrow> fa_size_bytes a < 2 ^ 64 \<Longrightarrow>
   d_forge_artifact_ref (e_forge_artifact_ref a) = Some a"
  by (simp add: d_forge_artifact_ref_def e_forge_artifact_ref_def)

lemma authorization_roundtrip:
  assumes "time_laws X" and "time_ok (au_created_at a)"
    and "0 \<le> fa_size_bytes (au_artifact a)" and "fa_size_bytes (au_artifact a) < 2 ^ 64"
  shows "d_artifact_upload_authorization X (e_artifact_upload_authorization X a) = Some a"
  using assms by (simp add: d_artifact_upload_authorization_def e_artifact_upload_authorization_def)

lemma receipt_roundtrip:
  assumes "time_laws X" and "time_ok (au_created_at (ar_authorization r))" and "time_ok (ar_stored_at r)"
    and "0 \<le> fa_size_bytes (au_artifact (ar_authorization r))"
    and "fa_size_bytes (au_artifact (ar_authorization r)) < 2 ^ 64"
  shows "d_artifact_receipt X (e_artifact_receipt X r) = Some r"
  using assms by (simp add: d_artifact_receipt_def e_artifact_receipt_def authorization_roundtrip)

lemma preimage_receipt [simp]:
  "signing_preimage X d (e_artifact_receipt X (r\<lparr>ar_signature := s\<rparr>)) =
   signing_preimage X d (e_artifact_receipt X r)"
  by (simp add: signing_preimage_def canonical_without_signature_def e_artifact_receipt_def)

text \<open>The invariant of the store: content matches its address, receipts verify and sit in the directory
  of their digest under their own id, and no directory holds more receipts than a reader accepts.\<close>

definition receipt_ok :: "ext \<Rightarrow> string \<times> string \<times> json \<Rightarrow> bool" where
  "receipt_ok X = (\<lambda>(digest, i, v). \<exists>r. d_artifact_receipt X v = Some r \<and>
     verify_artifact_receipt X r = Inr () \<and>
     fa_sha256 (au_artifact (ar_authorization r)) = digest \<and> ar_receipt_id r = i)"

definition store_ok :: "ext \<Rightarrow> forge_store \<Rightarrow> bool" where
  "store_ok X st \<longleftrightarrow>
     (\<forall>f\<in>set (fs_artifacts st). sha256_hex X (snd f) = fst f \<and> snd f \<noteq> [] \<and>
        len (snd f) \<le> MAX_FORGE_ARTIFACT_BYTES) \<and>
     (\<forall>f\<in>set (fs_receipts st). receipt_ok X f) \<and>
     (\<forall>digest. len (receipt_files digest st) \<le> MAX_RECEIPTS_PER_ARTIFACT)"

lemma receipt_files_frame [simp]:
  "receipt_files digest (st\<lparr>fs_artifacts := as\<rparr>) = receipt_files digest st"
  by (simp add: receipt_files_def)

lemma receipt_files_snoc:
  "receipt_files digest (st\<lparr>fs_receipts := fs_receipts st @ [(d, i, v)]\<rparr>) =
     receipt_files digest st @ (if d = digest then [(i, v)] else [])"
  by (simp add: receipt_files_def)

lemma store_content_ok:
  assumes "store_ok X st" and "store_content_addressed X digest bytes st = Inr st1"
    and "sha256_hex X bytes = digest" and "bytes \<noteq> []" and "len bytes \<le> MAX_FORGE_ARTIFACT_BYTES"
  shows "store_ok X st1 \<and> (\<exists>b. map_of (fs_artifacts st1) digest = Some b \<and> len b = len bytes) \<and>
    fs_receipts st1 = fs_receipts st"
  using assms
  by (auto simp: store_content_addressed_def store_ok_def split: option.splits if_splits)

lemma store_receipt_ok:
  assumes ok: "store_ok X st" and new: "d_artifact_receipt X (e_artifact_receipt X r) = Some r"
    "verify_artifact_receipt X r = Inr ()"
    and s: "store_receipt X r st = Inr (r', st')"
  shows "store_ok X st' \<and> verify_artifact_receipt X r' = Inr () \<and>
    fs_artifacts st' = fs_artifacts st \<and>
    (\<exists>v. (fa_sha256 (au_artifact (ar_authorization r)), ar_receipt_id r, v) \<in> set (fs_receipts st') \<and>
         d_artifact_receipt X v = Some r')"
proof -
  let ?digest = "fa_sha256 (au_artifact (ar_authorization r))"
  show ?thesis
  proof (cases "map_of (receipt_files ?digest st) (ar_receipt_id r)")
    case None
    with s have r': "r' = r" and st': "st' = st\<lparr>fs_receipts :=
        fs_receipts st @ [(?digest, ar_receipt_id r, e_artifact_receipt X r)]\<rparr>"
      and room: "len (receipt_files ?digest st) < MAX_RECEIPTS_PER_ARTIFACT"
      by (auto simp: store_receipt_def Let_def not_le)
    have "receipt_ok X (?digest, ar_receipt_id r, e_artifact_receipt X r)"
      using new by (simp add: receipt_ok_def)
    moreover have "len (receipt_files d st') \<le> MAX_RECEIPTS_PER_ARTIFACT" for d
      using ok room by (auto simp: st' receipt_files_snoc store_ok_def len_def)
    ultimately have "store_ok X st'" using ok by (simp add: store_ok_def st')
    with r' st' new show ?thesis by auto
  next
    case (Some v)
    with s have r': "d_artifact_receipt X v = Some r'" "verify_artifact_receipt X r' = Inr ()" "st' = st"
      by (auto simp: store_receipt_def Let_def from_value_def)
    from map_of_SomeD [OF Some]
    have "(?digest, ar_receipt_id r, v) \<in> set (fs_receipts st)"
      by (auto simp: receipt_files_def)
    with r' ok show ?thesis by auto
  qed
qed

lemma artifact_receipts_total:
  assumes ok: "store_ok X st" and hex: "validate_sha256 digest = Inr ()"
  shows "\<exists>rs. artifact_receipts X digest st = Inr rs \<and>
    (\<forall>i v r. (digest, i, v) \<in> set (fs_receipts st) \<longrightarrow> d_artifact_receipt X v = Some r \<longrightarrow> r \<in> set rs)"
proof -
  let ?files = "order_by (\<lambda>f g. str_less (fst f) (fst g)) (receipt_files digest st)"
  have "\<exists>r. read_receipt X digest f = Inr r" if "f \<in> set ?files" for f
  proof -
    from that obtain i v where f: "f = (i, v)" "(digest, i, v) \<in> set (fs_receipts st)"
      by (auto simp: receipt_files_def)
    with ok have "receipt_ok X (digest, i, v)" by (simp add: store_ok_def)
    with f show ?thesis by (auto simp: receipt_ok_def read_receipt_def from_value_def)
  qed
  then obtain g where g: "\<forall>f\<in>set ?files. read_receipt X digest f = Inr (g f)" by metis
  then have all: "map_result (read_receipt X digest) ?files = Inr (map g ?files)"
    by (simp add: map_result_Inr list_all2_map2 list_all2_same)
  have "r \<in> set (map g ?files)"
    if "(digest, i, v) \<in> set (fs_receipts st)" "d_artifact_receipt X v = Some r" for i v r
  proof -
    have listed: "(i, v) \<in> set ?files" using that(1) by (force simp: receipt_files_def)
    with g have "read_receipt X digest (i, v) = Inr (g (i, v))" by blast
    with that(2) have "g (i, v) = r" by (auto simp: read_receipt_def from_value_def)
    with listed show ?thesis by (auto intro!: image_eqI [where x = "(i, v)"])
  qed
  moreover have "len (receipt_files digest st) \<le> MAX_RECEIPTS_PER_ARTIFACT"
    using ok by (simp add: store_ok_def)
  ultimately show ?thesis using all hex by (auto simp: artifact_receipts_def Let_def)
qed

lemma forge_artifact_present:
  assumes "store_ok X st" and "validate_artifact_ref a = Inr ()"
    and "map_of (fs_artifacts st) (fa_sha256 a) = Some b" and "len b = fa_size_bytes a"
  shows "forge_artifact X (fa_sha256 a) st = Inr b" and "has_forge_artifact X a st = Inr True"
proof -
  have "(fa_sha256 a, b) \<in> set (fs_artifacts st)" using assms(3) by (rule map_of_SomeD)
  with assms(1) have "sha256_hex X b = fa_sha256 a" "b \<noteq> []" "len b \<le> MAX_FORGE_ARTIFACT_BYTES"
    by (auto simp: store_ok_def)
  with assms(2,3) show art: "forge_artifact X (fa_sha256 a) st = Inr b"
    by (auto simp: forge_artifact_def validate_artifact_ref_def)
  with assms(2,4) show "has_forge_artifact X a st = Inr True" by (simp add: has_forge_artifact_def)
qed

lemma new_receipt_verifies:
  assumes laws: "b64_laws X" "sig_laws X" and me: "identity_ok X me"
    and "validate_artifact_authorization_structure a = Inr ()"
    and "validate_prefixed_digest lineage ''cwlin_'' = Inr ()"
    and "artifact_receipt_id X a = Inr i"
    and "sign_object X (node_secret me) ARTIFACT_RECEIPT_DOMAIN
           (e_artifact_receipt X (unsigned_receipt me at i lineage a)) = Inr s"
  shows "verify_artifact_receipt X ((unsigned_receipt me at i lineage a)\<lparr>ar_signature := s\<rparr>) = Inr ()"
proof -
  let ?r = "(unsigned_receipt me at i lineage a)\<lparr>ar_signature := s\<rparr>"
  have sk: "length (node_secret me) = 32" using me by (simp add: identity_ok_def)
  have "verify_object X (x_ed_public X (node_secret me)) ARTIFACT_RECEIPT_DOMAIN
          (e_artifact_receipt X ?r) s = Inr ()"
    by (rule verify_sign_object [OF laws sk assms(7)]) simp
  moreover have "\<not> blank trust_notice_text \<and> len trust_notice_text \<le> 2000" by code_simp
  ultimately show ?thesis using assms(4-6) identity_key [OF laws me] me
    by (simp add: verify_artifact_receipt_def unsigned_receipt_def require_protocol_def identity_ok_def)
qed

section \<open>Properties\<close>

text \<open>C34: an upload is durable and usable.  When the store accepts an upload it keeps its invariant,
  the artifact can be read back under its digest with the signed size, the receipt returned
  verifies, and, when that receipt is for this very authorization, the presence check that guards
  patches and releases passes for the authorized repository, artifact and purpose.\<close>

theorem store_forge_artifact_usable:
  assumes laws: "ext_laws X" and me: "identity_ok X me" and ok: "store_ok X st"
    and times: "time_ok (au_created_at a)" "time_ok stored_at"
    and lineage: "delegation db (au_delegation_id a) = Inr d"
      "validate_prefixed_digest (dv_lineage_id d) ''cwlin_'' = Inr ()"
    and stored: "store_forge_artifact X me now stored_at db a bytes st = Inr (r, st')"
  shows "store_ok X st' \<and>
    (\<exists>b. forge_artifact X (fa_sha256 (au_artifact a)) st' = Inr b \<and>
         sha256_hex X b = fa_sha256 (au_artifact a) \<and> len b = fa_size_bytes (au_artifact a)) \<and>
    verify_artifact_receipt X r = Inr () \<and>
    (ar_authorization r = a \<longrightarrow>
       require_local_forge_artifact X st' (au_repository_id a) (au_artifact a) (au_purpose a) = Inr ())"
proof -
  let ?a = "au_artifact a"
  have l: "b64_laws X" "sig_laws X" "time_laws X" using laws by (simp_all add: ext_laws_def)
  obtain st1 i s where parts: "validate_artifact_authorization_structure a = Inr ()"
    "body_checks X a bytes = Inr ()" "store_content_addressed X (fa_sha256 ?a) bytes st = Inr st1"
    "artifact_receipt_id X a = Inr i"
    "sign_object X (node_secret me) ARTIFACT_RECEIPT_DOMAIN
       (e_artifact_receipt X (unsigned_receipt me stored_at i (dv_lineage_id d) a)) = Inr s"
    and filed: "store_receipt X ((unsigned_receipt me stored_at i (dv_lineage_id d) a)\<lparr>ar_signature := s\<rparr>) st1
       = Inr (r, st')"
    using stored lineage(1) by (auto simp: store_forge_artifact_def Let_def authorize_delegation_def)
  let ?r = "(unsigned_receipt me stored_at i (dv_lineage_id d) a)\<lparr>ar_signature := s\<rparr>"
  have ref: "validate_artifact_ref ?a = Inr ()" and size: "0 < fa_size_bytes ?a"
      "fa_size_bytes ?a \<le> MAX_FORGE_ARTIFACT_BYTES"
    and body: "sha256_hex X bytes = fa_sha256 ?a" "len bytes = fa_size_bytes ?a"
    using parts(1,2) by (auto simp: validate_artifact_authorization_structure_def
        validate_artifact_purpose_def validate_artifact_ref_def body_checks_def len_def)
  have "bytes \<noteq> []" using size(1) body(2) by (auto simp: len_def)
  from store_content_ok [OF ok parts(3) body(1) this] size body
  obtain b where st1: "store_ok X st1" "map_of (fs_artifacts st1) (fa_sha256 ?a) = Some b"
    "len b = fa_size_bytes ?a" by auto
  have new: "d_artifact_receipt X (e_artifact_receipt X ?r) = Some ?r"
    by (rule receipt_roundtrip [OF l(3)])
      (use times size in \<open>simp_all add: unsigned_receipt_def MAX_FORGE_ARTIFACT_BYTES_def\<close>)
  from store_receipt_ok [OF st1(1) new new_receipt_verifies [OF l(1,2) me parts(1) lineage(2) parts(4,5)] filed]
  obtain v where st': "store_ok X st'" "verify_artifact_receipt X r = Inr ()"
    "fs_artifacts st' = fs_artifacts st1" "(fa_sha256 ?a, i, v) \<in> set (fs_receipts st')"
    "d_artifact_receipt X v = Some r" by (auto simp: unsigned_receipt_def)
  note present = forge_artifact_present [OF st'(1) ref, of b, unfolded st'(3), OF st1(2,3)]
  have sha: "sha256_hex X b = fa_sha256 ?a"
    using present(1) by (auto simp: forge_artifact_def)
  have "validate_sha256 (fa_sha256 ?a) = Inr ()" using ref by (simp add: validate_artifact_ref_def)
  from artifact_receipts_total [OF st'(1) this] st'(4,5)
  obtain rs where "artifact_receipts X (fa_sha256 ?a) st' = Inr rs" "r \<in> set rs" by blast
  then have "ar_authorization r = a \<longrightarrow>
      require_local_forge_artifact X st' (au_repository_id a) ?a (au_purpose a) = Inr ()"
    using present(2) by (auto simp: require_local_forge_artifact_def list_ex_iff)
  with st'(1,2) present(1) sha st1(3) show ?thesis by blast
qed

definition demo_upload_session :: string where
  "demo_upload_session = ''cwdel_'' @ replicate 64 (CHR ''d'')"

definition demo_upload_db :: database where
  "demo_upload_db = demo_db\<lparr>delegations :=
     map (\<lambda>d. d\<lparr>del_delegation_id := demo_upload_session\<rparr>) (delegations demo_db)\<rparr>"

definition demo_bytes :: string where "demo_bytes = ''diff --git a b''"

definition demo_upload :: artifact_upload_authorization where
  "demo_upload =
     (let a = \<lparr> au_protocol = PROTOCOL_VERSION, au_delegation_id = demo_upload_session,
        au_repository_id = ''cwrepo_'' @ replicate 64 (CHR ''a''),
        au_artifact = \<lparr> fa_sha256 = sha256_hex demo_ext demo_bytes, fa_size_bytes = len demo_bytes,
          fa_media_type = ''text/x-diff'' \<rparr>,
        au_purpose = FP_Patch, au_created_at = 5, au_nonce = ''upload-nonce-0001'', au_signature = [] \<rparr> in
      a\<lparr>au_signature := demo_signature demo_session_key ARTIFACT_UPLOAD_DOMAIN
         (e_artifact_upload_authorization demo_ext a)\<rparr>)"

definition demo_upload_result :: "(artifact_receipt \<times> forge_store) result" where
  "demo_upload_result =
     store_forge_artifact demo_ext demo_me 6 7 demo_upload_db demo_upload demo_bytes empty_store"

theorem store_forge_artifact_usable_witness:
  "\<exists>r st'. demo_upload_result = Inr (r, st') \<and>
     require_local_forge_artifact demo_ext st' (au_repository_id demo_upload) (au_artifact demo_upload)
       (au_purpose demo_upload) = Inr ()"
proof -
  have run: "(case demo_upload_result of Inl _ \<Rightarrow> False | Inr (r, _) \<Rightarrow> ar_authorization r = demo_upload) \<and>
      time_ok (au_created_at demo_upload) \<and> time_ok 7 \<and>
      (case delegation demo_upload_db (au_delegation_id demo_upload) of Inl _ \<Rightarrow> False
       | Inr d \<Rightarrow> validate_prefixed_digest (dv_lineage_id d) ''cwlin_'' = Inr ())"
    by code_simp
  then obtain r st' where r: "demo_upload_result = Inr (r, st')" "ar_authorization r = demo_upload"
    by (auto split: sum.splits)
  from run obtain d where d: "delegation demo_upload_db (au_delegation_id demo_upload) = Inr d"
    "validate_prefixed_digest (dv_lineage_id d) ''cwlin_'' = Inr ()"
    by (auto split: sum.splits)
  have "store_ok demo_ext empty_store"
    by (simp add: store_ok_def empty_store_def receipt_files_def len_def MAX_RECEIPTS_PER_ARTIFACT_def)
  from store_forge_artifact_usable [OF demo_laws demo_me_ok this _ _ d
      r(1) [unfolded demo_upload_result_def]] run r
  show ?thesis by blast
qed

end
