(* ===== verification/World.thy ===== *)
theory World
  imports Admission Forge_Store
begin

text \<open>
  The world model a node builds from accepted contributions and its own observations
  (\<^verbatim>\<open>src/src/db.rs\<close>): sources and their reviews, stories and observations, verifications,
  assessments and the work queue.  \<open>apply_projection\<close> is the write side of a contribution,
  \<open>append_contribution\<close> and \<open>append_observation\<close> the transactions, \<open>mark_source_fetch\<close> the fetch
  outcome.  Foreign keys are met by the checks that precede each statement; a statement whose key
  constraint fails is a database error and the transaction is dropped.
\<close>

section \<open>Work items\<close>

definition work_id_of :: "ext \<Rightarrow> string \<Rightarrow> string \<Rightarrow> string" where
  "work_id_of X kind subject_id = prefixed_id X ''cwwork_'' (kind @ [CHR 0x00] @ subject_id)"

definition work_clash :: "work_item_row \<Rightarrow> work_item_row \<Rightarrow> bool" where
  "work_clash r s \<longleftrightarrow> wki_work_id r = wki_work_id s \<or>
     (wki_kind r = wki_kind s \<and> wki_subject_type r = wki_subject_type s \<and>
      wki_subject_id r = wki_subject_id s)"

definition insert_work_item ::
  "ext \<Rightarrow> string \<Rightarrow> string \<Rightarrow> string \<Rightarrow> string \<Rightarrow> int \<Rightarrow> int \<Rightarrow> database \<Rightarrow> database" where
  "insert_work_item X kind subject_type subject_id instructions required_results created_sequence db =
     db\<lparr>work_items := insert_or_ignore work_clash
       \<lparr> wki_work_id = work_id_of X kind subject_id, wki_kind = kind,
         wki_subject_type = subject_type, wki_subject_id = subject_id,
         wki_instructions = instructions, wki_required_results = required_results,
         wki_status = ''open'', wki_created_sequence = created_sequence,
         wki_completed_sequence = None \<rparr> (work_items db)\<rparr>"

definition close_work :: "(work_item_row \<Rightarrow> bool) \<Rightarrow> int \<Rightarrow> database \<Rightarrow> database" where
  "close_work P completed_sequence db =
     db\<lparr>work_items := update_rows (\<lambda>w. P w \<and> wki_status w = ''open'')
       (\<lambda>w. w\<lparr>wki_status := ''complete'', wki_completed_sequence := Some completed_sequence\<rparr>)
       (work_items db)\<rparr>"

definition complete_work :: "string \<Rightarrow> string \<Rightarrow> int \<Rightarrow> database \<Rightarrow> database" where
  "complete_work kind subject_id completed_sequence db =
     close_work (\<lambda>w. wki_kind w = kind \<and> wki_subject_id w = subject_id) completed_sequence db"

text \<open>\<open>json_extract(canonical_json, '$.reporting.mode') = 'traceable'\<close> on the event joined by id.\<close>

definition traceable_text :: "ext \<Rightarrow> string \<Rightarrow> bool" where
  "traceable_text X canonical =
     (case Option.bind (Option.bind (x_json_parse X canonical) (json_get ''reporting'')) (json_get ''mode'') of
        Some m \<Rightarrow> m = JStr ''traceable'' | None \<Rightarrow> False)"

definition traced :: "ext \<Rightarrow> database \<Rightarrow> string \<Rightarrow> bool" where
  "traced X db event_id =
     list_ex (\<lambda>e. ev_event_id e = event_id \<and> traceable_text X (ev_canonical_json e)) (events db)"

definition work_results_traced :: "ext \<Rightarrow> database \<Rightarrow> string \<Rightarrow> int" where
  "work_results_traced X db work_id = count_rows (\<lambda>r. wkr_work_id r = work_id \<and>
     (wkr_outcome r = ''completed'' \<or> wkr_outcome r = ''no_match'') \<and> traced X db (wkr_event_id r))
     (work_results db)"

definition work_result_count :: "ext \<Rightarrow> database \<Rightarrow> string \<Rightarrow> string \<Rightarrow> int" where
  "work_result_count X db kind subject_id =
     (if kind = ''review_source''
      then count_rows (\<lambda>r. srv_source_id r = subject_id \<and> traced X db (srv_event_id r)) (source_reviews db)
      else if kind = ''verify_observation''
      then count_rows (\<lambda>r. ver_observation_id r = subject_id \<and> traced X db (ver_event_id r))
             (observation_verifications db)
      else if kind = ''assess_story''
      then count_rows (\<lambda>r. ass_story_id r = subject_id \<and> traced X db (ass_event_id r)) (assessments db)
      else work_results_traced X db (work_id_of X kind subject_id))"

definition format_work_cursor :: "int \<Rightarrow> string \<Rightarrow> string" where
  "format_work_cursor created_sequence work_id = show_int created_sequence @ '':'' @ work_id"

definition parse_work_cursor :: "string \<Rightarrow> (int \<times> string) result" where
  "parse_work_cursor cursor =
     and_then (fail_if (len cursor > 96) Validation) (\<lambda>_.
     and_then (ok_or (split_once (CHR '':'') cursor) Validation) (\<lambda>(text, work_id).
     and_then (ok_or (parse_i64 text) Validation) (\<lambda>sequence.
     and_then (fail_if (sequence < 0) Validation) (\<lambda>_.
     and_then (ok_or (strip_prefix ''cwwork_'' work_id) Validation) (\<lambda>digest.
     and_then (fail_if (len digest \<noteq> 64 \<or> \<not> list_all ascii_hexdigit digest) Validation) (\<lambda>_.
       Inr (sequence, work_id)))))))"

section \<open>Sources\<close>

definition source_clash :: "source_row \<Rightarrow> source_row \<Rightarrow> bool" where
  "source_clash r s \<longleftrightarrow> src_source_id r = src_source_id s \<or> src_feed_url r = src_feed_url s"

definition apply_source_proposal ::
  "ext \<Rightarrow> string \<Rightarrow> int \<Rightarrow> accepted_object \<Rightarrow> source_proposal_payload \<Rightarrow> database \<Rightarrow> database result" where
  "apply_source_proposal X lineage_id created_at accepted p db =
     and_then (normalize_http_url X (sp_feed_url p)) (\<lambda>normalized_feed.
     let source_id = prefixed_id X ''cwsrc_'' normalized_feed in
     and_then (case sp_homepage_url p of None \<Rightarrow> Inr None
               | Some u \<Rightarrow> and_then (normalize_http_url X u) (\<lambda>h. Inr (Some h))) (\<lambda>homepage.
     and_then (fail_if (\<not> within 15 10080 (sp_minimum_fetch_interval_minutes p)) Database) (\<lambda>_.
     and_then (insert_unique source_clash
       \<lparr> src_source_id = source_id, src_name = sp_name p, src_feed_url = normalized_feed,
         src_homepage_url = homepage, src_medium = sp_medium p,
         src_primary_regions = sp_primary_regions p, src_languages = sp_languages p,
         src_ownership = sp_ownership p, src_perspective_notes = sp_perspective_notes p,
         src_status = ''proposed'', src_proposer_lineage_id = lineage_id,
         src_proposal_event_id = acc_id accepted, src_successful_fetches = 0,
         src_consecutive_failures = 0, src_last_fetched_at = None, src_created_at = millis created_at,
         src_minimum_fetch_interval_minutes = sp_minimum_fetch_interval_minutes p \<rparr> (sources db)) (\<lambda>ss.
       Inr (insert_work_item X ''review_source'' ''source'' source_id
         ''Check provenance, ownership, terms, security, duplication, and coverage value with evidence.''
         2 (acc_sequence accepted) (db\<lparr>sources := ss\<rparr>))))))"

definition traced_reviews :: "ext \<Rightarrow> database \<Rightarrow> string \<Rightarrow> source_review_row list" where
  "traced_reviews X db source_id =
     filter (\<lambda>r. srv_source_id r = source_id \<and> traced X db (srv_event_id r)) (source_reviews db)"

definition recommending :: "string \<Rightarrow> source_review_row list \<Rightarrow> int" where
  "recommending choice rs = count_rows (\<lambda>r. srv_recommendation r = choice) rs"

definition admit_source :: "string \<Rightarrow> database \<Rightarrow> database" where
  "admit_source source_id db =
     db\<lparr>sources := update_rows (\<lambda>s. src_source_id s = source_id \<and> src_status s = ''proposed'')
       (\<lambda>s. s\<lparr>src_status := ''probation''\<rparr>) (sources db)\<rparr>"

definition new_review ::
  "string \<Rightarrow> int \<Rightarrow> accepted_object \<Rightarrow> source_review_payload \<Rightarrow> source_review_row" where
  "new_review lineage_id created_at accepted p =
     \<lparr> srv_source_id = sr_source_id p, srv_reviewer_lineage_id = lineage_id,
       srv_event_id = acc_id accepted,
       srv_recommendation = review_recommendation_str (sr_recommendation p),
       srv_evidence = sr_evidence p, srv_notes = sr_notes p, srv_created_at = millis created_at \<rparr>"

text \<open>\<open>SUM\<close> over no rows is \<open>NULL\<close>, which cannot be read as an integer: a database error.\<close>

definition apply_source_review ::
  "ext \<Rightarrow> string \<Rightarrow> int \<Rightarrow> accepted_object \<Rightarrow> source_review_payload \<Rightarrow> database \<Rightarrow> database result" where
  "apply_source_review X lineage_id created_at accepted p db =
     (let i = sr_source_id p;
          db1 = db\<lparr>source_reviews := upsert (\<lambda>r. (srv_source_id r, srv_reviewer_lineage_id r)) (\<lambda>_ r. r)
            (new_review lineage_id created_at accepted p) (source_reviews db)\<rparr>;
          counted = traced_reviews X db1 i in
      and_then (fail_if (counted = []) Database) (\<lambda>_.
      let approvals = recommending ''approve'' counted;
          rejections = recommending ''reject'' counted;
          db2 = (if approvals \<ge> 2 then admit_source i db1 else db1) in
      Inr (if approvals \<ge> 2 \<or> rejections \<ge> 2
           then complete_work ''review_source'' i (acc_sequence accepted) db2 else db2)))"

definition mark_source_fetch :: "int \<Rightarrow> string \<Rightarrow> bool \<Rightarrow> database \<Rightarrow> database" where
  "mark_source_fetch now source_id success db =
     db\<lparr>sources := update_rows (\<lambda>s. src_source_id s = source_id)
       (if success
        then (\<lambda>s. s\<lparr>src_successful_fetches := src_successful_fetches s + 1,
               src_consecutive_failures := 0, src_last_fetched_at := Some (millis now),
               src_status := (if src_status s = ''degraded'' then ''active''
                 else if src_status s = ''probation'' \<and> src_successful_fetches s \<ge> 9 then ''active''
                 else src_status s)\<rparr>)
        else (\<lambda>s. s\<lparr>src_consecutive_failures := src_consecutive_failures s + 1,
               src_last_fetched_at := Some (millis now),
               src_status := (if src_consecutive_failures s \<ge> 2 \<and> src_status s = ''active''
                 then ''degraded'' else src_status s)\<rparr>)) (sources db)\<rparr>"

section \<open>Observations, stories, assessments\<close>

definition story_pair_id :: "string \<Rightarrow> string \<Rightarrow> string" where
  "story_pair_id first second =
     (if first = second \<or> str_less first second then first @ ''~'' @ second
      else second @ ''~'' @ first)"

definition apply_verification ::
  "ext \<Rightarrow> string \<Rightarrow> int \<Rightarrow> accepted_object \<Rightarrow> observation_verification_payload \<Rightarrow> database \<Rightarrow> database" where
  "apply_verification X lineage_id created_at accepted p db =
     (let i = ov_observation_id p;
          db1 = db\<lparr>observation_verifications :=
            upsert (\<lambda>r. (ver_observation_id r, ver_verifier_lineage_id r)) (\<lambda>_ r. r)
              \<lparr> ver_observation_id = i, ver_verifier_lineage_id = lineage_id,
                ver_event_id = acc_id accepted,
                ver_outcome = verification_outcome_str (ov_outcome p), ver_notes = ov_notes p,
                ver_evidence = ov_evidence p, ver_created_at = millis created_at \<rparr>
              (observation_verifications db)\<rparr> in
      if work_result_count X db1 ''verify_observation'' i \<ge> 2
      then complete_work ''verify_observation'' i (acc_sequence accepted) db1 else db1)"

definition link_observation ::
  "string \<Rightarrow> accepted_object \<Rightarrow> string \<Rightarrow> database \<Rightarrow> database result" where
  "link_observation story_id accepted observation_id db =
     and_then (ok_or (first_row (\<lambda>r. sob_observation_id r = observation_id) (story_observations db))
                 Database) (\<lambda>link.
     let old_story = sob_story_id link in
     if old_story = story_id then Inr db
     else
       let db1 = db\<lparr>story_observations := update_rows (\<lambda>r. sob_observation_id r = observation_id)
                   (\<lambda>r. r\<lparr>sob_story_id := story_id, sob_linked_event_id := Some (acc_id accepted)\<rparr>)
                   (story_observations db)\<rparr>;
           remaining = count_rows (\<lambda>r. sob_story_id r = old_story) (story_observations db1);
           db2 = (if remaining = 0
                  then db1\<lparr>stories := update_rows (\<lambda>s. sto_story_id s = old_story)
                         (\<lambda>s. s\<lparr>sto_merged_into := Some story_id\<rparr>) (stories db1)\<rparr>
                  else db1) in
       Inr (complete_work ''cluster_stories'' (story_pair_id story_id old_story)
              (acc_sequence accepted) db2))"

definition apply_story_link ::
  "accepted_object \<Rightarrow> story_link_payload \<Rightarrow> database \<Rightarrow> database result" where
  "apply_story_link accepted p db =
     fold_result (link_observation (sl_story_id p) accepted) (sl_observation_ids p) db"

definition apply_assessment ::
  "ext \<Rightarrow> string \<Rightarrow> int \<Rightarrow> accepted_object \<Rightarrow> assessment_payload \<Rightarrow> database \<Rightarrow> database" where
  "apply_assessment X lineage_id created_at accepted p db =
     (let i = as_story_id p;
          db1 = db\<lparr>assessments := upsert (\<lambda>r. (ass_story_id r, ass_assessor_lineage_id r)) (\<lambda>_ r. r)
            \<lparr> ass_story_id = i, ass_assessor_lineage_id = lineage_id, ass_event_id = acc_id accepted,
              ass_summary = as_summary p, ass_significance = as_significance p,
              ass_confidence = as_confidence p, ass_perspective = as_perspective p,
              ass_claims = as_claims p, ass_evidence = as_evidence p,
              ass_created_at = millis created_at \<rparr> (assessments db)\<rparr> in
      if work_result_count X db1 ''assess_story'' i \<ge> 2
      then complete_work ''assess_story'' i (acc_sequence accepted) db1 else db1)"

section \<open>Claims and results\<close>

definition apply_work_claim ::
  "string \<Rightarrow> int \<Rightarrow> accepted_object \<Rightarrow> work_claim_payload \<Rightarrow> database \<Rightarrow> database" where
  "apply_work_claim lineage_id created_at accepted p db =
     db\<lparr>work_claims := upsert (\<lambda>r. (wkc_work_id r, wkc_lineage_id r)) (\<lambda>_ r. r)
       \<lparr> wkc_work_id = wc_work_id p, wkc_lineage_id = lineage_id, wkc_event_id = acc_id accepted,
         wkc_claimed_at = millis created_at,
         wkc_expires_at = millis (created_at + minutes (wc_lease_minutes p)),
         wkc_note = wc_note p \<rparr> (work_claims db)\<rparr>"

definition apply_work_result ::
  "ext \<Rightarrow> string \<Rightarrow> int \<Rightarrow> accepted_object \<Rightarrow> work_result_payload \<Rightarrow> database \<Rightarrow> database result" where
  "apply_work_result X lineage_id created_at accepted p db =
     (let i = wr_work_id p;
          db1 = db\<lparr>work_results := upsert (\<lambda>r. (wkr_work_id r, wkr_lineage_id r)) (\<lambda>_ r. r)
            \<lparr> wkr_work_id = i, wkr_lineage_id = lineage_id, wkr_event_id = acc_id accepted,
              wkr_outcome = work_outcome_str (wr_outcome p), wkr_summary = wr_summary p,
              wkr_evidence = wr_evidence p, wkr_result = wr_result p,
              wkr_created_at = millis created_at \<rparr> (work_results db)\<rparr> in
      and_then (ok_or (first_row (\<lambda>w. wki_work_id w = i) (work_items db1)) Database) (\<lambda>w.
      let required = wki_required_results w; received = work_results_traced X db1 i in
      Inr (if required > 0 \<and> received \<ge> required
           then close_work (\<lambda>w. wki_work_id w = i) (acc_sequence accepted) db1 else db1)))"

section \<open>Applying a contribution\<close>

definition apply_projection ::
  "ext \<Rightarrow> string \<Rightarrow> signed_contribution \<Rightarrow> accepted_object \<Rightarrow> database \<Rightarrow> database result" where
  "apply_projection X l c accepted db = (let at = sc_created_at c in case sc_kind c of
       K_SourceProposal \<Rightarrow> with_payload d_source_proposal_payload c (\<lambda>p.
         apply_source_proposal X l at accepted p db)
     | K_SourceReview \<Rightarrow> with_payload (d_source_review_payload X) c (\<lambda>p.
         apply_source_review X l at accepted p db)
     | K_ObservationVerification \<Rightarrow> with_payload (d_observation_verification_payload X) c (\<lambda>p.
         Inr (apply_verification X l at accepted p db))
     | K_StoryLink \<Rightarrow> with_payload (d_story_link_payload X) c (\<lambda>p. apply_story_link accepted p db)
     | K_Assessment \<Rightarrow> with_payload (d_assessment_payload X) c (\<lambda>p.
         Inr (apply_assessment X l at accepted p db))
     | K_WorkClaim \<Rightarrow> with_payload d_work_claim_payload c (\<lambda>p.
         Inr (apply_work_claim l at accepted p db))
     | K_WorkResult \<Rightarrow> with_payload (d_work_result_payload X) c (\<lambda>p.
         apply_work_result X l at accepted p db)
     | K_TopicProposal \<Rightarrow> and_then (projection_node_id db) (\<lambda>node.
         project_commons_contribution X node (acc_sequence accepted) l (acc_id accepted) c db)
     | K_TopicVote \<Rightarrow> and_then (projection_node_id db) (\<lambda>node.
         project_commons_contribution X node (acc_sequence accepted) l (acc_id accepted) c db)
     | K_ForumPost \<Rightarrow> and_then (projection_node_id db) (\<lambda>node.
         project_commons_contribution X node (acc_sequence accepted) l (acc_id accepted) c db)
     | K_OpenPgpKey \<Rightarrow> and_then (projection_node_id db) (\<lambda>node.
         project_commons_contribution X node (acc_sequence accepted) l (acc_id accepted) c db)
     | K_DirectMessage \<Rightarrow> and_then (projection_node_id db) (\<lambda>node.
         project_commons_contribution X node (acc_sequence accepted) l (acc_id accepted) c db)
     | _ \<Rightarrow> Inr db)"

definition contribution_input ::
  "ext \<Rightarrow> string \<Rightarrow> signed_contribution \<Rightarrow> string \<Rightarrow> event_input" where
  "contribution_input X lineage_id c canonical =
     \<lparr> in_kind = contribution_kind_str (sc_kind c), in_lineage_id = Some lineage_id,
       in_delegation_id = Some (sc_delegation_id c), in_created_at = sc_created_at c,
       in_author_nonce = Some (sc_nonce c), in_targets = sc_targets c,
       in_supersedes = sc_supersedes c, in_payload = sc_payload c, in_canonical_json = canonical,
       in_author_signature = Some (sc_signature c) \<rparr>"

definition append_contribution ::
  "ext \<Rightarrow> node_identity \<Rightarrow> int \<Rightarrow> string \<Rightarrow> signed_contribution \<Rightarrow> database \<Rightarrow>
   (accepted_object \<times> database) result" where
  "append_contribution X me received lineage_id c db =
     and_then (validate_projection X received db lineage_id c) (\<lambda>_.
     and_then (canonical_json X (e_signed_contribution X c)) (\<lambda>canonical.
     and_then (append_event X me received (contribution_input X lineage_id c canonical) db) (\<lambda>(accepted, db1).
     and_then (apply_projection X lineage_id c accepted db1) (\<lambda>db2. Inr (accepted, db2)))))"

text \<open>\<open>accept_contribution\<close> of the service; \<open>st\<close> is the artifact store it consults for patches and
  releases.\<close>

definition accept_contribution ::
  "ext \<Rightarrow> node_identity \<Rightarrow> forge_store \<Rightarrow> int \<Rightarrow> int \<Rightarrow> signed_contribution \<Rightarrow>
   database \<Rightarrow> (accepted_object \<times> database) result" where
  "accept_contribution X me st now received c db =
     and_then (check_all [
       require_protocol (sc_protocol c),
       require_nonce (sc_nonce c),
       validate_lists (sc_targets c) (sc_supersedes c)]) (\<lambda>_.
     and_then (authorize_delegation db (sc_delegation_id c) (required_scope (sc_kind c))
                 (sc_created_at c) now) (\<lambda>d.
     and_then (verifying_key_from_b64 X (dv_session_public_key d)) (\<lambda>session_key.
     and_then (verify_object X session_key CONTRIBUTION_DOMAIN (e_signed_contribution X c)
                 (sc_signature c)) (\<lambda>_.
     and_then (require_local_forge_artifacts X st c) (\<lambda>_.
       append_contribution X me received (dv_lineage_id d) c db)))))"

section \<open>Inversion\<close>

lemma append_contribution_Inr:
  assumes "append_contribution X me received l c db = Inr (acc, db')"
  obtains canonical db1 where "validate_projection X received db l c = Inr ()"
    "canonical_json X (e_signed_contribution X c) = Inr canonical"
    "append_event X me received (contribution_input X l c canonical) db = Inr (acc, db1)"
    "apply_projection X l c acc db1 = Inr db'"
  using assms by (auto simp: append_contribution_def)

lemma accept_contribution_Inr:
  assumes "accept_contribution X me st now received c db = Inr (acc, db')"
  obtains d where "authorize_delegation db (sc_delegation_id c) (required_scope (sc_kind c))
      (sc_created_at c) now = Inr d"
    "append_contribution X me received (dv_lineage_id d) c db = Inr (acc, db')"
  using assms by (auto simp: accept_contribution_def)

lemma append_event_only_events:
  assumes "append_event X me now input db = Inr (acc, db1)"
  shows "\<exists>row. db1 = db\<lparr>events := events db @ [row]\<rparr> \<and> ev_event_id row = acc_id acc \<and>
    ev_sequence row = acc_sequence acc \<and> ev_canonical_json row = in_canonical_json input \<and>
    ev_kind row = in_kind input \<and> ev_lineage_id row = in_lineage_id input"
  using assms
  by (auto simp: append_event_def insert_event_def Let_def new_event_row_def)

section \<open>Frames\<close>

lemmas world_writes = insert_work_item_def close_work_def complete_work_def admit_source_def

lemma work_frame [simp]:
  "events (insert_work_item X k t s i n q db) = events db"
  "events (close_work P n db) = events db"
  "events (complete_work k s n db) = events db"
  "sources (insert_work_item X k t s i n q db) = sources db"
  "sources (close_work P n db) = sources db"
  "sources (complete_work k s n db) = sources db"
  "source_reviews (insert_work_item X k t s i n q db) = source_reviews db"
  "source_reviews (close_work P n db) = source_reviews db"
  "source_reviews (complete_work k s n db) = source_reviews db"
  "stories (insert_work_item X k t s i n q db) = stories db"
  "stories (close_work P n db) = stories db"
  "stories (complete_work k s n db) = stories db"
  "observations (insert_work_item X k t s i n q db) = observations db"
  "observations (close_work P n db) = observations db"
  "observations (complete_work k s n db) = observations db"
  "story_observations (insert_work_item X k t s i n q db) = story_observations db"
  "story_observations (close_work P n db) = story_observations db"
  "story_observations (complete_work k s n db) = story_observations db"
  "meta (insert_work_item X k t s i n q db) = meta db"
  "meta (close_work P n db) = meta db"
  "meta (complete_work k s n db) = meta db"
  "forum_topics (insert_work_item X k t s i n q db) = forum_topics db"
  "forum_topics (close_work P n db) = forum_topics db"
  "forum_topics (complete_work k s n db) = forum_topics db"
  "forum_topic_votes (insert_work_item X k t s i n q db) = forum_topic_votes db"
  "forum_topic_votes (close_work P n db) = forum_topic_votes db"
  "forum_topic_votes (complete_work k s n db) = forum_topic_votes db"
  "forum_posts (insert_work_item X k t s i n q db) = forum_posts db"
  "forum_posts (close_work P n db) = forum_posts db"
  "forum_posts (complete_work k s n db) = forum_posts db"
  "Schema.openpgp_keys (insert_work_item X k t s i n q db) = Schema.openpgp_keys db"
  "Schema.openpgp_keys (close_work P n db) = Schema.openpgp_keys db"
  "Schema.openpgp_keys (complete_work k s n db) = Schema.openpgp_keys db"
  "direct_messages (insert_work_item X k t s i n q db) = direct_messages db"
  "direct_messages (close_work P n db) = direct_messages db"
  "direct_messages (complete_work k s n db) = direct_messages db"
  "lineages (insert_work_item X k t s i n q db) = lineages db"
  "lineages (close_work P n db) = lineages db"
  "lineages (complete_work k s n db) = lineages db"
  "delegations (insert_work_item X k t s i n q db) = delegations db"
  "delegations (close_work P n db) = delegations db"
  "delegations (complete_work k s n db) = delegations db"
  "lineage_keys (insert_work_item X k t s i n q db) = lineage_keys db"
  "lineage_keys (close_work P n db) = lineage_keys db"
  "lineage_keys (complete_work k s n db) = lineage_keys db"
  "work_results (insert_work_item X k t s i n q db) = work_results db"
  "work_results (close_work P n db) = work_results db"
  "work_results (complete_work k s n db) = work_results db"
  "work_claims (insert_work_item X k t s i n q db) = work_claims db"
  "work_claims (close_work P n db) = work_claims db"
  "work_claims (complete_work k s n db) = work_claims db"
  by (simp_all add: world_writes)

lemma admit_source_frame [simp]:
  "events (admit_source i db) = events db"
  "source_reviews (admit_source i db) = source_reviews db"
  "stories (admit_source i db) = stories db"
  "observations (admit_source i db) = observations db"
  "story_observations (admit_source i db) = story_observations db"
  "meta (admit_source i db) = meta db"
  "forum_topics (admit_source i db) = forum_topics db"
  "forum_topic_votes (admit_source i db) = forum_topic_votes db"
  "forum_posts (admit_source i db) = forum_posts db"
  "Schema.openpgp_keys (admit_source i db) = Schema.openpgp_keys db"
  "direct_messages (admit_source i db) = direct_messages db"
  "lineages (admit_source i db) = lineages db"
  "delegations (admit_source i db) = delegations db"
  "lineage_keys (admit_source i db) = lineage_keys db"
  "work_results (admit_source i db) = work_results db"
  "work_claims (admit_source i db) = work_claims db"
  by (simp_all add: world_writes)

lemma link_observation_events:
  "link_observation sid acc i db = Inr db' \<Longrightarrow> events db' = events db"
  by (auto simp: link_observation_def Let_def split: if_splits)

lemma project_commons_events:
  "project_commons_contribution X node n l e c db = Inr db' \<Longrightarrow> events db' = events db"
  by (auto simp: project_commons_contribution_def with_payload_def project_topic_def project_vote_def
      project_post_def project_openpgp_key_def project_message_def Let_def
      split: contribution_kind.splits if_splits)

lemma apply_projection_events:
  assumes "apply_projection X l c acc db = Inr db'"
  shows "events db' = events db"
proof -
  have link: "apply_story_link acc p db = Inr db' \<Longrightarrow> events db' = events db" for p
    unfolding apply_story_link_def
    by (erule fold_result_invariant [where P = "\<lambda>d. events d = events db"])
      (simp_all add: link_observation_events)
  show ?thesis
    using assms
    by (cases "sc_kind c")
      (auto simp: apply_projection_def with_payload_def apply_source_proposal_def apply_source_review_def
        apply_verification_def apply_assessment_def apply_work_claim_def apply_work_result_def Let_def
        dest: project_commons_events link)
qed

section \<open>Contributions and the log\<close>

definition wire_contribution :: "signed_contribution \<Rightarrow> bool" where
  "wire_contribution c \<longleftrightarrow> time_ok (sc_created_at c) \<and> json_safe (sc_payload c)"

lemma faithful_contribution:
  assumes "json_laws X" and "time_laws X" and "wire_contribution c"
    and "canonical_json X (e_signed_contribution X c) = Inr canonical"
  shows "faithful_input X (contribution_input X l c canonical)"
proof -
  have "json_safe (e_signed_contribution X c)"
    using assms(3) by (simp add: wire_contribution_def json_safe_signed_contribution)
  moreover have "x_jcs X (e_signed_contribution X c) = Some canonical"
    using assms(4) by (simp add: canonical_json_def)
  ultimately show ?thesis
    unfolding faithful_input_def
    using assms(2,3) projection_contribution [of X c "Some l"]
    by (intro exI [of _ "e_signed_contribution X c"])
      (simp add: contribution_input_def wire_contribution_def)
qed

interpretation contribution_log: logged_operation X me
  "\<lambda>(st, now, received, c). accept_contribution X me st now received c"
  "\<lambda>(st, now, received, c). wire_contribution c" for X me
proof
  fix a db acc db'
  assume laws: "ext_laws X" and wire: "case a of (st, now, received, c) \<Rightarrow> wire_contribution c"
    and acc: "(case a of (st, now, received, c) \<Rightarrow> accept_contribution X me st now received c) db
      = Inr (acc, db')"
  obtain st now received c where a: "a = (st, now, received, c)" by (cases a) auto
  have j: "json_laws X" "time_laws X" using laws by (simp_all add: ext_laws_def)
  have w: "wire_contribution c" using wire a by simp
  from acc a have "accept_contribution X me st now received c db = Inr (acc, db')" by simp
  then obtain d :: delegation_view
    where "append_contribution X me received (dv_lineage_id d) c db = Inr (acc, db')"
    by (rule accept_contribution_Inr)
  then obtain canonical db1 where k: "canonical_json X (e_signed_contribution X c) = Inr canonical"
    "append_event X me received (contribution_input X (dv_lineage_id d) c canonical) db = Inr (acc, db1)"
    "apply_projection X (dv_lineage_id d) c acc db1 = Inr db'"
    by (rule append_contribution_Inr)
  from faithful_contribution [OF j w k(1)] k(2) apply_projection_events [OF k(3)]
  show "\<exists>now input db1. faithful_input X input \<and> append_event X me now input db = Inr (acc, db1) \<and>
      events db' = events db1" by blast
qed

section \<open>Sources\<close>

text \<open>The invariant of sources and reviews: keys are unique, every review is of a known source, and no
  review is by the proposer of the source.\<close>

definition sources_ok :: "database \<Rightarrow> bool" where
  "sources_ok db \<longleftrightarrow> distinct (map src_source_id (sources db)) \<and>
     distinct (map (\<lambda>r. (srv_source_id r, srv_reviewer_lineage_id r)) (source_reviews db)) \<and>
     (\<forall>r\<in>set (source_reviews db). \<exists>s\<in>set (sources db).
        src_source_id s = srv_source_id r \<and> src_proposer_lineage_id s \<noteq> srv_reviewer_lineage_id r)"

lemma project_commons_sources:
  "project_commons_contribution X node n l e c db = Inr db' \<Longrightarrow>
   sources db' = sources db \<and> source_reviews db' = source_reviews db \<and> work_items db' = work_items db \<and>
   stories db' = stories db \<and> story_observations db' = story_observations db"
  by (auto simp: project_commons_contribution_def with_payload_def project_topic_def project_vote_def
      project_post_def project_openpgp_key_def project_message_def Let_def
      split: contribution_kind.splits if_splits)

lemma link_observation_sources:
  "link_observation sid acc i db = Inr db' \<Longrightarrow>
   sources db' = sources db \<and> source_reviews db' = source_reviews db"
  by (auto simp: link_observation_def Let_def split: if_splits)

lemma story_link_sources:
  "apply_story_link acc p db = Inr db' \<Longrightarrow>
   sources db' = sources db \<and> source_reviews db' = source_reviews db"
  unfolding apply_story_link_def
  by (erule fold_result_invariant [where
        P = "\<lambda>d. sources d = sources db \<and> source_reviews d = source_reviews db"])
    (simp_all add: link_observation_sources)

lemma other_arms_sources [simp]:
  "sources (apply_verification X l at acc ov db) = sources db"
  "source_reviews (apply_verification X l at acc ov db) = source_reviews db"
  "sources (apply_assessment X l at acc as db) = sources db"
  "source_reviews (apply_assessment X l at acc as db) = source_reviews db"
  "sources (apply_work_claim l at acc wc db) = sources db"
  "source_reviews (apply_work_claim l at acc wc db) = source_reviews db"
  by (simp_all add: apply_verification_def apply_assessment_def apply_work_claim_def world_writes Let_def)

lemma work_result_sources:
  "apply_work_result X l at acc p db = Inr db' \<Longrightarrow>
   sources db' = sources db \<and> source_reviews db' = source_reviews db"
  by (auto simp: apply_work_result_def world_writes Let_def)

text \<open>The kinds other than proposals and reviews leave sources and reviews alone.\<close>

lemma apply_projection_sources:
  assumes "apply_projection X l c acc db = Inr db'"
  shows "sources db' = sources db \<and> source_reviews db' = source_reviews db \<or>
    (\<exists>p. d_source_proposal_payload (sc_payload c) = Some p \<and>
       apply_source_proposal X l (sc_created_at c) acc p db = Inr db') \<or>
    (\<exists>p. sc_kind c = K_SourceReview \<and> d_source_review_payload X (sc_payload c) = Some p \<and>
       apply_source_review X l (sc_created_at c) acc p db = Inr db')"
proof -
  have commons: "and_then (projection_node_id db) (\<lambda>node.
      project_commons_contribution X node n l e c db) = Inr db' \<Longrightarrow>
      sources db' = sources db \<and> source_reviews db' = source_reviews db" for n e
    using project_commons_sources by auto
  show ?thesis
    using assms commons story_link_sources work_result_sources
    by (cases "sc_kind c") (auto simp: apply_projection_def with_payload_def from_value_def Let_def
        simp del: and_then_Inr dest!: and_then_Inr [THEN iffD1])
qed

lemma source_proposal_effect:
  assumes "apply_source_proposal X l at acc p db = Inr db'"
  shows "\<exists>new. sources db' = sources db @ [new] \<and> source_reviews db' = source_reviews db \<and>
    src_status new = ''proposed'' \<and> src_proposer_lineage_id new = l \<and>
    (\<forall>s\<in>set (sources db). src_source_id s \<noteq> src_source_id new)"
  using assms by (fastforce simp: apply_source_proposal_def insert_work_item_def Let_def source_clash_def)

text \<open>The effect of a review on the two tables: one row written, and the source admitted when two
  traced approvals stand.\<close>

lemma source_review_effect:
  assumes "apply_source_review X l at acc p db = Inr db'"
  shows "source_reviews db' = upsert (\<lambda>r. (srv_source_id r, srv_reviewer_lineage_id r)) (\<lambda>_ r. r)
      (new_review l at acc p) (source_reviews db) \<and>
    sources db' = (if recommending ''approve'' (traced_reviews X db' (sr_source_id p)) \<ge> 2
      then sources (admit_source (sr_source_id p) db) else sources db)"
proof -
  define db1 where "db1 = db\<lparr>source_reviews :=
     upsert (\<lambda>r. (srv_source_id r, srv_reviewer_lineage_id r)) (\<lambda>_ r. r)
       (new_review l at acc p) (source_reviews db)\<rparr>"
  have frame: "source_reviews db1 = upsert (\<lambda>r. (srv_source_id r, srv_reviewer_lineage_id r)) (\<lambda>_ r. r)
       (new_review l at acc p) (source_reviews db)"
    "sources db1 = sources db" "sources (admit_source i db1) = sources (admit_source i db)" for i
    by (simp_all add: db1_def admit_source_def)
  have eff: "events db' = events db1 \<and> source_reviews db' = source_reviews db1 \<and>
      sources db' = (if recommending ''approve'' (traced_reviews X db1 (sr_source_id p)) \<ge> 2
        then sources (admit_source (sr_source_id p) db1) else sources db1)"
    using assms
    by (auto simp: apply_source_review_def db1_def [symmetric] Let_def world_writes split: if_splits)
  then have "traced_reviews X db' i = traced_reviews X db1 i" for i
    by (simp add: traced_reviews_def traced_def)
  with eff frame show ?thesis by simp
qed

text \<open>Two distinct lineages, neither the proposer, have traced approvals on record.\<close>

definition doubly_approved :: "ext \<Rightarrow> database \<Rightarrow> source_row \<Rightarrow> bool" where
  "doubly_approved X db s \<longleftrightarrow> (\<exists>r1 r2. r1 \<in> set (source_reviews db) \<and> r2 \<in> set (source_reviews db) \<and>
     srv_reviewer_lineage_id r1 \<noteq> srv_reviewer_lineage_id r2 \<and>
     (\<forall>r\<in>{r1, r2}. srv_source_id r = src_source_id s \<and> srv_recommendation r = ''approve'' \<and>
        srv_reviewer_lineage_id r \<noteq> src_proposer_lineage_id s \<and> traced X db (srv_event_id r)))"

lemma two_rows:
  assumes "count_rows P rows \<ge> 2" and "distinct (map key rows)"
  shows "\<exists>a b. a \<in> set rows \<and> b \<in> set rows \<and> P a \<and> P b \<and> key a \<noteq> key b"
proof -
  obtain a b rest where f: "filter P rows = a # b # rest"
    using assms(1) by (cases "filter P rows" rule: remdups_adj.cases) (auto simp: count_rows_def)
  have "distinct (map key (filter P rows))" using assms(2) by (rule distinct_map_filter)
  with f have "key a \<noteq> key b" by simp
  moreover have "a \<in> set (filter P rows)" "b \<in> set (filter P rows)" using f by simp_all
  ultimately show ?thesis by auto
qed

lemma approvals_doubly:
  assumes ok: "sources_ok db" and s: "s \<in> set (sources db)"
    and two: "recommending ''approve'' (traced_reviews X db (src_source_id s)) \<ge> 2"
  shows "doubly_approved X db s"
proof -
  let ?key = "\<lambda>r. (srv_source_id r, srv_reviewer_lineage_id r)"
  have "distinct (map ?key (traced_reviews X db (src_source_id s)))"
    using ok by (simp add: sources_ok_def traced_reviews_def distinct_map_filter)
  from two_rows [OF two [unfolded recommending_def] this] obtain a b where
    ab: "a \<in> set (traced_reviews X db (src_source_id s))" "b \<in> set (traced_reviews X db (src_source_id s))"
      "srv_recommendation a = ''approve''" "srv_recommendation b = ''approve''" "?key a \<noteq> ?key b" by blast
  have "srv_reviewer_lineage_id r \<noteq> src_proposer_lineage_id s"
    if r: "r \<in> set (source_reviews db)" "srv_source_id r = src_source_id s" for r
  proof -
    obtain s' where s': "s' \<in> set (sources db)" "src_source_id s' = srv_source_id r"
      "src_proposer_lineage_id s' \<noteq> srv_reviewer_lineage_id r"
      using ok r(1) by (auto simp: sources_ok_def)
    have "s' = s" using ok s s'(1,2) r(2) by (auto simp: sources_ok_def distinct_map dest: inj_onD)
    with s'(3) show ?thesis by simp
  qed
  with ab show ?thesis
    unfolding doubly_approved_def by (intro exI [of _ a] exI [of _ b]) (auto simp: traced_reviews_def)
qed

text \<open>The pairs of a source and a lineage that may review it.\<close>

definition reviewable :: "database \<Rightarrow> (string \<times> string) set" where
  "reviewable db = {(i, l). \<exists>s\<in>set (sources db). src_source_id s = i \<and> src_proposer_lineage_id s \<noteq> l}"

lemma sources_ok_reviewable:
  "sources_ok db \<longleftrightarrow> distinct (map src_source_id (sources db)) \<and>
     distinct (map (\<lambda>r. (srv_source_id r, srv_reviewer_lineage_id r)) (source_reviews db)) \<and>
     (\<forall>r\<in>set (source_reviews db). (srv_source_id r, srv_reviewer_lineage_id r) \<in> reviewable db)"
  by (simp add: sources_ok_def reviewable_def)

lemma owners_kept:
  assumes "map (\<lambda>s. (src_source_id s, src_proposer_lineage_id s)) (sources db') =
    map (\<lambda>s. (src_source_id s, src_proposer_lineage_id s)) (sources db)"
  shows "reviewable db' = reviewable db"
proof -
  have "reviewable d = {(i, l). \<exists>k\<in>set (map (\<lambda>s. (src_source_id s, src_proposer_lineage_id s)) (sources d)).
      fst k = i \<and> snd k \<noteq> l}" for d
    by (auto simp: reviewable_def)
  then show ?thesis by (simp only: assms)
qed

lemma sources_ok_review:
  assumes ok: "sources_ok db" and admitted: "admit_source_review db l p = Inr ()"
    and eff: "apply_source_review X l at acc p db = Inr db'"
  shows "sources_ok db'"
proof -
  let ?key = "\<lambda>r. (srv_source_id r, srv_reviewer_lineage_id r)"
  let ?new = "new_review l at acc p"
  have reviews: "source_reviews db' = upsert ?key (\<lambda>_ r. r) ?new (source_reviews db)"
    and srcs: "sources db' = sources db \<or> sources db' = sources (admit_source (sr_source_id p) db)"
    using source_review_effect [OF eff] by auto
  have ids: "map (\<lambda>s. (src_source_id s, src_proposer_lineage_id s)) (sources db') =
      map (\<lambda>s. (src_source_id s, src_proposer_lineage_id s)) (sources db)"
    using srcs by (auto simp: admit_source_def)
  note keep = owners_kept [OF ids]
  obtain s where "s \<in> set (sources db)" "src_source_id s = sr_source_id p" "src_proposer_lineage_id s \<noteq> l"
    using admitted by (auto simp: admit_source_review_def dest!: first_row_Some)
  then have "(srv_source_id ?new, l) \<in> reviewable db" by (auto simp: reviewable_def new_review_def)
  then have "(srv_source_id r, srv_reviewer_lineage_id r) \<in> reviewable db'"
    if "r \<in> set (source_reviews db')" for r
    using in_upsert [OF that [unfolded reviews]] ok keep
    by (auto simp: sources_ok_reviewable new_review_def)
  moreover have "distinct (map ?key (source_reviews db'))"
    unfolding reviews by (rule upsert_distinct) (use ok in \<open>simp_all add: sources_ok_def\<close>)
  moreover have "distinct (map src_source_id (sources db'))"
    using ok srcs by (auto simp: sources_ok_def admit_source_def)
  ultimately show ?thesis by (simp add: sources_ok_reviewable)
qed

lemma sources_ok_cong:
  "sources d = sources db \<Longrightarrow> source_reviews d = source_reviews db \<Longrightarrow> sources_ok d \<longleftrightarrow> sources_ok db"
  by (simp add: sources_ok_def)

lemma sources_ok_proposal:
  assumes ok: "sources_ok db" and eff: "apply_source_proposal X l at acc p db = Inr db'"
  shows "sources_ok db'"
proof -
  obtain new where new: "sources db' = sources db @ [new]" "source_reviews db' = source_reviews db"
    "\<forall>s\<in>set (sources db). src_source_id s \<noteq> src_source_id new"
    using source_proposal_effect [OF eff] by blast
  with ok show ?thesis by (fastforce simp: sources_ok_def)
qed

lemma admitted_review:
  assumes "validate_projection X now db l c = Inr ()" and "sc_kind c = K_SourceReview"
    and "d_source_review_payload X (sc_payload c) = Some p"
  shows "admit_source_review db l p = Inr ()"
  using assms by (simp add: validate_projection_def admit_kind_def with_payload_def from_value_def)

lemma sources_ok_append_contribution:
  assumes ok: "sources_ok db" and acc: "append_contribution X me received l c db = Inr (acc, db')"
  shows "sources_ok db'"
proof -
  obtain canonical db1 where k: "validate_projection X received db l c = Inr ()"
    "append_event X me received (contribution_input X l c canonical) db = Inr (acc, db1)"
    "apply_projection X l c acc db1 = Inr db'"
    using acc by (rule append_contribution_Inr)
  obtain row where db1: "db1 = db\<lparr>events := events db @ [row]\<rparr>"
    using append_event_only_events [OF k(2)] by blast
  have ok1: "sources_ok db1" using ok by (simp add: db1 sources_ok_def)
  have same: "admit_source_review db1 l p = admit_source_review db l p" for p
    by (simp add: admit_source_review_def db1)
  from apply_projection_sources [OF k(3)] show ?thesis
  proof (elim disjE exE conjE)
    assume "sources db' = sources db1" "source_reviews db' = source_reviews db1"
    with ok1 show ?thesis by (simp add: sources_ok_def)
  next
    fix p assume "apply_source_proposal X l (sc_created_at c) acc p db1 = Inr db'"
    with ok1 show ?thesis by (rule sources_ok_proposal)
  next
    fix p assume p: "sc_kind c = K_SourceReview" "d_source_review_payload X (sc_payload c) = Some p"
      and ap: "apply_source_review X l (sc_created_at c) acc p db1 = Inr db'"
    from admitted_review [OF k(1) p] same have "admit_source_review db1 l p = Inr ()" by simp
    from sources_ok_review [OF ok1 this ap] show ?thesis .
  qed
qed

lemma traced_later:
  assumes "events db' = events db1" and "db1 = db\<lparr>events := events db @ [row]\<rparr>"
  shows "traced X db i \<Longrightarrow> traced X db' i"
  using assms by (auto simp: traced_def)

section \<open>Source life cycle\<close>

text \<open>The abstract life cycle of a source.  Nothing enters or leaves \<open>retired\<close>.\<close>

inductive source_step :: "string \<Rightarrow> string \<Rightarrow> bool" where
  admit: "source_step ''proposed'' ''probation''"
| establish: "source_step ''probation'' ''active''"
| degrade: "source_step ''active'' ''degraded''"
| recover: "source_step ''degraded'' ''active''"
| stay: "source_step st st"

inductive_cases source_step_from_proposed [elim]: "source_step ''proposed'' st"

code_pred source_step .

definition status_of :: "database \<Rightarrow> string \<Rightarrow> string option" where
  "status_of db i = map_option src_status (first_row (\<lambda>s. src_source_id s = i) (sources db))"

lemma first_row_update:
  assumes "\<And>r. key (f r) = key r"
  shows "first_row (\<lambda>r. key r = k) (update_rows P f tbl) =
    map_option (\<lambda>r. if P r then f r else r) (first_row (\<lambda>r. key r = k) tbl)"
  using assms by (induction tbl) (auto simp: update_rows_def)

lemma status_of_update:
  assumes "\<And>s. src_source_id (f s) = src_source_id s"
    and "\<And>s. P s \<Longrightarrow> source_step (src_status s) (src_status (f s))" and "status_of db i = Some st"
  shows "\<exists>st'. status_of (db\<lparr>sources := update_rows P f (sources db)\<rparr>) i = Some st' \<and> source_step st st'"
proof -
  obtain s where s: "first_row (\<lambda>s. src_source_id s = i) (sources db) = Some s" "src_status s = st"
    using assms(3) by (auto simp: status_of_def)
  have "status_of (db\<lparr>sources := update_rows P f (sources db)\<rparr>) i =
      Some (src_status (if P s then f s else s))"
    using s(1) by (simp add: status_of_def first_row_update [where key = src_source_id, OF assms(1)])
  then show ?thesis using assms(2) [of s] s(2) by (auto intro: stay)
qed

lemma status_of_admit:
  "status_of db i = Some st \<Longrightarrow> \<exists>st'. status_of (admit_source j db) i = Some st' \<and> source_step st st'"
  unfolding admit_source_def by (rule status_of_update) (auto intro: source_step.intros)

lemma status_of_fetch:
  "status_of db i = Some st \<Longrightarrow>
   \<exists>st'. status_of (mark_source_fetch now j success db) i = Some st' \<and> source_step st st'"
  unfolding mark_source_fetch_def by (rule status_of_update) (auto intro: source_step.intros)

lemma status_of_cong: "sources d = sources db \<Longrightarrow> status_of d i = status_of db i"
  by (simp add: status_of_def)

lemma status_of_apply:
  assumes st: "status_of db i = Some st" and ap: "apply_projection X l c acc db = Inr db'"
  shows "\<exists>st'. status_of db' i = Some st' \<and> source_step st st'"
  using apply_projection_sources [OF ap]
proof (elim disjE exE conjE)
  assume "sources db' = sources db"
  with st show ?thesis by (auto simp: status_of_def intro: stay)
next
  fix p assume "apply_source_proposal X l (sc_created_at c) acc p db = Inr db'"
  from source_proposal_effect [OF this] st show ?thesis by (auto simp: status_of_def intro: stay)
next
  fix p assume "apply_source_review X l (sc_created_at c) acc p db = Inr db'"
  from source_review_effect [OF this]
  have "sources db' = sources db \<or> sources db' = sources (admit_source (sr_source_id p) db)"
    by (auto split: if_splits)
  then show ?thesis
  proof
    assume "sources db' = sources db"
    with st show ?thesis by (auto simp: status_of_def intro: stay)
  next
    assume "sources db' = sources (admit_source (sr_source_id p) db)"
    from status_of_cong [OF this] status_of_admit [OF st] show ?thesis by simp
  qed
qed

section \<open>Work items\<close>

text \<open>Work moves only from open to complete.\<close>

definition work_advances :: "database \<Rightarrow> database \<Rightarrow> bool" where
  "work_advances db db' \<longleftrightarrow> (\<forall>w\<in>set (work_items db). \<exists>w'\<in>set (work_items db').
     wki_work_id w' = wki_work_id w \<and>
     (w' = w \<or> (wki_status w = ''open'' \<and> wki_status w' = ''complete'' \<and> wki_completed_sequence w' \<noteq> None)))"

lemma length_dec_digits: "0 \<le> n \<Longrightarrow> n < 10 ^ k \<Longrightarrow> 0 < k \<Longrightarrow> length (dec_digits n) \<le> k"
proof (induction n arbitrary: k rule: dec_digits.induct)
  case (1 n)
  show ?case
  proof (cases "n < 10")
    case True
    with 1 show ?thesis by (simp add: dec_digits.simps [of n])
  next
    case False
    obtain j where j: "k = Suc j" using 1 by (cases k) auto
    then have "0 < j" using False 1 by (cases j) auto
    moreover have "n div 10 < 10 ^ j" using 1 j by auto
    ultimately have "length (dec_digits (n div 10)) \<le> j" using False 1 by simp
    with False j show ?thesis by (simp add: dec_digits.simps [of n])
  qed
qed

text \<open>What the reporting gate guarantees of a cited trace.\<close>

definition cites :: "ext \<Rightarrow> database \<Rightarrow> signed_contribution \<Rightarrow> string \<Rightarrow> bool" where
  "cites X db c trace_id \<longleftrightarrow> (\<exists>e subject subjects. e \<in> set (events db) \<and> ev_event_id e = trace_id \<and>
     ev_kind e = ''verification_trace'' \<and>
     trace_subject_from_canonical X (ev_canonical_json e) = Inr subject \<and>
     report_subject_ids X c = Inr subjects \<and> subject \<in> set subjects)"

lemma local_trace_subject_Some:
  assumes "local_trace_subject X db t = Inr (Some subject)"
  shows "\<exists>e. e \<in> set (events db) \<and> ev_event_id e = t \<and> ev_kind e = ''verification_trace'' \<and>
    trace_subject_from_canonical X (ev_canonical_json e) = Inr subject"
proof -
  obtain e where e: "event_of_kind db t ''verification_trace'' = Some e"
    using assms by (auto simp: local_trace_subject_def split: option.splits)
  with assms have "trace_subject_from_canonical X (ev_canonical_json e) = Inr subject"
    by (auto simp: local_trace_subject_def)
  moreover have "e \<in> set (events db) \<and> ev_event_id e = t \<and> ev_kind e = ''verification_trace''"
    using first_row_Some [OF e [unfolded event_of_kind_def]] by blast
  ultimately show ?thesis by blast
qed

lemma reporting_cites:
  assumes "validate_local_reporting X db c = Inr ()" and "is_traceable (sc_reporting c)"
    and "sc_kind c \<noteq> K_VerificationTrace" and "t \<in> set (rd_trace_event_ids (sc_reporting c))"
  shows "cites X db c t"
proof -
  obtain subjects where s: "report_subject_ids X c = Inr subjects"
    "require_trace_of X db subjects t = Inr ()"
    using assms by (auto simp: validate_local_reporting_def)
  then obtain subject where "local_trace_subject X db t = Inr (Some subject)" "subject \<in> set subjects"
    by (auto simp: require_trace_of_def)
  with s(1) show ?thesis unfolding cites_def by (blast dest: local_trace_subject_Some)
qed

text \<open>Links between stories and observations.\<close>

definition links_ok :: "database \<Rightarrow> bool" where
  "links_ok db \<longleftrightarrow> distinct (map sob_observation_id (story_observations db)) \<and>
     set (map sob_story_id (story_observations db)) \<subseteq> set (map sto_story_id (stories db))"

lemma link_observation_links:
  assumes ok: "links_ok db" and st: "sid \<in> set (map sto_story_id (stories db))"
    and l: "link_observation sid acc i db = Inr db'"
  shows "links_ok db' \<and> map sto_story_id (stories db') = map sto_story_id (stories db) \<and>
    map sob_observation_id (story_observations db') = map sob_observation_id (story_observations db)"
proof -
  have keys: "map sto_story_id (update_rows P (\<lambda>s. s\<lparr>sto_merged_into := v\<rparr>) tbl) = map sto_story_id tbl"
    for P v tbl by simp
  have obs: "map sob_observation_id (update_rows P (\<lambda>r. r\<lparr>sob_story_id := a, sob_linked_event_id := b\<rparr>) tbl)
      = map sob_observation_id tbl" for P a b tbl by simp
  have "story_observations db' = story_observations db \<or> story_observations db' =
      update_rows (\<lambda>r. sob_observation_id r = i)
        (\<lambda>r. r\<lparr>sob_story_id := sid, sob_linked_event_id := Some (acc_id acc)\<rparr>) (story_observations db)"
    and stories: "map sto_story_id (stories db') = map sto_story_id (stories db)"
    using l by (auto simp: link_observation_def Let_def keys split: if_splits)
  then have "map sob_observation_id (story_observations db') = map sob_observation_id (story_observations db)"
    and "set (map sob_story_id (story_observations db')) \<subseteq>
      insert sid (set (map sob_story_id (story_observations db)))"
    by (auto simp: obs in_update_rows)
  with ok st stories show ?thesis by (auto simp: links_ok_def)
qed

lemma story_link_links:
  assumes "links_ok db" and "sl_story_id p \<in> set (map sto_story_id (stories db))"
    and "apply_story_link acc p db = Inr db'"
  shows "links_ok db' \<and>
    map sob_observation_id (story_observations db') = map sob_observation_id (story_observations db)"
proof -
  let ?P = "\<lambda>d. links_ok d \<and> map sto_story_id (stories d) = map sto_story_id (stories db) \<and>
    map sob_observation_id (story_observations d) = map sob_observation_id (story_observations db)"
  have start: "?P db" using assms(1) by simp
  have step: "?P d'" if "?P d" "link_observation (sl_story_id p) acc i d = Inr d'" for i d d'
    using link_observation_links [of d "sl_story_id p" acc i d'] that assms(2) by simp
  from fold_result_invariant [OF assms(3) [unfolded apply_story_link_def], of ?P, OF start step]
  show ?thesis by simp
qed

section \<open>A running example\<close>

definition demo_story :: "string \<Rightarrow> story_row" where
  "demo_story i = \<lparr> sto_story_id = i, sto_title = ''Flood'', sto_first_seen_at = 0, sto_created_sequence = 1,
     sto_merged_into = None \<rparr>"

definition demo_link :: "string \<Rightarrow> string \<Rightarrow> story_observation_row" where
  "demo_link s i = \<lparr> sob_story_id = s, sob_observation_id = i, sob_linked_event_id = None \<rparr>"

definition demo_observation :: "string \<Rightarrow> observation_row" where
  "demo_observation i = \<lparr> obs_observation_id = i, obs_source_id = ''src'', obs_canonical_url = i,
     obs_title = ''Flood'', obs_summary = [], obs_published_at = None, obs_retrieved_at = 0,
     obs_language = None, obs_document_hash = i, obs_raw_metadata = JNull, obs_created_sequence = 1 \<rparr>"

definition demo_newsroom :: database where
  "demo_newsroom = empty_database\<lparr> stories := [demo_story ''A'', demo_story ''B''],
     observations := [demo_observation ''x'', demo_observation ''y''],
     story_observations := [demo_link ''A'' ''x'', demo_link ''B'' ''y''] \<rparr>"

definition demo_story_link :: "string \<Rightarrow> string list \<Rightarrow> story_link_payload" where
  "demo_story_link s is = \<lparr> sl_story_id = s, sl_observation_ids = is,
     sl_rationale = ''the same flood'', sl_evidence = [] \<rparr>"

definition demo_accepted :: accepted_object where
  "demo_accepted = \<lparr> acc_id = ''e'', acc_sequence = 2, acc_event_hash = [] \<rparr>"

definition demo_event_id :: "char \<Rightarrow> string" where
  "demo_event_id c = ''cwevt_'' @ replicate 64 c"

definition demo_event :: "string \<Rightarrow> string \<Rightarrow> string \<Rightarrow> event_row" where
  "demo_event i kind canonical = \<lparr> ev_sequence = 1, ev_event_id = i, ev_kind = kind,
     ev_lineage_id = Some demo_lineage, ev_delegation_id = None, ev_created_at = [], ev_received_at = [],
     ev_author_nonce = None, ev_targets_json = [], ev_supersedes_json = [], ev_payload_json = [],
     ev_canonical_json = canonical, ev_author_signature = None, ev_previous_hash = [],
     ev_event_hash = zero_hash, ev_node_signature = [] \<rparr>"

text \<open>A trace about the source S and the story A, and Bob's traced approval of S; Alice proposed S.\<close>

definition demo_trace_text :: "string \<Rightarrow> string" where
  "demo_trace_text subject = demo_print (e_signed_contribution demo_ext (demo_trace\<lparr>
     sc_targets := [subject], sc_payload := JObj [
       (''assertion'', JStr ''the page loads''),
       (''checks'', JArr [JObj [(''name'', JStr ''status''), (''observed'', JInt 200),
          (''outcome'', JStr ''passed'')]]),
       (''completed_at'', JStr ''8''), (''method'', JStr ''one HTTP GET''), (''outcome'', JStr ''passed''),
       (''started_at'', JStr ''7''), (''subject_id'', JStr subject)]\<rparr>))"

definition demo_report :: "contribution_kind \<Rightarrow> string \<Rightarrow> json \<Rightarrow> signed_contribution" where
  "demo_report k trace payload = \<lparr> sc_protocol = PROTOCOL_VERSION, sc_delegation_id = demo_delegation_id,
     sc_kind = k, sc_created_at = 9, sc_nonce = ''report-nonce-00001'', sc_targets = [],
     sc_supersedes = [], sc_reporting = \<lparr> rd_mode = RM_Traceable, rd_trace_event_ids = [trace] \<rparr>,
     sc_payload = payload, sc_signature = [] \<rparr>"

definition demo_review :: signed_contribution where
  "demo_review = demo_report K_SourceReview (demo_event_id (CHR ''1'')) (JObj [
     (''evidence'', JArr [JObj [(''url'', JStr ''https://example.org'')]]),
     (''notes'', JStr ''fine''), (''recommendation'', JStr ''approve''), (''source_id'', JStr ''S'')])"

definition demo_linking :: signed_contribution where
  "demo_linking = demo_report K_StoryLink (demo_event_id (CHR ''2'')) (JObj [
     (''observation_ids'', JArr [JStr ''y'']), (''rationale'', JStr ''the same flood''),
     (''story_id'', JStr ''A'')])"

definition demo_source :: source_row where
  "demo_source = \<lparr> src_source_id = ''S'', src_name = ''Feed'', src_feed_url = ''https://example.org/f'',
     src_homepage_url = None, src_medium = ''web'', src_primary_regions = [], src_languages = [],
     src_ownership = None, src_perspective_notes = None, src_status = ''proposed'',
     src_proposer_lineage_id = ''alice'', src_proposal_event_id = ''e0'', src_successful_fetches = 0,
     src_consecutive_failures = 0, src_last_fetched_at = None, src_created_at = 0,
     src_minimum_fetch_interval_minutes = 15 \<rparr>"

definition demo_desk :: database where
  "demo_desk = demo_db\<lparr> stories := stories demo_newsroom, observations := observations demo_newsroom,
     story_observations := story_observations demo_newsroom,
     events := [demo_event (demo_event_id (CHR ''1'')) ''verification_trace'' (demo_trace_text ''S''),
       demo_event (demo_event_id (CHR ''2'')) ''verification_trace'' (demo_trace_text ''A''),
       demo_event ''e1'' ''source_review'' (demo_print (JObj [(''reporting'', JObj [(''mode'', JStr ''traceable'')])]))],
     sources := [demo_source],
     source_reviews := [\<lparr> srv_source_id = ''S'', srv_reviewer_lineage_id = ''bob'', srv_event_id = ''e1'',
       srv_recommendation = ''approve'', srv_evidence = [], srv_notes = [], srv_created_at = 0 \<rparr>] \<rparr>"

definition demo_reviewed :: "(accepted_object \<times> database) result" where
  "demo_reviewed = append_contribution demo_ext demo_me 9 demo_lineage demo_review demo_desk"

lemma demo_reviewed_case:
  "(case demo_reviewed of Inl _ \<Rightarrow> False
    | Inr (_, db) \<Rightarrow> map (\<lambda>s. (src_source_id s, src_status s)) (sources db) = [(''S'', ''probation'')])"
  by code_simp

lemma accepted_case:
  "(case r of Inl _ \<Rightarrow> False | Inr (_, db) \<Rightarrow> P db) \<Longrightarrow> \<not> isl r \<and> P (accepted_db r)"
  by (cases r) (auto simp: accepted_db_def)

lemma demo_reviewed_run:
  "\<not> isl demo_reviewed" "map (\<lambda>s. (src_source_id s, src_status s)) (sources (accepted_db demo_reviewed)) =
     [(''S'', ''probation'')]"
  using accepted_case [OF demo_reviewed_case] by blast+

lemma demo_desk_ok:
  "sources_ok demo_desk" "links_ok demo_desk" "status_of demo_desk ''S'' = Some ''proposed''"
  by (simp_all add: demo_desk_def demo_newsroom_def demo_source_def sources_ok_def links_ok_def
      status_of_def demo_link_def demo_story_def demo_db_def)

section \<open>Properties\<close>

text \<open>The work cursor is a round trip.  The cursor printed for a sequence of the database and a
  work identifier is within the size limit of the parser and parses back to exactly that pair.\<close>

lemma work_cursor_roundtrip:
  assumes "0 \<le> n" and "n < 2 ^ 63" and "len d = 64" and "list_all lower_hex_digit d"
  shows "parse_work_cursor (format_work_cursor n (''cwwork_'' @ d)) = Inr (n, ''cwwork_'' @ d)"
proof -
  have "list_all ascii_hexdigit d"
    using assms(4) by (auto simp: list_all_iff lower_hex_digit_def ascii_hexdigit_def)
  moreover have "length (show_int n) \<le> 19"
    using length_dec_digits [of n 19] assms by (simp add: show_int_def)
  moreover have "parse_i64 (show_int n) = Some n"
    using assms by (intro parse_i64_show_int) (simp add: i64_range_def)
  ultimately show ?thesis
    using assms split_once_append [OF colon_notin_show_int]
    by (simp add: parse_work_cursor_def format_work_cursor_def len_def)
qed

text \<open>C9: two independent reviewers.  A source leaves the state proposed through a contribution only
  into probation, and only when two different lineages, neither of them the proposer, each have an
  approving review on record whose event cites verification traces.\<close>

theorem source_admission_needs_two_reviewers:
  assumes ok: "sources_ok db" and acc: "append_contribution X me received l c db = Inr (acc, db')"
    and before: "status_of db (src_source_id s) = Some ''proposed''"
    and after: "s \<in> set (sources db')" "src_status s \<noteq> ''proposed''"
  shows "src_status s = ''probation'' \<and> doubly_approved X db' s"
proof -
  note ok' = sources_ok_append_contribution [OF ok acc]
  obtain canonical db1 where k: "append_event X me received (contribution_input X l c canonical) db = Inr (acc, db1)"
    "apply_projection X l c acc db1 = Inr db'"
    using acc by (rule append_contribution_Inr)
  obtain row where db1: "db1 = db\<lparr>events := events db @ [row]\<rparr>"
    using append_event_only_events [OF k(1)] by blast
  have old: "x \<in> set (sources db1) \<Longrightarrow> src_source_id x = src_source_id s \<Longrightarrow> src_status x = ''proposed''" for x
    using before ok first_row_key [of src_source_id "sources db" x] by (auto simp: db1 status_of_def sources_ok_def)
  have known: "src_source_id s \<in> src_source_id ` set (sources db1)"
    using before by (auto simp: status_of_def db1 image_iff dest!: first_row_Some) metis
  from apply_projection_sources [OF k(2)] show ?thesis
  proof (elim disjE exE conjE)
    assume "sources db' = sources db1"
    with after old show ?thesis by auto
  next
    fix p assume "apply_source_proposal X l (sc_created_at c) acc p db1 = Inr db'"
    from source_proposal_effect [OF this] after old known show ?thesis by force
  next
    fix p assume ap: "apply_source_review X l (sc_created_at c) acc p db1 = Inr db'"
    show ?thesis
    proof (cases "recommending ''approve'' (traced_reviews X db' (sr_source_id p)) \<ge> 2")
      case False
      with source_review_effect [OF ap] after old show ?thesis by auto
    next
      case True
      with source_review_effect [OF ap] have "sources db' = sources (admit_source (sr_source_id p) db1)" by simp
      with after obtain x where x: "x \<in> set (sources db1)"
        "s = (if src_source_id x = sr_source_id p \<and> src_status x = ''proposed''
              then x\<lparr>src_status := ''probation''\<rparr> else x)"
        by (auto simp: admit_source_def in_update_rows)
      with old [of x] after(2) have "src_source_id s = sr_source_id p" "src_status s = ''probation''"
        by (auto split: if_splits)
      with approvals_doubly [OF ok' after(1)] True show ?thesis by simp
    qed
  qed
qed

theorem source_admission_needs_two_reviewers_witness:
  "\<exists>s\<in>set (sources (accepted_db demo_reviewed)). doubly_approved demo_ext (accepted_db demo_reviewed) s"
proof -
  obtain acc where run: "demo_reviewed = Inr (acc, accepted_db demo_reviewed)"
    using accepted_db_eq [OF demo_reviewed_run(1)] by blast
  obtain s where s: "s \<in> set (sources (accepted_db demo_reviewed))" "src_status s = ''probation''"
    "src_source_id s = ''S''"
    using demo_reviewed_run(2) by (cases "sources (accepted_db demo_reviewed)") auto
  have "status_of demo_desk (src_source_id s) = Some ''proposed''" by (simp add: s demo_desk_ok)
  from source_admission_needs_two_reviewers [OF demo_desk_ok(1) run [unfolded demo_reviewed_def] this]
    s show ?thesis by (auto simp: demo_reviewed_def)
qed



text \<open>C39: sources follow their life cycle.  Every contribution and every recorded fetch moves the status
  of every source along the abstract life cycle: proposed, probation, active, degraded and back to
  active, and never anywhere else.\<close>

theorem source_status_follows_life_cycle:
  assumes "status_of db i = Some st"
    and "append_contribution X me received l c db = Inr (acc, db') \<or> db' = mark_source_fetch now j success db"
  shows "\<exists>st'. status_of db' i = Some st' \<and> source_step st st'"
  using assms(2)
proof
  assume "append_contribution X me received l c db = Inr (acc, db')"
  then obtain canonical db1 where k: "append_event X me received (contribution_input X l c canonical) db = Inr (acc, db1)"
    "apply_projection X l c acc db1 = Inr db'"
    by (rule append_contribution_Inr)
  have "status_of db1 i = Some st"
    using append_event_only_events [OF k(1)] assms(1) by (auto simp: status_of_def)
  from status_of_apply [OF this k(2)] show ?thesis .
next
  assume "db' = mark_source_fetch now j success db"
  with status_of_fetch [OF assms(1)] show ?thesis by simp
qed

theorem source_status_follows_life_cycle_witness:
  "\<exists>st'. status_of (mark_source_fetch 7 ''S'' True demo_desk) ''S'' = Some st' \<and> source_step ''proposed'' st'"
  using source_status_follows_life_cycle [OF demo_desk_ok(3)] by blast

text \<open>Story links only move observations.  An accepted story link leaves every observation linked
  to exactly one existing story.\<close>

lemma story_links_keep_partition:
  assumes ok: "links_ok db" and kind: "sc_kind c = K_StoryLink"
    and acc: "append_contribution X me received l c db = Inr (acc, db')"
  shows "links_ok db' \<and>
    map sob_observation_id (story_observations db') = map sob_observation_id (story_observations db)"
proof -
  obtain canonical db1 where k: "validate_projection X received db l c = Inr ()"
    "append_event X me received (contribution_input X l c canonical) db = Inr (acc, db1)"
    "apply_projection X l c acc db1 = Inr db'"
    using acc by (rule append_contribution_Inr)
  obtain p where p: "d_story_link_payload X (sc_payload c) = Some p" "apply_story_link acc p db1 = Inr db'"
    using k(3) kind by (auto simp: apply_projection_def with_payload_def from_value_def Let_def)
  have db1: "stories db1 = stories db" "story_observations db1 = story_observations db"
    using append_event_only_events [OF k(2)] by auto
  have "sl_story_id p \<in> set (map sto_story_id (stories db1))"
    using k(1) kind p(1) by (auto simp: validate_projection_def admit_kind_def with_payload_def
        from_value_def admit_story_link_def ensure_story_def list_ex_iff db1 image_iff) metis
  with ok have "links_ok db1" "sl_story_id p \<in> set (map sto_story_id (stories db1))"
    by (simp_all add: links_ok_def db1)
  from story_link_links [OF this p(2)] db1 show ?thesis by simp
qed

text \<open>Two stories can vanish into each other.  The admission rule of a story link asks only that the
  story exists, not that it is still unmerged.  From two stories with one observation each, linking
  x into B merges A into B; linking x and y into the merged story A is then admitted too and merges
  B into A, after which no story of the database is unmerged although both observations remain.\<close>

theorem merged_stories_can_hide_everything:
  "\<exists>db1 db2. admit_story_link demo_newsroom (demo_story_link ''B'' [''x'']) = Inr () \<and>
     apply_story_link demo_accepted (demo_story_link ''B'' [''x'']) demo_newsroom = Inr db1 \<and>
     admit_story_link db1 (demo_story_link ''A'' [''x'', ''y'']) = Inr () \<and>
     apply_story_link demo_accepted (demo_story_link ''A'' [''x'', ''y'']) db1 = Inr db2 \<and>
     map sto_merged_into (stories db2) = [Some ''B'', Some ''A''] \<and>
     map sob_story_id (story_observations db2) = [''A'', ''A'']"
  by (simp add: demo_newsroom_def demo_story_link_def demo_link_def demo_story_def demo_observation_def
      demo_accepted_def admit_story_link_def ensure_story_def ensure_observation_def apply_story_link_def
      link_observation_def Let_def update_rows_def complete_work_def close_work_def)

end
