(* ===== verification/Remote_Projection.thy ===== *)
theory Remote_Projection
  imports Federation World
begin

text \<open>
  What a node does with one event of another node (\<open>validate_and_project_remote_event\<close> of
  \<^verbatim>\<open>src/src/db.rs\<close> and the functions it calls).  A remote event is checked against the authority, the
  sources and the stories of \<^emph>\<open>its own origin\<close>, kept in tables keyed by the origin node, and
  projected into those tables; only the topic commons is shared with the local node.  The clock of
  the checks is the receive time the origin stamped.
\<close>

section \<open>Metadata and authority\<close>

definition require_remote_protocol :: "string \<Rightarrow> unit result" where
  "require_remote_protocol protocol = fail_if (protocol \<noteq> PROTOCOL_VERSION) Validation"

definition remote_received_at :: "ext \<Rightarrow> origin_event \<Rightarrow> int result" where
  "remote_received_at X e = parse_timestamp X (oe_received_at e)"

definition require_remote_event_metadata ::
  "ext \<Rightarrow> origin_event \<Rightarrow> string option \<Rightarrow> string option \<Rightarrow> int \<Rightarrow> unit result" where
  "require_remote_event_metadata X e lineage_id delegation_id created_at =
     and_then (fail_if (oe_lineage_id e \<noteq> lineage_id \<or> oe_delegation_id e \<noteq> delegation_id \<or>
                        oe_created_at e \<noteq> timestamp X created_at) Unauthorized) (\<lambda>_.
     and_then (parse_timestamp X (oe_received_at e)) (\<lambda>_. Inr ()))"

definition fed_lineage :: "string \<Rightarrow> string \<Rightarrow> database \<Rightarrow> fed_lineage_row result" where
  "fed_lineage origin l db =
     ok_or (first_row (\<lambda>r. fli_origin_node_id r = origin \<and> fli_lineage_id r = l) (federated_lineages db))
       Unauthorized"

definition authorize_remote_delegation ::
  "string \<Rightarrow> string \<Rightarrow> scope \<Rightarrow> int \<Rightarrow> int \<Rightarrow> database \<Rightarrow> (string \<times> string) result" where
  "authorize_remote_delegation origin d needed created_at received_at db =
     and_then (ok_or (first_row (\<lambda>r. fde_origin_node_id r = origin \<and> fde_delegation_id r = d)
                 (federated_delegations db)) Unauthorized) (\<lambda>r.
     and_then (fail_if (fde_revoked_sequence r \<noteq> None \<or> created_at < fde_not_before r \<or>
                        created_at > fde_expires_at r \<or>
                        received_at > fde_expires_at r + minutes MAX_CLOCK_SKEW_MINUTES \<or>
                        needed \<notin> set (fde_scopes r)) Unauthorized) (\<lambda>_.
       Inr (fde_lineage_id r, fde_session_public_key r)))"

text \<open>Acknowledgements of one lineage, newest first.\<close>

definition remote_acknowledgements :: "string \<Rightarrow> string \<Rightarrow> database \<Rightarrow> remote_event_row list" where
  "remote_acknowledgements origin l db =
     order_by (\<lambda>a b. rem_origin_sequence a > rem_origin_sequence b)
       (filter (\<lambda>r. rem_origin_node_id r = origin \<and> rem_lineage_id r = Some l \<and>
                    rem_kind r = ''acknowledgement'') (remote_events db))"

definition validate_remote_ack_cursor ::
  "ext \<Rightarrow> string \<Rightarrow> string \<Rightarrow> int \<Rightarrow> int \<Rightarrow> database \<Rightarrow> unit result" where
  "validate_remote_ack_cursor X origin l event_sequence cursor db =
     and_then (fail_if (cursor < 0 \<or> cursor > event_sequence - 1) Validation) (\<lambda>_.
     (case remote_acknowledgements origin l db of
        [] \<Rightarrow> Inr ()
      | r # _ \<Rightarrow>
          and_then (from_text X (d_signed_acknowledgement X) (rem_canonical_json r)) (\<lambda>previous.
          let effective = (if sa_cursor previous = rem_origin_sequence r - 1 then rem_origin_sequence r
                           else sa_cursor previous) in
          fail_if (cursor < effective) Conflict)))"

definition fed_key_reused :: "string \<Rightarrow> string \<Rightarrow> database \<Rightarrow> bool" where
  "fed_key_reused origin key db =
     list_ex (\<lambda>k. flk_origin_node_id k = origin \<and> flk_public_key k = key) (federated_lineage_keys db)"

definition fed_lineage_clash :: "fed_lineage_row \<Rightarrow> fed_lineage_row \<Rightarrow> bool" where
  "fed_lineage_clash r s \<longleftrightarrow> fli_origin_node_id r = fli_origin_node_id s \<and>
     (fli_lineage_id r = fli_lineage_id s \<or> fli_current_public_key r = fli_current_public_key s)"

definition fed_key_clash :: "fed_lineage_key_row \<Rightarrow> fed_lineage_key_row \<Rightarrow> bool" where
  "fed_key_clash r s \<longleftrightarrow> flk_origin_node_id r = flk_origin_node_id s \<and>
     ((flk_lineage_id r = flk_lineage_id s \<and> flk_key_version r = flk_key_version s) \<or>
      flk_public_key r = flk_public_key s)"

definition fed_delegation_clash :: "fed_delegation_row \<Rightarrow> fed_delegation_row \<Rightarrow> bool" where
  "fed_delegation_clash r s \<longleftrightarrow> fde_origin_node_id r = fde_origin_node_id s \<and>
     fde_delegation_id r = fde_delegation_id s"

definition new_fed_lineage :: "string \<Rightarrow> string \<Rightarrow> lineage_registration \<Rightarrow> int \<Rightarrow> fed_lineage_row" where
  "new_fed_lineage origin l reg n =
     \<lparr> fli_origin_node_id = origin, fli_lineage_id = l, fli_display_name = lr_display_name reg,
       fli_current_public_key = lr_public_key reg, fli_created_at = millis (lr_created_at reg),
       fli_registered_sequence = n, fli_key_version = 0 \<rparr>"

definition new_fed_key :: "string \<Rightarrow> string \<Rightarrow> int \<Rightarrow> string \<Rightarrow> int \<Rightarrow> fed_lineage_key_row" where
  "new_fed_key origin l version key n =
     \<lparr> flk_origin_node_id = origin, flk_lineage_id = l, flk_key_version = version, flk_public_key = key,
       flk_valid_from_sequence = n, flk_valid_to_sequence = None \<rparr>"

definition new_fed_delegation :: "string \<Rightarrow> string \<Rightarrow> session_delegation \<Rightarrow> int \<Rightarrow> fed_delegation_row" where
  "new_fed_delegation origin i d n =
     \<lparr> fde_origin_node_id = origin, fde_delegation_id = i, fde_lineage_id = sd_lineage_id d,
       fde_session_public_key = sd_session_public_key d, fde_scopes = sd_scopes d,
       fde_not_before = millis (sd_not_before d), fde_expires_at = millis (sd_expires_at d),
       fde_revoked_sequence = None, fde_registered_sequence = n \<rparr>"

text \<open>The four arms that change the authority of an origin.  Each returns the database it leaves.\<close>

definition remote_lineage_registered ::
  "ext \<Rightarrow> string \<Rightarrow> origin_event \<Rightarrow> lineage_registration \<Rightarrow> database \<Rightarrow> database result" where
  "remote_lineage_registered X origin e reg db =
     and_then (require_remote_protocol (lr_protocol reg)) (\<lambda>_.
     and_then (require_remote_event_metadata X e None None (lr_created_at reg)) (\<lambda>_.
     and_then (validate_display_name (lr_display_name reg)) (\<lambda>_.
     and_then (require_nonce (lr_nonce reg)) (\<lambda>_.
     and_then (remote_received_at X e) (\<lambda>received_at.
     and_then (validate_authored_time_at (lr_created_at reg) received_at) (\<lambda>_.
     and_then (verifying_key_from_b64 X (lr_public_key reg)) (\<lambda>key.
     and_then (verify_object X key LINEAGE_DOMAIN (e_lineage_registration X reg) (lr_signature reg)) (\<lambda>_.
     let l = lineage_id_of X key in
     and_then (fail_if (fed_key_reused origin (lr_public_key reg) db) Conflict) (\<lambda>_.
     and_then (insert_unique fed_lineage_clash (new_fed_lineage origin l reg (oe_sequence e))
                 (federated_lineages db)) (\<lambda>ls.
     and_then (insert_unique fed_key_clash (new_fed_key origin l 0 (lr_public_key reg) (oe_sequence e))
                 (federated_lineage_keys db)) (\<lambda>ks.
       Inr (db\<lparr>federated_lineages := ls, federated_lineage_keys := ks\<rparr>))))))))))))"

definition remote_delegation_registered ::
  "ext \<Rightarrow> string \<Rightarrow> origin_event \<Rightarrow> session_delegation \<Rightarrow> database \<Rightarrow> database result" where
  "remote_delegation_registered X origin e d db =
     and_then (require_remote_protocol (sd_protocol d)) (\<lambda>_.
     and_then (require_remote_event_metadata X e (Some (sd_lineage_id d)) None (sd_not_before d)) (\<lambda>_.
     and_then (remote_received_at X e) (\<lambda>received_at.
     and_then (validate_delegation_at X d received_at) (\<lambda>_.
     and_then (fed_lineage origin (sd_lineage_id d) db) (\<lambda>lineage.
     and_then (verifying_key_from_b64 X (fli_current_public_key lineage)) (\<lambda>key.
     and_then (verify_object X key DELEGATION_DOMAIN (e_session_delegation X d) (sd_signature d)) (\<lambda>_.
     and_then (canonical_without_signature X (e_session_delegation X d)) (\<lambda>bytes.
     and_then (insert_unique fed_delegation_clash
                 (new_fed_delegation origin (prefixed_id X ''cwdel_'' bytes) d (oe_sequence e))
                 (federated_delegations db)) (\<lambda>ds.
       Inr (db\<lparr>federated_delegations := ds\<rparr>))))))))))"

definition fed_mark_revoked ::
  "(fed_delegation_row \<Rightarrow> bool) \<Rightarrow> int \<Rightarrow> fed_delegation_row list \<Rightarrow> fed_delegation_row list" where
  "fed_mark_revoked P n = update_rows (\<lambda>r. P r \<and> fde_revoked_sequence r = None)
     (\<lambda>r. r\<lparr>fde_revoked_sequence := Some n\<rparr>)"

definition remote_delegation_revoked ::
  "ext \<Rightarrow> string \<Rightarrow> origin_event \<Rightarrow> delegation_revocation \<Rightarrow> database \<Rightarrow> database result" where
  "remote_delegation_revoked X origin e r db =
     and_then (require_remote_protocol (dr_protocol r)) (\<lambda>_.
     and_then (require_remote_event_metadata X e (Some (dr_lineage_id r)) None (dr_created_at r)) (\<lambda>_.
     and_then (remote_received_at X e) (\<lambda>received_at.
     and_then (validate_authority_change_at (dr_nonce r) (dr_reason r) (dr_created_at r) received_at) (\<lambda>_.
     and_then (fed_lineage origin (dr_lineage_id r) db) (\<lambda>lineage.
     and_then (verifying_key_from_b64 X (fli_current_public_key lineage)) (\<lambda>key.
     and_then (verify_object X key REVOCATION_DOMAIN (e_delegation_revocation X r) (dr_signature r)) (\<lambda>_.
     let P = (\<lambda>d. fde_origin_node_id d = origin \<and> fde_delegation_id d = dr_delegation_id r \<and>
                  fde_lineage_id d = dr_lineage_id r);
         changed = count_rows (\<lambda>d. P d \<and> fde_revoked_sequence d = None) (federated_delegations db) in
     and_then (fail_if (changed \<noteq> 1) Unauthorized) (\<lambda>_.
       Inr (db\<lparr>federated_delegations := fed_mark_revoked P (oe_sequence e) (federated_delegations db)\<rparr>)))))))))"

definition remote_lineage_key_rotated ::
  "ext \<Rightarrow> string \<Rightarrow> origin_event \<Rightarrow> signed_key_rotation \<Rightarrow> database \<Rightarrow> database result" where
  "remote_lineage_key_rotated X origin e rotation db =
     (let st = sk_statement rotation; l = kr_lineage_id st; n = oe_sequence e in
      and_then (require_remote_protocol (kr_protocol st)) (\<lambda>_.
      and_then (require_remote_event_metadata X e (Some l) None (kr_created_at st)) (\<lambda>_.
      and_then (remote_received_at X e) (\<lambda>received_at.
      and_then (validate_authority_change_at (kr_nonce st) (kr_reason st) (kr_created_at st) received_at) (\<lambda>_.
      and_then (fed_lineage origin l db) (\<lambda>lineage.
      and_then (fail_if (fli_current_public_key lineage \<noteq> kr_previous_public_key st \<or>
                         kr_previous_public_key st = kr_new_public_key st) Unauthorized) (\<lambda>_.
      and_then (verifying_key_from_b64 X (kr_previous_public_key st)) (\<lambda>previous_key.
      and_then (verifying_key_from_b64 X (kr_new_public_key st)) (\<lambda>new_key.
      and_then (verify_object X previous_key KEY_ROTATION_DOMAIN (e_key_rotation_statement X st)
                  (sk_previous_signature rotation)) (\<lambda>_.
      and_then (verify_object X new_key KEY_ROTATION_DOMAIN (e_key_rotation_statement X st)
                  (sk_new_signature rotation)) (\<lambda>_.
      and_then (fail_if (fed_key_reused origin (kr_new_public_key st) db) Conflict) (\<lambda>_.
      let version = fli_key_version lineage + 1;
          closed = update_rows (\<lambda>k. flk_origin_node_id k = origin \<and> flk_lineage_id k = l \<and>
                                    flk_valid_to_sequence k = None)
                     (\<lambda>k. k\<lparr>flk_valid_to_sequence := Some n\<rparr>) (federated_lineage_keys db);
          ls = update_rows (\<lambda>r. fli_origin_node_id r = origin \<and> fli_lineage_id r = l)
                 (\<lambda>r. r\<lparr>fli_current_public_key := kr_new_public_key st, fli_key_version := version\<rparr>)
                 (federated_lineages db) in
      and_then (insert_unique fed_key_clash (new_fed_key origin l version (kr_new_public_key st) n) closed) (\<lambda>ks.
        Inr (db\<lparr>federated_lineages := ls, federated_lineage_keys := ks,
               federated_delegations :=
                 (if kr_revoke_existing_delegations st
                  then fed_mark_revoked (\<lambda>d. fde_origin_node_id d = origin \<and> fde_lineage_id d = l) n
                         (federated_delegations db)
                  else federated_delegations db)\<rparr>))))))))))))))"

definition remote_acknowledgement ::
  "ext \<Rightarrow> string \<Rightarrow> origin_event \<Rightarrow> signed_acknowledgement \<Rightarrow> database \<Rightarrow> unit result" where
  "remote_acknowledgement X origin e a db =
     and_then (require_remote_protocol (sa_protocol a)) (\<lambda>_.
     and_then (require_nonce (sa_nonce a)) (\<lambda>_.
     and_then (validate_memory_provenance (mp_statement (sa_memory_provenance a))) (\<lambda>_.
     and_then (remote_received_at X e) (\<lambda>received_at.
     and_then (validate_authored_time_at (sa_created_at a) received_at) (\<lambda>_.
     and_then (authorize_remote_delegation origin (sa_delegation_id a) S_Ack (sa_created_at a)
                 received_at db) (\<lambda>(l, session_key).
     and_then (require_remote_event_metadata X e (Some l) (Some (sa_delegation_id a)) (sa_created_at a)) (\<lambda>_.
     and_then (validate_remote_ack_cursor X origin l (oe_sequence e) (sa_cursor a) db) (\<lambda>_.
     and_then (verifying_key_from_b64 X session_key) (\<lambda>key.
       verify_object X key ACK_DOMAIN (e_signed_acknowledgement X a) (sa_signature a))))))))))"

definition remote_checkpoint_witnessed ::
  "ext \<Rightarrow> string \<Rightarrow> origin_event \<Rightarrow> checkpoint_witness \<Rightarrow> unit result" where
  "remote_checkpoint_witnessed X origin e w =
     and_then (require_remote_protocol (cw_protocol w)) (\<lambda>_.
     and_then (require_remote_event_metadata X e None None (cw_observed_at w)) (\<lambda>_.
     and_then (verify_checkpoint X (cw_origin_checkpoint w)) (\<lambda>_.
     and_then (fail_if (cp_node_id (cw_origin_checkpoint w) \<noteq> cw_origin_node_id w \<or>
                        cp_node_public_key (cw_origin_checkpoint w) \<noteq> cw_origin_node_public_key w \<or>
                        cp_cursor (cw_origin_checkpoint w) \<noteq> cw_cursor w \<or>
                        cp_event_hash (cw_origin_checkpoint w) \<noteq> cw_event_hash w) Unauthorized) (\<lambda>_.
     and_then (verifying_key_from_b64 X (cw_witness_node_public_key w)) (\<lambda>witness_key.
     and_then (fail_if (prefixed_id X ''cwnode_'' witness_key \<noteq> cw_witness_node_id w \<or>
                        cw_witness_node_id w \<noteq> origin) Unauthorized) (\<lambda>_.
       verify_object X witness_key WITNESS_DOMAIN (e_checkpoint_witness X w) (cw_signature w)))))))"

section \<open>Observations of an origin\<close>

definition MAX_TITLE_CHARS :: int where "MAX_TITLE_CHARS = 500"
definition MAX_SUMMARY_CHARS :: int where "MAX_SUMMARY_CHARS = 2000"

definition fed_story_open :: "string \<Rightarrow> string \<Rightarrow> database \<Rightarrow> bool" where
  "fed_story_open origin i db =
     list_ex (\<lambda>s. fst_origin_node_id s = origin \<and> fst_story_id s = i \<and> fst_merged_into s = None)
       (federated_stories db)"

definition link_federated_story_event :: "string \<Rightarrow> string \<Rightarrow> int \<Rightarrow> database \<Rightarrow> database" where
  "link_federated_story_event origin story_id n db =
     (if fed_story_open origin story_id db
      then db\<lparr>federated_story_events := insert_or_ignore (=)
        \<lparr> fse_origin_node_id = origin, fse_story_id = story_id, fse_origin_sequence = n \<rparr>
        (federated_story_events db)\<rparr>
      else db)"

text \<open>The object whose canonical text the collector hashes.\<close>

definition document_object :: "ext \<Rightarrow> federated_observation_payload \<Rightarrow> json" where
  "document_object X p = JObj [
     (''canonical_url'', JStr (fop_canonical_url p)),
     (''published_at'', e_opt (e_time X) (fop_published_at p)),
     (''raw_metadata'', fop_raw_metadata p),
     (''summary'', JStr (fop_summary p)),
     (''title'', JStr (fop_title p))]"

definition fed_existing_story :: "string \<Rightarrow> federated_observation_payload \<Rightarrow> database \<Rightarrow> string option" where
  "fed_existing_story origin p db =
     (case List.map_filter (\<lambda>r. map_option fsb_story_id
         (first_row (\<lambda>l. fsb_origin_node_id l = origin \<and> fsb_observation_id l = fob_observation_id r)
           (federated_story_observations db)))
       (order_by (\<lambda>a b. fob_created_sequence a < fob_created_sequence b)
         (filter (\<lambda>r. fob_origin_node_id r = origin \<and> fob_source_id r = fop_source_id p \<and>
                      fob_canonical_url r = fop_canonical_url p) (federated_observations db))) of
        [] \<Rightarrow> None | s # _ \<Rightarrow> Some s)"

definition new_fed_story :: "string \<Rightarrow> federated_observation_payload \<Rightarrow> int \<Rightarrow> fed_story_row" where
  "new_fed_story origin p n =
     \<lparr> fst_origin_node_id = origin, fst_story_id = fop_story_id p, fst_title = fop_title p,
       fst_first_seen_at = millis (fop_retrieved_at p), fst_created_sequence = n, fst_merged_into = None \<rparr>"

definition new_fed_observation :: "string \<Rightarrow> federated_observation_payload \<Rightarrow> int \<Rightarrow> fed_observation_row" where
  "new_fed_observation origin p n =
     \<lparr> fob_origin_node_id = origin, fob_observation_id = fop_observation_id p,
       fob_source_id = fop_source_id p, fob_canonical_url = fop_canonical_url p,
       fob_title = fop_title p, fob_summary = fop_summary p,
       fob_published_at = map_option millis (fop_published_at p),
       fob_retrieved_at = millis (fop_retrieved_at p), fob_language = fop_language p,
       fob_document_hash = fop_document_hash p, fob_created_sequence = n \<rparr>"

definition record_fed_observation ::
  "string \<Rightarrow> int \<Rightarrow> federated_observation_payload \<Rightarrow> database \<Rightarrow> database result" where
  "record_fed_observation origin n p db =
     (let st = insert_or_ignore (\<lambda>r s. fst_origin_node_id r = fst_origin_node_id s \<and>
            fst_story_id r = fst_story_id s) (new_fed_story origin p n) (federated_stories db) in
      and_then (insert_unique (\<lambda>r s. fob_origin_node_id r = fob_origin_node_id s \<and>
            fob_observation_id r = fob_observation_id s) (new_fed_observation origin p n)
            (federated_observations db)) (\<lambda>os.
      and_then (insert_unique (\<lambda>r s. fsb_origin_node_id r = fsb_origin_node_id s \<and>
            fsb_observation_id r = fsb_observation_id s)
            \<lparr> fsb_origin_node_id = origin, fsb_story_id = fop_story_id p,
              fsb_observation_id = fop_observation_id p, fsb_linked_event_id = None \<rparr>
            (federated_story_observations db)) (\<lambda>ls.
        Inr (link_federated_story_event origin (fop_story_id p) n
          (db\<lparr>federated_stories := st, federated_observations := os,
             federated_story_observations := ls\<rparr>)))))"

definition project_federated_observation ::
  "ext \<Rightarrow> string \<Rightarrow> int \<Rightarrow> federated_observation_payload \<Rightarrow> database \<Rightarrow> database result" where
  "project_federated_observation X origin n p db =
     and_then (fail_if (\<not> list_ex (\<lambda>s. fso_origin_node_id s = origin \<and> fso_source_id s = fop_source_id p \<and>
         (fso_status s = ''probation'' \<or> fso_status s = ''active'')) (federated_sources db)) Unauthorized) (\<lambda>_.
     and_then (fail_if (char_count (fop_title p) > MAX_TITLE_CHARS \<or>
                        char_count (fop_summary p) > MAX_SUMMARY_CHARS) Validation) (\<lambda>_.
     and_then (ok_or (x_jcs X (document_object X p)) Internal) (\<lambda>document.
     and_then (fail_if (fop_document_hash p \<noteq> sha256_hex X document) Unauthorized) (\<lambda>_.
     and_then (fail_if (fop_observation_id p \<noteq> prefixed_id X ''cwobs_''
         (fop_source_id p @ [CHR 0x00] @ fop_canonical_url p @ [CHR 0x00] @ fop_document_hash p))
       Unauthorized) (\<lambda>_.
     and_then (fail_if (fop_story_id p \<noteq> (case fed_existing_story origin p db of Some s \<Rightarrow> s
         | None \<Rightarrow> prefixed_id X ''cwstory_'' (fop_observation_id p))) Unauthorized) (\<lambda>_.
       record_fed_observation origin n p db))))))"

definition remote_observation ::
  "ext \<Rightarrow> string \<Rightarrow> origin_event \<Rightarrow> federated_observation_envelope \<Rightarrow> database \<Rightarrow> database result" where
  "remote_observation X origin e ob db =
     and_then (require_remote_protocol (foe_protocol ob)) (\<lambda>_.
     and_then (fail_if (foe_kind ob \<noteq> ''observation'') Validation) (\<lambda>_.
     and_then (require_remote_event_metadata X e None None (fop_retrieved_at (foe_payload ob))) (\<lambda>_.
     and_then (remote_received_at X e) (\<lambda>received_at.
     and_then (validate_authored_time_at (fop_retrieved_at (foe_payload ob)) received_at) (\<lambda>_.
       project_federated_observation X origin (oe_sequence e) (foe_payload ob) db)))))"

section \<open>Reporting of an origin\<close>

definition remote_event_of_kind ::
  "string \<Rightarrow> database \<Rightarrow> string \<Rightarrow> string \<Rightarrow> remote_event_row option" where
  "remote_event_of_kind origin db event_id kind =
     first_row (\<lambda>r. rem_origin_node_id r = origin \<and> rem_event_id r = event_id \<and> rem_kind r = kind)
       (remote_events db)"

definition remote_trace_subject ::
  "ext \<Rightarrow> string \<Rightarrow> int \<Rightarrow> database \<Rightarrow> string \<Rightarrow> string option result" where
  "remote_trace_subject X origin before db trace_event_id =
     (case first_row (\<lambda>r. rem_origin_node_id r = origin \<and> rem_event_id r = trace_event_id \<and>
          rem_kind r = ''verification_trace'' \<and> rem_origin_sequence r < before) (remote_events db) of
        None \<Rightarrow> Inr None
      | Some r \<Rightarrow> and_then (trace_subject_from_canonical X (rem_canonical_json r)) (\<lambda>s. Inr (Some s)))"

definition require_remote_trace_of ::
  "ext \<Rightarrow> string \<Rightarrow> int \<Rightarrow> database \<Rightarrow> string list \<Rightarrow> string \<Rightarrow> unit result" where
  "require_remote_trace_of X origin before db subjects trace_id =
     and_then (remote_trace_subject X origin before db trace_id) (\<lambda>s.
     and_then (ok_or s Unauthorized) (\<lambda>trace_subject.
       fail_if (trace_subject \<notin> set subjects) Unauthorized))"

definition validate_remote_reporting ::
  "ext \<Rightarrow> string \<Rightarrow> int \<Rightarrow> signed_contribution \<Rightarrow> database \<Rightarrow> unit result" where
  "validate_remote_reporting X origin n c db =
     (if sc_kind c = K_VerificationTrace
      then with_payload (d_verification_trace_payload X) c (\<lambda>p.
        check_each (\<lambda>parent. and_then (remote_trace_subject X origin n db parent) (\<lambda>s.
          fail_if (s = None) Unauthorized)) (vt_parent_trace_event_ids p))
      else if \<not> is_traceable (sc_reporting c)
      then fail_if (is_forge (sc_kind c) \<and> requires_traceable_reporting (sc_kind c)) Unauthorized
      else and_then (report_subject_ids X c) (\<lambda>subjects.
        and_then (fail_if (subjects = []) Unauthorized) (\<lambda>_.
          check_each (require_remote_trace_of X origin n db subjects)
            (rd_trace_event_ids (sc_reporting c)))))"

section \<open>Forge and commons records of an origin\<close>

definition remote_forge_canonical :: "string \<Rightarrow> database \<Rightarrow> string \<Rightarrow> string \<Rightarrow> string result" where
  "remote_forge_canonical origin db event_id kind =
     ok_or (map_option rem_canonical_json (remote_event_of_kind origin db event_id kind)) Unauthorized"

definition remote_forge_proposal ::
  "string \<Rightarrow> database \<Rightarrow> string \<Rightarrow> string \<Rightarrow> (string \<times> string) result" where
  "remote_forge_proposal origin db event_id kind =
     and_then (ok_or (remote_event_of_kind origin db event_id kind) Unauthorized) (\<lambda>r.
     and_then (ok_or (rem_lineage_id r) Database) (\<lambda>l. Inr (l, rem_canonical_json r)))"

definition require_remote_patch_of :: "ext \<Rightarrow> string \<Rightarrow> database \<Rightarrow> string \<Rightarrow> string \<Rightarrow> unit result" where
  "require_remote_patch_of X origin db repository_id event_id =
     and_then (remote_forge_canonical origin db event_id ''repository_patch'') (\<lambda>canonical.
     and_then (from_text X (d_signed_contribution X) canonical) (\<lambda>proposal.
     with_payload d_repository_patch_payload proposal (\<lambda>patch.
       fail_if (rp_repository_id patch \<noteq> repository_id) Unauthorized)))"

definition validate_remote_forge_state ::
  "ext \<Rightarrow> string \<Rightarrow> string \<Rightarrow> signed_contribution \<Rightarrow> database \<Rightarrow> unit result" where
  "validate_remote_forge_state X origin l c db = (case sc_kind c of
       K_CodeReview \<Rightarrow> with_payload d_code_review_payload c (\<lambda>p.
         and_then (remote_forge_proposal origin db (cr_proposal_event_id p) ''repository_patch'')
           (\<lambda>(proposer, canonical).
         and_then (fail_if (proposer = l) Unauthorized) (\<lambda>_.
           validate_code_review_subject X p canonical)))
     | K_BuildAttestation \<Rightarrow> with_payload d_build_attestation_payload c (\<lambda>p.
         and_then (remote_forge_canonical origin db (ba_proposal_event_id p) ''repository_patch'')
           (validate_build_attestation_subject X p))
     | K_ReleaseProposal \<Rightarrow> with_payload d_release_proposal_payload c (\<lambda>p.
         check_each (require_remote_patch_of X origin db (rl_repository_id p)) (rl_included_patch_event_ids p))
     | K_ReleaseReview \<Rightarrow> with_payload d_release_review_payload c (\<lambda>p.
         and_then (remote_forge_proposal origin db (rv_release_proposal_event_id p) ''release_proposal'')
           (\<lambda>(proposer, canonical).
         and_then (fail_if (proposer = l) Unauthorized) (\<lambda>_.
           validate_release_review_subject X p canonical)))
     | K_RepositoryPatch \<Rightarrow> Inr ()
     | _ \<Rightarrow> Inl Internal)"

definition validate_federated_commons_state ::
  "string \<Rightarrow> string \<Rightarrow> signed_contribution \<Rightarrow> database \<Rightarrow> unit result" where
  "validate_federated_commons_state origin l c db = (case sc_kind c of
       K_TopicVote \<Rightarrow> with_payload d_topic_vote_payload c (\<lambda>p.
         and_then (fail_if (some_and (\<lambda>t. top_proposer_lineage_id t = l)
             (first_row (\<lambda>t. top_topic_id t = tv_topic_id p) (forum_topics db))) Unauthorized) (\<lambda>_.
           require_previous_superseded c
             (map_option vot_event_id (vote_of (tv_topic_id p, l, origin) db))))
     | K_OpenPgpKey \<Rightarrow> with_payload d_openpgp_key_payload c (\<lambda>p.
         fail_if (some_and (\<lambda>k. pgp_event_id k \<notin> set (sc_supersedes c))
           (first_row (\<lambda>k. pgp_key k = (l, origin, pk_fingerprint p)) (Schema.openpgp_keys db)))
           Unauthorized)
     | _ \<Rightarrow> Inr ())"

section \<open>Contributions of an origin\<close>

definition remote_source_proposal ::
  "ext \<Rightarrow> string \<Rightarrow> string \<Rightarrow> origin_event \<Rightarrow> source_proposal_payload \<Rightarrow> database \<Rightarrow> database result" where
  "remote_source_proposal X origin l e p db =
     and_then (validate_source_proposal X p) (\<lambda>_.
     and_then (normalize_http_url X (sp_feed_url p)) (\<lambda>normalized_feed.
     and_then (case sp_homepage_url p of None \<Rightarrow> Inr None
               | Some u \<Rightarrow> and_then (normalize_http_url X u) (\<lambda>h. Inr (Some h))) (\<lambda>homepage.
     and_then (fail_if (\<not> within 15 10080 (sp_minimum_fetch_interval_minutes p)) Database) (\<lambda>_.
     and_then (insert_unique (\<lambda>r s. fso_origin_node_id r = fso_origin_node_id s \<and>
                 fso_source_id r = fso_source_id s)
       \<lparr> fso_origin_node_id = origin, fso_source_id = prefixed_id X ''cwsrc_'' normalized_feed,
         fso_name = sp_name p, fso_feed_url = normalized_feed, fso_homepage_url = homepage,
         fso_medium = sp_medium p, fso_primary_regions = sp_primary_regions p,
         fso_languages = sp_languages p, fso_ownership = sp_ownership p,
         fso_perspective_notes = sp_perspective_notes p, fso_status = ''proposed'',
         fso_proposer_lineage_id = l, fso_proposal_event_id = oe_event_id e,
         fso_created_sequence = oe_sequence e,
         fso_minimum_fetch_interval_minutes = sp_minimum_fetch_interval_minutes p \<rparr>
       (federated_sources db)) (\<lambda>ss.
       Inr (db\<lparr>federated_sources := ss\<rparr>))))))"

text \<open>Approving reviews of a source whose stored event reports traceably.\<close>

definition remote_traced :: "ext \<Rightarrow> string \<Rightarrow> database \<Rightarrow> string \<Rightarrow> bool" where
  "remote_traced X origin db event_id =
     list_ex (\<lambda>r. rem_origin_node_id r = origin \<and> rem_event_id r = event_id \<and>
       traceable_text X (rem_canonical_json r)) (remote_events db)"

definition stored_approvals :: "ext \<Rightarrow> string \<Rightarrow> string \<Rightarrow> database \<Rightarrow> int" where
  "stored_approvals X origin source_id db =
     count_rows (\<lambda>r. fsr_origin_node_id r = origin \<and> fsr_source_id r = source_id \<and>
       fsr_recommendation r = ''approve'' \<and> remote_traced X origin db (fsr_event_id r))
       (federated_source_reviews db)"

definition fed_review_key :: "fed_source_review_row \<Rightarrow> string \<times> string \<times> string" where
  "fed_review_key r = (fsr_origin_node_id r, fsr_source_id r, fsr_reviewer_lineage_id r)"

definition new_fed_review ::
  "string \<Rightarrow> string \<Rightarrow> origin_event \<Rightarrow> int \<Rightarrow> source_review_payload \<Rightarrow> fed_source_review_row" where
  "new_fed_review origin l e created_at p =
     \<lparr> fsr_origin_node_id = origin, fsr_source_id = sr_source_id p, fsr_reviewer_lineage_id = l,
       fsr_event_id = oe_event_id e,
       fsr_recommendation = review_recommendation_str (sr_recommendation p),
       fsr_evidence = sr_evidence p, fsr_notes = sr_notes p, fsr_created_at = millis created_at \<rparr>"

definition remote_source_review ::
  "ext \<Rightarrow> string \<Rightarrow> string \<Rightarrow> origin_event \<Rightarrow> signed_contribution \<Rightarrow> source_review_payload \<Rightarrow> database \<Rightarrow>
   database result" where
  "remote_source_review X origin l e c p db =
     (let i = sr_source_id p in
      and_then (ok_or (first_row (\<lambda>s. fso_origin_node_id s = origin \<and> fso_source_id s = i)
                  (federated_sources db)) Unauthorized) (\<lambda>s.
      and_then (fail_if (fso_proposer_lineage_id s = l \<or> sr_evidence p = []) Unauthorized) (\<lambda>_.
      let db1 = db\<lparr>federated_source_reviews := upsert fed_review_key (\<lambda>_ r. r)
            (new_fed_review origin l e (sc_created_at c) p) (federated_source_reviews db)\<rparr>;
          approvals = stored_approvals X origin i db1 +
            (if is_traceable (sc_reporting c) \<and>
                review_recommendation_str (sr_recommendation p) = ''approve'' then 1 else 0) in
      Inr (if approvals \<ge> 2
           then db1\<lparr>federated_sources := update_rows (\<lambda>s. fso_origin_node_id s = origin \<and>
                    fso_source_id s = i \<and> fso_status s = ''proposed'')
                  (\<lambda>s. s\<lparr>fso_status := ''probation''\<rparr>) (federated_sources db1)\<rparr>
           else db1))))"

definition fed_link :: "string \<Rightarrow> string \<Rightarrow> database \<Rightarrow> fed_story_observation_row option" where
  "fed_link origin i db =
     first_row (\<lambda>r. fsb_origin_node_id r = origin \<and> fsb_observation_id r = i)
       (federated_story_observations db)"

definition remote_verification ::
  "string \<Rightarrow> string \<Rightarrow> origin_event \<Rightarrow> int \<Rightarrow> observation_verification_payload \<Rightarrow> database \<Rightarrow> database result" where
  "remote_verification origin l e created_at p db =
     (let i = ov_observation_id p in
      and_then (fail_if (\<not> list_ex (\<lambda>r. fob_origin_node_id r = origin \<and> fob_observation_id r = i)
                  (federated_observations db)) Unauthorized) (\<lambda>_.
      let db1 = db\<lparr>federated_verifications :=
            upsert (\<lambda>r. (fve_origin_node_id r, fve_observation_id r, fve_verifier_lineage_id r)) (\<lambda>_ r. r)
              \<lparr> fve_origin_node_id = origin, fve_observation_id = i, fve_verifier_lineage_id = l,
                fve_event_id = oe_event_id e, fve_outcome = verification_outcome_str (ov_outcome p),
                fve_notes = ov_notes p, fve_evidence = ov_evidence p,
                fve_created_at = millis created_at \<rparr> (federated_verifications db)\<rparr> in
      and_then (ok_or (fed_link origin i db1) Database) (\<lambda>link.
        Inr (link_federated_story_event origin (fsb_story_id link) (oe_sequence e) db1))))"

definition remote_link_observation ::
  "string \<Rightarrow> string \<Rightarrow> string \<Rightarrow> string \<Rightarrow> database \<Rightarrow> database result" where
  "remote_link_observation origin story_id event_id observation_id db =
     and_then (ok_or (fed_link origin observation_id db) Unauthorized) (\<lambda>link.
     let old_story = fsb_story_id link in
     if old_story = story_id then Inr db
     else
       let db1 = db\<lparr>federated_story_observations := update_rows (\<lambda>r. fsb_origin_node_id r = origin \<and>
                     fsb_observation_id r = observation_id)
                   (\<lambda>r. r\<lparr>fsb_story_id := story_id, fsb_linked_event_id := Some event_id\<rparr>)
                   (federated_story_observations db)\<rparr>;
           remaining = count_rows (\<lambda>r. fsb_origin_node_id r = origin \<and> fsb_story_id r = old_story)
             (federated_story_observations db1) in
       Inr (if remaining = 0
            then db1\<lparr>federated_stories := update_rows (\<lambda>s. fst_origin_node_id s = origin \<and>
                     fst_story_id s = old_story) (\<lambda>s. s\<lparr>fst_merged_into := Some story_id\<rparr>)
                   (federated_stories db1)\<rparr>
            else db1))"

definition remote_story_link ::
  "string \<Rightarrow> origin_event \<Rightarrow> story_link_payload \<Rightarrow> database \<Rightarrow> database result" where
  "remote_story_link origin e p db =
     and_then (fail_if (sl_observation_ids p = []) Validation) (\<lambda>_.
     and_then (fail_if (\<not> fed_story_open origin (sl_story_id p) db) Unauthorized) (\<lambda>_.
     and_then (fold_result (remote_link_observation origin (sl_story_id p) (oe_event_id e))
                 (sl_observation_ids p) db) (\<lambda>db1.
       Inr (link_federated_story_event origin (sl_story_id p) (oe_sequence e) db1))))"

definition remote_assessment ::
  "string \<Rightarrow> string \<Rightarrow> origin_event \<Rightarrow> int \<Rightarrow> assessment_payload \<Rightarrow> database \<Rightarrow> database result" where
  "remote_assessment origin l e created_at p db =
     and_then (fail_if (as_evidence p = []) Unauthorized) (\<lambda>_.
     and_then (fail_if (\<not> fed_story_open origin (as_story_id p) db) Unauthorized) (\<lambda>_.
       Inr (link_federated_story_event origin (as_story_id p) (oe_sequence e)
         (db\<lparr>federated_assessments :=
            upsert (\<lambda>r. (fas_origin_node_id r, fas_story_id r, fas_assessor_lineage_id r)) (\<lambda>_ r. r)
              \<lparr> fas_origin_node_id = origin, fas_story_id = as_story_id p, fas_assessor_lineage_id = l,
                fas_event_id = oe_event_id e, fas_summary = as_summary p,
                fas_significance = as_significance p, fas_confidence = as_confidence p,
                fas_perspective = as_perspective p, fas_claims = as_claims p,
                fas_evidence = as_evidence p, fas_created_at = millis created_at \<rparr>
              (federated_assessments db)\<rparr>))))"

definition link_targets :: "string \<Rightarrow> origin_event \<Rightarrow> string list \<Rightarrow> database \<Rightarrow> database" where
  "link_targets origin e ts db = fold (\<lambda>t. link_federated_story_event origin t (oe_sequence e)) ts db"

definition remote_correction ::
  "string \<Rightarrow> origin_event \<Rightarrow> signed_contribution \<Rightarrow> correction_payload \<Rightarrow> database \<Rightarrow> database result" where
  "remote_correction origin e c p db =
     and_then (fail_if (len (trim (co_correction p)) < 10 \<or> len (trim (co_reason p)) < 10) Validation) (\<lambda>_.
     and_then (fail_if (co_evidence p = [] \<or> co_subject_event_id p \<notin> set (sc_supersedes c)) Validation) (\<lambda>_.
     and_then (fail_if (\<not> list_ex (\<lambda>r. rem_origin_node_id r = origin \<and>
         rem_event_id r = co_subject_event_id p) (remote_events db)) Unauthorized) (\<lambda>_.
       Inr (link_targets origin e (sc_targets c) db))))"

definition remote_commons ::
  "ext \<Rightarrow> string \<Rightarrow> string \<Rightarrow> origin_event \<Rightarrow> signed_contribution \<Rightarrow> database \<Rightarrow> database result" where
  "remote_commons X origin l e c db =
     and_then (validate_commons_routing l c) (\<lambda>_.
     and_then (validate_federated_commons_state origin l c db) (\<lambda>_.
       project_commons_contribution X origin (oe_sequence e) l (oe_event_id e) c db))"

definition remote_forge ::
  "ext \<Rightarrow> string \<Rightarrow> string \<Rightarrow> signed_contribution \<Rightarrow> database \<Rightarrow> database result" where
  "remote_forge X origin l c db =
     and_then (validate_commons_routing l c) (\<lambda>_.
     and_then (validate_remote_forge_state X origin l c db) (\<lambda>_. Inr db))"

definition project_remote_kind ::
  "ext \<Rightarrow> string \<Rightarrow> string \<Rightarrow> origin_event \<Rightarrow> signed_contribution \<Rightarrow> database \<Rightarrow> database result" where
  "project_remote_kind X origin l e c db = (case sc_kind c of
       K_SourceProposal \<Rightarrow> with_payload d_source_proposal_payload c (\<lambda>p.
         remote_source_proposal X origin l e p db)
     | K_SourceReview \<Rightarrow> with_payload (d_source_review_payload X) c (\<lambda>p.
         remote_source_review X origin l e c p db)
     | K_ObservationVerification \<Rightarrow> with_payload (d_observation_verification_payload X) c (\<lambda>p.
         remote_verification origin l e (sc_created_at c) p db)
     | K_StoryLink \<Rightarrow> with_payload (d_story_link_payload X) c (\<lambda>p. remote_story_link origin e p db)
     | K_Assessment \<Rightarrow> with_payload (d_assessment_payload X) c (\<lambda>p.
         remote_assessment origin l e (sc_created_at c) p db)
     | K_Correction \<Rightarrow> with_payload (d_correction_payload X) c (\<lambda>p. remote_correction origin e c p db)
     | K_PerspectiveGap \<Rightarrow> Inr (link_targets origin e (sc_targets c) db)
     | K_Translation \<Rightarrow> Inr (link_targets origin e (sc_targets c) db)
     | K_WorkClaim \<Rightarrow> with_payload d_work_claim_payload c (\<lambda>p.
         and_then (fail_if (\<not> within 1 240 (wc_lease_minutes p)) Validation) (\<lambda>_. Inr db))
     | K_WorkResult \<Rightarrow> with_payload (d_work_result_payload X) c (\<lambda>p.
         and_then (fail_if (len (trim (wr_summary p)) < 10 \<or> wr_evidence p = []) Validation) (\<lambda>_. Inr db))
     | K_TopicProposal \<Rightarrow> remote_commons X origin l e c db
     | K_TopicVote \<Rightarrow> remote_commons X origin l e c db
     | K_ForumPost \<Rightarrow> remote_commons X origin l e c db
     | K_OpenPgpKey \<Rightarrow> remote_commons X origin l e c db
     | K_DirectMessage \<Rightarrow> remote_commons X origin l e c db
     | K_RepositoryPatch \<Rightarrow> remote_forge X origin l c db
     | K_CodeReview \<Rightarrow> remote_forge X origin l c db
     | K_BuildAttestation \<Rightarrow> remote_forge X origin l c db
     | K_ReleaseProposal \<Rightarrow> remote_forge X origin l c db
     | K_ReleaseReview \<Rightarrow> remote_forge X origin l c db
     | _ \<Rightarrow> Inr db)"

definition apply_federated_contribution ::
  "ext \<Rightarrow> string \<Rightarrow> string \<Rightarrow> origin_event \<Rightarrow> signed_contribution \<Rightarrow> database \<Rightarrow> database result" where
  "apply_federated_contribution X origin l e c db =
     and_then (validate_contribution_content X c) (\<lambda>_.
     and_then (validate_remote_reporting X origin (oe_sequence e) c db) (\<lambda>_.
       project_remote_kind X origin l e c db))"

definition remote_contribution ::
  "ext \<Rightarrow> string \<Rightarrow> origin_event \<Rightarrow> signed_contribution \<Rightarrow> database \<Rightarrow> database result" where
  "remote_contribution X origin e c db =
     and_then (require_remote_protocol (sc_protocol c)) (\<lambda>_.
     and_then (require_nonce (sc_nonce c)) (\<lambda>_.
     and_then (validate_lists (sc_targets c) (sc_supersedes c)) (\<lambda>_.
     and_then (fail_if (oe_kind e \<noteq> contribution_kind_str (sc_kind c)) Unauthorized) (\<lambda>_.
     and_then (remote_received_at X e) (\<lambda>received_at.
     and_then (validate_authored_time_at (sc_created_at c) received_at) (\<lambda>_.
     and_then (authorize_remote_delegation origin (sc_delegation_id c) (required_scope (sc_kind c))
                 (sc_created_at c) received_at db) (\<lambda>(l, session_key).
     and_then (require_remote_event_metadata X e (Some l) (Some (sc_delegation_id c)) (sc_created_at c)) (\<lambda>_.
     and_then (verifying_key_from_b64 X session_key) (\<lambda>key.
     and_then (verify_object X key CONTRIBUTION_DOMAIN (e_signed_contribution X c) (sc_signature c)) (\<lambda>_.
       apply_federated_contribution X origin l e c db))))))))))"

section \<open>One remote event\<close>

text \<open>The result pairs the author nonce stored with the event and the database.\<close>

definition validate_and_project_remote_event ::
  "ext \<Rightarrow> string \<Rightarrow> origin_event \<Rightarrow> database \<Rightarrow> (string option \<times> database) result" where
  "validate_and_project_remote_event X origin e db =
    (if oe_kind e = ''lineage_registered'' then
       and_then (from_value (d_lineage_registration X) (oe_canonical e)) (\<lambda>reg.
       and_then (remote_lineage_registered X origin e reg db) (\<lambda>db'. Inr (Some (lr_nonce reg), db')))
     else if oe_kind e = ''delegation_registered'' then
       and_then (from_value (d_session_delegation X) (oe_canonical e)) (\<lambda>d.
       and_then (remote_delegation_registered X origin e d db) (\<lambda>db'. Inr (Some (sd_nonce d), db')))
     else if oe_kind e = ''delegation_revoked'' then
       and_then (from_value (d_delegation_revocation X) (oe_canonical e)) (\<lambda>r.
       and_then (remote_delegation_revoked X origin e r db) (\<lambda>db'. Inr (Some (dr_nonce r), db')))
     else if oe_kind e = ''lineage_key_rotated'' then
       and_then (from_value (d_signed_key_rotation X) (oe_canonical e)) (\<lambda>rotation.
       and_then (remote_lineage_key_rotated X origin e rotation db) (\<lambda>db'.
         Inr (Some (kr_nonce (sk_statement rotation)), db')))
     else if oe_kind e = ''acknowledgement'' then
       and_then (from_value (d_signed_acknowledgement X) (oe_canonical e)) (\<lambda>a.
       and_then (remote_acknowledgement X origin e a db) (\<lambda>_. Inr (Some (sa_nonce a), db)))
     else if oe_kind e = ''observation'' then
       and_then (from_value (d_federated_observation_envelope X) (oe_canonical e)) (\<lambda>ob.
       and_then (remote_observation X origin e ob db) (\<lambda>db'. Inr (None, db')))
     else if oe_kind e = ''checkpoint_witnessed'' then
       and_then (from_value (d_checkpoint_witness X) (oe_canonical e)) (\<lambda>w.
       and_then (remote_checkpoint_witnessed X origin e w) (\<lambda>_. Inr (None, db)))
     else
       and_then (from_value (d_signed_contribution X) (oe_canonical e)) (\<lambda>c.
       and_then (remote_contribution X origin e c db) (\<lambda>db'. Inr (Some (sc_nonce c), db'))))"

end
