(* ===== verification/Origin_Isolation.thy ===== *)
theory Origin_Isolation
  imports Remote_Projection
begin

text \<open>
  What a remote event cannot touch.  \<open>unaffected\<close> erases from a database the shared topic commons and
  the rows of one origin; the projection of an event of that origin leaves the rest as it was: the
  node's own log, authority, sources, stories and work, and everything other origins reported.
\<close>

section \<open>Tables keyed by an origin\<close>

lemma filter_insert_unique:
  "insert_unique clash r tbl = Inr tbl' \<Longrightarrow> \<not> Q r \<Longrightarrow> filter Q tbl' = filter Q tbl"
  by auto

lemma filter_insert_or_ignore: "\<not> Q r \<Longrightarrow> filter Q (insert_or_ignore clash r tbl) = filter Q tbl"
  by (simp add: insert_or_ignore_def)

lemma filter_update_rows:
  "(\<And>r. P r \<Longrightarrow> \<not> Q r) \<Longrightarrow> (\<And>r. P r \<Longrightarrow> \<not> Q (f r)) \<Longrightarrow> filter Q (update_rows P f tbl) = filter Q tbl"
  by (induction tbl) (auto simp: update_rows_def)

lemma filter_upsert:
  assumes "\<And>old. key old = key r \<Longrightarrow> \<not> Q old" and "\<not> Q r"
  shows "filter Q (upsert key (\<lambda>_ r. r) r tbl) = filter Q tbl"
proof -
  have "filter Q (map (\<lambda>old. if key old = key r then r else old) tbl) = filter Q tbl"
    using assms by (induction tbl) auto
  then show ?thesis using assms(2) by (simp add: upsert_def)
qed

lemmas origin_filters = filter_insert_unique filter_insert_or_ignore filter_update_rows filter_upsert

section \<open>The rest of the database\<close>

definition unaffected :: "string \<Rightarrow> database \<Rightarrow> database" where
  "unaffected origin db = db\<lparr>
     forum_topics := [], forum_topic_votes := [], forum_posts := [], Schema.openpgp_keys := [],
     direct_messages := [],
     federated_lineages := filter (\<lambda>r. fli_origin_node_id r \<noteq> origin) (federated_lineages db),
     federated_lineage_keys := filter (\<lambda>r. flk_origin_node_id r \<noteq> origin) (federated_lineage_keys db),
     federated_delegations := filter (\<lambda>r. fde_origin_node_id r \<noteq> origin) (federated_delegations db),
     federated_sources := filter (\<lambda>r. fso_origin_node_id r \<noteq> origin) (federated_sources db),
     federated_source_reviews := filter (\<lambda>r. fsr_origin_node_id r \<noteq> origin) (federated_source_reviews db),
     federated_stories := filter (\<lambda>r. fst_origin_node_id r \<noteq> origin) (federated_stories db),
     federated_observations := filter (\<lambda>r. fob_origin_node_id r \<noteq> origin) (federated_observations db),
     federated_story_observations :=
       filter (\<lambda>r. fsb_origin_node_id r \<noteq> origin) (federated_story_observations db),
     federated_verifications := filter (\<lambda>r. fve_origin_node_id r \<noteq> origin) (federated_verifications db),
     federated_assessments := filter (\<lambda>r. fas_origin_node_id r \<noteq> origin) (federated_assessments db),
     federated_story_events := filter (\<lambda>r. fse_origin_node_id r \<noteq> origin) (federated_story_events db) \<rparr>"

text \<open>Writing one table leaves the rest as it was, when only rows of the origin change.\<close>

lemma unaffected_write [simp]:
  "filter (\<lambda>r. fli_origin_node_id r \<noteq> origin) tfli = filter (\<lambda>r. fli_origin_node_id r \<noteq> origin) (federated_lineages db) \<Longrightarrow>
     unaffected origin (db\<lparr>federated_lineages := tfli\<rparr>) = unaffected origin db"
  "filter (\<lambda>r. flk_origin_node_id r \<noteq> origin) tflk = filter (\<lambda>r. flk_origin_node_id r \<noteq> origin) (federated_lineage_keys db) \<Longrightarrow>
     unaffected origin (db\<lparr>federated_lineage_keys := tflk\<rparr>) = unaffected origin db"
  "filter (\<lambda>r. fde_origin_node_id r \<noteq> origin) tfde = filter (\<lambda>r. fde_origin_node_id r \<noteq> origin) (federated_delegations db) \<Longrightarrow>
     unaffected origin (db\<lparr>federated_delegations := tfde\<rparr>) = unaffected origin db"
  "filter (\<lambda>r. fso_origin_node_id r \<noteq> origin) tfso = filter (\<lambda>r. fso_origin_node_id r \<noteq> origin) (federated_sources db) \<Longrightarrow>
     unaffected origin (db\<lparr>federated_sources := tfso\<rparr>) = unaffected origin db"
  "filter (\<lambda>r. fsr_origin_node_id r \<noteq> origin) tfsr = filter (\<lambda>r. fsr_origin_node_id r \<noteq> origin) (federated_source_reviews db) \<Longrightarrow>
     unaffected origin (db\<lparr>federated_source_reviews := tfsr\<rparr>) = unaffected origin db"
  "filter (\<lambda>r. fst_origin_node_id r \<noteq> origin) tfst = filter (\<lambda>r. fst_origin_node_id r \<noteq> origin) (federated_stories db) \<Longrightarrow>
     unaffected origin (db\<lparr>federated_stories := tfst\<rparr>) = unaffected origin db"
  "filter (\<lambda>r. fob_origin_node_id r \<noteq> origin) tfob = filter (\<lambda>r. fob_origin_node_id r \<noteq> origin) (federated_observations db) \<Longrightarrow>
     unaffected origin (db\<lparr>federated_observations := tfob\<rparr>) = unaffected origin db"
  "filter (\<lambda>r. fsb_origin_node_id r \<noteq> origin) tfsb = filter (\<lambda>r. fsb_origin_node_id r \<noteq> origin) (federated_story_observations db) \<Longrightarrow>
     unaffected origin (db\<lparr>federated_story_observations := tfsb\<rparr>) = unaffected origin db"
  "filter (\<lambda>r. fve_origin_node_id r \<noteq> origin) tfve = filter (\<lambda>r. fve_origin_node_id r \<noteq> origin) (federated_verifications db) \<Longrightarrow>
     unaffected origin (db\<lparr>federated_verifications := tfve\<rparr>) = unaffected origin db"
  "filter (\<lambda>r. fas_origin_node_id r \<noteq> origin) tfas = filter (\<lambda>r. fas_origin_node_id r \<noteq> origin) (federated_assessments db) \<Longrightarrow>
     unaffected origin (db\<lparr>federated_assessments := tfas\<rparr>) = unaffected origin db"
  "filter (\<lambda>r. fse_origin_node_id r \<noteq> origin) tfse = filter (\<lambda>r. fse_origin_node_id r \<noteq> origin) (federated_story_events db) \<Longrightarrow>
     unaffected origin (db\<lparr>federated_story_events := tfse\<rparr>) = unaffected origin db"
  "unaffected origin (db\<lparr>forum_topics := xpics\<rparr>) = unaffected origin db"
  "unaffected origin (db\<lparr>forum_topic_votes := xotes\<rparr>) = unaffected origin db"
  "unaffected origin (db\<lparr>forum_posts := xosts\<rparr>) = unaffected origin db"
  "unaffected origin (db\<lparr>Schema.openpgp_keys := xkeys\<rparr>) = unaffected origin db"
  "unaffected origin (db\<lparr>direct_messages := xages\<rparr>) = unaffected origin db"
  by (simp_all add: unaffected_def)

section \<open>Authority\<close>

lemma unaffected_lineage_registered:
  "remote_lineage_registered X origin e reg db = Inr db' \<Longrightarrow> unaffected origin db' = unaffected origin db"
  by (auto simp: remote_lineage_registered_def Let_def new_fed_lineage_def new_fed_key_def)

lemma unaffected_delegation_registered:
  "remote_delegation_registered X origin e d db = Inr db' \<Longrightarrow> unaffected origin db' = unaffected origin db"
  by (auto simp: remote_delegation_registered_def new_fed_delegation_def)

lemma filter_fed_mark_revoked:
  "(\<And>r. P r \<Longrightarrow> fde_origin_node_id r = origin) \<Longrightarrow>
   filter (\<lambda>r. fde_origin_node_id r \<noteq> origin) (fed_mark_revoked P n tbl) =
   filter (\<lambda>r. fde_origin_node_id r \<noteq> origin) tbl"
  by (auto simp: fed_mark_revoked_def intro!: filter_update_rows)

lemma unaffected_delegation_revoked:
  "remote_delegation_revoked X origin e r db = Inr db' \<Longrightarrow> unaffected origin db' = unaffected origin db"
  by (auto simp: remote_delegation_revoked_def Let_def intro!: unaffected_write filter_fed_mark_revoked)

lemma unaffected_key_rotated:
  assumes "remote_lineage_key_rotated X origin e rotation db = Inr db'"
  shows "unaffected origin db' = unaffected origin db"
proof -
  obtain ls ks ds where "db' = db\<lparr>federated_lineages := ls, federated_lineage_keys := ks, federated_delegations := ds\<rparr>"
    and "filter (\<lambda>r. fli_origin_node_id r \<noteq> origin) ls = filter (\<lambda>r. fli_origin_node_id r \<noteq> origin) (federated_lineages db)"
    and "filter (\<lambda>r. flk_origin_node_id r \<noteq> origin) ks = filter (\<lambda>r. flk_origin_node_id r \<noteq> origin) (federated_lineage_keys db)"
    and "filter (\<lambda>r. fde_origin_node_id r \<noteq> origin) ds = filter (\<lambda>r. fde_origin_node_id r \<noteq> origin) (federated_delegations db)"
  proof
    show "filter (\<lambda>r. fli_origin_node_id r \<noteq> origin) (federated_lineages db') =
        filter (\<lambda>r. fli_origin_node_id r \<noteq> origin) (federated_lineages db)"
      using assms by (auto simp: remote_lineage_key_rotated_def Let_def intro!: filter_update_rows)
    show "filter (\<lambda>r. flk_origin_node_id r \<noteq> origin) (federated_lineage_keys db') =
        filter (\<lambda>r. flk_origin_node_id r \<noteq> origin) (federated_lineage_keys db)"
      using assms by (auto simp: remote_lineage_key_rotated_def Let_def new_fed_key_def intro!: filter_update_rows)
    show "filter (\<lambda>r. fde_origin_node_id r \<noteq> origin) (federated_delegations db') =
        filter (\<lambda>r. fde_origin_node_id r \<noteq> origin) (federated_delegations db)"
      using assms by (auto simp: remote_lineage_key_rotated_def Let_def intro!: filter_fed_mark_revoked)
    show "db' = db\<lparr>federated_lineages := federated_lineages db', federated_lineage_keys := federated_lineage_keys db',
        federated_delegations := federated_delegations db'\<rparr>"
      using assms by (auto simp: remote_lineage_key_rotated_def Let_def)
  qed
  then show ?thesis by simp
qed

section \<open>Observations and contributions\<close>

lemma unaffected_link_event [simp]:
  "unaffected origin (link_federated_story_event origin i n db) = unaffected origin db"
  by (simp add: link_federated_story_event_def filter_insert_or_ignore)

lemma unaffected_link_targets [simp]: "unaffected origin (link_targets origin e ts db) = unaffected origin db"
  by (induction ts arbitrary: db) (simp_all add: link_targets_def)

lemma unaffected_observation:
  "remote_observation X origin e ob db = Inr db' \<Longrightarrow> unaffected origin db' = unaffected origin db"
  by (auto simp: remote_observation_def project_federated_observation_def record_fed_observation_def Let_def
      new_fed_story_def new_fed_observation_def filter_insert_or_ignore)

lemma unaffected_source_proposal:
  "remote_source_proposal X origin l e p db = Inr db' \<Longrightarrow> unaffected origin db' = unaffected origin db"
  by (auto simp: remote_source_proposal_def)

lemma unaffected_source_review:
  assumes "remote_source_review X origin l e c p db = Inr db'"
  shows "unaffected origin db' = unaffected origin db"
proof -
  let ?reviewed = "db\<lparr>federated_source_reviews := upsert fed_review_key (\<lambda>_ r. r)
      (new_fed_review origin l e (sc_created_at c) p) (federated_source_reviews db)\<rparr>"
  let ?admitted = "?reviewed\<lparr>federated_sources := update_rows (\<lambda>s. fso_origin_node_id s = origin \<and>
      fso_source_id s = sr_source_id p \<and> fso_status s = ''proposed'') (\<lambda>s. s\<lparr>fso_status := ''probation''\<rparr>)
      (federated_sources db)\<rparr>"
  have reviewed: "unaffected origin ?reviewed = unaffected origin db"
    by (intro unaffected_write filter_upsert) (simp_all add: fed_review_key_def new_fed_review_def)
  have admitted: "unaffected origin ?admitted = unaffected origin ?reviewed"
    by (rule unaffected_write(4), simp, rule filter_update_rows) simp_all
  have "db' = ?reviewed \<or> db' = ?admitted"
    using assms by (auto simp: remote_source_review_def Let_def split: if_splits)
  then show ?thesis by (elim disjE) (simp_all only: admitted reviewed)
qed

lemma unaffected_verification:
  "remote_verification origin l e t p db = Inr db' \<Longrightarrow> unaffected origin db' = unaffected origin db"
  by (auto simp: remote_verification_def Let_def intro!: unaffected_write filter_upsert)

lemma unaffected_link_observation:
  assumes "remote_link_observation origin story i ob db = Inr db'"
  shows "unaffected origin db' = unaffected origin db"
proof -
  let ?moved = "db\<lparr>federated_story_observations := update_rows (\<lambda>r. fsb_origin_node_id r = origin \<and>
      fsb_observation_id r = ob) (\<lambda>r. r\<lparr>fsb_story_id := story, fsb_linked_event_id := Some i\<rparr>)
      (federated_story_observations db)\<rparr>"
  let ?closed = "\<lambda>old. ?moved\<lparr>federated_stories := update_rows (\<lambda>s. fst_origin_node_id s = origin \<and>
      fst_story_id s = old) (\<lambda>s. s\<lparr>fst_merged_into := Some story\<rparr>) (federated_stories db)\<rparr>"
  have moved: "unaffected origin ?moved = unaffected origin db"
    by (intro unaffected_write filter_update_rows) simp_all
  have closed: "unaffected origin (?closed old) = unaffected origin ?moved" for old
    by (rule unaffected_write(6), simp, rule filter_update_rows) simp_all
  have "db' = db \<or> db' = ?moved \<or> (\<exists>old. db' = ?closed old)"
    using assms by (auto simp: remote_link_observation_def Let_def split: if_splits)
  then show ?thesis by (elim disjE exE) (simp_all only: closed moved)
qed

lemma unaffected_story_link:
  assumes "remote_story_link origin e p db = Inr db'"
  shows "unaffected origin db' = unaffected origin db"
proof -
  obtain db1 where run: "fold_result (remote_link_observation origin (sl_story_id p) (oe_event_id e))
      (sl_observation_ids p) db = Inr db1" and db': "db' = link_federated_story_event origin (sl_story_id p) (oe_sequence e) db1"
    using assms by (auto simp: remote_story_link_def)
  have "unaffected origin db1 = unaffected origin db"
    by (rule fold_result_invariant [OF run]) (simp_all add: unaffected_link_observation)
  then show ?thesis by (simp add: db')
qed

lemma unaffected_assessment:
  "remote_assessment origin l e t p db = Inr db' \<Longrightarrow> unaffected origin db' = unaffected origin db"
  by (auto simp: remote_assessment_def intro!: unaffected_write filter_upsert)

lemma unaffected_correction:
  "remote_correction origin e c p db = Inr db' \<Longrightarrow> unaffected origin db' = unaffected origin db"
  by (auto simp: remote_correction_def)

lemma unaffected_commons:
  "project_commons_contribution X node n l i c db = Inr db' \<Longrightarrow> unaffected origin db' = unaffected origin db"
  by (cases "sc_kind c") (auto simp: project_commons_contribution_def with_payload_def project_topic_def
      project_vote_def project_post_def project_openpgp_key_def project_message_def Let_def)

lemmas unaffected_kinds = unaffected_source_proposal unaffected_source_review unaffected_verification
  unaffected_story_link unaffected_assessment unaffected_correction unaffected_commons

lemma unaffected_remote_kind:
  "project_remote_kind X origin l e c db = Inr db' \<Longrightarrow> unaffected origin db' = unaffected origin db"
  by (cases "sc_kind c")
    (auto simp: project_remote_kind_def with_payload_def remote_commons_def remote_forge_def
      dest: unaffected_kinds)

lemma unaffected_contribution:
  "remote_contribution X origin e c db = Inr db' \<Longrightarrow> unaffected origin db' = unaffected origin db"
  by (auto simp: remote_contribution_def apply_federated_contribution_def dest: unaffected_remote_kind)

lemmas unaffected_arms = unaffected_lineage_registered unaffected_delegation_registered
  unaffected_delegation_revoked unaffected_key_rotated unaffected_observation unaffected_contribution

lemma unaffected_remote_event:
  "validate_and_project_remote_event X origin e db = Inr (nonce, db') \<Longrightarrow>
   unaffected origin db' = unaffected origin db"
  by (auto simp: validate_and_project_remote_event_def dest: unaffected_arms split: if_splits)

end
