(* ===== verification/Federation_Import.thy ===== *)
theory Federation_Import
  imports Origin_Isolation
begin

text \<open>
  Importing a bundle (\<open>import_federation_bundle\<close> of \<^verbatim>\<open>src/src/db.rs\<close> and \<^verbatim>\<open>src/src/federation.rs\<close>): the events
  a node does not have yet are checked and projected one by one, the peer's cursor advances, and
  the node witnesses the checkpoint in its own log.  An import is one transaction, with one
  exception the code makes on purpose: when an origin contradicts what is stored, the evidence is
  committed and the import is refused.  \<open>outcome\<close> tells the three ways a transaction can end apart.
\<close>

section \<open>Transactions that may commit and fail\<close>

datatype 'a outcome = Done 'a | Rolled_Back error | Committed_Error error database

definition try_then :: "'a result \<Rightarrow> ('a \<Rightarrow> 'b outcome) \<Rightarrow> 'b outcome" where
  "try_then m f = (case m of Inl e \<Rightarrow> Rolled_Back e | Inr x \<Rightarrow> f x)"

definition on_done :: "'a outcome \<Rightarrow> ('a \<Rightarrow> 'b outcome) \<Rightarrow> 'b outcome" where
  "on_done m f = (case m of Done x \<Rightarrow> f x | Rolled_Back e \<Rightarrow> Rolled_Back e
     | Committed_Error e db \<Rightarrow> Committed_Error e db)"

declare try_then_def [code_unfold] on_done_def [code_unfold]

definition end_transaction :: "database \<Rightarrow> ('a \<times> database) outcome \<Rightarrow> 'a result \<times> database" where
  "end_transaction db m = (case m of Done (x, db') \<Rightarrow> (Inr x, db') | Rolled_Back e \<Rightarrow> (Inl e, db)
     | Committed_Error e db' \<Rightarrow> (Inl e, db'))"

section \<open>Evidence of equivocation\<close>

definition evidence_id_of :: "ext \<Rightarrow> string \<Rightarrow> string \<Rightarrow> int \<Rightarrow> string \<Rightarrow> string \<Rightarrow> string" where
  "evidence_id_of X origin kind cursor existing incoming = prefixed_id X ''cweq_''
     (origin @ [CHR 0x00] @ kind @ [CHR 0x00] @ show_int cursor @ [CHR 0x00] @ existing @ [CHR 0x00] @ incoming)"

definition evidence_clash :: "equivocation_row \<Rightarrow> equivocation_row \<Rightarrow> bool" where
  "evidence_clash r s \<longleftrightarrow> eqv_evidence_id r = eqv_evidence_id s \<or>
     (eqv_origin_node_id r = eqv_origin_node_id s \<and> eqv_conflict_kind r = eqv_conflict_kind s \<and>
      eqv_cursor r = eqv_cursor s \<and> eqv_existing_hash r = eqv_existing_hash s \<and>
      eqv_incoming_hash r = eqv_incoming_hash s)"

definition record_equivocation ::
  "ext \<Rightarrow> int \<Rightarrow> string \<Rightarrow> string \<Rightarrow> int \<Rightarrow> string \<Rightarrow> string \<Rightarrow> string \<Rightarrow> string \<Rightarrow> database \<Rightarrow> database" where
  "record_equivocation X detected origin kind cursor existing incoming existing_json incoming_json db =
     db\<lparr>equivocation_evidence := insert_or_ignore evidence_clash
       \<lparr> eqv_evidence_id = evidence_id_of X origin kind cursor existing incoming,
         eqv_origin_node_id = origin, eqv_conflict_kind = kind, eqv_cursor = cursor,
         eqv_existing_hash = existing, eqv_incoming_hash = incoming, eqv_existing_json = existing_json,
         eqv_incoming_json = incoming_json, eqv_detected_at = millis detected \<rparr>
       (equivocation_evidence db)\<rparr>"

text \<open>Structs are printed in the order of their declaration, \<open>json!\<close> objects in key order.\<close>

definition event_text :: "ext \<Rightarrow> origin_event \<Rightarrow> string" where
  "event_text X e = x_json_print X (JObj [
     (''sequence'', JInt (oe_sequence e)), (''event_id'', JStr (oe_event_id e)),
     (''kind'', JStr (oe_kind e)), (''lineage_id'', e_opt JStr (oe_lineage_id e)),
     (''delegation_id'', e_opt JStr (oe_delegation_id e)), (''created_at'', JStr (oe_created_at e)),
     (''received_at'', JStr (oe_received_at e)), (''canonical'', oe_canonical e),
     (''previous_hash'', JStr (oe_previous_hash e)), (''event_hash'', JStr (oe_event_hash e)),
     (''node_signature'', JStr (oe_node_signature e))])"

definition checkpoint_text :: "ext \<Rightarrow> checkpoint \<Rightarrow> string" where
  "checkpoint_text X c = x_json_print X (JObj [
     (''node_id'', JStr (cp_node_id c)), (''node_public_key'', JStr (cp_node_public_key c)),
     (''cursor'', JInt (cp_cursor c)), (''event_hash'', JStr (cp_event_hash c)),
     (''created_at'', e_time X (cp_created_at c)), (''signature'', JStr (cp_signature c))])"

definition tip_text :: "ext \<Rightarrow> int \<Rightarrow> string \<Rightarrow> string" where
  "tip_text X cursor hash = x_json_print X (JObj [(''cursor'', JInt cursor), (''event_hash'', JStr hash)])"

section \<open>The events of a bundle\<close>

record import_state =
  ims_db :: database
  ims_cursor :: int
  ims_hash :: string
  ims_count :: nat

definition remote_event_clash :: "remote_event_row \<Rightarrow> remote_event_row \<Rightarrow> bool" where
  "remote_event_clash r s \<longleftrightarrow> rem_origin_node_id r = rem_origin_node_id s \<and>
     (rem_origin_sequence r = rem_origin_sequence s \<or> rem_event_id r = rem_event_id s \<or>
      rem_event_hash r = rem_event_hash s \<or>
      (rem_delegation_id r \<noteq> None \<and> rem_author_nonce r \<noteq> None \<and>
       rem_delegation_id r = rem_delegation_id s \<and> rem_author_nonce r = rem_author_nonce s))"

definition new_remote_event :: "ext \<Rightarrow> int \<Rightarrow> string \<Rightarrow> string option \<Rightarrow> origin_event \<Rightarrow> remote_event_row" where
  "new_remote_event X now origin nonce e =
     \<lparr> rem_origin_node_id = origin, rem_origin_sequence = oe_sequence e, rem_event_id = oe_event_id e,
       rem_kind = oe_kind e, rem_lineage_id = oe_lineage_id e, rem_delegation_id = oe_delegation_id e,
       rem_created_at = oe_created_at e, rem_received_at = oe_received_at e, rem_author_nonce = nonce,
       rem_canonical_json = x_json_print X (oe_canonical e), rem_previous_hash = oe_previous_hash e,
       rem_event_hash = oe_event_hash e, rem_node_signature = oe_node_signature e,
       rem_imported_at = millis now \<rparr>"

definition stored_event :: "string \<Rightarrow> int \<Rightarrow> database \<Rightarrow> remote_event_row option" where
  "stored_event origin n db =
     first_row (\<lambda>r. rem_origin_node_id r = origin \<and> rem_origin_sequence r = n) (remote_events db)"

definition import_event ::
  "ext \<Rightarrow> int \<Rightarrow> int \<Rightarrow> string \<Rightarrow> int \<Rightarrow> origin_event \<Rightarrow> import_state \<Rightarrow> import_state outcome" where
  "import_event X now detected origin known e s =
     (if oe_sequence e \<le> known then
        (case stored_event origin (oe_sequence e) (ims_db s) of
           None \<Rightarrow> Rolled_Back Database
         | Some r \<Rightarrow>
             if rem_event_hash r \<noteq> oe_event_hash e then
               try_then (from_text X Some (rem_canonical_json r)) (\<lambda>canonical.
                 Committed_Error Conflict (record_equivocation X detected origin ''event_sequence''
                   (oe_sequence e) (rem_event_hash r) (oe_event_hash e)
                   (x_json_print X (JObj [(''canonical'', canonical), (''event_hash'', JStr (rem_event_hash r)),
                      (''sequence'', JInt (oe_sequence e))]))
                   (event_text X e) (ims_db s)))
             else Done s)
      else if oe_sequence e \<noteq> ims_cursor s + 1 then Rolled_Back Validation
      else if oe_previous_hash e \<noteq> ims_hash s then
        Committed_Error Conflict (record_equivocation X detected origin ''chain_fork'' (oe_sequence e)
          (ims_hash s) (oe_previous_hash e) (tip_text X (ims_cursor s) (ims_hash s)) (event_text X e) (ims_db s))
      else
        try_then (validate_and_project_remote_event X origin e (ims_db s)) (\<lambda>(nonce, db1).
        try_then (insert_unique remote_event_clash (new_remote_event X now origin nonce e)
                    (remote_events db1)) (\<lambda>rs.
          Done \<lparr> ims_db = db1\<lparr>remote_events := rs\<rparr>, ims_cursor = oe_sequence e,
                 ims_hash = oe_event_hash e, ims_count = ims_count s + 1 \<rparr>)))"

fun import_events ::
  "ext \<Rightarrow> int \<Rightarrow> int \<Rightarrow> string \<Rightarrow> int \<Rightarrow> origin_event list \<Rightarrow> import_state \<Rightarrow> import_state outcome" where
  "import_events X now detected origin known [] s = Done s"
| "import_events X now detected origin known (e # es) s =
     on_done (import_event X now detected origin known e s)
       (import_events X now detected origin known es)"

section \<open>The import\<close>

definition new_peer :: "int \<Rightarrow> federation_bundle \<Rightarrow> peer_row" where
  "new_peer now b =
     \<lparr> peer_node_id = fb_origin_node_id b, peer_node_public_key = fb_origin_node_public_key b,
       peer_first_seen_at = millis now, peer_last_seen_at = millis now, peer_cursor = 0,
       peer_event_hash = zero_hash, peer_checkpoint_json = ''null'' \<rparr>"

definition open_peer :: "int \<Rightarrow> federation_bundle \<Rightarrow> database \<Rightarrow> (int \<times> string \<times> database) result" where
  "open_peer now b db =
     (case first_row (\<lambda>p. peer_node_id p = fb_origin_node_id b) (federation_peers db) of
        Some p \<Rightarrow>
          and_then (fail_if (peer_node_public_key p \<noteq> fb_origin_node_public_key b) Unauthorized) (\<lambda>_.
            Inr (peer_cursor p, peer_event_hash p, db))
      | None \<Rightarrow>
          and_then (fail_if (fb_from_cursor b \<noteq> 0) Validation) (\<lambda>_.
            Inr (0, zero_hash, db\<lparr>federation_peers := federation_peers db @ [new_peer now b]\<rparr>)))"

definition check_checkpoint :: "ext \<Rightarrow> int \<Rightarrow> federation_bundle \<Rightarrow> database \<Rightarrow> unit outcome" where
  "check_checkpoint X detected b db =
     (let c = fb_checkpoint b; origin = fb_origin_node_id b in
      try_then (if cp_cursor c = 0 then Inr zero_hash
                else ok_or (map_option rem_event_hash (stored_event origin (cp_cursor c) db)) Validation) (\<lambda>hash.
      if hash \<noteq> cp_event_hash c
      then Committed_Error Conflict (record_equivocation X detected origin ''checkpoint'' (cp_cursor c) hash
             (cp_event_hash c) (tip_text X (cp_cursor c) hash) (checkpoint_text X c) db)
      else Done ()))"

definition store_checkpoint :: "ext \<Rightarrow> int \<Rightarrow> federation_bundle \<Rightarrow> import_state \<Rightarrow> database" where
  "store_checkpoint X now b s =
     (let c = fb_checkpoint b; origin = fb_origin_node_id b; db = ims_db s in
      db\<lparr>remote_checkpoints := insert_or_ignore (\<lambda>r q. rcp_origin_node_id r = rcp_origin_node_id q \<and>
             rcp_cursor r = rcp_cursor q \<and> rcp_event_hash r = rcp_event_hash q)
           \<lparr> rcp_origin_node_id = origin, rcp_cursor = cp_cursor c, rcp_event_hash = cp_event_hash c,
             rcp_created_at = millis (cp_created_at c), rcp_signature = cp_signature c,
             rcp_checkpoint_json = checkpoint_text X c, rcp_imported_at = millis now \<rparr>
           (remote_checkpoints db),
         federation_peers := update_rows (\<lambda>p. peer_node_id p = origin)
           (\<lambda>p. p\<lparr>peer_last_seen_at := millis now, peer_cursor := ims_cursor s,
                   peer_event_hash := ims_hash s,
                   peer_checkpoint_json := (if cp_cursor c \<ge> peer_cursor p then checkpoint_text X c
                                            else peer_checkpoint_json p)\<rparr>) (federation_peers db)\<rparr>)"

definition witness_input :: "ext \<Rightarrow> federation_bundle \<Rightarrow> checkpoint_witness \<Rightarrow> string \<Rightarrow> event_input" where
  "witness_input X b w canonical =
     \<lparr> in_kind = ''checkpoint_witnessed'', in_lineage_id = None, in_delegation_id = None,
       in_created_at = cw_observed_at w, in_author_nonce = None, in_targets = [fb_origin_node_id b],
       in_supersedes = [], in_payload = e_checkpoint_witness X w, in_canonical_json = canonical,
       in_author_signature = Some (cw_signature w) \<rparr>"

definition known_witness :: "federation_bundle \<Rightarrow> database \<Rightarrow> (string \<times> int) option" where
  "known_witness b db =
     Option.bind (first_row (\<lambda>w. wit_origin_node_id w = fb_origin_node_id b \<and>
         wit_cursor w = cp_cursor (fb_checkpoint b) \<and> wit_event_hash w = cp_event_hash (fb_checkpoint b))
         (checkpoint_witnesses db)) (\<lambda>w.
       map_option (\<lambda>e. (ev_event_id e, ev_sequence e))
         (first_row (\<lambda>e. ev_event_id e = wit_witness_event_id w) (events db)))"

definition new_witness :: "federation_bundle \<Rightarrow> checkpoint_witness \<Rightarrow> accepted_object \<Rightarrow> witness_row" where
  "new_witness b w accepted =
     \<lparr> wit_origin_node_id = fb_origin_node_id b, wit_cursor = cp_cursor (fb_checkpoint b),
       wit_event_hash = cp_event_hash (fb_checkpoint b), wit_witness_event_id = acc_id accepted,
       wit_witnessed_at = millis (cw_observed_at w) \<rparr>"

definition witness_checkpoint ::
  "ext \<Rightarrow> node_identity \<Rightarrow> int \<Rightarrow> federation_bundle \<Rightarrow> checkpoint_witness \<Rightarrow> database \<Rightarrow>
   ((string \<times> int) \<times> database) result" where
  "witness_checkpoint X me received b w db =
     (case known_witness b db of
        Some known \<Rightarrow> Inr (known, db)
      | None \<Rightarrow>
          and_then (canonical_json X (e_checkpoint_witness X w)) (\<lambda>canonical.
          and_then (append_event X me received (witness_input X b w canonical) db) (\<lambda>(accepted, db1).
          and_then (insert_unique (\<lambda>r q. wit_witness_event_id r = wit_witness_event_id q \<or>
                (wit_origin_node_id r = wit_origin_node_id q \<and> wit_cursor r = wit_cursor q \<and>
                 wit_event_hash r = wit_event_hash q))
              (new_witness b w accepted) (checkpoint_witnesses db1)) (\<lambda>ws.
            Inr ((acc_id accepted, acc_sequence accepted), db1\<lparr>checkpoint_witnesses := ws\<rparr>)))))"

definition note_import ::
  "ext \<Rightarrow> int \<Rightarrow> federation_bundle \<Rightarrow> int \<Rightarrow> int \<Rightarrow> string \<times> int \<Rightarrow> database \<Rightarrow> database" where
  "note_import X now b known current witnessed db =
     db\<lparr>federation_imports := insert_or_ignore (\<lambda>r q. imp_import_id r = imp_import_id q \<or>
          imp_local_witness_event_id r = imp_local_witness_event_id q \<or>
          imp_local_witness_sequence r = imp_local_witness_sequence q)
        \<lparr> imp_import_id = prefixed_id X ''cwimport_'' (fb_origin_node_id b @ [CHR 0x00] @ show_int known @
            [CHR 0x00] @ show_int current @ [CHR 0x00] @ cp_event_hash (fb_checkpoint b)),
          imp_origin_node_id = fb_origin_node_id b, imp_remote_from_cursor = known,
          imp_remote_through_cursor = current, imp_local_witness_event_id = fst witnessed,
          imp_local_witness_sequence = snd witnessed, imp_imported_at = millis now \<rparr>
        (federation_imports db)\<rparr>"

definition should_witness :: "int \<Rightarrow> federation_bundle \<Rightarrow> bool" where
  "should_witness known b =
     list_ex (\<lambda>e. oe_sequence e > known \<and> oe_kind e \<noteq> ''checkpoint_witnessed'') (fb_events b)"

definition finish_import ::
  "ext \<Rightarrow> node_identity \<Rightarrow> int \<Rightarrow> int \<Rightarrow> federation_bundle \<Rightarrow> checkpoint_witness \<Rightarrow> int \<Rightarrow> import_state \<Rightarrow>
   (string option \<times> database) result" where
  "finish_import X me now received b w known s =
     (let db = store_checkpoint X now b s in
      if \<not> should_witness known b then Inr (None, db)
      else and_then (witness_checkpoint X me received b w db) (\<lambda>(witnessed, db1).
        Inr (Some (fst witnessed), note_import X now b known (ims_cursor s) witnessed db1)))"

definition import_report :: "federation_bundle \<Rightarrow> int \<Rightarrow> import_state \<Rightarrow> string option \<Rightarrow> federation_import_report" where
  "import_report b known s witness =
     \<lparr> ir_origin_node_id = fb_origin_node_id b, ir_previously_known_cursor = known,
       ir_imported_events = ims_count s, ir_current_cursor = ims_cursor s,
       ir_current_event_hash = ims_hash s, ir_witness_event_id = witness \<rparr>"

definition import_transaction ::
  "ext \<Rightarrow> node_identity \<Rightarrow> int \<Rightarrow> int \<Rightarrow> int \<Rightarrow> federation_bundle \<Rightarrow> checkpoint_witness \<Rightarrow> database \<Rightarrow>
   (federation_import_report \<times> database) outcome" where
  "import_transaction X me now detected received b w db =
     try_then (verify_bundle X b) (\<lambda>_.
     try_then (fail_if (fb_origin_node_id b = node_id me) Validation) (\<lambda>_.
     try_then (open_peer now b db) (\<lambda>(known, hash, db0).
     try_then (fail_if (fb_from_cursor b > known) Validation) (\<lambda>_.
     on_done (import_events X now detected (fb_origin_node_id b) known (fb_events b)
         \<lparr> ims_db = db0, ims_cursor = known, ims_hash = hash, ims_count = 0 \<rparr>) (\<lambda>s.
     on_done (check_checkpoint X detected b (ims_db s)) (\<lambda>_.
     try_then (finish_import X me now received b w known s) (\<lambda>(witness, db1).
       Done (import_report b known s witness, db1))))))))"

text \<open>\<open>Database::import_federation_bundle\<close>, and the method of the node that makes the witness first.
  \<open>observed\<close>, \<open>now\<close>, \<open>detected\<close> and \<open>received\<close> are the successive readings of the clock.\<close>

definition db_import_federation_bundle ::
  "ext \<Rightarrow> node_identity \<Rightarrow> int \<Rightarrow> int \<Rightarrow> int \<Rightarrow> federation_bundle \<Rightarrow> checkpoint_witness \<Rightarrow> database \<Rightarrow>
   federation_import_report result \<times> database" where
  "db_import_federation_bundle X me now detected received b w db =
     end_transaction db (import_transaction X me now detected received b w db)"

definition import_federation_bundle ::
  "ext \<Rightarrow> node_identity \<Rightarrow> int \<Rightarrow> int \<Rightarrow> int \<Rightarrow> int \<Rightarrow> federation_bundle \<Rightarrow> database \<Rightarrow>
   federation_import_report result \<times> database" where
  "import_federation_bundle X me observed now detected received b db =
     (case and_then (verify_bundle X b) (\<lambda>_. make_checkpoint_witness X me observed b) of
        Inl e \<Rightarrow> (Inl e, db)
      | Inr w \<Rightarrow> db_import_federation_bundle X me now detected received b w db)"

section \<open>Lemmas on transactions\<close>

lemma try_then_eq [simp]:
  "try_then m f = Done y \<longleftrightarrow> (\<exists>x. m = Inr x \<and> f x = Done y)"
  "try_then m f = Committed_Error e db \<longleftrightarrow> (\<exists>x. m = Inr x \<and> f x = Committed_Error e db)"
  by (cases m; simp add: try_then_def)+

lemma on_done_eq [simp]:
  "on_done m f = Done y \<longleftrightarrow> (\<exists>x. m = Done x \<and> f x = Done y)"
  "on_done m f = Committed_Error e db \<longleftrightarrow>
     m = Committed_Error e db \<or> (\<exists>x. m = Done x \<and> f x = Committed_Error e db)"
  by (cases m; simp add: on_done_def)+

lemma on_done_Done [simp]: "on_done (Done x) f = f x"
  by (simp add: on_done_def)

lemma import_events_append:
  "import_events X now detected origin known (es @ es') s =
   on_done (import_events X now detected origin known es s) (import_events X now detected origin known es')"
proof (induction es arbitrary: s)
  case (Cons e es)
  then show ?case by (cases "import_event X now detected origin known e s") (simp_all add: on_done_def)
qed simp

lemma import_events_snoc:
  "import_events X now detected origin known (es @ [e]) s = Done t \<longleftrightarrow>
   (\<exists>m. import_events X now detected origin known es s = Done m \<and>
        import_event X now detected origin known e m = Done t)"
  by (auto simp: import_events_append)

text \<open>An event the node has not seen, when it is taken.\<close>

lemma import_event_new:
  assumes "import_event X now detected origin known e s = Done s'" and "known < oe_sequence e"
  obtains nonce db1 where "oe_sequence e = ims_cursor s + 1" "oe_previous_hash e = ims_hash s"
    "validate_and_project_remote_event X origin e (ims_db s) = Inr (nonce, db1)"
    "\<forall>r\<in>set (remote_events db1). \<not> remote_event_clash (new_remote_event X now origin nonce e) r"
    "s' = \<lparr> ims_db = db1\<lparr>remote_events := remote_events db1 @ [new_remote_event X now origin nonce e]\<rparr>,
       ims_cursor = oe_sequence e, ims_hash = oe_event_hash e, ims_count = ims_count s + 1 \<rparr>"
  using assms by (auto simp: import_event_def split: if_splits)

lemma import_event_old:
  assumes "import_event X now detected origin known e s = Done s'" and "oe_sequence e \<le> known"
  obtains r where "stored_event origin (oe_sequence e) (ims_db s) = Some r" "rem_event_hash r = oe_event_hash e"
    "s' = s"
  using assms by (auto simp: import_event_def split: if_splits option.splits)

text \<open>A committed refusal adds evidence and nothing else.\<close>

definition evidence_added :: "database \<Rightarrow> database \<Rightarrow> bool" where
  "evidence_added db db' \<longleftrightarrow> db' = db\<lparr>equivocation_evidence := equivocation_evidence db'\<rparr> \<and>
     set (equivocation_evidence db) \<subseteq> set (equivocation_evidence db') \<and> equivocation_evidence db' \<noteq> []"

lemma evidence_added_record [simp]:
  "evidence_added db (record_equivocation X detected origin kind cursor existing incoming ej ij db)"
  by (auto simp: evidence_added_def record_equivocation_def insert_or_ignore_def)

lemma import_event_committed:
  assumes "import_event X now detected origin known e s = Committed_Error err db'"
  shows "err = Conflict \<and> evidence_added (ims_db s) db' \<and> (oe_sequence e \<le> known \<or> oe_previous_hash e \<noteq> ims_hash s)"
proof (cases "oe_sequence e \<le> known")
  case True
  then show ?thesis using assms by (auto simp: import_event_def split: if_splits option.splits)
next
  case False
  then show ?thesis using assms by (auto simp: import_event_def split: if_splits)
qed

text \<open>Consecutive events: each follows the one before it in the chain.\<close>

fun consecutive :: "origin_event list \<Rightarrow> bool" where
  "consecutive (e # f # es) \<longleftrightarrow>
     oe_sequence f = oe_sequence e + 1 \<and> oe_previous_hash f = oe_event_hash e \<and> consecutive (f # es)"
| "consecutive _ \<longleftrightarrow> True"

lemma verified_consecutive:
  assumes "fold_result (verify_origin_event X key f) es s = Inr t"
  shows "consecutive es"
  using assms
proof (induction es arbitrary: s rule: consecutive.induct)
  case (1 a b es)
  obtain m where m: "verify_origin_event X key f a s = Inr m" "fold_result (verify_origin_event X key f) (b # es) m = Inr t"
    using "1.prems" by (auto split: sum.splits)
  obtain n where n: "verify_origin_event X key f b m = Inr n" using m(2) by (auto split: sum.splits)
  from verify_origin_event_Inr(1,2,3) [OF m(1)] verify_origin_event_Inr(1,4) [OF n] "1.IH" [OF m(2)]
  show ?case by simp
qed simp_all

lemma no_fork_inside:
  assumes "consecutive (e # es)" and "known < oe_sequence e" and "oe_previous_hash e = ims_hash s"
  shows "import_events X now detected origin known (e # es) s \<noteq> Committed_Error err db'"
  using assms
proof (induction es arbitrary: e s)
  case Nil
  then show ?case using import_event_committed by fastforce
next
  case (Cons f es)
  show ?case
  proof
    assume c: "import_events X now detected origin known (e # f # es) s = Committed_Error err db'"
    have "import_event X now detected origin known e s \<noteq> Committed_Error err db'"
      using import_event_committed [of X now detected origin known e s err db'] Cons.prems by auto
    with c obtain m where m: "import_event X now detected origin known e s = Done m"
      "import_events X now detected origin known (f # es) m = Committed_Error err db'"
      by (auto simp del: import_events.simps(2) simp: import_events.simps(2) [of _ _ _ _ _ e])
    have "ims_hash m = oe_event_hash e" using m(1) Cons.prems(2) by (rule import_event_new) simp
    then have "import_events X now detected origin known (f # es) m \<noteq> Committed_Error err db'"
      using Cons.prems by (intro Cons.IH) simp_all
    with m(2) show False by contradiction
  qed
qed

text \<open>The events of a bundle can only end in a committed refusal before anything was taken.\<close>

lemma import_events_committed:
  assumes "consecutive es" and "import_events X now detected origin known es s = Committed_Error err db'"
  shows "err = Conflict \<and> evidence_added (ims_db s) db'"
  using assms
proof (induction es)
  case Nil
  then show ?case by simp
next
  case (Cons e es)
  show ?case
  proof (cases "import_event X now detected origin known e s")
    case (Committed_Error err' d)
    with Cons.prems(2) import_event_committed [OF Committed_Error] show ?thesis by (simp add: on_done_def)
  next
    case (Rolled_Back _)
    with Cons.prems(2) show ?thesis by (simp add: on_done_def)
  next
    case (Done m)
    then have rest: "import_events X now detected origin known es m = Committed_Error err db'"
      using Cons.prems(2) by simp
    show ?thesis
    proof (cases "oe_sequence e \<le> known")
      case True
      have "m = s" using Done True by (rule import_event_old)
      moreover have "consecutive es" using Cons.prems(1) by (cases es) auto
      ultimately show ?thesis using Cons.IH rest by simp
    next
      case False
      then have "known < oe_sequence e" by simp
      with Done have hash: "ims_hash m = oe_event_hash e" by (auto elim!: import_event_new)
      show ?thesis
      proof (cases es)
        case Nil
        then show ?thesis using rest by simp
      next
        case (Cons f fs)
        have "import_events X now detected origin known (f # fs) m \<noteq> Committed_Error err db'"
          using Cons.prems(1) Cons False hash by (intro no_fork_inside) simp_all
        with rest Cons show ?thesis by simp
      qed
    qed
  qed
qed

text \<open>After the events, the last one is stored with the hash the bundle gives it.\<close>

lemma import_events_last:
  assumes "import_events X now detected origin known es s = Done t" and "es \<noteq> []"
  shows "\<exists>r. stored_event origin (oe_sequence (last es)) (ims_db t) = Some r \<and>
    rem_event_hash r = oe_event_hash (last es)"
proof -
  obtain us e where es: "es = us @ [e]" using assms(2) by (cases es rule: rev_cases) auto
  obtain m where m: "import_event X now detected origin known e m = Done t"
    using assms(1) es by (auto simp: import_events_snoc)
  show ?thesis
  proof (cases "oe_sequence e \<le> known")
    case True
    with m show ?thesis unfolding es by (auto elim!: import_event_old)
  next
    case False
    then have "known < oe_sequence e" by simp
    with m obtain nonce db1 where n: "\<forall>r\<in>set (remote_events db1). \<not> remote_event_clash (new_remote_event X now origin nonce e) r"
      "ims_db t = db1\<lparr>remote_events := remote_events db1 @ [new_remote_event X now origin nonce e]\<rparr>"
      by (auto elim!: import_event_new)
    have "first_row (\<lambda>r. rem_origin_node_id r = origin \<and> rem_origin_sequence r = oe_sequence e) (remote_events db1) = None"
      using n(1) by (auto simp: remote_event_clash_def new_remote_event_def)
    then show ?thesis
      unfolding es n(2) by (simp add: stored_event_def new_remote_event_def del: first_row_None)
  qed
qed

section \<open>The remote log\<close>

text \<open>The stored events of one origin, and what makes them a chain that starts at the zero hash.\<close>

definition remote_log :: "string \<Rightarrow> database \<Rightarrow> remote_event_row list" where
  "remote_log origin db = filter (\<lambda>r. rem_origin_node_id r = origin) (remote_events db)"

fun linked_from :: "int \<Rightarrow> string \<Rightarrow> remote_event_row list \<Rightarrow> bool" where
  "linked_from n h [] \<longleftrightarrow> True"
| "linked_from n h (r # rs) \<longleftrightarrow>
     rem_origin_sequence r = n + 1 \<and> rem_previous_hash r = h \<and> linked_from (n + 1) (rem_event_hash r) rs"

definition tip_hash :: "string \<Rightarrow> remote_event_row list \<Rightarrow> string" where
  "tip_hash h rs = (if rs = [] then h else rem_event_hash (last rs))"

definition peer_ok :: "database \<Rightarrow> peer_row \<Rightarrow> bool" where
  "peer_ok db p \<longleftrightarrow> (let log = remote_log (peer_node_id p) db in
     linked_from 0 zero_hash log \<and> peer_cursor p = len log \<and> peer_event_hash p = tip_hash zero_hash log)"

definition peers_ok :: "database \<Rightarrow> bool" where
  "peers_ok db \<longleftrightarrow> distinct (map peer_node_id (federation_peers db)) \<and>
     (\<forall>p\<in>set (federation_peers db). peer_ok db p) \<and>
     rem_origin_node_id ` set (remote_events db) \<subseteq> peer_node_id ` set (federation_peers db)"

lemma linked_from_snoc:
  "linked_from n h (rs @ [r]) \<longleftrightarrow> linked_from n h rs \<and>
     rem_origin_sequence r = n + len rs + 1 \<and> rem_previous_hash r = tip_hash h rs"
  by (induction rs arbitrary: n h) (auto simp: tip_hash_def len_def)

text \<open>What the rest of the node keeps while events of one origin are imported.\<close>

lemma unaffected_tables:
  assumes "unaffected origin db' = unaffected origin db"
  shows "remote_events db' = remote_events db" "federation_peers db' = federation_peers db"
    "events db' = events db" "meta db' = meta db" "lineages db' = lineages db" "delegations db' = delegations db"
    "equivocation_evidence db' = equivocation_evidence db"
proof -
  note * = arg_cong [OF assms]
  show "remote_events db' = remote_events db" using * [of remote_events] by (simp add: unaffected_def)
  show "federation_peers db' = federation_peers db" using * [of federation_peers] by (simp add: unaffected_def)
  show "events db' = events db" using * [of events] by (simp add: unaffected_def)
  show "meta db' = meta db" using * [of meta] by (simp add: unaffected_def)
  show "lineages db' = lineages db" using * [of lineages] by (simp add: unaffected_def)
  show "delegations db' = delegations db" using * [of delegations] by (simp add: unaffected_def)
  show "equivocation_evidence db' = equivocation_evidence db"
    using * [of equivocation_evidence] by (simp add: unaffected_def)
qed

text \<open>The log of the origin and everything that is not the origin's, erased.\<close>

definition others :: "string \<Rightarrow> database \<Rightarrow> database" where
  "others origin db = (unaffected origin db)\<lparr>
     remote_events := filter (\<lambda>r. rem_origin_node_id r \<noteq> origin) (remote_events db)\<rparr>"

text \<open>The invariant of the loop: the log grows by the events counted, stays a chain, and the loop
  variables point at its end.\<close>

definition importing :: "string \<Rightarrow> database \<Rightarrow> import_state \<Rightarrow> bool" where
  "importing origin db s \<longleftrightarrow>
     linked_from 0 zero_hash (remote_log origin (ims_db s)) \<and>
     ims_cursor s = len (remote_log origin (ims_db s)) \<and>
     ims_hash s = tip_hash zero_hash (remote_log origin (ims_db s)) \<and>
     (\<exists>new. remote_log origin (ims_db s) = remote_log origin db @ new \<and> length new = ims_count s) \<and>
     others origin (ims_db s) = others origin db"

lemma import_event_importing:
  assumes inv: "importing origin db s" and run: "import_event X now detected origin known e s = Done s'"
  shows "importing origin db s'"
proof (cases "oe_sequence e \<le> known")
  case True
  from run True have "s' = s" by (rule import_event_old)
  with inv show ?thesis by simp
next
  case False
  then have "known < oe_sequence e" by simp
  with run obtain nonce db1 where e: "oe_sequence e = ims_cursor s + 1" "oe_previous_hash e = ims_hash s"
    "validate_and_project_remote_event X origin e (ims_db s) = Inr (nonce, db1)"
    "s' = \<lparr> ims_db = db1\<lparr>remote_events := remote_events db1 @ [new_remote_event X now origin nonce e]\<rparr>,
       ims_cursor = oe_sequence e, ims_hash = oe_event_hash e, ims_count = ims_count s + 1 \<rparr>"
    by (rule import_event_new)
  have same: "unaffected origin db1 = unaffected origin (ims_db s)" by (rule unaffected_remote_event [OF e(3)])
  define row where "row = new_remote_event X now origin nonce e"
  have row: "rem_origin_node_id row = origin" "rem_origin_sequence row = oe_sequence e"
    "rem_previous_hash row = oe_previous_hash e" "rem_event_hash row = oe_event_hash e"
    by (simp_all add: row_def new_remote_event_def)
  have log: "remote_log origin (ims_db s') = remote_log origin (ims_db s) @ [row]"
    using unaffected_tables(1) [OF same] row by (simp add: remote_log_def e(4) flip: row_def)
  have "unaffected origin (ims_db s') = (unaffected origin db1)\<lparr>remote_events := remote_events (ims_db s')\<rparr>"
    by (simp add: e(4) unaffected_def)
  then have oth: "others origin (ims_db s') = others origin (ims_db s)"
    using unaffected_tables(1) [OF same] row by (simp add: others_def e(4) same flip: row_def)
  obtain new where "remote_log origin (ims_db s) = remote_log origin db @ new" "length new = ims_count s"
    using inv by (auto simp: importing_def)
  then have "\<exists>new. remote_log origin (ims_db s') = remote_log origin db @ new \<and> length new = ims_count s'"
    by (intro exI [of _ "new @ [row]"]) (simp add: log, simp add: e(4))
  moreover have "linked_from 0 zero_hash (remote_log origin (ims_db s'))"
    using inv row e(1,2) by (simp add: log linked_from_snoc importing_def)
  moreover have "ims_cursor s' = len (remote_log origin (ims_db s'))" "ims_hash s' = tip_hash zero_hash (remote_log origin (ims_db s'))"
    unfolding log using inv row e(1) by (simp_all add: e(4) importing_def len_def tip_hash_def)
  ultimately show ?thesis using inv oth by (simp add: importing_def)
qed

lemma import_events_importing:
  "importing origin db s \<Longrightarrow> import_events X now detected origin known es s = Done s' \<Longrightarrow> importing origin db s'"
  by (induction es arbitrary: s) (auto intro: import_event_importing)

section \<open>The whole import\<close>

lemma open_peer_Inr:
  assumes "open_peer now b db = Inr (known, hash, db0)"
  obtains (old) p where "first_row (\<lambda>p. peer_node_id p = fb_origin_node_id b) (federation_peers db) = Some p"
    "known = peer_cursor p" "hash = peer_event_hash p" "db0 = db"
  | (new) "\<forall>p\<in>set (federation_peers db). peer_node_id p \<noteq> fb_origin_node_id b" "fb_from_cursor b = 0"
    "known = 0" "hash = zero_hash" "db0 = db\<lparr>federation_peers := federation_peers db @ [new_peer now b]\<rparr>"
proof (cases "first_row (\<lambda>p. peer_node_id p = fb_origin_node_id b) (federation_peers db)")
  case None
  with assms show ?thesis by (intro new) (auto simp: open_peer_def)
next
  case (Some p)
  with assms show ?thesis by (intro old) (auto simp: open_peer_def)
qed

lemma open_peer_importing:
  assumes ok: "peers_ok db" and o: "open_peer now b db = Inr (known, hash, db0)"
  shows "importing (fb_origin_node_id b) db0 \<lparr> ims_db = db0, ims_cursor = known, ims_hash = hash, ims_count = 0 \<rparr>"
  using o
proof (cases rule: open_peer_Inr)
  case (old p)
  from first_row_Some [OF old(1)] ok have "peer_ok db p" "peer_node_id p = fb_origin_node_id b"
    by (auto simp: peers_ok_def)
  with old show ?thesis by (simp add: importing_def peer_ok_def Let_def)
next
  case new
  have "rem_origin_node_id r \<noteq> fb_origin_node_id b" if "r \<in> set (remote_events db)" for r
  proof -
    have "rem_origin_node_id r \<in> peer_node_id ` set (federation_peers db)"
      using ok that unfolding peers_ok_def by (elim conjE subsetD) simp
    with new(1) show ?thesis by force
  qed
  then have "remote_log (fb_origin_node_id b) db = []" by (simp add: remote_log_def filter_empty_conv)
  then have "remote_log (fb_origin_node_id b) db0 = []" by (simp add: remote_log_def new(5))
  then show ?thesis by (simp add: importing_def new(3,4) tip_hash_def)
qed

lemma import_transaction_Done:
  assumes "import_transaction X me now detected received b w db = Done (r, db')"
  obtains known hash db0 s witness where "verify_bundle X b = Inr ()" "fb_origin_node_id b \<noteq> node_id me"
    "open_peer now b db = Inr (known, hash, db0)" "fb_from_cursor b \<le> known"
    "import_events X now detected (fb_origin_node_id b) known (fb_events b)
       \<lparr> ims_db = db0, ims_cursor = known, ims_hash = hash, ims_count = 0 \<rparr> = Done s"
    "check_checkpoint X detected b (ims_db s) = Done ()"
    "finish_import X me now received b w known s = Inr (witness, db')"
    "r = import_report b known s witness"
  using assms by (auto simp: import_transaction_def not_less)

lemma import_bundle_Inr:
  assumes "import_federation_bundle X me observed now detected received b db = (Inr r, db')"
  obtains w where "make_checkpoint_witness X me observed b = Inr w"
    "import_transaction X me now detected received b w db = Done (r, db')"
  using assms
  by (auto simp: import_federation_bundle_def db_import_federation_bundle_def end_transaction_def
      split: sum.splits outcome.splits)

text \<open>A refused import.\<close>

lemma check_checkpoint_committed:
  assumes "check_checkpoint X detected b db = Committed_Error e db'"
  shows "e = Conflict \<and> evidence_added db db'" and "cp_cursor (fb_checkpoint b) = 0 \<Longrightarrow> cp_event_hash (fb_checkpoint b) \<noteq> zero_hash"
    and "stored_event (fb_origin_node_id b) (cp_cursor (fb_checkpoint b)) db = Some r \<Longrightarrow>
      cp_cursor (fb_checkpoint b) \<noteq> 0 \<Longrightarrow> rem_event_hash r \<noteq> cp_event_hash (fb_checkpoint b)"
  using assms by (auto simp: check_checkpoint_def Let_def split: if_splits)

lemma last_sequence:
  assumes "verify_bundle X b = Inr ()" and "fb_events b \<noteq> []"
  shows "oe_sequence (last (fb_events b)) = fb_through_cursor b" and "e \<in> set (fb_events b) \<Longrightarrow> fb_from_cursor b < oe_sequence e"
proof -
  from assms(1) obtain key t where k: "len (fb_events b) = fb_through_cursor b - fb_from_cursor b"
    "fold_result (verify_origin_event X key (fb_from_cursor b)) (fb_events b) (bundle_start (fb_from_cursor b)) = Inr t"
    by (rule verify_bundle_Inr)
  have seqs: "oe_sequence (fb_events b ! i) = fb_from_cursor b + 1 + int i" if "i < length (fb_events b)" for i
    using conjunct1 [OF bundle_sequences [OF k(2)], THEN arg_cong, of "\<lambda>l. l ! i"] that by (simp add: bundle_start_def)
  show "oe_sequence (last (fb_events b)) = fb_through_cursor b"
    using seqs [of "length (fb_events b) - 1"] assms(2) k(1) by (simp add: last_conv_nth len_def of_nat_diff Suc_leI)
  show "e \<in> set (fb_events b) \<Longrightarrow> fb_from_cursor b < oe_sequence e"
    using seqs by (auto simp: in_set_conv_nth)
qed

lemma genesis_event:
  assumes "verify_bundle X b = Inr ()" and "fb_from_cursor b = 0" and "fb_events b = e # es"
  shows "oe_previous_hash e = zero_hash"
proof -
  from assms(1) obtain key t where
    "fold_result (verify_origin_event X key (fb_from_cursor b)) (fb_events b) (bundle_start (fb_from_cursor b)) = Inr t"
    by (rule verify_bundle_Inr)
  then obtain m where "verify_origin_event X key 0 e (bundle_start 0) = Inr m"
    using assms(2,3) by (auto split: sum.splits)
  then show ?thesis by (auto simp: verify_origin_event_def bundle_start_def Let_def)
qed

lemma checkpoint_conflict_empty:
  assumes v: "verify_bundle X b = Inr ()"
    and s: "import_events X now detected (fb_origin_node_id b) known (fb_events b) s0 = Done s"
    and c: "check_checkpoint X detected b (ims_db s) = Committed_Error e db'"
  shows "fb_events b = [] \<and> s = s0 \<and> fb_through_cursor b \<noteq> 0"
proof -
  from v obtain key t where k: "cp_cursor (fb_checkpoint b) = fb_through_cursor b" "0 \<le> fb_from_cursor b"
    "len (fb_events b) = fb_through_cursor b - fb_from_cursor b"
    "fb_events b \<noteq> [] \<longrightarrow> cp_event_hash (fb_checkpoint b) = oe_event_hash (last (fb_events b))"
    "fb_through_cursor b = 0 \<longrightarrow> cp_event_hash (fb_checkpoint b) = zero_hash"
    by (rule verify_bundle_Inr)
  have "fb_events b = []"
  proof (rule ccontr)
    assume ne: "fb_events b \<noteq> []"
    then have "fb_through_cursor b \<noteq> 0" using k(2,3) by (cases "fb_events b") (auto simp: len_def)
    with import_events_last [OF s ne] last_sequence(1) [OF v ne] check_checkpoint_committed(3) [OF c] k(1,4) ne
    show False by auto
  qed
  with s k check_checkpoint_committed(2) [OF c] show ?thesis by auto
qed

lemma import_transaction_committed:
  assumes "import_transaction X me now detected received b w db = Committed_Error e db'"
  shows "e = Conflict \<and> evidence_added db db'"
proof -
  from assms obtain known hash db0 where v: "verify_bundle X b = Inr ()" and o: "open_peer now b db = Inr (known, hash, db0)"
    and rest: "import_events X now detected (fb_origin_node_id b) known (fb_events b)
          \<lparr> ims_db = db0, ims_cursor = known, ims_hash = hash, ims_count = 0 \<rparr> = Committed_Error e db' \<or>
        (\<exists>s. import_events X now detected (fb_origin_node_id b) known (fb_events b)
          \<lparr> ims_db = db0, ims_cursor = known, ims_hash = hash, ims_count = 0 \<rparr> = Done s \<and>
         check_checkpoint X detected b (ims_db s) = Committed_Error e db')"
    by (auto simp: import_transaction_def)
  let ?s0 = "\<lparr> ims_db = db0, ims_cursor = known, ims_hash = hash, ims_count = 0 \<rparr>"
  from v obtain key t where k: "len (fb_events b) = fb_through_cursor b - fb_from_cursor b"
    "fold_result (verify_origin_event X key (fb_from_cursor b)) (fb_events b) (bundle_start (fb_from_cursor b)) = Inr t"
    by (rule verify_bundle_Inr)
  have cons: "consecutive (fb_events b)" by (rule verified_consecutive [OF k(2)])
  from rest show ?thesis
  proof (elim disjE exE conjE)
    assume c: "import_events X now detected (fb_origin_node_id b) known (fb_events b) ?s0 = Committed_Error e db'"
    have base: "e = Conflict \<and> evidence_added db0 db'" using import_events_committed [OF cons c] by simp
    from o show ?thesis
    proof (cases rule: open_peer_Inr)
      case old
      with base show ?thesis by simp
    next
      case new
      then obtain f fs where f: "fb_events b = f # fs" using c by (cases "fb_events b") auto
      have "known < oe_sequence f" using last_sequence(2) [OF v, of f] f new(2,3) by simp
      moreover have "oe_previous_hash f = ims_hash ?s0" using genesis_event [OF v new(2) f] new(4) by simp
      ultimately show ?thesis using no_fork_inside [of f fs known ?s0] cons c f by (simp del: import_events.simps)
    qed
  next
    fix s
    assume s: "import_events X now detected (fb_origin_node_id b) known (fb_events b) ?s0 = Done s"
      and c: "check_checkpoint X detected b (ims_db s) = Committed_Error e db'"
    note empty = checkpoint_conflict_empty [OF v s c]
    from o show ?thesis
    proof (cases rule: open_peer_Inr)
      case old
      with empty check_checkpoint_committed(1) [OF c] show ?thesis by simp
    next
      case new
      with empty k(1) show ?thesis by (simp add: len_def)
    qed
  qed
qed

section \<open>A completed import\<close>

text \<open>What the closing statements write: the peer row, the checkpoint, and at most one event of the
  node's own, the witness.\<close>

definition after_import :: "int \<Rightarrow> federation_bundle \<Rightarrow> ext \<Rightarrow> import_state \<Rightarrow> peer_row list" where
  "after_import now b X s = federation_peers (store_checkpoint X now b s)"

lemma witness_checkpoint_effect:
  assumes "witness_checkpoint X me received b w db = Inr (witnessed, db')"
  obtains (known) "db' = db"
  | (logged) canonical acc ev ws where "canonical_json X (e_checkpoint_witness X w) = Inr canonical"
    "append_event X me received (witness_input X b w canonical) db = Inr (acc, db\<lparr>events := ev\<rparr>)"
    "filter (\<lambda>r. wit_origin_node_id r \<noteq> fb_origin_node_id b) ws =
       filter (\<lambda>r. wit_origin_node_id r \<noteq> fb_origin_node_id b) (checkpoint_witnesses db)"
    "db' = db\<lparr>events := ev, checkpoint_witnesses := ws\<rparr>"
proof (cases "known_witness b db")
  case (Some k)
  with assms show ?thesis by (intro known) (auto simp: witness_checkpoint_def)
next
  case None
  with assms obtain canonical acc db1 where a: "canonical_json X (e_checkpoint_witness X w) = Inr canonical"
    "append_event X me received (witness_input X b w canonical) db = Inr (acc, db1)"
    "db' = db1\<lparr>checkpoint_witnesses := checkpoint_witnesses db1 @ [new_witness b w acc]\<rparr>"
    by (auto simp: witness_checkpoint_def)
  from append_event_frame [OF a(2)] obtain ev where "db1 = db\<lparr>events := ev\<rparr>" by blast
  with a show ?thesis by (intro logged) (simp_all add: new_witness_def)
qed

text \<open>Everything an import of this origin has no business with, erased down to what it keeps.\<close>

definition beyond_import :: "string \<Rightarrow> database \<Rightarrow> database" where
  "beyond_import origin db = (others origin db)\<lparr> events := [],
     federation_peers := filter (\<lambda>p. peer_node_id p \<noteq> origin) (federation_peers db),
     remote_checkpoints := filter (\<lambda>c. rcp_origin_node_id c \<noteq> origin) (remote_checkpoints db),
     checkpoint_witnesses := filter (\<lambda>w. wit_origin_node_id w \<noteq> origin) (checkpoint_witnesses db),
     federation_imports := filter (\<lambda>i. imp_origin_node_id i \<noteq> origin) (federation_imports db) \<rparr>"

lemma beyond_import_write [simp]:
  "beyond_import origin (db\<lparr>events := ev\<rparr>) = beyond_import origin db"
  "filter (\<lambda>p. peer_node_id p \<noteq> origin) ps = filter (\<lambda>p. peer_node_id p \<noteq> origin) (federation_peers db) \<Longrightarrow>
     beyond_import origin (db\<lparr>federation_peers := ps\<rparr>) = beyond_import origin db"
  "filter (\<lambda>c. rcp_origin_node_id c \<noteq> origin) cs = filter (\<lambda>c. rcp_origin_node_id c \<noteq> origin) (remote_checkpoints db) \<Longrightarrow>
     beyond_import origin (db\<lparr>remote_checkpoints := cs\<rparr>) = beyond_import origin db"
  "filter (\<lambda>w. wit_origin_node_id w \<noteq> origin) ws = filter (\<lambda>w. wit_origin_node_id w \<noteq> origin) (checkpoint_witnesses db) \<Longrightarrow>
     beyond_import origin (db\<lparr>checkpoint_witnesses := ws\<rparr>) = beyond_import origin db"
  "filter (\<lambda>i. imp_origin_node_id i \<noteq> origin) is = filter (\<lambda>i. imp_origin_node_id i \<noteq> origin) (federation_imports db) \<Longrightarrow>
     beyond_import origin (db\<lparr>federation_imports := is\<rparr>) = beyond_import origin db"
  by (simp_all add: beyond_import_def others_def unaffected_def)

lemma others_beyond: "others origin db' = others origin db \<Longrightarrow> beyond_import origin db' = beyond_import origin db"
proof -
  assume eq: "others origin db' = others origin db"
  have "beyond_import origin d = (others origin d)\<lparr> events := [],
     federation_peers := filter (\<lambda>p. peer_node_id p \<noteq> origin) (federation_peers (others origin d)),
     remote_checkpoints := filter (\<lambda>c. rcp_origin_node_id c \<noteq> origin) (remote_checkpoints (others origin d)),
     checkpoint_witnesses := filter (\<lambda>w. wit_origin_node_id w \<noteq> origin) (checkpoint_witnesses (others origin d)),
     federation_imports := filter (\<lambda>i. imp_origin_node_id i \<noteq> origin) (federation_imports (others origin d)) \<rparr>" for d
    by (simp add: beyond_import_def others_def unaffected_def)
  then show ?thesis using eq by metis
qed

lemma store_checkpoint_beyond:
  "beyond_import (fb_origin_node_id b) (store_checkpoint X now b s) = beyond_import (fb_origin_node_id b) (ims_db s)"
proof -
  have p: "filter (\<lambda>p. peer_node_id p \<noteq> o') (update_rows (\<lambda>p. peer_node_id p = o') (\<lambda>p. p\<lparr>peer_last_seen_at := x,
      peer_cursor := c, peer_event_hash := h, peer_checkpoint_json := j p\<rparr>) tbl) = filter (\<lambda>p. peer_node_id p \<noteq> o') tbl"
    for o' x c h j tbl by (rule filter_update_rows) simp_all
  show ?thesis
    unfolding store_checkpoint_def Let_def
    by (subst beyond_import_write(2)) (simp_all add: p filter_insert_or_ignore)
qed

lemma finish_import_effect:
  assumes "finish_import X me now received b w known s = Inr (witness, db')"
  shows "beyond_import (fb_origin_node_id b) db' = beyond_import (fb_origin_node_id b) (ims_db s)"
    and "remote_events db' = remote_events (ims_db s)"
    and "federation_peers db' = after_import now b X s"
    and "events db' = events (ims_db s) \<or> (\<exists>canonical acc db1.
      canonical_json X (e_checkpoint_witness X w) = Inr canonical \<and> events db' = events db1 \<and>
      append_event X me received (witness_input X b w canonical) (store_checkpoint X now b s) = Inr (acc, db1))"
proof -
  let ?db = "store_checkpoint X now b s"
  have st: "remote_events ?db = remote_events (ims_db s)" "events ?db = events (ims_db s)"
    by (simp_all add: store_checkpoint_def Let_def)
  have noted: "beyond_import (fb_origin_node_id b) (note_import X now b known c i d) = beyond_import (fb_origin_node_id b) d"
    "remote_events (note_import X now b known c i d) = remote_events d"
    "federation_peers (note_import X now b known c i d) = federation_peers d"
    "events (note_import X now b known c i d) = events d" for c i d
    unfolding note_import_def by (simp_all add: filter_insert_or_ignore)
  have "(beyond_import (fb_origin_node_id b) db' = beyond_import (fb_origin_node_id b) (ims_db s) \<and>
      remote_events db' = remote_events (ims_db s) \<and> federation_peers db' = after_import now b X s) \<and>
      (events db' = events (ims_db s) \<or> (\<exists>canonical acc db1.
      canonical_json X (e_checkpoint_witness X w) = Inr canonical \<and> events db' = events db1 \<and>
      append_event X me received (witness_input X b w canonical) ?db = Inr (acc, db1)))"
  proof (cases "should_witness known b")
    case False
    with assms have "db' = ?db" by (simp add: finish_import_def Let_def)
    then show ?thesis using st by (simp add: store_checkpoint_beyond after_import_def)
  next
    case True
    with assms obtain witnessed d where d: "witness_checkpoint X me received b w ?db = Inr (witnessed, d)"
      "db' = note_import X now b known (ims_cursor s) witnessed d"
      by (auto simp: finish_import_def Let_def)
    from d(1) show ?thesis
    proof (cases rule: witness_checkpoint_effect)
      case known
      with st show ?thesis by (simp add: d(2) noted store_checkpoint_beyond after_import_def)
    next
      case (logged canonical acc ev ws)
      from logged(3) have "beyond_import (fb_origin_node_id b) d = beyond_import (fb_origin_node_id b) ?db"
        unfolding logged(4) by (simp add: beyond_import_write(4))
      with logged st show ?thesis
        by (auto simp: d(2) noted store_checkpoint_beyond after_import_def intro!: exI [of _ canonical])
    qed
  qed
  then show "beyond_import (fb_origin_node_id b) db' = beyond_import (fb_origin_node_id b) (ims_db s)"
    "remote_events db' = remote_events (ims_db s)" "federation_peers db' = after_import now b X s"
    "events db' = events (ims_db s) \<or> (\<exists>canonical acc db1.
      canonical_json X (e_checkpoint_witness X w) = Inr canonical \<and> events db' = events db1 \<and>
      append_event X me received (witness_input X b w canonical) ?db = Inr (acc, db1))"
    by blast+
qed

lemma others_logs:
  assumes "others origin db' = others origin db" and "i \<noteq> origin"
  shows "remote_log i db' = remote_log i db"
proof -
  have "filter (\<lambda>r. rem_origin_node_id r \<noteq> origin) (remote_events db') =
      filter (\<lambda>r. rem_origin_node_id r \<noteq> origin) (remote_events db)"
    using arg_cong [OF assms(1), of remote_events] by (simp add: others_def)
  moreover have "remote_log i d = filter (\<lambda>r. rem_origin_node_id r = i)
      (filter (\<lambda>r. rem_origin_node_id r \<noteq> origin) (remote_events d))" for d
    using assms(2) by (simp add: remote_log_def) (metis (mono_tags, lifting))
  ultimately show ?thesis by (simp only:)
qed

lemma others_peers: "others origin db' = others origin db \<Longrightarrow> federation_peers db' = federation_peers db"
  by (drule arg_cong [where f = federation_peers]) (simp add: others_def unaffected_def)

lemma after_import_peers:
  assumes "p \<in> set (after_import now b X s)"
  shows "\<exists>q\<in>set (federation_peers (ims_db s)). peer_node_id p = peer_node_id q \<and>
    (peer_node_id q \<noteq> fb_origin_node_id b \<longrightarrow> p = q) \<and>
    (peer_node_id q = fb_origin_node_id b \<longrightarrow> peer_cursor p = ims_cursor s \<and> peer_event_hash p = ims_hash s)"
proof -
  let ?new = "\<lambda>q. q\<lparr>peer_last_seen_at := millis now, peer_cursor := ims_cursor s, peer_event_hash := ims_hash s,
     peer_checkpoint_json := (if cp_cursor (fb_checkpoint b) \<ge> peer_cursor q then checkpoint_text X (fb_checkpoint b)
                              else peer_checkpoint_json q)\<rparr>"
  have "after_import now b X s = update_rows (\<lambda>q. peer_node_id q = fb_origin_node_id b) ?new (federation_peers (ims_db s))"
    by (simp add: after_import_def store_checkpoint_def Let_def)
  with assms have "\<exists>q\<in>set (federation_peers (ims_db s)). p = (if peer_node_id q = fb_origin_node_id b then ?new q else q)"
    by (simp only: in_update_rows)
  then obtain q where q: "q \<in> set (federation_peers (ims_db s))"
    "p = (if peer_node_id q = fb_origin_node_id b then ?new q else q)" ..
  show ?thesis by (rule bexI [OF _ q(1)]) (simp add: q(2))
qed

lemma after_import_ids: "map peer_node_id (after_import now b X s) = map peer_node_id (federation_peers (ims_db s))"
  by (simp add: after_import_def store_checkpoint_def Let_def)

text \<open>Opening a peer changes no log, and makes the origin a known one.\<close>

lemma open_peer_effect:
  assumes ok: "peers_ok db" and o: "open_peer now b db = Inr (known, hash, db0)"
  shows "remote_log i db0 = remote_log i db" and "remote_events db0 = remote_events db"
    and "distinct (map peer_node_id (federation_peers db0))"
    and "rem_origin_node_id ` set (remote_events db0) \<subseteq> peer_node_id ` set (federation_peers db0)"
    and "fb_origin_node_id b \<in> peer_node_id ` set (federation_peers db0)"
    and "p \<in> set (federation_peers db0) \<Longrightarrow> peer_node_id p \<noteq> fb_origin_node_id b \<Longrightarrow> peer_ok db0 p"
    and "beyond_import (fb_origin_node_id b) db0 = beyond_import (fb_origin_node_id b) db"
    and "events db0 = events db"
proof -
  have pk: "peer_ok (db\<lparr>federation_peers := x\<rparr>) q = peer_ok db q" for x q by (simp add: peer_ok_def remote_log_def)
  note parts = ok [unfolded peers_ok_def]
  have "(remote_events db0 = remote_events db \<and> events db0 = events db \<and> distinct (map peer_node_id (federation_peers db0))) \<and>
    rem_origin_node_id ` set (remote_events db0) \<subseteq> peer_node_id ` set (federation_peers db0) \<and>
    fb_origin_node_id b \<in> peer_node_id ` set (federation_peers db0) \<and>
    beyond_import (fb_origin_node_id b) db0 = beyond_import (fb_origin_node_id b) db \<and>
    (p \<in> set (federation_peers db0) \<longrightarrow> peer_node_id p \<noteq> fb_origin_node_id b \<longrightarrow> peer_ok db0 p)"
    using o
  proof (cases rule: open_peer_Inr)
    case (old q)
    have "fb_origin_node_id b \<in> peer_node_id ` set (federation_peers db)"
      using first_row_Some [OF old(1)] by force
    with parts old(4) show ?thesis by simp
  next
    case new
    have id: "peer_node_id (new_peer now b) = fb_origin_node_id b" by (simp add: new_peer_def)
    from parts new(1) show ?thesis unfolding new(5) by (auto simp: id pk)
  qed
  then show "remote_log i db0 = remote_log i db" "remote_events db0 = remote_events db"
    "distinct (map peer_node_id (federation_peers db0))"
    "rem_origin_node_id ` set (remote_events db0) \<subseteq> peer_node_id ` set (federation_peers db0)"
    "fb_origin_node_id b \<in> peer_node_id ` set (federation_peers db0)"
    "p \<in> set (federation_peers db0) \<Longrightarrow> peer_node_id p \<noteq> fb_origin_node_id b \<Longrightarrow> peer_ok db0 p"
    "beyond_import (fb_origin_node_id b) db0 = beyond_import (fb_origin_node_id b) db"
    "events db0 = events db"
    unfolding remote_log_def by (elim conjE; simp)+
qed

lemma imported_events_local:
  assumes ok: "peers_ok db" and o: "open_peer now b db = Inr (known, hash, db0)"
    and s: "import_events X now detected (fb_origin_node_id b) known (fb_events b)
       \<lparr> ims_db = db0, ims_cursor = known, ims_hash = hash, ims_count = 0 \<rparr> = Done s"
  shows "events (ims_db s) = events db"
proof -
  have "importing (fb_origin_node_id b) db0 s"
    by (rule import_events_importing [OF open_peer_importing [OF ok o] s])
  then have "events (ims_db s) = events db0"
    by (auto simp: importing_def others_def unaffected_def dest: arg_cong [of _ _ events])
  with open_peer_effect(8) [OF ok o] show ?thesis by simp
qed

lemma completed_import:
  assumes ok: "peers_ok db" and run: "import_transaction X me now detected received b w db = Done (r, db')"
  obtains known hash db0 s where "open_peer now b db = Inr (known, hash, db0)" "importing (fb_origin_node_id b) db0 s"
    "remote_events db' = remote_events (ims_db s)" "federation_peers db' = after_import now b X s"
    "ir_imported_events r = ims_count s" "ir_current_cursor r = ims_cursor s"
    "beyond_import (fb_origin_node_id b) db' = beyond_import (fb_origin_node_id b) db"
  using run
proof (rule import_transaction_Done)
  fix known hash db0 s witness
  assume o: "open_peer now b db = Inr (known, hash, db0)"
    and s: "import_events X now detected (fb_origin_node_id b) known (fb_events b)
       \<lparr> ims_db = db0, ims_cursor = known, ims_hash = hash, ims_count = 0 \<rparr> = Done s"
    and f: "finish_import X me now received b w known s = Inr (witness, db')"
    and r: "r = import_report b known s witness"
  have inv: "importing (fb_origin_node_id b) db0 s"
    by (rule import_events_importing [OF open_peer_importing [OF ok o] s])
  then have "beyond_import (fb_origin_node_id b) (ims_db s) = beyond_import (fb_origin_node_id b) db0"
    by (intro others_beyond) (simp add: importing_def)
  then have b: "beyond_import (fb_origin_node_id b) db' = beyond_import (fb_origin_node_id b) db"
    using finish_import_effect(1) [OF f] open_peer_effect(7) [OF ok o] by simp
  show ?thesis
    by (rule that [OF o inv finish_import_effect(2,3) [OF f] _ _ b]) (simp_all add: r import_report_def)
qed

lemma completed_import_peers:
  assumes ok: "peers_ok db" and run: "import_transaction X me now detected received b w db = Done (r, db')"
  shows "peers_ok db'"
  using ok run
proof (rule completed_import)
  fix known hash db0 s
  assume o: "open_peer now b db = Inr (known, hash, db0)" and inv: "importing (fb_origin_node_id b) db0 s"
    and re: "remote_events db' = remote_events (ims_db s)" and pe: "federation_peers db' = after_import now b X s"
  have logs: "remote_log i db' = remote_log i (ims_db s)" for i by (simp add: remote_log_def re)
  have oth: "others (fb_origin_node_id b) (ims_db s) = others (fb_origin_node_id b) db0"
    using inv by (simp add: importing_def)
  note peers = others_peers [OF oth]
  have ids: "map peer_node_id (federation_peers db') = map peer_node_id (federation_peers db0)"
    by (simp add: pe after_import_ids peers)
  have "peer_ok db' p" if p: "p \<in> set (federation_peers db')" for p
  proof -
    obtain q where q: "q \<in> set (federation_peers db0)" "peer_node_id p = peer_node_id q"
      "peer_node_id q \<noteq> fb_origin_node_id b \<longrightarrow> p = q"
      "peer_node_id q = fb_origin_node_id b \<longrightarrow> peer_cursor p = ims_cursor s \<and> peer_event_hash p = ims_hash s"
      using after_import_peers [OF p [unfolded pe]] unfolding peers by blast
    show ?thesis
    proof (cases "peer_node_id q = fb_origin_node_id b")
      case True
      with q inv show ?thesis by (simp add: peer_ok_def Let_def logs importing_def)
    next
      case False
      with q open_peer_effect(6) [OF ok o q(1)] others_logs [OF oth False] show ?thesis
        by (simp add: peer_ok_def Let_def logs)
    qed
  qed
  moreover have "rem_origin_node_id r \<in> peer_node_id ` set (federation_peers db0)" if "r \<in> set (remote_events db')" for r
  proof (cases "rem_origin_node_id r = fb_origin_node_id b")
    case True
    then show ?thesis using open_peer_effect(5) [OF ok o] by simp
  next
    case False
    have "r \<in> set (remote_log (rem_origin_node_id r) (ims_db s))" using that by (simp add: re remote_log_def)
    then have "r \<in> set (remote_log (rem_origin_node_id r) db0)" by (simp only: others_logs [OF oth False])
    then have "r \<in> set (remote_events db0)" by (simp add: remote_log_def)
    then show ?thesis using open_peer_effect(4) [OF ok o] by blast
  qed
  moreover have "peer_node_id ` set (federation_peers db') = peer_node_id ` set (federation_peers db0)"
    using arg_cong [OF ids, of set] by simp
  ultimately show ?thesis
    using open_peer_effect(3) [OF ok o] unfolding peers_ok_def by (simp add: ids image_subset_iff)
qed

text \<open>The log of the origin after a completed import.\<close>

lemma completed_import_log:
  assumes ok: "peers_ok db" and run: "import_transaction X me now detected received b w db = Done (r, db')"
  shows "\<exists>new. remote_log (fb_origin_node_id b) db' = remote_log (fb_origin_node_id b) db @ new \<and>
      length new = ir_imported_events r"
    and "ir_current_cursor r = len (remote_log (fb_origin_node_id b) db')"
    and "linked_from 0 zero_hash (remote_log (fb_origin_node_id b) db')"
    and "i \<noteq> fb_origin_node_id b \<Longrightarrow> remote_log i db' = remote_log i db"
proof -
  from ok run obtain known hash db0 s where o: "open_peer now b db = Inr (known, hash, db0)"
    and inv: "importing (fb_origin_node_id b) db0 s" and re: "remote_events db' = remote_events (ims_db s)"
    and r: "ir_imported_events r = ims_count s" "ir_current_cursor r = ims_cursor s"
    by (rule completed_import)
  have log: "remote_log j db' = remote_log j (ims_db s)" for j by (simp add: remote_log_def re)
  note old = open_peer_effect(1) [OF ok o]
  have oth: "others (fb_origin_node_id b) (ims_db s) = others (fb_origin_node_id b) db0"
    using inv by (simp add: importing_def)
  show "\<exists>new. remote_log (fb_origin_node_id b) db' = remote_log (fb_origin_node_id b) db @ new \<and>
      length new = ir_imported_events r"
    "ir_current_cursor r = len (remote_log (fb_origin_node_id b) db')"
    "linked_from 0 zero_hash (remote_log (fb_origin_node_id b) db')"
    using inv unfolding log r old [symmetric] by (simp_all add: importing_def)
  show "i \<noteq> fb_origin_node_id b \<Longrightarrow> remote_log i db' = remote_log i db"
    using others_logs [OF oth] by (simp add: log old)
qed

lemma completed_import_events:
  assumes ok: "peers_ok db" and run: "import_transaction X me now detected received b w db = Done (r, db')"
  shows "events db' = events db \<or> (\<exists>row. events db' = events db @ [row] \<and> ev_kind row = ''checkpoint_witnessed'')"
proof -
  from run obtain known hash db0 s witness where o: "open_peer now b db = Inr (known, hash, db0)"
    and s: "import_events X now detected (fb_origin_node_id b) known (fb_events b)
       \<lparr> ims_db = db0, ims_cursor = known, ims_hash = hash, ims_count = 0 \<rparr> = Done s"
    and f: "finish_import X me now received b w known s = Inr (witness, db')"
    by (rule import_transaction_Done)
  have "events (ims_db s) = events db" by (rule imported_events_local [OF ok o s])
  then have e: "events (ims_db s) = events db" "events (store_checkpoint X now b s) = events db"
    by (simp_all add: store_checkpoint_def Let_def)
  from finish_import_effect(4) [OF f] show ?thesis
  proof (elim disjE exE conjE)
    fix canonical acc db1
    assume "events db' = events db1"
      "append_event X me received (witness_input X b w canonical) (store_checkpoint X now b s) = Inr (acc, db1)"
    with append_event_frame [OF this(2)] e(2) show ?thesis by (auto simp: witness_input_def)
  qed (simp add: e)
qed

section \<open>Importing again\<close>

text \<open>What was stored stays the answer for its number.\<close>

lemma import_event_stored:
  assumes "import_event X now detected origin known e s = Done s'" and "stored_event origin n (ims_db s) = Some r"
  shows "stored_event origin n (ims_db s') = Some r"
proof (cases "oe_sequence e \<le> known")
  case True
  from assms(1) True have "s' = s" by (rule import_event_old)
  with assms(2) show ?thesis by simp
next
  case False
  then have "known < oe_sequence e" by simp
  with assms(1) obtain nonce db1 where e: "validate_and_project_remote_event X origin e (ims_db s) = Inr (nonce, db1)"
    "s' = \<lparr> ims_db = db1\<lparr>remote_events := remote_events db1 @ [new_remote_event X now origin nonce e]\<rparr>,
       ims_cursor = oe_sequence e, ims_hash = oe_event_hash e, ims_count = ims_count s + 1 \<rparr>"
    by (rule import_event_new)
  have "remote_events db1 = remote_events (ims_db s)"
    by (rule unaffected_tables(1) [OF unaffected_remote_event [OF e(1)]])
  with assms(2) show ?thesis by (simp add: e(2) stored_event_def)
qed

lemma import_events_stored:
  assumes "import_events X now detected origin known es s = Done t" and "e \<in> set es"
  shows "\<exists>r. stored_event origin (oe_sequence e) (ims_db t) = Some r \<and> rem_event_hash r = oe_event_hash e"
  using assms
proof (induction es arbitrary: t rule: rev_induct)
  case (snoc f es)
  show ?case
  proof (cases "e = f")
    case True
    with import_events_last [OF snoc(2)] show ?thesis by simp
  next
    case False
    from snoc(2) obtain m where m: "import_events X now detected origin known es s = Done m"
      "import_event X now detected origin known f m = Done t"
      by (auto simp: import_events_snoc)
    with snoc(1) [OF m(1)] snoc(3) False import_event_stored [OF m(2)] show ?thesis by auto
  qed
qed simp

lemma import_events_known:
  assumes "\<forall>e\<in>set es. oe_sequence e \<le> known \<and>
    (\<exists>r. stored_event origin (oe_sequence e) (ims_db s) = Some r \<and> rem_event_hash r = oe_event_hash e)"
  shows "import_events X now detected origin known es s = Done s"
  using assms by (induction es) (auto simp: import_event_def)

lemma linked_from_bounds:
  "linked_from n h rs \<Longrightarrow> r \<in> set rs \<Longrightarrow> n < rem_origin_sequence r \<and> rem_origin_sequence r \<le> n + len rs"
  by (induction rs arbitrary: n h) (fastforce simp: len_def)+

lemma stored_event_bounds:
  assumes "stored_event origin n db = Some r" and "linked_from 0 zero_hash (remote_log origin db)"
  shows "n \<le> len (remote_log origin db)"
proof -
  from first_row_Some [OF assms(1) [unfolded stored_event_def]]
  have "r \<in> set (remote_log origin db)" "rem_origin_sequence r = n" by (auto simp: remote_log_def)
  with linked_from_bounds [OF assms(2)] show ?thesis by fastforce
qed

lemma check_checkpoint_cong:
  assumes "remote_events db = remote_events db'" and "check_checkpoint X detected b db = Done ()"
  shows "check_checkpoint X detected' b db' = Done ()"
  using assms by (auto simp: check_checkpoint_def stored_event_def Let_def split: if_splits)

lemma first_row_updated:
  assumes "\<And>r. P r \<Longrightarrow> P (f r)"
  shows "first_row P (update_rows P f rs) = map_option f (first_row P rs)"
  using assms by (induction rs) (simp_all add: first_row_def update_rows_def)

lemma open_peer_row:
  assumes "open_peer now b db = Inr (known, hash, db0)"
  shows "\<exists>q. first_row (\<lambda>p. peer_node_id p = fb_origin_node_id b) (federation_peers db0) = Some q \<and>
    peer_node_public_key q = fb_origin_node_public_key b"
  using assms by (auto simp: open_peer_def new_peer_def simp del: first_row_None split: option.splits)

lemma completed_import_peer:
  assumes ok: "peers_ok db" and run: "import_transaction X me now detected received b w db = Done (r, db')"
  shows "\<exists>p. first_row (\<lambda>p. peer_node_id p = fb_origin_node_id b) (federation_peers db') = Some p \<and>
    peer_node_public_key p = fb_origin_node_public_key b \<and> peer_cursor p = ir_current_cursor r"
  using ok run
proof (rule completed_import)
  fix known hash db0 s
  assume o: "open_peer now b db = Inr (known, hash, db0)" and inv: "importing (fb_origin_node_id b) db0 s"
    and pe: "federation_peers db' = after_import now b X s" and r: "ir_current_cursor r = ims_cursor s"
  have peers: "federation_peers (ims_db s) = federation_peers db0"
    using inv by (intro others_peers [of "fb_origin_node_id b"]) (simp add: importing_def)
  from open_peer_row [OF o] obtain q where
    "first_row (\<lambda>p. peer_node_id p = fb_origin_node_id b) (federation_peers (ims_db s)) = Some q"
    "peer_node_public_key q = fb_origin_node_public_key b"
    unfolding peers by blast
  then show ?thesis
    by (simp add: pe r after_import_def store_checkpoint_def Let_def first_row_updated)
qed

text \<open>What a completed import leaves for the next one: the peer at its cursor, every event of the
  bundle stored, and the checkpoint of the bundle in agreement.\<close>

lemma completed_import_known:
  assumes ok: "peers_ok db" and run: "import_transaction X me now detected received b w db = Done (r, db')"
  shows "verify_bundle X b = Inr ()" and "fb_origin_node_id b \<noteq> node_id me"
    and "fb_from_cursor b \<le> ir_current_cursor r"
    and "e \<in> set (fb_events b) \<Longrightarrow> oe_sequence e \<le> ir_current_cursor r \<and>
      (\<exists>row. stored_event (fb_origin_node_id b) (oe_sequence e) db' = Some row \<and> rem_event_hash row = oe_event_hash e)"
    and "check_checkpoint X detected' b db' = Done ()"
proof -
  from run obtain known hash db0 s witness where v: "verify_bundle X b = Inr ()" "fb_origin_node_id b \<noteq> node_id me"
    and o: "open_peer now b db = Inr (known, hash, db0)" "fb_from_cursor b \<le> known"
    and s: "import_events X now detected (fb_origin_node_id b) known (fb_events b)
       \<lparr> ims_db = db0, ims_cursor = known, ims_hash = hash, ims_count = 0 \<rparr> = Done s"
    and c: "check_checkpoint X detected b (ims_db s) = Done ()"
    and f: "finish_import X me now received b w known s = Inr (witness, db')"
    and r: "r = import_report b known s witness"
    by (rule import_transaction_Done)
  note re = finish_import_effect(2) [OF f]
  note log = completed_import_log [OF ok run]
  note start = open_peer_importing [OF ok o(1)]
  have "known \<le> ir_current_cursor r"
    using log(1,2) start open_peer_effect(1) [OF ok o(1)] by (auto simp: importing_def len_def)
  then show "fb_from_cursor b \<le> ir_current_cursor r" using o(2) by simp
  have same: "stored_event i n db' = stored_event i n (ims_db s)" for i n by (simp add: stored_event_def re)
  show "oe_sequence e \<le> ir_current_cursor r \<and>
      (\<exists>row. stored_event (fb_origin_node_id b) (oe_sequence e) db' = Some row \<and> rem_event_hash row = oe_event_hash e)"
    if "e \<in> set (fb_events b)"
    using import_events_stored [OF s that] stored_event_bounds [OF _ log(3)] unfolding log(2) by (auto simp: same)
  show "check_checkpoint X detected' b db' = Done ()" by (rule check_checkpoint_cong [OF re [symmetric] c])
  show "verify_bundle X b = Inr ()" "fb_origin_node_id b \<noteq> node_id me" by (rule v)+
qed

section \<open>The node's own log\<close>

text \<open>A step of the node keeps its log, or appends one event whose columns come from its canonical
  object.\<close>

definition log_step :: "ext \<Rightarrow> node_identity \<Rightarrow> database \<Rightarrow> database \<Rightarrow> bool" where
  "log_step X me db db' \<longleftrightarrow> events db' = events db \<or>
     (\<exists>now input d acc d1. faithful_input X input \<and> events d = events db \<and>
        append_event X me now input d = Inr (acc, d1) \<and> events db' = events d1)"

definition log_ok :: "ext \<Rightarrow> node_identity \<Rightarrow> database \<Rightarrow> bool" where
  "log_ok X me db \<longleftrightarrow> (\<exists>n h. verify_log X me db = Inr (n, h)) \<and> portable_log X db"

lemma log_step_ok:
  assumes laws: "ext_laws X" "identity_ok X me" and ok: "log_ok X me db" and step: "log_step X me db db'"
  shows "log_ok X me db'" and "prefix (events db) (events db')"
proof -
  have "log_ok X me db' \<and> prefix (events db) (events db')"
    using step unfolding log_step_def
  proof (elim disjE exE conjE)
    assume "events db' = events db"
    with ok show ?thesis by (simp add: log_ok_def verify_log_def portable_log_def)
  next
    fix now input d acc d1
    assume f: "faithful_input X input" and d: "events d = events db"
      and a: "append_event X me now input d = Inr (acc, d1)" and e: "events db' = events d1"
    from ok obtain s where "verify_rows X me (events d) = Inr s" "portable_log X d"
      by (auto simp: log_ok_def verify_log_def portable_log_def d)
    with append_event_verify_rows [OF laws f _ a] portable_log_append [OF _ f a] append_event_frame [OF a] d e
    show ?thesis by (auto simp: log_ok_def verify_log_def portable_log_def)
  qed
  then show "log_ok X me db'" "prefix (events db) (events db')" by simp_all
qed

text \<open>The checkpoints a node can read off the wire and sign again.\<close>

definition wire_checkpoint :: "checkpoint \<Rightarrow> bool" where
  "wire_checkpoint c \<longleftrightarrow> time_ok (cp_created_at c) \<and> \<bar>cp_cursor c\<bar> \<le> 2 ^ 53"

lemma faithful_witness:
  assumes laws: "json_laws X" "time_laws X" and w: "make_checkpoint_witness X me observed b = Inr w"
    and wire: "time_ok observed" "wire_checkpoint (fb_checkpoint b)"
    and c: "canonical_json X (e_checkpoint_witness X w) = Inr canonical"
  shows "faithful_input X (witness_input X b w canonical)"
proof -
  have f: "cw_origin_node_id w = fb_origin_node_id b" "cw_cursor w = cp_cursor (fb_checkpoint b)"
    "cw_origin_checkpoint w = fb_checkpoint b" "cw_observed_at w = observed"
    using w by (auto simp: make_checkpoint_witness_def Let_def)
  have "i64_range (cp_cursor (fb_checkpoint b))" using wire(2) by (auto simp: wire_checkpoint_def i64_range_def)
  then have "d_checkpoint_witness X (e_checkpoint_witness X w) = Some w"
    using wire by (intro checkpoint_witness_roundtrip [OF laws(2)]) (simp_all add: f wire_checkpoint_def)
  moreover have "json_safe (e_checkpoint_witness X w)"
    using wire by (intro json_safe_checkpoint_witness) (simp_all add: f wire_checkpoint_def)
  ultimately show ?thesis
    unfolding faithful_input_def using c projection_witness [of X w None]
    by (intro exI [of _ "e_checkpoint_witness X w"]) (simp add: witness_input_def canonical_json_def f)
qed

lemma import_log_step:
  assumes laws: "ext_laws X" and wire: "time_ok observed" "wire_checkpoint (fb_checkpoint b)" and ok: "peers_ok db"
    and w: "make_checkpoint_witness X me observed b = Inr w"
    and run: "import_transaction X me now detected received b w db = Done (r, db')"
  shows "log_step X me db db'"
proof -
  have l: "json_laws X" "time_laws X" using laws by (simp_all add: ext_laws_def)
  from run obtain known hash db0 s witness where o: "open_peer now b db = Inr (known, hash, db0)"
    and s: "import_events X now detected (fb_origin_node_id b) known (fb_events b)
       \<lparr> ims_db = db0, ims_cursor = known, ims_hash = hash, ims_count = 0 \<rparr> = Done s"
    and f: "finish_import X me now received b w known s = Inr (witness, db')"
    by (rule import_transaction_Done)
  have e: "events (ims_db s) = events db" by (rule imported_events_local [OF ok o s])
  then have e': "events (store_checkpoint X now b s) = events db" by (simp add: store_checkpoint_def Let_def)
  from finish_import_effect(4) [OF f] show ?thesis
    unfolding log_step_def e using faithful_witness [OF l w wire] e' by blast
qed

section \<open>Contradictions\<close>

text \<open>The stored rows can be read back, and evidence is filed under the name its contents give it.\<close>

definition readable :: "ext \<Rightarrow> database \<Rightarrow> bool" where
  "readable X db \<longleftrightarrow> (\<forall>r\<in>set (remote_events db). x_json_parse X (rem_canonical_json r) \<noteq> None)"

definition evidence_ok :: "ext \<Rightarrow> database \<Rightarrow> bool" where
  "evidence_ok X db \<longleftrightarrow> (\<forall>v\<in>set (equivocation_evidence db). eqv_evidence_id v =
     evidence_id_of X (eqv_origin_node_id v) (eqv_conflict_kind v) (eqv_cursor v) (eqv_existing_hash v) (eqv_incoming_hash v))"

definition accused :: "ext \<Rightarrow> string \<Rightarrow> string \<Rightarrow> int \<Rightarrow> string \<Rightarrow> string \<Rightarrow> database \<Rightarrow> bool" where
  "accused X origin kind cursor existing incoming db \<longleftrightarrow>
     (\<exists>v\<in>set (equivocation_evidence db). eqv_evidence_id v = evidence_id_of X origin kind cursor existing incoming)"

lemma accused_record:
  assumes "evidence_ok X db"
  shows "accused X origin kind cursor existing incoming
    (record_equivocation X detected origin kind cursor existing incoming ej ij db)"
proof (cases "\<exists>v\<in>set (equivocation_evidence db). eqv_evidence_id v = evidence_id_of X origin kind cursor existing incoming")
  case True
  then show ?thesis by (auto simp: accused_def record_equivocation_def insert_or_ignore_def)
next
  case False
  with assms have "\<not> (eqv_origin_node_id v = origin \<and> eqv_conflict_kind v = kind \<and> eqv_cursor v = cursor \<and>
      eqv_existing_hash v = existing \<and> eqv_incoming_hash v = incoming)" if "v \<in> set (equivocation_evidence db)" for v
    using that by (auto simp: evidence_ok_def)
  with False show ?thesis
    by (auto simp: accused_def record_equivocation_def insert_or_ignore_def evidence_clash_def list_ex_iff)
qed

lemma linked_from_complete:
  "linked_from n h rs \<Longrightarrow> n < k \<Longrightarrow> k \<le> n + len rs \<Longrightarrow> \<exists>r\<in>set rs. rem_origin_sequence r = k"
proof (induction rs arbitrary: n h)
  case (Cons r rs)
  then show ?case by (cases "k = n + 1") (auto simp: len_def)
qed (simp add: len_def)

lemma stored_event_complete:
  assumes "linked_from 0 zero_hash (remote_log origin db)" and "0 < n" and "n \<le> len (remote_log origin db)"
  shows "\<exists>r. stored_event origin n db = Some r \<and> r \<in> set (remote_events db)"
proof -
  obtain r where "r \<in> set (remote_events db)" "rem_origin_node_id r = origin" "rem_origin_sequence r = n"
    using linked_from_complete [OF assms(1,2)] assms(3) by (auto simp: remote_log_def)
  then have "stored_event origin n db \<noteq> None" unfolding stored_event_def by auto
  then obtain q where q: "stored_event origin n db = Some q" by blast
  with first_row_Some [OF q [unfolded stored_event_def]] show ?thesis by blast
qed

lemma contradicted_events:
  assumes "\<forall>f\<in>set es. oe_sequence f \<le> known \<longrightarrow> (\<exists>r v. stored_event origin (oe_sequence f) (ims_db s) = Some r \<and>
      x_json_parse X (rem_canonical_json r) = Some v)"
    and "sorted (map oe_sequence es)" and "e \<in> set es" and "oe_sequence e \<le> known"
    and "stored_event origin (oe_sequence e) (ims_db s) = Some row" and "rem_event_hash row \<noteq> oe_event_hash e"
  shows "\<exists>n existing incoming ej ij. existing \<noteq> incoming \<and> import_events X now detected origin known es s =
    Committed_Error Conflict (record_equivocation X detected origin ''event_sequence'' n existing incoming ej ij (ims_db s))"
  using assms
proof (induction es)
  case (Cons f es)
  have "oe_sequence f \<le> known" using Cons.prems(2-4) by auto
  then obtain r v where r: "stored_event origin (oe_sequence f) (ims_db s) = Some r"
    "x_json_parse X (rem_canonical_json r) = Some v" "oe_sequence f \<le> known"
    using Cons.prems(1) by auto
  show ?case
  proof (cases "rem_event_hash r = oe_event_hash f")
    case True
    then have "e \<in> set es" using Cons.prems(3,5,6) r by auto
    with Cons.IH Cons.prems r True show ?thesis by (auto simp: import_event_def)
  next
    case False
    show ?thesis
      by (intro exI [of _ "oe_sequence f"] exI [of _ "rem_event_hash r"] exI [of _ "oe_event_hash f"] exI conjI False)
        (simp add: r False import_event_def from_text_eval from_value_def try_then_def on_done_def)
  qed
qed simp

lemma bundle_sorted:
  assumes "verify_bundle X b = Inr ()"
  shows "sorted (map oe_sequence (fb_events b))"
proof -
  from assms obtain key t where
    "fold_result (verify_origin_event X key (fb_from_cursor b)) (fb_events b) (bundle_start (fb_from_cursor b)) = Inr t"
    by (rule verify_bundle_Inr)
  from conjunct1 [OF bundle_sequences [OF this]]
  have "map oe_sequence (fb_events b) = map (\<lambda>i. bs_expected (bundle_start (fb_from_cursor b)) + int i) [0..<length (fb_events b)]" .
  then show ?thesis by (simp only: sorted_iff_nth_mono length_map nth_map_upt) (simp add: sorted_iff_nth_mono)
qed

lemma contradicted_import:
  assumes ok: "peers_ok db" "readable X db" "evidence_ok X db"
    and v: "verify_bundle X b = Inr ()" "fb_origin_node_id b \<noteq> node_id me"
    and p: "first_row (\<lambda>p. peer_node_id p = fb_origin_node_id b) (federation_peers db) = Some p"
      "peer_node_public_key p = fb_origin_node_public_key b"
    and e: "e \<in> set (fb_events b)" "stored_event (fb_origin_node_id b) (oe_sequence e) db = Some row"
      "rem_event_hash row \<noteq> oe_event_hash e"
  shows "\<exists>n existing incoming db'. existing \<noteq> incoming \<and>
    import_transaction X me now detected received b w db = Committed_Error Conflict db' \<and>
    accused X (fb_origin_node_id b) ''event_sequence'' n existing incoming db'"
proof -
  let ?o = "fb_origin_node_id b" and ?s = "\<lparr> ims_db = db, ims_cursor = peer_cursor p, ims_hash = peer_event_hash p, ims_count = 0 \<rparr>"
  have o: "open_peer now b db = Inr (peer_cursor p, peer_event_hash p, db)" using p by (simp add: open_peer_def)
  have log: "linked_from 0 zero_hash (remote_log ?o db)" "peer_cursor p = len (remote_log ?o db)"
    using open_peer_importing [OF ok(1) o] by (auto simp: importing_def)
  have seq: "oe_sequence e \<le> peer_cursor p" using stored_event_bounds [OF e(2) log(1)] log(2) by simp
  have "fb_events b \<noteq> []" using e(1) by auto
  note after = last_sequence(2) [OF v(1) this]
  have start: "0 \<le> fb_from_cursor b" using v(1) by (rule verify_bundle_Inr)
  have "\<exists>r v. stored_event ?o (oe_sequence f) db = Some r \<and> x_json_parse X (rem_canonical_json r) = Some v"
    if "f \<in> set (fb_events b)" "oe_sequence f \<le> peer_cursor p" for f
    using stored_event_complete [OF log(1), of "oe_sequence f"] after [OF that(1)] start that(2) log(2) ok(2)
    by (auto simp: readable_def)
  then obtain n existing incoming ej ij where c: "existing \<noteq> incoming"
    "import_events X now detected ?o (peer_cursor p) (fb_events b) ?s =
      Committed_Error Conflict (record_equivocation X detected ?o ''event_sequence'' n existing incoming ej ij db)"
    using contradicted_events [OF _ bundle_sorted [OF v(1)] e(1) seq, of ?o ?s X row now detected] e(2,3) by auto
  have "fb_from_cursor b \<le> peer_cursor p" using after [OF e(1)] seq by simp
  then have "import_transaction X me now detected received b w db =
      Committed_Error Conflict (record_equivocation X detected ?o ''event_sequence'' n existing incoming ej ij db)"
    using v o c(2) by (simp add: import_transaction_def try_then_def on_done_def fail_if_def)
  with accused_record [OF ok(3)] c(1) show ?thesis by blast
qed

section \<open>Properties\<close>

text \<open>C28: an import that fails changes nothing, or records a contradiction.  When the import of a bundle is
  refused, the database is the one before, or the error is a conflict and the only change is evidence
  of equivocation added to the evidence there was.\<close>

theorem failed_import_keeps_database:
  assumes "import_federation_bundle X me observed now detected received b db = (Inl e, db')"
  shows "db' = db \<or> (e = Conflict \<and> evidence_added db db')"
  using assms import_transaction_committed
  by (auto simp: import_federation_bundle_def db_import_federation_bundle_def end_transaction_def
      split: sum.splits outcome.splits)

text \<open>C27: what an import adds.  From a database whose remote logs are chains that start at the zero hash
  and whose peers stand at the ends of their logs, an import that succeeds keeps that so, appends to
  the origin's log exactly the number of events it reports, leaves the logs of all other origins
  alone, and reports the new end of the log as the cursor, which has reached the bundle's end.\<close>

theorem import_extends_remote_log:
  assumes "peers_ok db" and "import_federation_bundle X me observed now detected received b db = (Inr r, db')"
  shows "peers_ok db' \<and>
    (\<exists>new. remote_log (fb_origin_node_id b) db' = remote_log (fb_origin_node_id b) db @ new \<and>
       length new = ir_imported_events r) \<and>
    (\<forall>i. i = fb_origin_node_id b \<or> remote_log i db' = remote_log i db) \<and>
    ir_current_cursor r = len (remote_log (fb_origin_node_id b) db') \<and>
    fb_through_cursor b \<le> ir_current_cursor r"
proof -
  from assms(2) obtain w where run: "import_transaction X me now detected received b w db = Done (r, db')"
    by (rule import_bundle_Inr)
  note log = completed_import_log [OF assms(1) run] and known = completed_import_known [OF assms(1) run]
  have "fb_through_cursor b \<le> ir_current_cursor r"
  proof (cases "fb_events b = []")
    case True
    have "len (fb_events b) = fb_through_cursor b - fb_from_cursor b" using known(1) by (rule verify_bundle_Inr)
    with True known(3) show ?thesis by (simp add: len_def)
  next
    case False
    with known(4) [of "last (fb_events b)"] last_sequence(1) [OF known(1) False] show ?thesis by simp
  qed
  with completed_import_peers [OF assms(1) run] log show ?thesis by blast
qed


text \<open>C30: importing a bundle again is harmless.  Once a bundle has been imported, importing it again
  succeeds whenever the node can sign, imports no event, writes no witness, and leaves the node's
  log and the remote logs as they were.\<close>

theorem import_again:
  assumes "peers_ok db" and "import_federation_bundle X me observed now detected received b db = (Inr r, db')"
    and "make_checkpoint_witness X me observed' b = Inr w"
  shows "\<exists>r' db''. import_federation_bundle X me observed' now' detected' received' b db' = (Inr r', db'') \<and>
    ir_imported_events r' = 0 \<and> ir_witness_event_id r' = None \<and> ir_current_cursor r' = ir_current_cursor r \<and>
    events db'' = events db' \<and> remote_events db'' = remote_events db'"
proof -
  from assms(2) obtain w0 where run: "import_transaction X me now detected received b w0 db = Done (r, db')"
    by (rule import_bundle_Inr)
  note known = completed_import_known [OF assms(1) run]
  from completed_import_peer [OF assms(1) run] obtain p where
    p: "first_row (\<lambda>p. peer_node_id p = fb_origin_node_id b) (federation_peers db') = Some p"
    "peer_node_public_key p = fb_origin_node_public_key b" "peer_cursor p = ir_current_cursor r" by blast
  let ?s = "\<lparr> ims_db = db', ims_cursor = ir_current_cursor r, ims_hash = peer_event_hash p, ims_count = 0 \<rparr>"
  have o: "open_peer now' b db' = Inr (ir_current_cursor r, peer_event_hash p, db')" using p by (simp add: open_peer_def)
  have es: "import_events X now' detected' (fb_origin_node_id b) (ir_current_cursor r) (fb_events b) ?s = Done ?s"
    using known(4) by (intro import_events_known) simp
  have "\<not> should_witness (ir_current_cursor r) b"
    using known(4) by (fastforce simp: should_witness_def list_ex_iff)
  then have f: "finish_import X me now' received' b w (ir_current_cursor r) ?s = Inr (None, store_checkpoint X now' b ?s)"
    by (simp add: finish_import_def Let_def)
  have "import_transaction X me now' detected' received' b w db' =
      Done (import_report b (ir_current_cursor r) ?s None, store_checkpoint X now' b ?s)"
    using known(1-3) known(5) [of detected'] o es f
    by (simp add: import_transaction_def try_then_def on_done_def fail_if_def)
  then show ?thesis
    using known(1) assms(3)
    by (simp add: import_federation_bundle_def db_import_federation_bundle_def end_transaction_def
        import_report_def store_checkpoint_def Let_def)
qed

text \<open>Following others does not damage the node's own log.  After a successful import the log of the
  node still verifies, is still one that peers can be served from, and still begins with the events
  it had; the witness of the imported checkpoint is all it can have gained.\<close>

lemma import_keeps_own_log:
  assumes "ext_laws X" and "identity_ok X me" and "time_ok observed" and "wire_checkpoint (fb_checkpoint b)"
    and "peers_ok db" and "log_ok X me db"
    and "import_federation_bundle X me observed now detected received b db = (Inr r, db')"
  shows "log_ok X me db' \<and> prefix (events db) (events db')"
proof -
  from assms(7) obtain w where "make_checkpoint_witness X me observed b = Inr w"
    "import_transaction X me now detected received b w db = Done (r, db')"
    by (rule import_bundle_Inr)
  from log_step_ok [OF assms(1,2,6) import_log_step [OF assms(1,3,4,5) this]] show ?thesis by blast
qed


section \<open>Example\<close>

text \<open>A node registers a lineage and a relay follows it; a second history of the same node contradicts
  the first.\<close>

definition demo_enrolment :: lineage_registration where
  "demo_enrolment =
     (let r = \<lparr> lr_protocol = PROTOCOL_VERSION, lr_display_name = ''Ada'',
                lr_public_key = x_b64_encode demo_ext demo_key, lr_created_at = 0,
                lr_nonce = ''enrolment-nonce-1'', lr_signature = [] \<rparr> in
      r\<lparr>lr_signature := demo_signature demo_key LINEAGE_DOMAIN (e_lineage_registration demo_ext r)\<rparr>)"

definition demo_history :: "int \<Rightarrow> database" where
  "demo_history received = accepted_db (register_lineage demo_ext demo_me 0 received demo_enrolment empty_database)"

definition demo_offer :: "int \<Rightarrow> federation_bundle result" where
  "demo_offer received = federation_bundle_after demo_ext demo_me 2 0 10 (demo_history received)"

definition demo_import :: "federation_bundle \<Rightarrow> database \<Rightarrow> federation_import_report result \<times> database" where
  "demo_import b db = import_federation_bundle demo_ext demo_relay 3 3 4 5 b db"

lemma demo_import_case:
  "(case demo_offer 0 of Inl _ \<Rightarrow> False | Inr b \<Rightarrow>
     (case demo_offer (minutes 1) of Inl _ \<Rightarrow> False | Inr b' \<Rightarrow>
       (case demo_import b empty_database of (Inl _, _) \<Rightarrow> False | (Inr r, db) \<Rightarrow>
         ir_imported_events r = 1 \<and> length (events db) = 1 \<and> equivocation_evidence db = [] \<and> readable demo_ext db \<and>
         wire_checkpoint (fb_checkpoint b) \<and> \<not> isl (verify_bundle demo_ext b') \<and>
         \<not> isl (make_checkpoint_witness demo_ext demo_relay 3 b') \<and>
         list_ex (\<lambda>e. map_option rem_event_hash (stored_event (fb_origin_node_id b') (oe_sequence e) db) \<notin>
           {None, Some (oe_event_hash e)}) (fb_events b') \<and>
         (case demo_import b' db of (Inr _, _) \<Rightarrow> False | (Inl e, db') \<Rightarrow>
            e = Conflict \<and> length (equivocation_evidence db') = 1))))"
  by code_simp

lemma offered_case: "(case r of Inl _ \<Rightarrow> False | Inr x \<Rightarrow> P x) \<Longrightarrow> (\<And>x. r = Inr x \<Longrightarrow> P x \<Longrightarrow> R) \<Longrightarrow> R"
  by (cases r) auto

lemma imported_case:
  "(case r of (Inl _, _) \<Rightarrow> False | (Inr x, d) \<Rightarrow> P x d) \<Longrightarrow> (\<And>x d. r = (Inr x, d) \<Longrightarrow> P x d \<Longrightarrow> R) \<Longrightarrow> R"
  by (cases r; cases "fst r") auto

lemma refused_case:
  "(case r of (Inr _, _) \<Rightarrow> False | (Inl e, d) \<Rightarrow> P e d) \<Longrightarrow> (\<And>e d. r = (Inl e, d) \<Longrightarrow> P e d \<Longrightarrow> R) \<Longrightarrow> R"
  by (cases r; cases "fst r") auto

lemma demo_import_run:
  obtains b b' r db db' where "demo_offer 0 = Inr b" "demo_offer (minutes 1) = Inr b'"
    "demo_import b empty_database = (Inr r, db)" "ir_imported_events r = 1" "length (events db) = 1"
    "equivocation_evidence db = []" "readable demo_ext db" "wire_checkpoint (fb_checkpoint b)"
    "\<not> isl (verify_bundle demo_ext b')" "\<not> isl (make_checkpoint_witness demo_ext demo_relay 3 b')"
    "list_ex (\<lambda>e. map_option rem_event_hash (stored_event (fb_origin_node_id b') (oe_sequence e) db) \<notin>
       {None, Some (oe_event_hash e)}) (fb_events b')"
    "demo_import b' db = (Inl Conflict, db')" "length (equivocation_evidence db') = 1"
  by (rule offered_case [OF demo_import_case], erule offered_case, erule imported_case, elim conjE,
      erule refused_case, rule that) simp_all

lemma demo_relay_verified: "verify_log demo_ext demo_relay empty_database = Inr (0, zero_hash)"
  by code_simp

lemma demo_empty: "peers_ok empty_database" "log_ok demo_ext demo_relay empty_database"
  by (simp_all add: peers_ok_def log_ok_def demo_relay_verified portable_log_def)

lemma demo_relay_ok: "identity_ok demo_ext demo_relay"
  by (simp add: identity_ok_def demo_relay_def demo_ext_def)

lemma demo_offer_origin:
  "demo_offer received = Inr b \<Longrightarrow> fb_origin_node_id b = node_id demo_me \<and> fb_origin_node_public_key b = node_public_key demo_me"
  by (auto simp: demo_offer_def federation_bundle_after_def Let_def)

theorem failed_import_keeps_database_witness:
  "\<exists>b' db db'. demo_import b' db = (Inl Conflict, db') \<and> db' \<noteq> db \<and> evidence_added db db'"
proof -
  obtain b b' r db db' where d: "equivocation_evidence db = []" "demo_import b' db = (Inl Conflict, db')"
    "length (equivocation_evidence db') = 1"
    by (rule demo_import_run)
  from d(1,3) have "db' \<noteq> db" by auto
  with failed_import_keeps_database [OF d(2) [unfolded demo_import_def]] d(2) show ?thesis by blast
qed

theorem import_extends_remote_log_witness:
  "\<exists>b r db. demo_import b empty_database = (Inr r, db) \<and> peers_ok db \<and> length (remote_log (fb_origin_node_id b) db) = 1"
proof -
  obtain b b' r db where d: "demo_import b empty_database = (Inr r, db)" "ir_imported_events r = 1"
    by (rule demo_import_run)
  from import_extends_remote_log [OF demo_empty(1) d(1) [unfolded demo_import_def]] d show ?thesis
    by (auto simp: remote_log_def)
qed


theorem import_again_witness:
  "\<exists>b r db r' db'. demo_import b empty_database = (Inr r, db) \<and> demo_import b db = (Inr r', db') \<and>
     ir_imported_events r = 1 \<and> ir_imported_events r' = 0 \<and> events db' = events db"
proof -
  obtain b b' r db where d: "demo_import b empty_database = (Inr r, db)" "ir_imported_events r = 1"
    by (rule demo_import_run)
  from d(1) [unfolded demo_import_def] obtain w where w: "make_checkpoint_witness demo_ext demo_relay 3 b = Inr w"
    by (rule import_bundle_Inr)
  from import_again [OF demo_empty(1) d(1) [unfolded demo_import_def] w, of 3 4 5] d(2) d(1) [unfolded demo_import_def]
  show ?thesis unfolding demo_import_def by blast
qed


end
