(* ===== verification/Startup.thy ===== *)
theory Startup
  imports World
begin

text \<open>
  Starting a node (\<^verbatim>\<open>src/src/node.rs\<close>, and \<open>Database::open\<close> and \<open>bind_node\<close> of \<^verbatim>\<open>src/src/db.rs\<close>): the key file
  and the database file of a data directory, the migrations, the work every new node begins with,
  and the rule that a database is never rebound to another identity.  Both files are optional parts
  of the directory; the operating system's own failures are outside the model.
\<close>

section \<open>The table of settings\<close>

type_synonym settings = "(string \<times> string) list"

text \<open>\<open>INSERT OR IGNORE\<close>, \<open>ON CONFLICT DO UPDATE\<close> and \<open>UPDATE\<close> on \<open>meta\<close>.\<close>

definition set_default :: "string \<Rightarrow> string \<Rightarrow> settings \<Rightarrow> settings" where
  "set_default k v m = (if map_of m k = None then m @ [(k, v)] else m)"

definition set_existing :: "string \<Rightarrow> string \<Rightarrow> settings \<Rightarrow> settings" where
  "set_existing k v m = map (\<lambda>(j, w). (j, if j = k then v else w)) m"

definition set_value :: "string \<Rightarrow> string \<Rightarrow> settings \<Rightarrow> settings" where
  "set_value k v m = (if map_of m k = None then m @ [(k, v)] else set_existing k v m)"

section \<open>Opening the database\<close>

definition SCHEMA_VERSION :: int where "SCHEMA_VERSION = 5"

definition BOOTSTRAP_SOURCE_COVERAGE :: "(string \<times> string) list" where
  "BOOTSTRAP_SOURCE_COVERAGE = [
     (''global_multilateral'', ''global institutions, treaties, standards, public health, conflict, trade, and cross-border governance''),
     (''east_southeast_asia'', ''East and Southeast Asia, including internally plural Chinese-language, regional, diasporic, official, scholarly, and independent perspectives''),
     (''south_central_asia'', ''South and Central Asia through local-language, regional, institutional, scholarly, and civil-society sources''),
     (''middle_east_north_africa'', ''the Middle East and North Africa through local, regional, institutional, scholarly, and civil-society sources''),
     (''sub_saharan_africa'', ''Sub-Saharan Africa through local, regional, institutional, scholarly, and civil-society sources''),
     (''europe'', ''Europe through national, regional, institutional, scholarly, labor, and civil-society sources''),
     (''latin_america_caribbean'', ''Latin America and the Caribbean through local-language, regional, institutional, scholarly, and civil-society sources''),
     (''north_america'', ''North America through internally plural local, national, Indigenous, institutional, scholarly, labor, and civil-society sources''),
     (''oceania_pacific'', ''Oceania and the Pacific through local, Indigenous, regional, institutional, scholarly, and civil-society sources''),
     (''ai_research_systems'', ''AI research, model capability and safety results, agent systems, open-source work, and reproducible technical criticism''),
     (''ai_policy_society'', ''AI policy, rights, labor, education, culture, security, public perception, and effects on people and institutions''),
     (''compute_energy_environment'', ''computing infrastructure, chips, supply chains, data centers, energy, water, land use, climate, and environmental governance''),
     (''china_official_institutional'', ''Chinese central and local official, institutional, regulatory, and public-service accounts, read in context rather than treated as either neutral fact or automatic propaganda''),
     (''china_scholarly_technical'', ''Chinese scholarly, scientific, technical, standards, industry, and policy research across institutions and schools of thought''),
     (''china_independent_civil_society'', ''independent, labor, legal, community, and civil-society perspectives concerning China, with attention to source safety, access limits, and attribution risk''),
     (''china_diasporic_chinese_language'', ''diasporic and overseas Chinese-language perspectives without treating diaspora communities as a single political viewpoint''),
     (''china_regional_neighbors'', ''perspectives from China'' @ [CHR 0x27] @ ''s regional neighbors and affected communities, kept distinct from claims about views inside China'')]"

definition bootstrap_instructions :: "string \<Rightarrow> string" where
  "bootstrap_instructions focus =
     ''Discover accessible RSS or Atom feeds covering '' @ focus @ ''. Seek at least two candidates with distinct ownership or institutional origin; prefer original-language and primary material where useful. Submit each candidate as a source_proposal with region, language, ownership, and perspective notes. Candidates receive no trust until independent source reviews approve them.''"

definition seed_bootstrap_work :: "ext \<Rightarrow> database \<Rightarrow> database" where
  "seed_bootstrap_work X db =
     fold (\<lambda>(subject_id, focus). insert_work_item X ''discover_sources'' ''coverage_area'' subject_id
       (bootstrap_instructions focus) 0 0) BOOTSTRAP_SOURCE_COVERAGE db"

text \<open>\<open>MIGRATION_0002\<close> gives every lineage of an older database its first key; the other migrations
  create tables, which the model has from the start, and set the version.\<close>

definition first_key :: "lineage_row \<Rightarrow> lineage_key_row" where
  "first_key l = \<lparr> lk_lineage_id = lin_lineage_id l, lk_key_version = 0, lk_public_key = lin_public_key l,
     lk_valid_from_sequence = lin_registered_sequence l, lk_valid_to_sequence = None,
     lk_rotation_event_id = None \<rparr>"

definition migrated_key_clash :: "lineage_key_row \<Rightarrow> lineage_key_row \<Rightarrow> bool" where
  "migrated_key_clash r s \<longleftrightarrow> lk_public_key r = lk_public_key s \<or>
     (lk_lineage_id r = lk_lineage_id s \<and> lk_key_version r = lk_key_version s)"

definition migrate_authority :: "database \<Rightarrow> database" where
  "migrate_authority db = db\<lparr>lineage_keys := fold (\<lambda>l. insert_or_ignore migrated_key_clash (first_key l)) (lineages db)
       (lineage_keys db), meta := set_existing ''schema_version'' ''2'' (meta db)\<rparr>"

definition migrate :: "int \<Rightarrow> database \<Rightarrow> database" where
  "migrate version db =
     (let db2 = (if version < 2 then migrate_authority db else db);
          m3 = (if version < 3 then set_existing ''schema_version'' ''3'' (meta db2) else meta db2);
          m4 = (if version < 4 then set_existing ''schema_version'' ''4'' m3 else m3);
          m5 = (if version < 5 then set_existing ''schema_version'' ''5'' (set_default ''desired_replicas'' ''2'' m4)
                else m4) in
      db2\<lparr>meta := m5\<rparr>)"

definition extend_schema :: "settings \<Rightarrow> settings" where
  "extend_schema m =
     (let m6 = set_value ''volunteer_gateway_schema'' ''1'' (set_value ''topic_commons_schema'' ''1'' m) in
      if map_of m6 ''source_fetch_policy_schema'' = Some ''1'' then m6
      else set_value ''source_fetch_policy_schema'' ''1'' m6)"

definition database_open :: "ext \<Rightarrow> database option \<Rightarrow> database result" where
  "database_open X stored =
     (let db = (case stored of None \<Rightarrow> empty_database | Some db \<Rightarrow> db);
          m = set_default ''schema_version'' ''1'' (meta db) in
      and_then (ok_or (Option.bind (map_of m ''schema_version'') parse_i64) Internal) (\<lambda>version.
      and_then (fail_if (version > SCHEMA_VERSION) Validation) (\<lambda>_.
      let db1 = migrate version (db\<lparr>meta := m\<rparr>) in
      Inr (seed_bootstrap_work X (db1\<lparr>meta := extend_schema (meta db1)\<rparr>)))))"

definition bind_node :: "node_identity \<Rightarrow> database \<Rightarrow> database result" where
  "bind_node me db =
     (case map_of (meta db) ''node_id'' of
        Some stored \<Rightarrow> and_then (fail_if (stored \<noteq> node_id me) Conflict) (\<lambda>_. Inr db)
      | None \<Rightarrow>
          and_then (fail_if (map_of (meta db) ''node_public_key'' \<noteq> None) Database) (\<lambda>_.
            Inr (db\<lparr>meta := meta db @ [(''node_id'', node_id me), (''node_public_key'', node_public_key me)]\<rparr>)))"

section \<open>The key file and the node\<close>

record node_key_file =
  nk_protocol :: string
  nk_node_id :: string
  nk_created_at :: int
  nk_public_key :: string
  nk_secret_key :: string

definition d_node_key_file :: "ext \<Rightarrow> json \<Rightarrow> node_key_file option" where
  "d_node_key_file X v = do {
     fs \<leftarrow> struct_view [''protocol'', ''node_id'', ''created_at'', ''public_key'', ''secret_key''] v;
     a0 \<leftarrow> req d_str ''protocol'' fs;
     a1 \<leftarrow> req d_str ''node_id'' fs;
     a2 \<leftarrow> req (d_time X) ''created_at'' fs;
     a3 \<leftarrow> req d_str ''public_key'' fs;
     a4 \<leftarrow> req d_str ''secret_key'' fs;
     Some \<lparr> nk_protocol = a0, nk_node_id = a1, nk_created_at = a2, nk_public_key = a3, nk_secret_key = a4 \<rparr> }"

definition e_node_key_file :: "ext \<Rightarrow> node_key_file \<Rightarrow> json" where
  "e_node_key_file X r = JObj [
     (''created_at'', e_time X (nk_created_at r)), (''node_id'', JStr (nk_node_id r)),
     (''protocol'', JStr (nk_protocol r)), (''public_key'', JStr (nk_public_key r)),
     (''secret_key'', JStr (nk_secret_key r))]"

record data_dir =
  dd_key :: "string option"
  dd_database :: "database option"

definition open_identity :: "ext \<Rightarrow> data_dir \<Rightarrow> node_identity result" where
  "open_identity X dir =
     and_then (ok_or (dd_key dir) NotFound) (\<lambda>text.
     and_then (from_text X (d_node_key_file X) text) (\<lambda>key_file.
     and_then (fail_if (nk_protocol key_file \<noteq> PROTOCOL_VERSION) Validation) (\<lambda>_.
     and_then (signing_key_from_b64 X (nk_secret_key key_file)) (\<lambda>secret.
     let public = x_ed_public X secret in
     and_then (fail_if (x_b64_encode X public \<noteq> nk_public_key key_file \<or>
         prefixed_id X ''cwnode_'' public \<noteq> nk_node_id key_file) Unauthorized) (\<lambda>_.
       Inr \<lparr> node_id = nk_node_id key_file, node_public_key = nk_public_key key_file, node_secret = secret \<rparr>)))))"

text \<open>A database that was opened stays opened (and migrated) when binding it fails.\<close>

definition node_open :: "ext \<Rightarrow> data_dir \<Rightarrow> node_identity result \<times> data_dir" where
  "node_open X dir =
     (case open_identity X dir of Inl e \<Rightarrow> (Inl e, dir) | Inr me \<Rightarrow>
       (case database_open X (dd_database dir) of Inl e \<Rightarrow> (Inl e, dir) | Inr db \<Rightarrow>
         (case bind_node me db of
            Inl e \<Rightarrow> (Inl e, dir\<lparr>dd_database := Some db\<rparr>)
          | Inr db' \<Rightarrow> (Inr me, dir\<lparr>dd_database := Some db'\<rparr>))))"

text \<open>\<open>pretty\<close> is \<open>serde_json::to_vec_pretty\<close> and \<open>secret\<close> the fresh random key.\<close>

definition new_key_file :: "ext \<Rightarrow> string \<Rightarrow> int \<Rightarrow> node_key_file" where
  "new_key_file X secret now =
     \<lparr> nk_protocol = PROTOCOL_VERSION, nk_node_id = prefixed_id X ''cwnode_'' (x_ed_public X secret),
       nk_created_at = now, nk_public_key = x_b64_encode X (x_ed_public X secret),
       nk_secret_key = x_b64_encode X secret \<rparr>"

definition node_initialize ::
  "ext \<Rightarrow> (json \<Rightarrow> string) \<Rightarrow> string \<Rightarrow> int \<Rightarrow> data_dir \<Rightarrow> node_identity result \<times> data_dir" where
  "node_initialize X pretty secret now dir =
     (if dd_key dir \<noteq> None then (Inl Conflict, dir)
      else node_open X (dir\<lparr>dd_key := Some (pretty (e_node_key_file X (new_key_file X secret now)) @ [CHR 0x0A])\<rparr>))"

definition open_or_initialize ::
  "ext \<Rightarrow> (json \<Rightarrow> string) \<Rightarrow> string \<Rightarrow> int \<Rightarrow> data_dir \<Rightarrow> (node_identity \<times> bool) result \<times> data_dir" where
  "open_or_initialize X pretty secret now dir =
     (if dd_key dir \<noteq> None then apfst (\<lambda>r. and_then r (\<lambda>me. Inr (me, False))) (node_open X dir)
      else if dd_database dir \<noteq> None then (Inl Conflict, dir)
      else apfst (\<lambda>r. and_then r (\<lambda>me. Inr (me, True))) (node_initialize X pretty secret now dir))"

section \<open>Lemmas\<close>

lemma map_of_set_existing:
  "map_of (set_existing k v m) j = (if j = k \<and> map_of m k \<noteq> None then Some v else map_of m j)"
  by (induction m) (auto simp: set_existing_def)

lemma map_of_set_default:
  "map_of (set_default k v m) j = (if j = k \<and> map_of m k = None then Some v else map_of m j)"
  by (auto simp: set_default_def map_add_def split: option.splits)

lemma map_of_set_value: "map_of (set_value k v m) j = (if j = k then Some v else map_of m j)"
  by (auto simp: set_value_def map_add_def map_of_set_existing split: option.splits)

lemmas settings_simps = map_of_set_existing map_of_set_default map_of_set_value

lemma set_existing_same: "map_of m k = Some v \<Longrightarrow> distinct (map fst m) \<Longrightarrow> set_existing k v m = m"
  unfolding set_existing_def by (rule map_idI) (auto dest: map_of_is_SomeI simp del: map_of_eq_Some_iff)

text \<open>The settings have one row per key, as the primary key of \<open>meta\<close> asks.\<close>

lemma set_existing_keys [simp]: "map fst (set_existing k v m) = map fst m"
  by (auto simp: set_existing_def)

lemma set_default_keys [simp]: "distinct (map fst m) \<Longrightarrow> distinct (map fst (set_default k v m))"
  by (auto simp: set_default_def map_of_eq_None_iff)

lemma set_value_keys [simp]: "distinct (map fst m) \<Longrightarrow> distinct (map fst (set_value k v m))"
  by (auto simp: set_value_def map_of_eq_None_iff)

text \<open>Seeding touches the work items only, and only once.\<close>

definition bootstrap_item :: "ext \<Rightarrow> string \<times> string \<Rightarrow> work_item_row" where
  "bootstrap_item X a = \<lparr> wki_work_id = work_id_of X ''discover_sources'' (fst a), wki_kind = ''discover_sources'',
     wki_subject_type = ''coverage_area'', wki_subject_id = fst a,
     wki_instructions = bootstrap_instructions (snd a), wki_required_results = 0,
     wki_status = ''open'', wki_created_sequence = 0, wki_completed_sequence = None \<rparr>"

definition seed_rows :: "ext \<Rightarrow> work_item_row list \<Rightarrow> work_item_row list" where
  "seed_rows X ws = fold (\<lambda>a. insert_or_ignore work_clash (bootstrap_item X a)) BOOTSTRAP_SOURCE_COVERAGE ws"

lemma seed_eq: "seed_bootstrap_work X db = db\<lparr>work_items := seed_rows X (work_items db)\<rparr>"
proof -
  have "fold (\<lambda>(i, f). insert_work_item X ''discover_sources'' ''coverage_area'' i (bootstrap_instructions f) 0 0) as db =
    db\<lparr>work_items := fold (\<lambda>a. insert_or_ignore work_clash (bootstrap_item X a)) as (work_items db)\<rparr>" for as
    by (induction as arbitrary: db) (auto simp: insert_work_item_def bootstrap_item_def)
  then show ?thesis unfolding seed_bootstrap_work_def seed_rows_def .
qed

lemma insert_or_ignore_present: "list_ex (c r) tbl \<Longrightarrow> insert_or_ignore c r tbl = tbl"
  by (simp add: insert_or_ignore_def)

lemma insert_or_ignore_subset: "set tbl \<subseteq> set (insert_or_ignore c r tbl)"
  by (auto simp: insert_or_ignore_def)

lemma fold_insert_subset: "set tbl \<subseteq> set (fold (\<lambda>a. insert_or_ignore c (f a)) as tbl)"
  by (induction as arbitrary: tbl) (auto dest: subsetD [OF insert_or_ignore_subset])

lemma fold_insert_present:
  assumes "\<And>r. c r r" and "a \<in> set as"
  shows "list_ex (c (f a)) (fold (\<lambda>a. insert_or_ignore c (f a)) as tbl)"
  using assms(2)
proof (induction as arbitrary: tbl)
  case (Cons b bs)
  show ?case
  proof (cases "a \<in> set bs")
    case True
    with Cons.IH show ?thesis by simp
  next
    case False
    with Cons.prems have "a = b" by simp
    have "list_ex (c (f b)) (insert_or_ignore c (f b) tbl)"
      using assms(1) by (auto simp: insert_or_ignore_def)
    then show ?thesis
      unfolding \<open>a = b\<close> using fold_insert_subset [of "insert_or_ignore c (f b) tbl" c f bs] by (auto simp: list_ex_iff)
  qed
qed simp

lemma fold_insert_idem:
  assumes "\<And>a. a \<in> set as \<Longrightarrow> list_ex (c (f a)) tbl"
  shows "fold (\<lambda>a. insert_or_ignore c (f a)) as tbl = tbl"
  using assms by (induction as) (auto simp: insert_or_ignore_present)

lemma seed_rows_idem: "seed_rows X (seed_rows X ws) = seed_rows X ws"
  unfolding seed_rows_def
  by (rule fold_insert_idem) (rule fold_insert_present, simp_all add: work_clash_def)

text \<open>The settings of a database this program has opened.\<close>

definition settled :: "database \<Rightarrow> bool" where
  "settled db \<longleftrightarrow> distinct (map fst (meta db)) \<and>
     Option.bind (map_of (meta db) ''schema_version'') parse_i64 = Some SCHEMA_VERSION \<and>
     extend_schema (meta db) = meta db"

lemma parse_schema_versions:
  "parse_i64 ''1'' = Some 1" "parse_i64 ''2'' = Some 2" "parse_i64 ''3'' = Some 3" "parse_i64 ''4'' = Some 4"
  "parse_i64 ''5'' = Some 5"
  by code_simp+

lemma extend_schema_keys [simp]: "distinct (map fst m) \<Longrightarrow> distinct (map fst (extend_schema m))"
  by (simp add: extend_schema_def Let_def)

lemma map_of_extend_schema:
  "map_of (extend_schema m) k = (if k \<in> {''volunteer_gateway_schema'', ''topic_commons_schema'',
     ''source_fetch_policy_schema''} then Some ''1'' else map_of m k)"
  by (auto simp: extend_schema_def Let_def settings_simps)

lemma set_value_same: "map_of m k = Some v \<Longrightarrow> distinct (map fst m) \<Longrightarrow> set_value k v m = m"
  by (simp add: set_value_def set_existing_same)

lemma extend_schema_idem: "distinct (map fst m) \<Longrightarrow> extend_schema (extend_schema m) = extend_schema m"
  using map_of_extend_schema [of m]
  by (subst extend_schema_def) (simp add: set_value_same Let_def)

lemma migrate_settings:
  assumes "distinct (map fst (meta db))" and "map_of (meta db) ''schema_version'' = Some s" and "parse_i64 s = Some version"
    and "version \<le> SCHEMA_VERSION"
  shows "distinct (map fst (meta (migrate version db)))"
    and "Option.bind (map_of (meta (migrate version db)) ''schema_version'') parse_i64 = Some SCHEMA_VERSION"
  using assms
  by (auto simp: migrate_def migrate_authority_def Let_def settings_simps parse_schema_versions SCHEMA_VERSION_def
      simp del: map_of_eq_Some_iff)

lemma database_open_Inr:
  assumes "database_open X stored = Inr db'"
  obtains db m version where "db = (case stored of None \<Rightarrow> empty_database | Some d \<Rightarrow> d)"
    "m = set_default ''schema_version'' ''1'' (meta db)" "Option.bind (map_of m ''schema_version'') parse_i64 = Some version"
    "version \<le> SCHEMA_VERSION"
    "db' = seed_bootstrap_work X ((migrate version (db\<lparr>meta := m\<rparr>))\<lparr>meta := extend_schema (meta (migrate version (db\<lparr>meta := m\<rparr>)))\<rparr>)"
  using assms by (auto simp: database_open_def Let_def not_less)

lemma database_open_settled:
  assumes "database_open X stored = Inr db'" and "case stored of None \<Rightarrow> True | Some db \<Rightarrow> distinct (map fst (meta db))"
  shows "settled db'"
  using assms(1)
proof (rule database_open_Inr)
  fix db m version
  assume db: "db = (case stored of None \<Rightarrow> empty_database | Some d \<Rightarrow> d)"
    and m: "m = set_default ''schema_version'' ''1'' (meta db)"
    and v: "Option.bind (map_of m ''schema_version'') parse_i64 = Some version" "version \<le> SCHEMA_VERSION"
    and db': "db' = seed_bootstrap_work X ((migrate version (db\<lparr>meta := m\<rparr>))\<lparr>meta := extend_schema (meta (migrate version (db\<lparr>meta := m\<rparr>)))\<rparr>)"
  have d: "distinct (map fst m)" using assms(2) db by (cases stored) (simp_all add: m)
  obtain s where s: "map_of m ''schema_version'' = Some s" "parse_i64 s = Some version"
    using v(1) by (auto simp: bind_eq_Some_conv)
  note mig = migrate_settings [of "db\<lparr>meta := m\<rparr>" s version]
  show ?thesis
    using mig d s v(2) by (simp add: settled_def db' seed_eq extend_schema_idem map_of_extend_schema)
qed

lemma database_open_again:
  assumes "settled db"
  shows "database_open X (Some db) = Inr (seed_bootstrap_work X db)"
proof -
  from assms obtain s where s: "map_of (meta db) ''schema_version'' = Some s" "parse_i64 s = Some 5"
    by (auto simp: settled_def SCHEMA_VERSION_def bind_eq_Some_conv)
  have "set_default ''schema_version'' ''1'' (meta db) = meta db" using s by (simp add: set_default_def)
  moreover have "migrate 5 db = db" by (simp add: migrate_def Let_def)
  ultimately show ?thesis
    using assms s by (simp add: database_open_def SCHEMA_VERSION_def settled_def)
qed

text \<open>What opening leaves of a database it has opened before.\<close>

lemma node_open_Inr:
  assumes "node_open X dir = (Inr me, dir')"
  obtains db db' where "open_identity X dir = Inr me" "database_open X (dd_database dir) = Inr db"
    "bind_node me db = Inr db'" "dir' = dir\<lparr>dd_database := Some db'\<rparr>"
  using assms by (auto simp: node_open_def split: sum.splits)

lemma open_identity_ok: "open_identity X dir = Inr me \<Longrightarrow> identity_ok X me"
  by (auto simp: open_identity_def Let_def signing_key_from_b64_def decode_def identity_ok_def split: if_splits)

lemma bind_node_Inr:
  assumes "bind_node me db = Inr db'"
  shows "map_of (meta db') ''node_id'' = Some (node_id me)"
    and "db' = db\<lparr>meta := meta db'\<rparr>" and "map_of (meta db) ''node_id'' \<noteq> None \<Longrightarrow> db' = db"
  using assms by (auto simp: bind_node_def map_add_def split: option.splits)

lemma bind_node_settled:
  assumes "bind_node me db = Inr db'" and "settled db"
  shows "settled db'"
proof (cases "map_of (meta db) ''node_id''")
  case (Some i)
  with bind_node_Inr(3) [OF assms(1)] assms(2) show ?thesis by simp
next
  case None
  let ?new = "[(''node_id'', node_id me), (''node_public_key'', node_public_key me)]"
  from None assms(1) have n: "map_of (meta db) ''node_public_key'' = None" and m: "meta db' = meta db @ ?new"
    by (auto simp: bind_node_def split: option.splits)
  have d: "distinct (map fst (meta db'))"
    using assms(2) None n unfolding m by (auto simp: settled_def map_of_eq_None_iff)
  have get: "map_of (meta db') k = map_of (meta db) k" if "k \<noteq> ''node_id''" "k \<noteq> ''node_public_key''" for k
    unfolding m using that by (auto simp: map_add_def split: option.splits)
  have ext: "extend_schema (meta db) = meta db" using assms(2) by (simp add: settled_def)
  have "map_of (meta db') k = Some ''1''"
    if "k \<in> {''volunteer_gateway_schema'', ''topic_commons_schema'', ''source_fetch_policy_schema''}" for k
    using that map_of_extend_schema [of "meta db" k] get [of k] unfolding ext by force
  with d have "extend_schema (meta db') = meta db'"
    by (simp add: extend_schema_def Let_def set_value_same del: map_of_eq_Some_iff)
  with d assms(2) get [of "''schema_version''"] show ?thesis by (simp add: settled_def)
qed

lemma seeded_again:
  assumes "database_open X stored = Inr db" and "db' = db\<lparr>meta := m\<rparr>"
  shows "seed_bootstrap_work X db' = db'"
proof -
  from assms(1) obtain d where "db = seed_bootstrap_work X d" by (rule database_open_Inr) blast
  with assms(2) show ?thesis by (simp add: seed_eq seed_rows_idem)
qed

lemma node_open_again:
  assumes "node_open X dir = (Inr me, dir')"
    and "case dd_database dir of None \<Rightarrow> True | Some db \<Rightarrow> distinct (map fst (meta db))"
  shows "node_open X dir' = (Inr me, dir')"
  using assms(1)
proof (rule node_open_Inr)
  fix db db'
  assume o: "open_identity X dir = Inr me" and d: "database_open X (dd_database dir) = Inr db"
    and b: "bind_node me db = Inr db'" and dir': "dir' = dir\<lparr>dd_database := Some db'\<rparr>"
  have "open_identity X dir' = Inr me" using o by (simp add: dir' open_identity_def)
  moreover have "settled db'" by (rule bind_node_settled [OF b database_open_settled [OF d assms(2)]])
  then have "database_open X (Some db') = Inr db'"
    using seeded_again [OF d bind_node_Inr(2) [OF b]] by (simp add: database_open_again)
  moreover have "bind_node me db' = Inr db'" using bind_node_Inr(1) [OF b] by (simp add: bind_node_def)
  ultimately show ?thesis by (simp add: node_open_def dir')
qed

text \<open>\<open>serde_json\<close> reads back what it printed, white space around it included.\<close>

definition pretty_laws :: "ext \<Rightarrow> (json \<Rightarrow> string) \<Rightarrow> bool" where
  "pretty_laws X pretty \<longleftrightarrow> (\<forall>v. json_safe v \<longrightarrow> x_json_parse X (pretty v @ [CHR 0x0A]) = Some v)"

lemma node_key_file_roundtrip:
  "time_laws X \<Longrightarrow> time_ok (nk_created_at r) \<Longrightarrow> d_node_key_file X (e_node_key_file X r) = Some r"
  by (simp add: d_node_key_file_def e_node_key_file_def)

lemma json_safe_node_key_file: "json_safe (e_node_key_file X r)"
  by (simp add: e_node_key_file_def byte_of_def)

lemma open_new_identity:
  assumes "ext_laws X" and "pretty_laws X pretty" and "length secret = 32" and "time_ok now"
    and "dd_key dir = Some (pretty (e_node_key_file X (new_key_file X secret now)) @ [CHR 0x0A])"
  shows "\<exists>me. open_identity X dir = Inr me \<and> node_secret me = secret"
proof -
  have l: "b64_laws X" "time_laws X" using assms(1) by (simp_all add: ext_laws_def)
  have "x_json_parse X (pretty (e_node_key_file X (new_key_file X secret now)) @ [CHR 0x0A]) =
      Some (e_node_key_file X (new_key_file X secret now))"
    using assms(2) json_safe_node_key_file by (simp add: pretty_laws_def)
  moreover have "d_node_key_file X (e_node_key_file X (new_key_file X secret now)) = Some (new_key_file X secret now)"
    by (rule node_key_file_roundtrip [OF l(2)]) (simp add: new_key_file_def assms(4))
  ultimately show ?thesis
    using assms(3,5) l(1)
    by (simp add: open_identity_def new_key_file_def signing_key_from_b64_def decode_def b64_laws_def Let_def)
qed

lemma fresh_database:
  "\<exists>db. database_open X None = Inr db \<and> map_of (meta db) ''node_id'' = None \<and> map_of (meta db) ''node_public_key'' = None"
  by (simp add: database_open_def set_default_def migrate_def migrate_authority_def set_existing_def Let_def
      parse_schema_versions SCHEMA_VERSION_def seed_eq map_of_extend_schema)

section \<open>Properties\<close>

text \<open>C36: a new node comes up and comes up again.  In an empty data directory initialization succeeds
  with an identity that belongs to the key drawn for it, and opening the directory afterwards gives
  the same identity and changes nothing.\<close>

theorem initialize_then_open:
  assumes "ext_laws X" and "pretty_laws X pretty" and "length secret = 32" and "time_ok now"
  shows "\<exists>me dir. node_initialize X pretty secret now \<lparr> dd_key = None, dd_database = None \<rparr> = (Inr me, dir) \<and>
    identity_ok X me \<and> node_secret me = secret \<and> node_open X dir = (Inr me, dir)"
proof -
  let ?dir = "\<lparr> dd_key = Some (pretty (e_node_key_file X (new_key_file X secret now)) @ [CHR 0x0A]), dd_database = None \<rparr>"
  obtain me where me: "open_identity X ?dir = Inr me" "node_secret me = secret"
    using open_new_identity [OF assms, of ?dir] by auto
  obtain db where db: "database_open X None = Inr db" "map_of (meta db) ''node_id'' = None"
    "map_of (meta db) ''node_public_key'' = None"
    using fresh_database by blast
  then obtain dir' where run: "node_open X ?dir = (Inr me, dir')" using me(1) by (simp add: node_open_def bind_node_def)
  then have "node_initialize X pretty secret now \<lparr> dd_key = None, dd_database = None \<rparr> = (Inr me, dir')"
    by (simp add: node_initialize_def)
  with node_open_again [OF run] open_identity_ok [OF me(1)] me(2) show ?thesis by auto
qed

text \<open>C35: a database keeps its owner.  However a directory is opened, the identity that comes out
  belongs to its own secret key and is the one the database is bound to; and a database whose key
  file is missing is refused, with the directory left as it was, rather than given a new identity.\<close>

theorem database_keeps_owner:
  assumes "open_or_initialize X pretty secret now dir = (r, dir')"
  shows "(dd_key dir = None \<and> dd_database dir \<noteq> None \<longrightarrow> r = Inl Conflict \<and> dir' = dir) \<and>
    (\<forall>me fresh. r = Inr (me, fresh) \<longrightarrow> identity_ok X me \<and>
      (\<exists>db'. dd_database dir' = Some db' \<and> map_of (meta db') ''node_id'' = Some (node_id me)) \<and>
      (\<forall>db i. dd_database dir = Some db \<and> map_of (meta db) ''node_id'' = Some i \<longrightarrow> node_id me = i))"
proof -
  have opened: "identity_ok X me \<and>
      (\<exists>db'. dd_database d' = Some db' \<and> map_of (meta db') ''node_id'' = Some (node_id me)) \<and>
      (\<forall>db i. dd_database d = Some db \<and> map_of (meta db) ''node_id'' = Some i \<longrightarrow> node_id me = i)"
    if run: "node_open X d = (Inr me, d')" for d d' me
    using run
  proof (rule node_open_Inr)
    fix db db'
    assume o: "open_identity X d = Inr me" and od: "database_open X (dd_database d) = Inr db"
      and b: "bind_node me db = Inr db'" and d': "d' = d\<lparr>dd_database := Some db'\<rparr>"
    have "node_id me = i" if "dd_database d = Some x" "map_of (meta x) ''node_id'' = Some i" for x i
    proof -
      from od have "map_of (meta db) ''node_id'' = Some i"
        by (rule database_open_Inr)
          (simp add: that seed_eq map_of_extend_schema migrate_def migrate_authority_def Let_def settings_simps)
      with b show ?thesis by (simp add: bind_node_def)
    qed
    with open_identity_ok [OF o] bind_node_Inr(1) [OF b] d' show ?thesis by simp
  qed
  show ?thesis
  proof (cases "dd_key dir = None \<and> dd_database dir \<noteq> None")
    case True
    with assms show ?thesis by (auto simp: open_or_initialize_def)
  next
    case False
    let ?d = "if dd_key dir \<noteq> None then dir
      else dir\<lparr>dd_key := Some (pretty (e_node_key_file X (new_key_file X secret now)) @ [CHR 0x0A])\<rparr>"
    have db: "dd_database ?d = dd_database dir" by simp
    obtain q where q: "node_open X ?d = (q, dir')" "r = and_then q (\<lambda>me. Inr (me, dd_key dir = None))"
      using assms False
      by (cases "node_open X ?d") (auto simp: open_or_initialize_def node_initialize_def split: if_splits)
    then have "node_open X ?d = (Inr me, dir')" if "r = Inr (me, fresh)" for me fresh
      using that by (cases q) simp_all
    with opened [of ?d _ dir'] False show ?thesis unfolding db by blast
  qed
qed

section \<open>Example\<close>

definition demo_dir :: data_dir where
  "demo_dir = \<lparr> dd_key = None, dd_database = None \<rparr>"

text \<open>The example extension with a reader that passes over a trailing line break.\<close>

definition lenient_ext :: ext where
  "lenient_ext = demo_ext\<lparr>x_json_parse := (\<lambda>t. case demo_parse t of Some v \<Rightarrow> Some v
     | None \<Rightarrow> if t \<noteq> [] \<and> last t = CHR 0x0A then demo_parse (butlast t) else None)\<rparr>"

lemma lenient_laws: "ext_laws lenient_ext"
proof -
  have p: "x_json_parse lenient_ext t = Some v" if "x_json_parse demo_ext t = Some v" for t v
    using that by (simp add: lenient_ext_def demo_ext_def)
  have same: "x_json_print lenient_ext = x_json_print demo_ext" "x_jcs lenient_ext = x_jcs demo_ext"
    by (simp_all add: lenient_ext_def)
  have "json_laws lenient_ext"
    using demo_laws p unfolding ext_laws_def json_laws_def same by blast
  then show ?thesis
    using demo_laws by (simp add: ext_laws_def hash_laws_def hex_laws_def b64_laws_def sig_laws_def time_laws_def lenient_ext_def)
qed

lemma lenient_pretty: "pretty_laws lenient_ext demo_print"
proof -
  have "demo_parse (demo_print v @ [CHR 0x0A]) = None" for v
    using read_value_print [of v "Suc (length (demo_print v @ [CHR 0x0A]))" "[CHR 0x0A]"] by (simp add: demo_parse_def)
  then show ?thesis by (simp add: pretty_laws_def lenient_ext_def demo_parse_print)
qed

theorem initialize_then_open_witness:
  "\<exists>me dir. node_initialize lenient_ext demo_print (pad 32 ''node'') 0 demo_dir = (Inr me, dir) \<and>
     node_open lenient_ext dir = (Inr me, dir)"
proof -
  have "length (pad 32 ''node'') = 32" "time_ok 0" by (simp_all add: time_ok_def)
  from initialize_then_open [OF lenient_laws lenient_pretty this] show ?thesis by (auto simp: demo_dir_def)
qed

theorem database_keeps_owner_witness:
  "open_or_initialize demo_ext demo_print (pad 32 ''node'') 0 (demo_dir\<lparr>dd_database := Some empty_database\<rparr>) =
     (Inl Conflict, demo_dir\<lparr>dd_database := Some empty_database\<rparr>)"
proof -
  let ?dir = "demo_dir\<lparr>dd_database := Some empty_database\<rparr>"
  obtain r dir' where r: "open_or_initialize demo_ext demo_print (pad 32 ''node'') 0 ?dir = (r, dir')"
    by (rule prod.exhaust)
  from database_keeps_owner [OF r] r show ?thesis by (simp add: demo_dir_def)
qed

end
