(* ===== verification/Edge.thy ===== *)
theory Edge
  imports Schema Content_Rules Reference_Ext "HOL-Library.Word"
begin

text \<open>
  The public edge (\<^verbatim>\<open>src/src/edge.rs\<close>): the middleware in front of a node that serves the open
  internet.  It bounds concurrency with semaphores, rates with three fixed windows, storage with a
  bounded walk over the data directory, and lets a write through only on one of the grounds of its
  policy.  Instants of the monotonic clock are nanoseconds; counters and limits are 32 bit words.
\<close>

unbundle bit_operations_syntax

section \<open>Configuration and policy\<close>

definition MAX_FEDERATION_BODY_BYTES :: int where "MAX_FEDERATION_BODY_BYTES = 40 * 1024 * 1024"
definition MAX_JSON_BODY_BYTES :: int where "MAX_JSON_BODY_BYTES = 256 * 1024"
definition U64_MAX :: int where "U64_MAX = 2 ^ 64 - 1"
definition MAX_STORAGE_WALK_ENTRIES :: int where "MAX_STORAGE_WALK_ENTRIES = 16384"

record public_edge_config =
  pc_write_token :: "string option"
  pc_signed_lineage_writes_enabled :: bool
  pc_allowed_publishers :: "string list"
  pc_requests_per_second :: "32 word"
  pc_writes_per_minute :: "32 word"
  pc_max_concurrency :: nat
  pc_max_federation_concurrency :: nat
  pc_max_storage_bytes :: int
  pc_max_origins :: int
  pc_max_origin_events :: int
  pc_volunteer_intake_enabled :: bool
  pc_volunteer_writes_per_hour :: "32 word"
  pc_max_volunteer_submissions :: int

definition default_config :: public_edge_config where
  "default_config = \<lparr> pc_write_token = None, pc_signed_lineage_writes_enabled = False,
     pc_allowed_publishers = [], pc_requests_per_second = 100, pc_writes_per_minute = 60,
     pc_max_concurrency = 64, pc_max_federation_concurrency = 2,
     pc_max_storage_bytes = 20 * 1024 * 1024 * 1024, pc_max_origins = 256, pc_max_origin_events = 25000,
     pc_volunteer_intake_enabled = False, pc_volunteer_writes_per_hour = 12,
     pc_max_volunteer_submissions = 100000 \<rparr>"

text \<open>The part of \<open>PublicEdgeInner\<close> that does not change.\<close>

record edge_policy =
  ep_enabled :: bool
  ep_write_token_hash :: "string option"
  ep_signed_lineage_writes_enabled :: bool
  ep_allowed_publishers :: "string list"
  ep_requests_per_second :: "32 word"
  ep_writes_per_minute :: "32 word"
  ep_max_storage_bytes :: int
  ep_max_origins :: int
  ep_max_origin_events :: int
  ep_volunteer_intake_enabled :: bool
  ep_volunteer_writes_per_hour :: "32 word"
  ep_max_volunteer_submissions :: int

definition local_policy :: edge_policy where
  "local_policy = \<lparr> ep_enabled = False, ep_write_token_hash = None,
     ep_signed_lineage_writes_enabled = True, ep_allowed_publishers = [],
     ep_requests_per_second = - 1, ep_writes_per_minute = - 1,
     ep_max_storage_bytes = U64_MAX, ep_max_origins = U64_MAX, ep_max_origin_events = 2 ^ 63 - 1,
     ep_volunteer_intake_enabled = True, ep_volunteer_writes_per_hour = - 1,
     ep_max_volunteer_submissions = U64_MAX \<rparr>"

definition ascii_whitespace :: "char \<Rightarrow> bool" where
  "ascii_whitespace c \<longleftrightarrow> byte_of c \<in> {9, 10, 12, 13, 32}"

definition incomplete_node_id :: "string \<Rightarrow> bool" where
  "incomplete_node_id origin =
     (let digest = (case strip_prefix ''cwnode_'' origin of Some d \<Rightarrow> d | None \<Rightarrow> []) in
      len digest \<noteq> 64 \<or> \<not> list_all lower_hex_digit digest)"

definition validate_config :: "public_edge_config \<Rightarrow> unit result" where
  "validate_config c =
     and_then (fail_if (pc_requests_per_second c = 0 \<or> pc_writes_per_minute c = 0 \<or> pc_max_concurrency c = 0 \<or>
         pc_max_federation_concurrency c = 0 \<or> pc_max_storage_bytes c < MAX_FEDERATION_BODY_BYTES \<or>
         pc_max_origins c = 0 \<or> pc_max_origin_events c \<le> 0 \<or> pc_volunteer_writes_per_hour c = 0 \<or>
         pc_max_volunteer_submissions c = 0) Validation) (\<lambda>_.
     and_then (fail_if (case pc_write_token c of None \<Rightarrow> False
         | Some token \<Rightarrow> len token < 32 \<or> list_ex ascii_whitespace token) Validation) (\<lambda>_.
     fail_if (list_ex incomplete_node_id (pc_allowed_publishers c)) Validation))"

text \<open>\<open>PublicEdgePolicy::public\<close>; the two semaphores it makes are in \<open>edge_start\<close> below.\<close>

definition public_policy :: "ext \<Rightarrow> public_edge_config \<Rightarrow> edge_policy result" where
  "public_policy X c =
     and_then (validate_config c) (\<lambda>_. Inr
       \<lparr> ep_enabled = True, ep_write_token_hash = map_option (x_sha256 X) (pc_write_token c),
         ep_signed_lineage_writes_enabled = pc_signed_lineage_writes_enabled c,
         ep_allowed_publishers = pc_allowed_publishers c,
         ep_requests_per_second = pc_requests_per_second c, ep_writes_per_minute = pc_writes_per_minute c,
         ep_max_storage_bytes = pc_max_storage_bytes c, ep_max_origins = pc_max_origins c,
         ep_max_origin_events = pc_max_origin_events c,
         ep_volunteer_intake_enabled = pc_volunteer_intake_enabled c,
         ep_volunteer_writes_per_hour = pc_volunteer_writes_per_hour c,
         ep_max_volunteer_submissions = pc_max_volunteer_submissions c \<rparr>)"

definition write_mode :: "edge_policy \<Rightarrow> string" where
  "write_mode p =
     (if \<not> ep_enabled p then ''local-open''
      else case (ep_signed_lineage_writes_enabled p, ep_write_token_hash p \<noteq> None, ep_allowed_publishers p = []) of
        (False, False, True) \<Rightarrow> ''read-only''
      | (False, False, False) \<Rightarrow> ''admitted-publishers''
      | (False, True, True) \<Rightarrow> ''bearer-admitted''
      | (False, True, False) \<Rightarrow> ''bearer-and-publisher-admitted''
      | (True, False, True) \<Rightarrow> ''registered-lineage-signed''
      | (True, False, False) \<Rightarrow> ''registered-lineage-and-publisher-admitted''
      | (True, True, True) \<Rightarrow> ''registered-lineage-and-bearer-admitted''
      | (True, True, False) \<Rightarrow> ''registered-lineage-bearer-and-publisher-admitted'')"

definition signed_lineage_writes_enabled :: "edge_policy \<Rightarrow> bool" where
  "signed_lineage_writes_enabled p \<longleftrightarrow> \<not> ep_enabled p \<or> ep_signed_lineage_writes_enabled p"

definition bearer_writes_enabled :: "edge_policy \<Rightarrow> bool" where
  "bearer_writes_enabled p \<longleftrightarrow> \<not> ep_enabled p \<or> ep_write_token_hash p \<noteq> None"

definition volunteer_intake_mode :: "edge_policy \<Rightarrow> string" where
  "volunteer_intake_mode p =
     (if ep_enabled p \<and> \<not> ep_volunteer_intake_enabled p then ''disabled''
      else if ep_enabled p then ''public-probationary'' else ''local-open'')"

section \<open>Requests and tokens\<close>

datatype http_method = M_GET | M_HEAD | M_OPTIONS | M_Other string

text \<open>The headers the edge reads, when they are present and visible ASCII.\<close>

record edge_request =
  rq_method :: http_method
  rq_path :: string
  rq_authorization :: "string option"
  rq_content_length :: "string option"

definition byte_word :: "char \<Rightarrow> 8 word" where
  "byte_word c = word_of_nat (of_char c)"

definition constant_time_eq :: "string \<Rightarrow> string \<Rightarrow> bool" where
  "constant_time_eq actual expected \<longleftrightarrow>
     fold (\<lambda>(left, right) difference. difference OR (byte_word left XOR byte_word right)) (zip actual expected) 0 = 0"

definition ascii_lower :: "char \<Rightarrow> char" where
  "ascii_lower c = (if ascii_uppercase c then char_of (nat (byte_of c) + 32) else c)"

definition eq_ignore_ascii_case :: "string \<Rightarrow> string \<Rightarrow> bool" where
  "eq_ignore_ascii_case s t \<longleftrightarrow> map ascii_lower s = map ascii_lower t"

definition has_valid_write_token :: "ext \<Rightarrow> edge_policy \<Rightarrow> edge_request \<Rightarrow> bool" where
  "has_valid_write_token X p r =
     (case ep_write_token_hash p of None \<Rightarrow> False | Some expected \<Rightarrow>
       (case rq_authorization r of None \<Rightarrow> False | Some value \<Rightarrow>
         (case split_once (CHR '' '') value of None \<Rightarrow> False | Some (scheme, token) \<Rightarrow>
            if \<not> eq_ignore_ascii_case scheme ''bearer'' \<or> token = [] then False
            else constant_time_eq (x_sha256 X token) expected)))"

definition has_federation_origin :: "string \<Rightarrow> database \<Rightarrow> bool" where
  "has_federation_origin origin db = list_ex (\<lambda>p. peer_node_id p = origin) (federation_peers db)"

definition federation_origin_count :: "database \<Rightarrow> int" where
  "federation_origin_count db = len (federation_peers db)"

definition authorize_federation_bundle ::
  "ext \<Rightarrow> edge_policy \<Rightarrow> edge_request \<Rightarrow> string \<Rightarrow> int \<Rightarrow> database \<Rightarrow> unit result" where
  "authorize_federation_bundle X p r origin through db =
     (if \<not> ep_enabled p then Inr () else
      and_then (fail_if (\<not> has_valid_write_token X p r \<and> origin \<notin> set (ep_allowed_publishers p)) Forbidden) (\<lambda>_.
      and_then (fail_if (through < 0 \<or> through > ep_max_origin_events p) ResourceExhausted) (\<lambda>_.
      fail_if (\<not> has_federation_origin origin db \<and> federation_origin_count db \<ge> ep_max_origins p)
        ResourceExhausted)))"

definition ensure_volunteer_intake :: "edge_policy \<Rightarrow> unit result" where
  "ensure_volunteer_intake p = fail_if (ep_enabled p \<and> \<not> ep_volunteer_intake_enabled p) Forbidden"

text \<open>\<open>submissions\<close> is the count of stored volunteer submissions.\<close>

definition authorize_volunteer_task :: "edge_policy \<Rightarrow> int \<Rightarrow> unit result" where
  "authorize_volunteer_task p submissions =
     and_then (ensure_volunteer_intake p) (\<lambda>_.
       fail_if (ep_enabled p \<and> submissions \<ge> ep_max_volunteer_submissions p) ResourceExhausted)"

section \<open>Storage headroom\<close>

text \<open>
  The file system is what \<open>read_dir\<close> answers for each path: the entries of the directory, or an I/O
  error.  An entry whose type or metadata cannot be read is \<open>Broken\<close>; a symbolic link is skipped
  before its metadata is asked for.
\<close>

datatype dir_entry = File nat | Directory string | Symlink | Special | Broken

type_synonym file_system = "string list \<Rightarrow> dir_entry list result"

definition saturating_add :: "int \<Rightarrow> int \<Rightarrow> int" where
  "saturating_add a b = min U64_MAX (a + b)"

text \<open>One turn of the inner loop, over (bytes so far, entries visited, pending); \<open>pending\<close> is the stack, top first.\<close>

fun walk_entry :: "string list \<Rightarrow> dir_entry \<Rightarrow> int \<times> int \<times> string list list \<Rightarrow> (int \<times> int \<times> string list list) result" where
  "walk_entry path e (bytes, visited, pending) =
     (if visited + 1 > MAX_STORAGE_WALK_ENTRIES then Inl Io
      else case e of
        Broken \<Rightarrow> Inl Io
      | Symlink \<Rightarrow> Inr (bytes, visited + 1, pending)
      | File n \<Rightarrow> Inr (saturating_add bytes (int n), visited + 1, pending)
      | Directory name \<Rightarrow> Inr (bytes, visited + 1, (path @ [name]) # pending)
      | Special \<Rightarrow> Inr (bytes, visited + 1, pending))"

definition walk_budget :: "int \<times> string list list \<Rightarrow> nat" where
  "walk_budget = (\<lambda>(visited, pending). nat (MAX_STORAGE_WALK_ENTRIES - visited) + length pending)"

lemma walk_entry_budget:
  assumes "walk_entry path e (bytes, visited, pending) = Inr (bytes', visited', pending')"
  shows "walk_budget (visited', pending') \<le> walk_budget (visited, pending)"
  using assms by (auto simp: walk_budget_def split: if_splits dir_entry.splits)

lemma walk_entries_budget:
  assumes "fold_result (walk_entry path) es (bytes, visited, pending) = Inr (bytes', visited', pending')"
  shows "walk_budget (visited', pending') \<le> walk_budget (visited, pending)"
proof -
  define P where "P = (\<lambda>(t :: int, v, p). walk_budget (v, p) \<le> walk_budget (visited, pending))"
  have "P (bytes', visited', pending')"
  proof (rule fold_result_invariant [where P = P, OF assms])
    fix e s s' assume "P s" "walk_entry path e s = Inr s'"
    moreover obtain b v q b' v' q' where "s = (b, v, q)" "s' = (b', v', q')" by (metis prod_cases3)
    ultimately show "P s'"
      using walk_entry_budget [of path e b v q b' v' q'] by (simp add: P_def del: walk_entry.simps)
  qed (simp add: P_def)
  then show ?thesis by (simp add: P_def)
qed

text \<open>The walk ends on every file system: an entry is charged before it can add to the stack.\<close>

function walk :: "file_system \<Rightarrow> int \<Rightarrow> int \<Rightarrow> string list list \<Rightarrow> int result" where
  "walk fs bytes visited [] = Inr bytes"
| "walk fs bytes visited (path # pending) =
     (case fs path of Inl e \<Rightarrow> Inl Io
      | Inr es \<Rightarrow> (case fold_result (walk_entry path) es (bytes, visited, pending) of Inl e \<Rightarrow> Inl e
                 | Inr (bytes', visited', pending') \<Rightarrow> walk fs bytes' visited' pending'))"
  by pat_completeness auto
termination
  by (relation "measure (\<lambda>(fs, bytes, visited, pending). walk_budget (visited, pending))")
     (auto simp: walk_budget_def dest!: walk_entries_budget)

declare walk.simps(2) [simp del]

definition directory_size :: "file_system \<Rightarrow> string list \<Rightarrow> int result" where
  "directory_size fs root = walk fs 0 0 [root]"

text \<open>\<open>str::parse::<u64>\<close>: an optional plus sign, at least one digit, and the 64 bit range.\<close>

definition parse_u64 :: "string \<Rightarrow> int option" where
  "parse_u64 s =
     (case (case s of [] \<Rightarrow> None | c # cs \<Rightarrow> if c = CHR ''+'' then parse_digits cs else parse_digits s) of
        None \<Rightarrow> None | Some i \<Rightarrow> if i \<le> U64_MAX then Some i else None)"

definition federation_path :: "string \<Rightarrow> bool" where
  "federation_path path \<longleftrightarrow> path = ''/v1/federation/import'' \<or> path = ''/v1/federation/publish''"

definition route_limit :: "edge_request \<Rightarrow> int" where
  "route_limit r =
     (if prefix ''/v1/artifacts/'' (rq_path r) then MAX_FORGE_ARTIFACT_BYTES
      else if federation_path (rq_path r) then MAX_FEDERATION_BODY_BYTES
      else MAX_JSON_BODY_BYTES)"

definition claimed_bytes :: "edge_request \<Rightarrow> int" where
  "claimed_bytes r =
     min (case Option.bind (rq_content_length r) parse_u64 of None \<Rightarrow> route_limit r | Some n \<Rightarrow> n) (route_limit r)"

definition ensure_storage_headroom :: "edge_policy \<Rightarrow> file_system \<Rightarrow> string list \<Rightarrow> edge_request \<Rightarrow> unit result" where
  "ensure_storage_headroom p fs data_dir r =
     and_then (directory_size fs data_dir) (\<lambda>current.
       fail_if (saturating_add current (claimed_bytes r) > ep_max_storage_bytes p) ResourceExhausted)"

section \<open>Rate windows\<close>

record rate_windows =
  second_started :: int
  requests_this_second :: "32 word"
  minute_started :: int
  writes_this_minute :: "32 word"
  hour_started :: int
  volunteer_writes_this_hour :: "32 word"

datatype rate_rejection = Requests | Writes | VolunteerWrites | Unavailable

definition new_windows :: "int \<Rightarrow> rate_windows" where
  "new_windows now = \<lparr> second_started = now, requests_this_second = 0, minute_started = now,
     writes_this_minute = 0, hour_started = now, volunteer_writes_this_hour = 0 \<rparr>"

definition nanos :: "int \<Rightarrow> int" where
  "nanos s = s * 1000000000"

text \<open>\<open>Instant::duration_since\<close> saturates at zero.\<close>

definition duration_since :: "int \<Rightarrow> int \<Rightarrow> int" where
  "duration_since now earlier = max 0 (now - earlier)"

definition roll_windows :: "int \<Rightarrow> rate_windows \<Rightarrow> rate_windows" where
  "roll_windows now w =
     (let w1 = (if duration_since now (second_started w) \<ge> nanos 1
                then w\<lparr>second_started := now, requests_this_second := 0\<rparr> else w);
          w2 = (if duration_since now (minute_started w1) \<ge> nanos 60
                then w1\<lparr>minute_started := now, writes_this_minute := 0\<rparr> else w1)
      in if duration_since now (hour_started w2) \<ge> nanos (60 * 60)
         then w2\<lparr>hour_started := now, volunteer_writes_this_hour := 0\<rparr> else w2)"

text \<open>\<open>RateWindows::check\<close>; the windows change also when the request is turned away.\<close>

definition windows_check ::
  "int \<Rightarrow> bool \<Rightarrow> bool \<Rightarrow> 32 word \<Rightarrow> 32 word \<Rightarrow> 32 word \<Rightarrow> rate_windows \<Rightarrow> (rate_rejection + unit) \<times> rate_windows" where
  "windows_check now write volunteer_write requests_per_second writes_per_minute volunteer_writes_per_hour w0 =
     (let w = roll_windows now w0 in
      if requests_this_second w \<ge> requests_per_second then (Inl Requests, w)
      else if write \<and> writes_this_minute w \<ge> writes_per_minute then (Inl Writes, w)
      else if volunteer_write \<and> volunteer_writes_this_hour w \<ge> volunteer_writes_per_hour then (Inl VolunteerWrites, w)
      else
        let w1 = w\<lparr>requests_this_second := requests_this_second w + 1\<rparr>;
            w2 = (if write then w1\<lparr>writes_this_minute := writes_this_minute w1 + 1\<rparr> else w1);
            w3 = (if volunteer_write then w2\<lparr>volunteer_writes_this_hour := volunteer_writes_this_hour w2 + 1\<rparr> else w2)
        in (Inr (), w3))"

section \<open>The middleware\<close>

text \<open>
  What changes in \<open>PublicEdgeInner\<close>: the free permits of the two semaphores and the windows behind
  their mutex, with whether a panic has poisoned it.  \<open>running\<close> are the requests that hold a permit.
\<close>

record edge_state =
  permits :: nat
  federation_permits :: nat
  windows :: rate_windows
  poisoned :: bool
  running :: "edge_request list"

definition edge_start :: "public_edge_config \<Rightarrow> int \<Rightarrow> edge_state" where
  "edge_start c now = \<lparr> permits = pc_max_concurrency c, federation_permits = pc_max_federation_concurrency c,
     windows = new_windows now, poisoned = False, running = [] \<rparr>"

text \<open>
  The answer to a request: it goes on to the router, or \<open>edge_error\<close> answers with a status, a code and
  a \<open>Retry-After\<close>, or an error of the node is turned into a response.
\<close>

datatype edge_reply = Forward | Refuse nat string "nat option" | Fail error

definition is_write :: "edge_request \<Rightarrow> bool" where
  "is_write r \<longleftrightarrow> rq_method r \<notin> {M_GET, M_HEAD, M_OPTIONS}"

definition volunteer_write :: "edge_request \<Rightarrow> bool" where
  "volunteer_write r \<longleftrightarrow> is_write r \<and> rq_path r = ''/v1/volunteer/results''"

definition federation_write :: "edge_request \<Rightarrow> bool" where
  "federation_write r \<longleftrightarrow> is_write r \<and> federation_path (rq_path r)"

definition check_rate :: "edge_policy \<Rightarrow> int \<Rightarrow> edge_request \<Rightarrow> edge_state \<Rightarrow> (rate_rejection + unit) \<times> edge_state" where
  "check_rate p now r s =
     (if poisoned s then (Inl Unavailable, s)
      else (case windows_check now (is_write r) (volunteer_write r) (ep_requests_per_second p)
               (ep_writes_per_minute p) (ep_volunteer_writes_per_hour p) (windows s) of
              (answer, w) \<Rightarrow> (answer, s\<lparr>windows := w\<rparr>)))"

fun rate_refusal :: "rate_rejection \<Rightarrow> edge_reply" where
  "rate_refusal Requests = Refuse 429 ''request_rate_limit'' (Some 1)"
| "rate_refusal Writes = Refuse 429 ''write_rate_limit'' (Some 60)"
| "rate_refusal VolunteerWrites = Refuse 429 ''volunteer_write_rate_limit'' (Some (60 * 60))"
| "rate_refusal Unavailable = Refuse 503 ''limiter_unavailable'' (Some 1)"

definition signed_lineage_path :: "string \<Rightarrow> bool" where
  "signed_lineage_path path \<longleftrightarrow>
     path \<in> {''/v1/delegations'', ''/v1/revocations'', ''/v1/rotations'', ''/v1/contributions'',
              ''/v1/acknowledgements''} \<or> prefix ''/v1/artifacts/'' path"

text \<open>The part of the middleware a write goes through after the rate check.\<close>

definition admit_write :: "ext \<Rightarrow> edge_policy \<Rightarrow> file_system \<Rightarrow> string list \<Rightarrow> edge_request \<Rightarrow> edge_reply" where
  "admit_write X p fs data_dir r =
     (if volunteer_write r \<and> \<not> ep_volunteer_intake_enabled p
      then Refuse 403 ''volunteer_intake_disabled'' None
      else let signed_lineage_write = signed_lineage_writes_enabled p \<and> signed_lineage_path (rq_path r) in
        if \<not> volunteer_write r \<and> rq_path r \<noteq> ''/v1/federation/publish'' \<and> \<not> signed_lineage_write \<and>
           \<not> has_valid_write_token X p r
        then Refuse 403 ''write_admission_required'' None
        else (case ensure_storage_headroom p fs data_dir r of Inl e \<Rightarrow> Fail e | Inr _ \<Rightarrow> Forward))"

text \<open>
  \<open>enforce_public_edge\<close> in the three pieces other requests can come between: taking the permits
  (\<open>None\<close> when the request is still under way), the decision, and the end of the call, where the
  permits are dropped.
\<close>

definition edge_enter :: "edge_policy \<Rightarrow> edge_request \<Rightarrow> edge_state \<Rightarrow> edge_reply option \<times> edge_state" where
  "edge_enter p r s =
     (if \<not> ep_enabled p then (Some Forward, s)
      else if permits s = 0 then (Some (Refuse 503 ''concurrency_limit'' (Some 1)), s)
      else if federation_write r
        then (if federation_permits s = 0 then (Some (Refuse 503 ''federation_concurrency_limit'' (Some 1)), s)
              else (None, s\<lparr>permits := permits s - 1, federation_permits := federation_permits s - 1,
                             running := r # running s\<rparr>))
      else (None, s\<lparr>permits := permits s - 1, running := r # running s\<rparr>))"

definition edge_decide ::
  "ext \<Rightarrow> edge_policy \<Rightarrow> file_system \<Rightarrow> string list \<Rightarrow> int \<Rightarrow> edge_request \<Rightarrow> edge_state \<Rightarrow> edge_reply \<times> edge_state" where
  "edge_decide X p fs data_dir now r s =
     (case check_rate p now r s of
        (Inl rejection, s') \<Rightarrow> (rate_refusal rejection, s')
      | (Inr _, s') \<Rightarrow> (if is_write r then admit_write X p fs data_dir r else Forward, s'))"

definition edge_leave :: "edge_request \<Rightarrow> edge_state \<Rightarrow> edge_state" where
  "edge_leave r s = s\<lparr>permits := permits s + 1,
     federation_permits := federation_permits s + (if federation_write r then 1 else 0),
     running := remove1 r (running s)\<rparr>"

text \<open>Requests run concurrently: any running request may decide or leave, and new ones may enter.\<close>

datatype edge_label = Entered edge_request "edge_reply option" | Decided int edge_request edge_reply | Finished edge_request

inductive edge_step :: "ext \<Rightarrow> edge_policy \<Rightarrow> edge_state \<Rightarrow> edge_label \<Rightarrow> edge_state \<Rightarrow> bool"
  for X :: ext and p :: edge_policy where
  enter: "edge_enter p r s = (reply, s') \<Longrightarrow> edge_step X p s (Entered r reply) s'"
| decide: "r \<in> set (running s) \<Longrightarrow> edge_decide X p fs data_dir now r s = (reply, s') \<Longrightarrow>
    edge_step X p s (Decided now r reply) s'"
| leave: "r \<in> set (running s) \<Longrightarrow> edge_step X p s (Finished r) (edge_leave r s)"

inductive_cases edge_stepE: "edge_step X p s l s'"

fun run_steps :: "('s \<Rightarrow> 'l \<Rightarrow> 's \<Rightarrow> bool) \<Rightarrow> 's \<Rightarrow> 'l list \<Rightarrow> 's \<Rightarrow> bool" where
  "run_steps step s [] s' \<longleftrightarrow> s' = s"
| "run_steps step s (l # ls) s' \<longleftrightarrow> (\<exists>m. step s l m \<and> run_steps step m ls s')"

abbreviation edge_run :: "ext \<Rightarrow> edge_policy \<Rightarrow> edge_state \<Rightarrow> edge_label list \<Rightarrow> edge_state \<Rightarrow> bool" where
  "edge_run X p \<equiv> run_steps (edge_step X p)"

section \<open>The walk\<close>

text \<open>
  What the walk is meant to compute: the bytes of all files below a directory and the number of its
  entries, as a finite tree of directory listings determines them.  A link is an entry without bytes.
\<close>

definition file_bytes :: "dir_entry list \<Rightarrow> int" where
  "file_bytes es = sum_list (map (\<lambda>e. case e of File n \<Rightarrow> int n | _ \<Rightarrow> 0) es)"

definition subdirectories :: "string list \<Rightarrow> dir_entry list \<Rightarrow> string list list" where
  "subdirectories path es = concat (map (\<lambda>e. case e of Directory name \<Rightarrow> [path @ [name]] | _ \<Rightarrow> []) es)"

inductive du :: "file_system \<Rightarrow> string list \<Rightarrow> int \<Rightarrow> nat \<Rightarrow> bool"
  and du_all :: "file_system \<Rightarrow> string list list \<Rightarrow> int \<Rightarrow> nat \<Rightarrow> bool"
  for fs :: file_system where
  du: "fs path = Inr es \<Longrightarrow> Broken \<notin> set es \<Longrightarrow> du_all fs (rev (subdirectories path es)) n k \<Longrightarrow>
    du fs path (file_bytes es + n) (length es + k)"
| du_none: "du_all fs [] 0 0"
| du_some: "du fs path n k \<Longrightarrow> du_all fs paths m j \<Longrightarrow> du_all fs (path # paths) (n + m) (k + j)"

inductive_simps du_simps: "du fs path n k"
inductive_simps du_all_simps: "du_all fs [] n k" "du_all fs (path # paths) n k"

lemma du_all_append:
  "du_all fs (xs @ ys) n k \<longleftrightarrow> (\<exists>a b i j. du_all fs xs a i \<and> du_all fs ys b j \<and> n = a + b \<and> k = i + j)"
proof (induction xs arbitrary: n k)
  case Nil
  show ?case by (simp add: du_all_simps)
next
  case (Cons x xs)
  show ?case
    unfolding append_Cons du_all_simps Cons.IH by (safe; fastforce simp: add.assoc)
qed

abbreviation saturate :: "int \<Rightarrow> int" where
  "saturate \<equiv> min U64_MAX"

lemma saturating_add_saturate [simp]: "0 \<le> n \<Longrightarrow> saturating_add (saturate t) n = saturate (t + n)"
  by (simp add: saturating_add_def min_def)

lemma walk_entries:
  assumes "visited \<le> MAX_STORAGE_WALK_ENTRIES"
  shows "fold_result (walk_entry path) es (saturate t, visited, pending) =
    (if Broken \<in> set es \<or> visited + len es > MAX_STORAGE_WALK_ENTRIES then Inl Io
     else Inr (saturate (t + file_bytes es), visited + len es, rev (subdirectories path es) @ pending))"
  using assms
proof (induction es arbitrary: t visited pending)
  case Nil
  then show ?case by (simp add: file_bytes_def subdirectories_def)
next
  case (Cons e es)
  show ?case
    by (cases e; cases "visited < MAX_STORAGE_WALK_ENTRIES")
       (auto simp: Cons.IH file_bytes_def subdirectories_def len_def)
qed

lemma walk_exact:
  assumes "bytes = saturate t" and "visited \<le> MAX_STORAGE_WALK_ENTRIES"
  shows "walk fs bytes visited pending = Inr m \<longleftrightarrow>
    (\<exists>n k. du_all fs pending n k \<and> visited + int k \<le> MAX_STORAGE_WALK_ENTRIES \<and> m = saturate (t + n))"
  using assms
proof (induction fs bytes visited pending arbitrary: t rule: walk.induct)
  case (1 fs bytes visited)
  then show ?case by (auto simp: du_all_simps)
next
  case (2 fs bytes visited path pending)
  show ?case
  proof (cases "fs path")
    case (Inl e)
    then show ?thesis by (simp add: walk.simps du_all_simps du_simps)
  next
    case (Inr es)
    show ?thesis
    proof (cases "Broken \<in> set es \<or> visited + len es > MAX_STORAGE_WALK_ENTRIES")
      case True
      then show ?thesis
        using Inr 2 by (auto simp: walk.simps walk_entries du_all_simps du_simps len_def)
    next
      case False
      have fold: "fold_result (walk_entry path) es (bytes, visited, pending) =
          Inr (saturate (t + file_bytes es), visited + len es, rev (subdirectories path es) @ pending)"
        using False 2 by (auto simp: walk_entries)
      have "walk fs bytes visited (path # pending) =
          walk fs (saturate (t + file_bytes es)) (visited + len es) (rev (subdirectories path es) @ pending)"
        by (simp add: walk.simps Inr fold)
      also have "\<dots> = Inr m \<longleftrightarrow> (\<exists>n k. du_all fs (rev (subdirectories path es) @ pending) n k \<and>
          visited + len es + int k \<le> MAX_STORAGE_WALK_ENTRIES \<and> m = saturate (t + file_bytes es + n))"
        using False by (intro "2.IH" [OF Inr fold refl]) auto
      also have "\<dots> \<longleftrightarrow> (\<exists>n k. du_all fs (path # pending) n k \<and>
          visited + int k \<le> MAX_STORAGE_WALK_ENTRIES \<and> m = saturate (t + n))"
        using False Inr by (fastforce simp: du_all_append du_all_simps du_simps add.assoc len_def)
      finally show ?thesis .
    qed
  qed
qed

lemma walk_error: "walk fs bytes visited pending = Inl e \<Longrightarrow> e = Io"
proof (induction fs bytes visited pending rule: walk.induct)
  case (2 fs bytes visited path pending)
  have "fold_result (walk_entry path) es s = Inl e \<Longrightarrow> e = Io" for es s
  proof (induction es arbitrary: s)
    case (Cons x es)
    then show ?case
      by (cases s) (auto split: sum.splits if_splits dir_entry.splits simp: fold_result.simps)
  qed simp
  with 2 show ?case by (auto simp: walk.simps split: sum.splits prod.splits)
qed simp

text \<open>C26: The storage walk of the public edge ends on every file system, also one with a directory cycle
  or endless nesting: it answers with an I/O error, or, exactly when the data directory is a readable
  finite tree of at most 16384 entries, with the number of bytes in its files, saturated at 64 bits.\<close>

theorem directory_size_exact:
  "(directory_size fs root = Inr m \<longleftrightarrow>
     (\<exists>n k. du fs root n k \<and> int k \<le> MAX_STORAGE_WALK_ENTRIES \<and> m = min U64_MAX n)) \<and>
   directory_size fs root \<in> insert (Inl Io) (range Inr)"
proof
  have [simp]: "saturate 0 = 0" "0 \<le> MAX_STORAGE_WALK_ENTRIES" by (simp_all add: U64_MAX_def MAX_STORAGE_WALK_ENTRIES_def)
  show "directory_size fs root = Inr m \<longleftrightarrow>
     (\<exists>n k. du fs root n k \<and> int k \<le> MAX_STORAGE_WALK_ENTRIES \<and> m = min U64_MAX n)"
    using walk_exact [of 0 0 0 fs "[root]" m] by (auto simp: directory_size_def du_all_simps)
  show "directory_size fs root \<in> insert (Inl Io) (range Inr)"
    by (cases "directory_size fs root") (auto simp: directory_size_def dest: walk_error)
qed

section \<open>Fixed windows\<close>

text \<open>
  A fixed-window budget, as its clients see it.  Labels that reach the limiter carry an instant; a
  label that counts has used one unit, and never more than the limit within the current window.  A
  request that comes a period or more after the window's start opens a new window at its own instant.
\<close>

definition in_span :: "('l \<Rightarrow> int option) \<Rightarrow> int \<Rightarrow> int \<Rightarrow> 'l \<Rightarrow> bool" where
  "in_span instant lo hi l \<longleftrightarrow> (case instant l of None \<Rightarrow> False | Some t \<Rightarrow> lo \<le> t \<and> t < hi)"

definition spent :: "('l \<Rightarrow> int option) \<Rightarrow> ('l \<Rightarrow> bool) \<Rightarrow> int \<Rightarrow> int \<Rightarrow> 'l list \<Rightarrow> nat" where
  "spent instant counts lo hi ls = length (filter (\<lambda>l. counts l \<and> in_span instant lo hi l) ls)"

definition ordered :: "('l \<Rightarrow> int option) \<Rightarrow> 'l list \<Rightarrow> bool" where
  "ordered instant ls = sorted (List.map_filter instant ls)"

lemma spent_simps [simp]:
  "spent instant counts lo hi [] = 0"
  "spent instant counts lo hi (l # ls) =
     (if counts l \<and> in_span instant lo hi l then 1 else 0) + spent instant counts lo hi ls"
  by (simp_all add: spent_def)

lemma in_span_simps [simp]:
  "instant l = None \<Longrightarrow> \<not> in_span instant lo hi l"
  "instant l = Some t \<Longrightarrow> in_span instant lo hi l \<longleftrightarrow> lo \<le> t \<and> t < hi"
  by (simp_all add: in_span_def)

lemma ordered_Cons:
  "ordered instant (l # ls) \<longleftrightarrow> ordered instant ls \<and>
     (\<forall>t. instant l = Some t \<longrightarrow> (\<forall>l'\<in>set ls. \<forall>t'. instant l' = Some t' \<longrightarrow> t \<le> t'))"
  by (auto simp: ordered_def List.map_filter_def split: option.splits)

lemma spent_late:
  assumes "\<And>l t. l \<in> set ls \<Longrightarrow> instant l = Some t \<Longrightarrow> hi \<le> t"
  shows "spent instant counts lo hi ls = 0"
  using assms by (induction ls) (fastforce simp: in_span_def split: option.splits)+

text \<open>Counted labels with an instant in \<open>[lo, hi)\<close> are \<open>spent\<close>; \<open>ordered\<close> is a clock that never goes back.\<close>

locale fixed_window =
  fixes step :: "'s \<Rightarrow> 'l \<Rightarrow> 's \<Rightarrow> bool"
    and started :: "'s \<Rightarrow> int"
    and used :: "'s \<Rightarrow> nat"
    and instant :: "'l \<Rightarrow> int option"
    and counts :: "'l \<Rightarrow> bool"
    and period :: int
    and limit :: nat
  assumes positive: "0 < period"
    and silent: "step s l s' \<Longrightarrow> instant l = None \<Longrightarrow> started s' = started s \<and> used s' = used s \<and> \<not> counts l"
    and same_window: "step s l s' \<Longrightarrow> instant l = Some t \<Longrightarrow> t - started s < period \<Longrightarrow>
          started s' = started s \<and> used s + (if counts l then 1 else 0) \<le> used s'"
    and next_window: "step s l s' \<Longrightarrow> instant l = Some t \<Longrightarrow> period \<le> t - started s \<Longrightarrow>
          started s' = t \<and> (if counts l then 1 else 0) \<le> used s'"
    and within_limit: "step s l s' \<Longrightarrow> counts l \<Longrightarrow> used s' \<le> limit"
begin

abbreviation run :: "'s \<Rightarrow> 'l list \<Rightarrow> 's \<Rightarrow> bool" where
  "run \<equiv> run_steps step"

abbreviation used_up :: "int \<Rightarrow> int \<Rightarrow> 'l list \<Rightarrow> nat" where
  "used_up \<equiv> spent instant counts"

lemma spent_in_window:
  assumes "run s ls s'" and "ordered instant ls" and "hi \<le> started s + period"
  shows "used_up lo hi ls \<le> limit - used s"
  using assms
proof (induction ls arbitrary: s)
  case (Cons l ls)
  from Cons.prems(1) obtain m where m: "step s l m" "run m ls s'" by auto
  have ord: "ordered instant ls" using Cons.prems(2) by (simp add: ordered_Cons)
  show ?case
  proof (cases "instant l")
    case None
    then have "started m = started s" "used m = used s" "\<not> counts l" using silent [OF m(1)] by auto
    with Cons.IH [OF m(2) ord] Cons.prems(3) show ?thesis by (simp add: in_span_def)
  next
    case (Some t)
    show ?thesis
    proof (cases "t - started s < period")
      case True
      have "started m = started s" "used s + (if counts l then 1 else 0) \<le> used m"
        using same_window [OF m(1) Some True] by auto
      with Cons.IH [OF m(2) ord] Cons.prems(3) within_limit [OF m(1)] show ?thesis
        by (auto simp: in_span_def split: if_splits)
    next
      case False
      then have late: "hi \<le> t" using Cons.prems(3) positive by linarith
      have "used_up lo hi ls = 0"
        using Cons.prems(2) Some late by (intro spent_late) (fastforce simp: ordered_Cons)
      with late Some show ?thesis by (simp add: in_span_def)
    qed
  qed
qed simp

lemma spent_from:
  assumes "run s ls s'" and "ordered instant ls" and "\<And>l t. l \<in> set ls \<Longrightarrow> instant l = Some t \<Longrightarrow> lo \<le> t"
  shows "used_up lo (lo + period) ls \<le> (limit - used s) + limit"
  using assms
proof (induction ls arbitrary: s)
  case (Cons l ls)
  from Cons.prems(1) obtain m where m: "step s l m" "run m ls s'" by auto
  have ord: "ordered instant ls" using Cons.prems(2) by (simp add: ordered_Cons)
  have IH: "used_up lo (lo + period) ls \<le> (limit - used m) + limit"
    using Cons.prems(3) by (intro Cons.IH [OF m(2) ord]) auto
  show ?case
  proof (cases "instant l")
    case None
    with IH silent [OF m(1) None] show ?thesis by (simp add: in_span_def)
  next
    case (Some t)
    show ?thesis
    proof (cases "t - started s < period")
      case True
      with IH same_window [OF m(1) Some True] within_limit [OF m(1)] show ?thesis
        by (auto simp: in_span_def split: if_splits)
    next
      case False
      then have new: "started m = t" "(if counts l then 1 else 0) \<le> used m"
        using next_window [OF m(1) Some] by auto
      have "lo + period \<le> started m + period" using new(1) Cons.prems(3) [of l t] Some by simp
      from spent_in_window [OF m(2) ord this, of lo] new(2) within_limit [OF m(1)] show ?thesis
        by (auto simp: in_span_def split: if_splits)
    qed
  qed
qed simp

text \<open>No span of one period sees more than twice the limit, wherever it lies across the windows.\<close>

lemma budget:
  assumes "run s ls s'" and "ordered instant ls"
  shows "used_up lo (lo + period) ls \<le> 2 * limit"
  using assms
proof (induction ls arbitrary: s)
  case (Cons l ls)
  from Cons.prems(1) obtain m where m: "step s l m" "run m ls s'" by auto
  have ord: "ordered instant ls" using Cons.prems(2) by (simp add: ordered_Cons)
  show ?case
  proof (cases "\<exists>t. instant l = Some t \<and> lo \<le> t")
    case True
    then have "lo \<le> t" if "l' \<in> set (l # ls)" "instant l' = Some t" for l' t
      using Cons.prems(2) that by (fastforce simp: ordered_Cons)
    with spent_from [OF Cons.prems, of lo] have "used_up lo (lo + period) (l # ls) \<le> limit - used s + limit" by blast
    then show ?thesis by linarith
  next
    case False
    with Cons.IH [OF m(2) ord] show ?thesis by (auto simp: in_span_def split: option.splits)
  qed
qed simp

end

section \<open>The rate limiter keeps its budgets\<close>


text \<open>The instant a step read under the limiter's lock; a poisoned lock reads none.\<close>

fun label_instant :: "edge_label \<Rightarrow> int option" where
  "label_instant (Decided now r reply) = (if reply = rate_refusal Unavailable then None else Some now)"
| "label_instant _ = None"

fun forwards :: "(edge_request \<Rightarrow> bool) \<Rightarrow> edge_label \<Rightarrow> bool" where
  "forwards P (Decided now r reply) \<longleftrightarrow> reply = Forward \<and> P r"
| "forwards P _ \<longleftrightarrow> False"

text \<open>A counter below its limit does not wrap when it is incremented.\<close>

lemma counter_increment:
  fixes n limit :: "32 word"
  assumes "\<not> limit \<le> n"
  shows "unat (n + 1) = unat n + 1" "Suc (unat n) \<le> unat limit"
proof -
  from assms have "unat n < unat limit" by (simp add: word_le_nat_alt)
  moreover have "unat limit < 2 ^ 32" using unsigned_less [of limit] by simp
  ultimately show "unat (n + 1) = unat n + 1" "Suc (unat n) \<le> unat limit"
    by (simp_all add: unat_word_ariths)
qed

lemma duration_since_nanos [simp]: "0 < k \<Longrightarrow> nanos k \<le> duration_since now t \<longleftrightarrow> nanos k \<le> now - t"
  by (auto simp: duration_since_def nanos_def)

lemma roll_windows_sel:
  "second_started (roll_windows now w) = (if duration_since now (second_started w) \<ge> nanos 1 then now else second_started w)"
  "requests_this_second (roll_windows now w) = (if duration_since now (second_started w) \<ge> nanos 1 then 0 else requests_this_second w)"
  "minute_started (roll_windows now w) = (if duration_since now (minute_started w) \<ge> nanos 60 then now else minute_started w)"
  "writes_this_minute (roll_windows now w) = (if duration_since now (minute_started w) \<ge> nanos 60 then 0 else writes_this_minute w)"
  "hour_started (roll_windows now w) = (if duration_since now (hour_started w) \<ge> nanos (60 * 60) then now else hour_started w)"
  "volunteer_writes_this_hour (roll_windows now w) =
     (if duration_since now (hour_started w) \<ge> nanos (60 * 60) then 0 else volunteer_writes_this_hour w)"
  by (simp_all add: roll_windows_def Let_def)

lemma windows_check_Inl:
  "windows_check now wr vw rps wpm vph w = (Inl e, w') \<Longrightarrow> w' = roll_windows now w"
  by (auto simp: windows_check_def Let_def split: if_splits)

lemma windows_check_Inr:
  assumes "windows_check now wr vw rps wpm vph w = (Inr u, w')"
  shows "second_started w' = second_started (roll_windows now w)"
    "minute_started w' = minute_started (roll_windows now w)"
    "hour_started w' = hour_started (roll_windows now w)"
    "unat (requests_this_second w') = unat (requests_this_second (roll_windows now w)) + 1"
    "unat (writes_this_minute w') = unat (writes_this_minute (roll_windows now w)) + (if wr then 1 else 0)"
    "unat (volunteer_writes_this_hour w') =
       unat (volunteer_writes_this_hour (roll_windows now w)) + (if vw then 1 else 0)"
  using assms by (auto simp: windows_check_def Let_def counter_increment split: if_splits)

lemma windows_check_limits:
  assumes "windows_check now wr vw rps wpm vph w = (Inr u, w')"
  shows "unat (requests_this_second w') \<le> unat rps"
    "wr \<Longrightarrow> unat (writes_this_minute w') \<le> unat wpm"
    "vw \<Longrightarrow> unat (volunteer_writes_this_hour w') \<le> unat vph"
  using assms by (auto simp: windows_check_def Let_def counter_increment split: if_splits)

text \<open>What one step does to the windows, in the form the three budgets share.\<close>

lemma limiter_answers: "windows_check now wr vw rps wpm vph w = (Inl e, w') \<Longrightarrow> e \<noteq> Unavailable"
  by (auto simp: windows_check_def Let_def split: if_splits)

lemma rate_refusal_cases [simp]:
  "rate_refusal x \<noteq> Forward"
  "rate_refusal x = Refuse 503 ''limiter_unavailable'' (Some (Suc 0)) \<longleftrightarrow> x = Unavailable"
  by (cases x; simp)+

lemma admit_write_refusal [simp]: "admit_write X p fs d r \<noteq> Refuse 503 code t"
  by (auto simp: admit_write_def Let_def split: sum.splits)

lemma edge_step_silent:
  assumes "edge_step X p s l s'" and "label_instant l = None"
  shows "windows s' = windows s" and "\<not> forwards P l"
  using assms
  by (auto elim!: edge_stepE simp: edge_enter_def edge_leave_def edge_decide_def check_rate_def
      dest: limiter_answers split: if_splits prod.splits sum.splits)

lemma edge_step_window:
  assumes "edge_step X p s l s'" and "label_instant l = Some t"
  obtains (turned_away) "windows s' = roll_windows t (windows s)" and "\<And>P. \<not> forwards P l"
  | (charged) r reply where "l = Decided t r reply"
      "windows_check t (is_write r) (volunteer_write r) (ep_requests_per_second p) (ep_writes_per_minute p)
         (ep_volunteer_writes_per_hour p) (windows s) = (Inr (), windows s')"
proof -
  from assms obtain r fs d reply where l: "l = Decided t r reply" "reply \<noteq> rate_refusal Unavailable"
    "edge_decide X p fs d t r s = (reply, s')"
    by (auto elim!: edge_stepE split: if_splits)
  show ?thesis
  proof (cases "fst (check_rate p t r s)")
    case (Inl rej)
    with l show ?thesis
      by (intro turned_away)
         (auto simp: edge_decide_def check_rate_def dest: windows_check_Inl split: prod.splits if_splits sum.splits)
  next
    case (Inr u)
    with l show ?thesis
      by (intro charged [OF l(1)])
         (auto simp: edge_decide_def check_rate_def split: prod.splits if_splits sum.splits)
  qed
qed

lemma forwarded_charged:
  assumes "edge_step X p s l s'" and "forwards P l"
  obtains t r where "l = Decided t r Forward" "P r"
    "windows_check t (is_write r) (volunteer_write r) (ep_requests_per_second p) (ep_writes_per_minute p)
       (ep_volunteer_writes_per_hour p) (windows s) = (Inr (), windows s')"
proof -
  from assms(2) obtain t r where l: "l = Decided t r Forward" "P r" by (cases l) auto
  show ?thesis
    by (rule edge_step_window [OF assms(1), of t]) (use assms(2) l that in auto)
qed

interpretation requests: fixed_window "edge_step X p" "\<lambda>s. second_started (windows s)"
  "\<lambda>s. unat (requests_this_second (windows s))" label_instant "forwards (\<lambda>_. True)" "nanos 1"
  "unat (ep_requests_per_second p)" for X p
proof
  fix s l s' t
  assume "edge_step X p s l s'" and "label_instant l = Some t"
  then show "t - second_started (windows s) < nanos 1 \<Longrightarrow> second_started (windows s') = second_started (windows s) \<and>
      unat (requests_this_second (windows s)) + (if forwards (\<lambda>_. True) l then 1 else 0)
        \<le> unat (requests_this_second (windows s'))"
    "nanos 1 \<le> t - second_started (windows s) \<Longrightarrow> second_started (windows s') = t \<and>
      (if forwards (\<lambda>_. True) l then 1 else 0) \<le> unat (requests_this_second (windows s'))"
    by (rule edge_step_window; simp add: roll_windows_sel windows_check_Inr)+
qed (simp add: nanos_def, simp add: edge_step_silent, rule forwarded_charged, assumption+, simp add: windows_check_limits)

interpretation writes: fixed_window "edge_step X p" "\<lambda>s. minute_started (windows s)"
  "\<lambda>s. unat (writes_this_minute (windows s))" label_instant "forwards is_write" "nanos 60"
  "unat (ep_writes_per_minute p)" for X p
proof
  fix s l s' t
  assume "edge_step X p s l s'" and "label_instant l = Some t"
  then show "t - minute_started (windows s) < nanos 60 \<Longrightarrow> minute_started (windows s') = minute_started (windows s) \<and>
      unat (writes_this_minute (windows s)) + (if forwards is_write l then 1 else 0)
        \<le> unat (writes_this_minute (windows s'))"
    "nanos 60 \<le> t - minute_started (windows s) \<Longrightarrow> minute_started (windows s') = t \<and>
      (if forwards is_write l then 1 else 0) \<le> unat (writes_this_minute (windows s'))"
    by (rule edge_step_window; simp add: roll_windows_sel windows_check_Inr)+
qed (simp add: nanos_def, simp add: edge_step_silent, rule forwarded_charged, assumption+, simp add: windows_check_limits)

interpretation volunteer_writes: fixed_window "edge_step X p" "\<lambda>s. hour_started (windows s)"
  "\<lambda>s. unat (volunteer_writes_this_hour (windows s))" label_instant "forwards volunteer_write" "nanos (60 * 60)"
  "unat (ep_volunteer_writes_per_hour p)" for X p
proof
  fix s l s' t
  assume "edge_step X p s l s'" and "label_instant l = Some t"
  then show "t - hour_started (windows s) < nanos (60 * 60) \<Longrightarrow> hour_started (windows s') = hour_started (windows s) \<and>
      unat (volunteer_writes_this_hour (windows s)) + (if forwards volunteer_write l then 1 else 0)
        \<le> unat (volunteer_writes_this_hour (windows s'))"
    "nanos (60 * 60) \<le> t - hour_started (windows s) \<Longrightarrow> hour_started (windows s') = t \<and>
      (if forwards volunteer_write l then 1 else 0) \<le> unat (volunteer_writes_this_hour (windows s'))"
    by (rule edge_step_window; simp add: roll_windows_sel windows_check_Inr)+
qed (simp add: nanos_def, simp add: edge_step_silent, rule forwarded_charged, assumption+, simp add: windows_check_limits)

section \<open>The semaphores count the running requests\<close>

definition edge_ok :: "public_edge_config \<Rightarrow> edge_state \<Rightarrow> bool" where
  "edge_ok c s \<longleftrightarrow> permits s + length (running s) = pc_max_concurrency c \<and>
     federation_permits s + length (filter federation_write (running s)) = pc_max_federation_concurrency c"

lemma length_filter_remove1:
  "x \<in> set xs \<Longrightarrow> length (filter P (remove1 x xs)) + (if P x then 1 else 0) = length (filter P xs)"
  by (induction xs) auto

lemma edge_step_ok:
  assumes "edge_step X p s l s'" and "edge_ok c s"
  shows "edge_ok c s'"
  using assms(1)
proof (cases rule: edge_step.cases)
  case (enter r reply)
  with assms(2) show ?thesis by (auto simp: edge_enter_def edge_ok_def split: if_splits)
next
  case (decide r fs data_dir now reply)
  with assms(2) show ?thesis
    by (auto simp: edge_decide_def check_rate_def edge_ok_def split: if_splits prod.splits sum.splits)
next
  case (leave r)
  with assms(2) length_filter_remove1 [OF leave(3), of federation_write]
    length_filter_remove1 [OF leave(3), of "\<lambda>_. True"] show ?thesis
    by (auto simp: edge_leave_def edge_ok_def split: if_splits)
qed

lemma edge_run_ok: "edge_run X p s ls s' \<Longrightarrow> edge_ok c s \<Longrightarrow> edge_ok c s'"
  by (induction ls arbitrary: s) (auto dest: edge_step_ok)

text \<open>C11: However requests interleave, a public edge never runs more of them than it has permits, and lets
  through at most twice its per-second budget in any span of one second, at most twice its per-minute
  write budget in any minute and at most twice its hourly budget of volunteer results in any hour;
  the 32 bit counters never wrap.  The factor two is the price of fixed windows: a span may reach over
  the end of one and the start of the next.\<close>

theorem edge_limits_hold:
  assumes "public_policy X c = Inr p" and "edge_run X p (edge_start c t0) ls s" and "ordered label_instant ls"
  shows "spent label_instant (forwards (\<lambda>_. True)) t (t + nanos 1) ls \<le> 2 * unat (pc_requests_per_second c) \<and>
    spent label_instant (forwards is_write) t (t + nanos 60) ls \<le> 2 * unat (pc_writes_per_minute c) \<and>
    spent label_instant (forwards volunteer_write) t (t + nanos (60 * 60)) ls \<le>
      2 * unat (pc_volunteer_writes_per_hour c) \<and>
    length (running s) \<le> pc_max_concurrency c \<and>
    length (filter federation_write (running s)) \<le> pc_max_federation_concurrency c"
proof -
  have "edge_ok c (edge_start c t0)" by (simp add: edge_ok_def edge_start_def)
  from edge_run_ok [OF assms(2) this] have "edge_ok c s" .
  moreover have "ep_requests_per_second p = pc_requests_per_second c" "ep_writes_per_minute p = pc_writes_per_minute c"
    "ep_volunteer_writes_per_hour p = pc_volunteer_writes_per_hour c"
    using assms(1) by (auto simp: public_policy_def)
  ultimately show ?thesis
    using requests.budget [OF assms(2,3), of t] writes.budget [OF assms(2,3), of t]
      volunteer_writes.budget [OF assms(2,3), of t] by (auto simp: edge_ok_def)
qed

section \<open>Write admission\<close>

lemma byte_word_eq [simp]: "byte_word a = byte_word b \<longleftrightarrow> a = b"
proof
  assume "byte_word a = byte_word b"
  then have "unat (byte_word a) = unat (byte_word b)" by simp
  then show "a = b" by (simp add: byte_word_def unat_of_nat take_bit_eq_mod)
qed simp

lemma or_fold_zero:
  "fold (\<lambda>(l, r) d. d OR (byte_word l XOR byte_word r)) zs d = 0 \<longleftrightarrow> d = 0 \<and> (\<forall>(l, r)\<in>set zs. l = r)"
proof (induction zs arbitrary: d)
  case (Cons z zs)
  have "x XOR y = 0 \<longleftrightarrow> x = y" for x y :: "8 word"
    by (metis xor.assoc xor.right_neutral xor_self_eq)
  with Cons.IH show ?case by (cases z) (auto simp: or_eq_0_iff)
qed simp

text \<open>On digests of one length the comparison without early exit is equality.\<close>

lemma constant_time_eq_iff: "length a = length b \<Longrightarrow> constant_time_eq a b \<longleftrightarrow> a = b"
  by (auto simp: constant_time_eq_def or_fold_zero list_eq_iff_zip_eq)

definition bearer_token :: "edge_request \<Rightarrow> string option" where
  "bearer_token r = (case Option.bind (rq_authorization r) (split_once (CHR '' '')) of
     Some (scheme, token) \<Rightarrow> if map ascii_lower scheme = ''bearer'' \<and> token \<noteq> [] then Some token else None
   | None \<Rightarrow> None)"

lemma has_valid_write_token_iff:
  assumes "hash_laws X" and "public_policy X c = Inr p"
  shows "has_valid_write_token X p r \<longleftrightarrow>
    (\<exists>configured token. pc_write_token c = Some configured \<and> bearer_token r = Some token \<and>
       x_sha256 X token = x_sha256 X configured)"
proof -
  have "ep_write_token_hash p = map_option (x_sha256 X) (pc_write_token c)"
    using assms(2) by (auto simp: public_policy_def)
  moreover have "map ascii_lower ''bearer'' = ''bearer''" by code_simp
  moreover have "length (x_sha256 X a) = length (x_sha256 X b)" for a b
    using assms(1) by (simp add: hash_laws_def)
  ultimately show ?thesis
    by (auto simp: has_valid_write_token_def bearer_token_def eq_ignore_ascii_case_def constant_time_eq_iff
        split: option.splits if_splits)
qed

lemma parse_u64_nonneg: "parse_u64 s = Some n \<Longrightarrow> 0 \<le> n"
proof -
  have "list_all ascii_digit ds \<Longrightarrow> 0 \<le> acc \<Longrightarrow> 0 \<le> foldl (\<lambda>acc c. 10 * acc + (byte_of c - 0x30)) acc ds" for ds acc
    by (induction ds arbitrary: acc) (auto simp: ascii_digit_def)
  then have "parse_digits ds = Some i \<Longrightarrow> 0 \<le> i" for ds i
    by (auto simp: parse_digits_def digits_value_def split: if_splits)
  then show "parse_u64 s = Some n \<Longrightarrow> 0 \<le> n"
    by (auto simp: parse_u64_def split: option.splits list.splits if_splits)
qed

lemma headroom_left:
  assumes "ensure_storage_headroom p fs d r = Inr u" and "ep_max_storage_bytes p < U64_MAX"
  shows "\<exists>n k. du fs d n k \<and> int k \<le> MAX_STORAGE_WALK_ENTRIES \<and> n + claimed_bytes r \<le> ep_max_storage_bytes p"
proof -
  from assms(1) obtain m where m: "walk fs 0 0 [d] = Inr m" "saturating_add m (claimed_bytes r) \<le> ep_max_storage_bytes p"
    by (auto simp: ensure_storage_headroom_def directory_size_def)
  have "walk fs (saturate 0) 0 [d] = Inr m" using m(1) by (simp add: U64_MAX_def)
  then obtain n k where n: "du fs d n k" "int k \<le> MAX_STORAGE_WALK_ENTRIES" "m = saturate n"
    using walk_exact [of "saturate 0" 0 0 fs "[d]" m] by (auto simp: du_all_simps MAX_STORAGE_WALK_ENTRIES_def)
  moreover have "0 \<le> claimed_bytes r"
    by (auto simp: claimed_bytes_def route_limit_def MAX_FORGE_ARTIFACT_BYTES_def MAX_FEDERATION_BODY_BYTES_def
        MAX_JSON_BODY_BYTES_def bind_eq_Some_conv parse_u64_nonneg split: option.splits)
  ultimately have "saturate (n + claimed_bytes r) \<le> ep_max_storage_bytes p" using m(2) by simp
  with assms(2) n show ?thesis by (auto simp: min_def split: if_splits)
qed

text \<open>C12: A public edge forwards a write only on one of the four grounds of its configuration: a volunteer
  result while that intake is open, a publication (which is judged by its origin later), a signed
  lineage operation while those are enabled, or a bearer token with the configured token's digest;
  and only while the data directory together with the bytes the request may bring stays within the
  configured storage.\<close>

theorem edge_write_admission:
  assumes "hash_laws X" and "public_policy X c = Inr p" and "pc_max_storage_bytes c < U64_MAX"
    and "edge_decide X p fs d now r s = (Forward, s')" and "is_write r"
  shows "(volunteer_write r \<and> pc_volunteer_intake_enabled c \<or>
     rq_path r = ''/v1/federation/publish'' \<or>
     pc_signed_lineage_writes_enabled c \<and> signed_lineage_path (rq_path r) \<or>
     (\<exists>configured token. pc_write_token c = Some configured \<and> bearer_token r = Some token \<and>
        x_sha256 X token = x_sha256 X configured)) \<and>
   (\<exists>n k. du fs d n k \<and> int k \<le> MAX_STORAGE_WALK_ENTRIES \<and> n + claimed_bytes r \<le> pc_max_storage_bytes c)"
proof -
  have p: "ep_enabled p" "ep_max_storage_bytes p = pc_max_storage_bytes c"
    "ep_volunteer_intake_enabled p = pc_volunteer_intake_enabled c"
    "ep_signed_lineage_writes_enabled p = pc_signed_lineage_writes_enabled c"
    using assms(2) by (auto simp: public_policy_def)
  have "admit_write X p fs d r = Forward"
    using assms(4,5) by (auto simp: edge_decide_def split: prod.splits sum.splits)
  then have grounds: "volunteer_write r \<longrightarrow> pc_volunteer_intake_enabled c"
      "volunteer_write r \<or> rq_path r = ''/v1/federation/publish'' \<or>
       signed_lineage_writes_enabled p \<and> signed_lineage_path (rq_path r) \<or> has_valid_write_token X p r"
    and room: "ensure_storage_headroom p fs d r = Inr ()"
    using p(3) by (auto simp: admit_write_def Let_def split: if_splits sum.splits)
  from grounds has_valid_write_token_iff [OF assms(1,2), of r] p headroom_left [OF room] assms(3)
  show ?thesis by (auto simp: signed_lineage_writes_enabled_def)
qed

section \<open>Witnesses\<close>

definition demo_config :: public_edge_config where
  "demo_config = default_config\<lparr>pc_write_token := Some (replicate 32 (CHR ''k'')), pc_max_concurrency := 1,
     pc_requests_per_second := 1\<rparr>"

definition demo_policy :: edge_policy where
  "demo_policy = (case public_policy demo_ext demo_config of Inr p \<Rightarrow> p | Inl _ \<Rightarrow> local_policy)"

definition demo_fs :: file_system where
  "demo_fs path = (if path = [''data''] then Inr [File 1000, Directory ''forge'', Symlink]
     else if path = [''data'', ''forge''] then Inr [File 24] else Inl Io)"

definition demo_put :: edge_request where
  "demo_put = \<lparr> rq_method = M_Other ''POST'', rq_path = ''/v1/work'',
     rq_authorization = Some (''Bearer '' @ replicate 32 (CHR ''k'')), rq_content_length = Some ''512'' \<rparr>"

lemma demo_config_public: "public_policy demo_ext demo_config = Inr demo_policy"
  by code_simp

text \<open>The same write twice within a second: the first is forwarded, the second is over the budget.\<close>

definition demo_labels :: "edge_label list" where
  "demo_labels = [Entered demo_put None, Decided 7 demo_put Forward, Finished demo_put,
     Entered demo_put None, Decided 9 demo_put (rate_refusal Requests)]"

lemma edge_enter_step: "fst (edge_enter p r s) = reply \<Longrightarrow> edge_step X p s (Entered r reply) (snd (edge_enter p r s))"
  by (rule enter) auto

lemma edge_decide_step:
  "r \<in> set (running s) \<Longrightarrow> fst (edge_decide X p fs d now r s) = reply \<Longrightarrow>
   edge_step X p s (Decided now r reply) (snd (edge_decide X p fs d now r s))"
  by (rule decide) auto

definition demo_s1 :: edge_state where "demo_s1 = snd (edge_enter demo_policy demo_put (edge_start demo_config 5))"
definition demo_s2 :: edge_state where
  "demo_s2 = snd (edge_decide demo_ext demo_policy demo_fs [''data''] 7 demo_put demo_s1)"
definition demo_s4 :: edge_state where "demo_s4 = snd (edge_enter demo_policy demo_put (edge_leave demo_put demo_s2))"
definition demo_s5 :: edge_state where
  "demo_s5 = snd (edge_decide demo_ext demo_policy demo_fs [''data''] 9 demo_put demo_s4)"

lemma demo_replies:
  "fst (edge_enter demo_policy demo_put (edge_start demo_config 5)) = None"
  "fst (edge_decide demo_ext demo_policy demo_fs [''data''] 7 demo_put demo_s1) = Forward"
  "fst (edge_enter demo_policy demo_put (edge_leave demo_put demo_s2)) = None"
  "fst (edge_decide demo_ext demo_policy demo_fs [''data''] 9 demo_put demo_s4) = rate_refusal Requests"
  "demo_put \<in> set (running demo_s1)" "demo_put \<in> set (running demo_s2)" "demo_put \<in> set (running demo_s4)"
  by code_simp+

lemma demo_run: "edge_run demo_ext demo_policy (edge_start demo_config 5) demo_labels demo_s5"
  unfolding demo_labels_def run_steps.simps demo_s5_def
  using edge_enter_step [OF demo_replies(1)] edge_decide_step [OF demo_replies(5,2)] leave [OF demo_replies(6)]
    edge_enter_step [OF demo_replies(3)] edge_decide_step [OF demo_replies(7,4)]
  unfolding demo_s1_def [symmetric] demo_s2_def [symmetric] demo_s4_def [symmetric] by blast

lemma edge_limits_hold_witness:
  "length (running demo_s5) \<le> 1 \<and> spent label_instant (forwards is_write) 3 (3 + nanos 60) demo_labels \<le> 120 \<and>
   spent label_instant (forwards (\<lambda>_. True)) 7 (7 + nanos 1) demo_labels = 1"
proof -
  have "ordered label_instant demo_labels"
    by (simp add: ordered_def demo_labels_def List.map_filter_def)
  from edge_limits_hold [OF demo_config_public demo_run this, of 3] have
    "length (running demo_s5) \<le> 1" "spent label_instant (forwards is_write) 3 (3 + nanos 60) demo_labels \<le> 120"
    by (simp_all add: demo_config_def default_config_def)
  moreover have "spent label_instant (forwards (\<lambda>_. True)) 7 (7 + nanos 1) demo_labels = 1" by code_simp
  ultimately show ?thesis by blast
qed

lemma edge_write_admission_witness:
  "\<exists>n k. du demo_fs [''data''] n k \<and> int k \<le> MAX_STORAGE_WALK_ENTRIES \<and> n + 512 \<le> pc_max_storage_bytes demo_config"
proof -
  obtain s' where s': "edge_decide demo_ext demo_policy demo_fs [''data''] 7 demo_put demo_s1 = (Forward, s')"
    using demo_replies(2) by (metis prod.collapse)
  have "pc_max_storage_bytes demo_config < U64_MAX" "is_write demo_put" "claimed_bytes demo_put = 512"
    by code_simp+
  then show ?thesis
    using edge_write_admission [OF _ demo_config_public _ s'] demo_laws by (simp add: ext_laws_def)
qed

end
