(* ===== verification/Publication.thy ===== *)
theory Publication
  imports Federation_Import Startup Edge
begin

text \<open>
  Publication and replication: the table of relays the operator chose, the receipts they signed, the
  replication work item and the health report (\<^verbatim>\<open>src/src/db.rs\<close>), the loop that publishes the own
  log to a relay (\<^verbatim>\<open>src/src/publication.rs\<close>), the address it is given (\<^verbatim>\<open>src/src/client.rs\<close>) and the
  handler that answers on the relay's side (\<^verbatim>\<open>src/src/api.rs\<close>).  These functions run outside a
  transaction: a statement that was executed stays executed when a later one fails, so an operation
  answers with a result and the database it leaves.  Readings of the clock are arguments, in the order
  in which the code takes them.
\<close>

section \<open>The replication work item\<close>

definition RECENT_CONFIRMATION_HOURS :: int where
  "RECENT_CONFIRMATION_HOURS = 24"

definition hours :: "int \<Rightarrow> int" where
  "hours n = n * 60 * 60 * 1000000000"

definition replication_instructions :: "string \<Rightarrow> int \<Rightarrow> string" where
  "replication_instructions node desired =
     ''Help preserve origin '' @ node @ '' through at least '' @ show_int desired @
     '' distinct independently operated relays. Operate or nominate a relay only through locally authorized publication configuration, then require a valid signed replication receipt for the current head. A URL is not a replica, two URLs backed by one relay identity count once, and node or lineage secret keys must never be shared. Participation is voluntary.''"

text \<open>\<open>COUNT(DISTINCT relay_node_id)\<close>: a missing identity is not counted.\<close>

definition count_distinct :: "string option list \<Rightarrow> int" where
  "count_distinct xs = len (remdups (map the (filter (\<lambda>x. x \<noteq> None) xs)))"

definition confirmed_relays :: "int \<Rightarrow> string \<Rightarrow> int \<Rightarrow> target_row list \<Rightarrow> int" where
  "confirmed_relays cursor hash recent_after ts =
     count_distinct (map tgt_relay_node_id (filter (\<lambda>t. tgt_receipt t \<noteq> None \<and>
       tgt_acknowledged_cursor t = cursor \<and> tgt_acknowledged_event_hash t = hash \<and>
       (case tgt_last_success_at t of None \<Rightarrow> False | Some at \<Rightarrow> at \<ge> recent_after)) ts))"

definition stored_replica_target :: "(string \<Rightarrow> int option) \<Rightarrow> database \<Rightarrow> int result" where
  "stored_replica_target parse db =
     and_then (ok_or (map_of (meta db) ''desired_replicas'') Database) (\<lambda>v. ok_or (parse v) Internal)"

definition refresh_replication_work :: "ext \<Rightarrow> int \<Rightarrow> database \<Rightarrow> unit result \<times> database" where
  "refresh_replication_work X now db =
     (case map_of (meta db) ''node_id'' of
        None \<Rightarrow> (Inr (), db)
      | Some node \<Rightarrow>
          (case stored_replica_target parse_i64 db of
             Inl e \<Rightarrow> (Inl e, db)
           | Inr desired \<Rightarrow>
               let (cursor, hash) = current_head db;
                   confirmed = confirmed_relays cursor hash (millis (now - hours 24)) (publication_targets db);
                   work_id = work_id_of X ''replicate_origin'' node;
                   instructions = replication_instructions node desired;
                   db1 = insert_work_item X ''replicate_origin'' ''origin_node'' node instructions 0 cursor db in
               (Inr (), db1\<lparr>work_items := update_rows (\<lambda>w. wki_work_id w = work_id)
                 (\<lambda>w. if confirmed \<ge> desired
                      then w\<lparr>wki_instructions := instructions, wki_status := ''complete'',
                             wki_completed_sequence := Some cursor\<rparr>
                      else w\<lparr>wki_instructions := instructions, wki_status := ''open'',
                             wki_created_sequence := cursor, wki_completed_sequence := None\<rparr>)
                 (work_items db1)\<rparr>)))"

section \<open>Relays and receipts\<close>

definition new_target :: "string \<Rightarrow> int \<Rightarrow> target_row" where
  "new_target endpoint now =
     \<lparr> tgt_endpoint = endpoint, tgt_relay_node_id = None, tgt_relay_node_public_key = None,
       tgt_acknowledged_cursor = 0, tgt_acknowledged_event_hash = zero_hash, tgt_receipt = None,
       tgt_created_at = millis now, tgt_updated_at = millis now, tgt_last_attempt_at = None,
       tgt_last_success_at = None, tgt_consecutive_failures = 0, tgt_next_attempt_at = None,
       tgt_last_error = None \<rparr>"

definition configure_publication_target :: "ext \<Rightarrow> int \<Rightarrow> int \<Rightarrow> string \<Rightarrow> database \<Rightarrow> unit result \<times> database" where
  "configure_publication_target X now checked endpoint db =
     (if endpoint = [] \<or> len endpoint > 2048 then (Inl Validation, db)
      else refresh_replication_work X checked (db\<lparr>publication_targets :=
        insert_or_ignore (\<lambda>r s. tgt_endpoint r = tgt_endpoint s) (new_target endpoint now) (publication_targets db)\<rparr>))"

definition set_desired_replicas :: "ext \<Rightarrow> int \<Rightarrow> int \<Rightarrow> database \<Rightarrow> unit result \<times> database" where
  "set_desired_replicas X checked n db =
     (if n < 1 \<or> n > 16 then (Inl Validation, db)
      else refresh_replication_work X checked
        (db\<lparr>meta := set_value ''desired_replicas'' (show_int n) (meta db)\<rparr>))"

text \<open>The checks of \<open>record_publication_success\<close>, up to its \<open>UPDATE\<close>.\<close>

definition check_receipt :: "ext \<Rightarrow> node_identity \<Rightarrow> string \<Rightarrow> replication_receipt \<Rightarrow> database \<Rightarrow> unit result" where
  "check_receipt X me endpoint receipt db =
     and_then (verify_replication_receipt X receipt) (\<lambda>_.
     let c = rc_origin_checkpoint receipt in
     and_then (fail_if (cp_node_id c \<noteq> node_id me \<or> cp_node_public_key c \<noteq> node_public_key me) Unauthorized) (\<lambda>_.
     let local_event_hash = (if cp_cursor c = 0 then Some zero_hash
           else map_option ev_event_hash (first_row (\<lambda>r. ev_sequence r = cp_cursor c) (events db))) in
     and_then (fail_if (local_event_hash \<noteq> Some (cp_event_hash c)) Unauthorized) (\<lambda>_.
     and_then (ok_or (first_row (\<lambda>t. tgt_endpoint t = endpoint) (publication_targets db)) NotFound) (\<lambda>t.
     and_then (fail_if (tgt_relay_node_id t \<notin> {None, Some (rc_relay_node_id receipt)} \<or>
                        tgt_relay_node_public_key t \<notin> {None, Some (rc_relay_node_public_key receipt)}) Conflict) (\<lambda>_.
       fail_if (cp_cursor c < tgt_acknowledged_cursor t \<or>
                cp_cursor c = tgt_acknowledged_cursor t \<and> cp_event_hash c \<noteq> tgt_acknowledged_event_hash t) Conflict)))))"

definition acknowledge_target :: "int \<Rightarrow> replication_receipt \<Rightarrow> target_row \<Rightarrow> target_row" where
  "acknowledge_target now receipt t =
     t\<lparr> tgt_relay_node_id := Some (rc_relay_node_id receipt),
        tgt_relay_node_public_key := Some (rc_relay_node_public_key receipt),
        tgt_acknowledged_cursor := cp_cursor (rc_origin_checkpoint receipt),
        tgt_acknowledged_event_hash := cp_event_hash (rc_origin_checkpoint receipt),
        tgt_receipt := Some receipt, tgt_updated_at := millis now, tgt_last_attempt_at := Some (millis now),
        tgt_last_success_at := Some (millis now), tgt_consecutive_failures := 0,
        tgt_next_attempt_at := None, tgt_last_error := None \<rparr>"

definition record_publication_success ::
  "ext \<Rightarrow> node_identity \<Rightarrow> int \<Rightarrow> int \<Rightarrow> string \<Rightarrow> replication_receipt \<Rightarrow> database \<Rightarrow> unit result \<times> database" where
  "record_publication_success X me now checked endpoint receipt db =
     (case check_receipt X me endpoint receipt db of
        Inl e \<Rightarrow> (Inl e, db)
      | Inr _ \<Rightarrow> refresh_replication_work X checked (db\<lparr>publication_targets :=
          update_rows (\<lambda>t. tgt_endpoint t = endpoint) (acknowledge_target now receipt) (publication_targets db)\<rparr>))"

definition record_publication_failure ::
  "ext \<Rightarrow> int \<Rightarrow> int \<Rightarrow> string \<Rightarrow> string \<Rightarrow> int \<Rightarrow> database \<Rightarrow> unit result \<times> database" where
  "record_publication_failure X now checked endpoint message next_attempt_at db =
     (if first_row (\<lambda>t. tgt_endpoint t = endpoint) (publication_targets db) = None then (Inl NotFound, db)
      else refresh_replication_work X checked (db\<lparr>publication_targets :=
        update_rows (\<lambda>t. tgt_endpoint t = endpoint)
          (\<lambda>t. t\<lparr> tgt_updated_at := millis now, tgt_last_attempt_at := Some (millis now),
                  tgt_consecutive_failures := tgt_consecutive_failures t + 1,
                  tgt_next_attempt_at := Some (millis next_attempt_at),
                  tgt_last_error := Some (take_chars 1024 message) \<rparr>)
          (publication_targets db)\<rparr>))"

section \<open>The health report\<close>

record publication_target_view =
  ptv_endpoint :: string
  ptv_relay_node_id :: "string option"
  ptv_relay_node_public_key :: "string option"
  ptv_acknowledged_cursor :: int
  ptv_acknowledged_event_hash :: string
  ptv_at_current_head :: bool
  ptv_recently_reconfirmed :: bool
  ptv_last_attempt_at :: "int option"
  ptv_last_success_at :: "int option"
  ptv_consecutive_failures :: int
  ptv_next_attempt_at :: "int option"
  ptv_last_error :: "string option"
  ptv_receipt :: "replication_receipt option"

record replication_health_view =
  rh_generated_at :: int
  rh_origin_node_id :: string
  rh_current_cursor :: int
  rh_current_event_hash :: string
  rh_desired_replicas :: int
  rh_confirmed_current_replicas :: int
  rh_recently_reconfirmed_current_replicas :: int
  rh_status :: string
  rh_targets :: "publication_target_view list"

text \<open>\<open>str::parse::<u32>\<close>: an optional plus sign, at least one digit, and the 32-bit range.\<close>

definition parse_u32 :: "string \<Rightarrow> int option" where
  "parse_u32 s =
     (case parse_digits (if s \<noteq> [] \<and> hd s = CHR ''+'' then tl s else s) of
        None \<Rightarrow> None
      | Some i \<Rightarrow> if i < 2 ^ 32 then Some i else None)"

definition stored_receipt_matches :: "ext \<Rightarrow> node_identity \<Rightarrow> target_row \<Rightarrow> unit result" where
  "stored_receipt_matches X me t =
     (case tgt_receipt t of
        None \<Rightarrow> Inr ()
      | Some r \<Rightarrow>
          and_then (verify_replication_receipt X r) (\<lambda>_.
            fail_if (cp_node_id (rc_origin_checkpoint r) \<noteq> node_id me \<or>
                     cp_node_public_key (rc_origin_checkpoint r) \<noteq> node_public_key me \<or>
                     tgt_relay_node_id t \<noteq> Some (rc_relay_node_id r) \<or>
                     tgt_relay_node_public_key t \<noteq> Some (rc_relay_node_public_key r) \<or>
                     tgt_acknowledged_cursor t \<noteq> cp_cursor (rc_origin_checkpoint r) \<or>
                     tgt_acknowledged_event_hash t \<noteq> cp_event_hash (rc_origin_checkpoint r)) Internal))"

definition target_view :: "ext \<Rightarrow> node_identity \<Rightarrow> int \<Rightarrow> int \<times> string \<Rightarrow> target_row \<Rightarrow> publication_target_view result" where
  "target_view X me recent_after head t =
     and_then (stored_receipt_matches X me t) (\<lambda>_.
     let at_current_head = (tgt_receipt t \<noteq> None \<and> (tgt_acknowledged_cursor t, tgt_acknowledged_event_hash t) = head);
         recently_reconfirmed = (at_current_head \<and>
           (case tgt_last_success_at t of None \<Rightarrow> False | Some at \<Rightarrow> at \<ge> recent_after)) in
     and_then (fail_if (tgt_consecutive_failures t < 0 \<or> tgt_consecutive_failures t \<ge> 2 ^ 32) Internal) (\<lambda>_.
       Inr \<lparr> ptv_endpoint = tgt_endpoint t, ptv_relay_node_id = tgt_relay_node_id t,
             ptv_relay_node_public_key = tgt_relay_node_public_key t,
             ptv_acknowledged_cursor = tgt_acknowledged_cursor t,
             ptv_acknowledged_event_hash = tgt_acknowledged_event_hash t,
             ptv_at_current_head = at_current_head, ptv_recently_reconfirmed = recently_reconfirmed,
             ptv_last_attempt_at = tgt_last_attempt_at t, ptv_last_success_at = tgt_last_success_at t,
             ptv_consecutive_failures = tgt_consecutive_failures t,
             ptv_next_attempt_at = tgt_next_attempt_at t, ptv_last_error = tgt_last_error t,
             ptv_receipt = tgt_receipt t \<rparr>))"

text \<open>\<open>ORDER BY created_at ASC, endpoint ASC\<close>, and the two sets of relay identities.\<close>

definition target_before :: "target_row \<Rightarrow> target_row \<Rightarrow> bool" where
  "target_before a b \<longleftrightarrow> tgt_created_at a < tgt_created_at b \<or>
     tgt_created_at a = tgt_created_at b \<and> str_less (tgt_endpoint a) (tgt_endpoint b)"

definition relays_of :: "publication_target_view list \<Rightarrow> string list" where
  "relays_of vs = fold (\<lambda>v s. case ptv_relay_node_id v of None \<Rightarrow> s | Some relay \<Rightarrow> btree_insert relay s) vs []"

definition replication_status :: "publication_target_view list \<Rightarrow> int \<Rightarrow> int \<Rightarrow> string" where
  "replication_status targets recent desired =
     (if targets = [] then ''unconfigured''
      else if recent \<ge> desired then ''replicated''
      else if recent = 0 then ''unreplicated''
      else ''degraded'')"

definition replication_health :: "ext \<Rightarrow> node_identity \<Rightarrow> int \<Rightarrow> database \<Rightarrow> replication_health_view result" where
  "replication_health X me now db =
     and_then (stored_replica_target parse_u32 db) (\<lambda>desired.
     and_then (map_result (target_view X me (now - hours RECENT_CONFIRMATION_HOURS) (current_head db))
                 (order_by target_before (publication_targets db))) (\<lambda>targets.
     let confirmed = relays_of (filter ptv_at_current_head targets);
         recent = relays_of (filter ptv_recently_reconfirmed targets) in
     Inr \<lparr> rh_generated_at = now, rh_origin_node_id = node_id me,
           rh_current_cursor = fst (current_head db), rh_current_event_hash = snd (current_head db),
           rh_desired_replicas = desired, rh_confirmed_current_replicas = len confirmed,
           rh_recently_reconfirmed_current_replicas = len recent,
           rh_status = replication_status targets (len recent) desired, rh_targets = targets \<rparr>))"

section \<open>Publishing to a relay\<close>

record federation_publish_report =
  fpr_import :: federation_import_report
  fpr_receipt :: replication_receipt

text \<open>
  The address of a relay.  The URL library parses the text (\<open>x_url_parse\<close>), tells the path and prints the
  URL again with another path and without query and fragment.
\<close>

record url_printer =
  up_path :: "string \<Rightarrow> string"
  up_with_path :: "string \<Rightarrow> string \<Rightarrow> string"

definition normalize_server_url :: "ext \<Rightarrow> url_printer \<Rightarrow> string \<Rightarrow> string result" where
  "normalize_server_url X U server =
     and_then (ok_or (x_url_parse X server) Validation) (\<lambda>base.
     and_then (fail_if (u_scheme base \<notin> {''http'', ''https''} \<or> u_host base = None) Validation) (\<lambda>_.
     and_then (fail_if (u_username base \<noteq> [] \<or> u_password base \<noteq> None) Validation) (\<lambda>_.
     let path = up_path U server in
       Inr (up_with_path U server (if suffix ''/'' path then path else path @ ''/'')))))"

text \<open>
  What a run of \<open>publish_origin\<close> meets: the answers of the relay page by page (the HTTP client is not part
  of the model), the readings of the clock, what the other threads of the node do to the database between
  the accesses of the loop, which holds the lock only for one call at a time, and the text of an error.
\<close>

record relay_session =
  rl_answer :: "nat \<Rightarrow> federation_bundle \<Rightarrow> federation_publish_report result"
  rl_clock :: "nat \<Rightarrow> nat \<Rightarrow> int"
  rl_meanwhile :: "nat \<Rightarrow> database \<Rightarrow> database"
  rl_describe :: "error \<Rightarrow> string"

definition check_response :: "ext \<Rightarrow> node_identity \<Rightarrow> federation_bundle \<Rightarrow> federation_publish_report \<Rightarrow> unit result" where
  "check_response X me b response =
     and_then (fail_if (ir_origin_node_id (fpr_import response) \<noteq> node_id me \<or>
                        ir_current_cursor (fpr_import response) < fb_through_cursor b) Unauthorized) (\<lambda>_.
     and_then (verify_replication_receipt X (fpr_receipt response)) (\<lambda>_.
       fail_if (rc_origin_checkpoint (fpr_receipt response) \<noteq> fb_checkpoint b) Unauthorized))"

definition then_run :: "'a result \<times> database \<Rightarrow> ('a \<Rightarrow> database \<Rightarrow> 'b result \<times> database) \<Rightarrow> 'b result \<times> database" where
  "then_run r f = (case r of (Inl e, db) \<Rightarrow> (Inl e, db) | (Inr x, db) \<Rightarrow> f x db)"

text \<open>One turn of the loop: the bundle that was sent and the receipt that came back.\<close>

definition publish_page ::
  "ext \<Rightarrow> node_identity \<Rightarrow> relay_session \<Rightarrow> string \<Rightarrow> nat \<Rightarrow> nat \<Rightarrow> int \<Rightarrow> database \<Rightarrow>
   (federation_bundle \<times> replication_receipt) result \<times> database" where
  "publish_page X me R endpoint batch pages cursor db =
     (let db0 = rl_meanwhile R (2 * pages) db in
      then_run (federation_bundle_after X me (rl_clock R pages 0) cursor batch db0, db0) (\<lambda>b db0.
      let db1 = rl_meanwhile R (2 * pages + 1) db0 in
      then_run (and_then (rl_answer R pages b) (\<lambda>response.
                  and_then (check_response X me b response) (\<lambda>_. Inr (fpr_receipt response))), db1) (\<lambda>receipt db1.
      then_run (record_publication_success X me (rl_clock R pages 1) (rl_clock R pages 2) endpoint receipt db1)
        (\<lambda>_ db2. (Inr (b, receipt), db2)))))"

record publish_progress =
  pp_cursor :: int
  pp_relay_node_id :: string
  pp_published_events :: nat
  pp_pages :: nat

definition advance_progress :: "federation_bundle \<Rightarrow> replication_receipt \<Rightarrow> publish_progress \<Rightarrow> publish_progress" where
  "advance_progress b receipt p =
     \<lparr> pp_cursor = fb_through_cursor b, pp_relay_node_id = rc_relay_node_id receipt,
       pp_published_events = pp_published_events p + length (fb_events b), pp_pages = pp_pages p + 1 \<rparr>"

text \<open>The loop ends because a bundle with events reaches beyond the cursor it was asked from.\<close>

lemma bundle_advances:
  assumes "federation_bundle_after X me now after limit db = Inr b"
  shows "fb_events b \<noteq> [] \<Longrightarrow> after < fb_through_cursor b" "fb_events b = [] \<Longrightarrow> fb_through_cursor b = after"
proof -
  obtain rs es where rs: "rs = take (clamp_limit limit) (filter (\<lambda>r. ev_sequence r > after) (events db))"
    and es: "map_result (origin_event_of X) rs = Inr es" "fb_events b = es"
    "fb_through_cursor b = (if es = [] then after else oe_sequence (last es))"
    using assms by (auto simp: federation_bundle_after_def origin_events_after_def Let_def)
  show "fb_events b = [] \<Longrightarrow> fb_through_cursor b = after" using es by simp
  assume "fb_events b \<noteq> []"
  then have ne: "es \<noteq> []" "rs \<noteq> []" and len: "length es = length rs"
    using es by (auto simp: map_result_Inr dest: list_all2_lengthD)
  have "origin_event_of X (last rs) = Inr (last es)"
    using es(1) ne len by (simp add: map_result_Inr list_all2_conv_all_nth last_conv_nth)
  then have "oe_sequence (last es) = ev_sequence (last rs)" by (rule origin_event_of_Inr [THEN conjunct1])
  moreover have "last rs \<in> set (filter (\<lambda>r. ev_sequence r > after) (events db))"
    using last_in_set [OF ne(2)] unfolding rs by (rule in_set_takeD)
  ultimately show "after < fb_through_cursor b" using es(3) ne by simp
qed

lemma then_run_Inr:
  "then_run r f = (Inr y, db') \<longleftrightarrow> (\<exists>x db. r = (Inr x, db) \<and> f x db = (Inr y, db'))"
  by (auto simp: then_run_def split: sum.splits prod.splits)

lemma publish_page_Inr:
  assumes "publish_page X me R endpoint batch pages cursor db = (Inr (b, receipt), db')"
  obtains db0 db1 response where "db0 = rl_meanwhile R (2 * pages) db"
    "federation_bundle_after X me (rl_clock R pages 0) cursor batch db0 = Inr b"
    "db1 = rl_meanwhile R (2 * pages + 1) db0" "rl_answer R pages b = Inr response"
    "check_response X me b response = Inr ()" "receipt = fpr_receipt response"
    "record_publication_success X me (rl_clock R pages 1) (rl_clock R pages 2) endpoint receipt db1 = (Inr (), db')"
  using assms by (auto simp: publish_page_def Let_def then_run_Inr)

lemma page_advances:
  assumes "publish_page X me R endpoint batch pages cursor db = (Inr (b, receipt), db')" and "fb_events b \<noteq> []"
  shows "cursor < fb_through_cursor b"
  using assms(1) by (rule publish_page_Inr) (use assms(2) bundle_advances(1) in blast)

function publish_pages ::
  "ext \<Rightarrow> node_identity \<Rightarrow> relay_session \<Rightarrow> string \<Rightarrow> nat \<Rightarrow> nat option \<Rightarrow> int \<Rightarrow> publish_progress \<Rightarrow> database \<Rightarrow>
   publish_progress result \<times> database" where
  "publish_pages X me R endpoint batch max_pages snapshot p db =
     (case publish_page X me R endpoint batch (pp_pages p) (pp_cursor p) db of
        (Inl e, db1) \<Rightarrow> (Inl e, db1)
      | (Inr (b, receipt), db1) \<Rightarrow>
          let q = advance_progress b receipt p in
          if pp_cursor q \<ge> snapshot \<or> fb_events b = [] then (Inr q, db1)
          else if (case max_pages of None \<Rightarrow> False | Some m \<Rightarrow> pp_pages q \<ge> max m 1) then (Inr q, db1)
          else publish_pages X me R endpoint batch max_pages snapshot q db1)"
  by pat_completeness auto
termination
  by (relation "measure (\<lambda>(X, me, R, endpoint, batch, max_pages, snapshot, p, db). nat (snapshot - pp_cursor p))")
    (force simp: advance_progress_def dest: page_advances [OF sym])+

declare publish_pages.simps [simp del]

record publication_run_report =
  prr_caught_up :: bool
  prr_endpoint :: string
  prr_relay_node_id :: string
  prr_snapshot_cursor :: int
  prr_acknowledged_cursor :: int
  prr_published_events :: nat
  prr_pages :: nat
  prr_reconfirmed_unchanged_head :: bool

definition publication_report :: "string \<Rightarrow> int \<Rightarrow> int \<Rightarrow> publish_progress \<Rightarrow> publication_run_report" where
  "publication_report endpoint snapshot initial p =
     \<lparr> prr_caught_up = (pp_cursor p \<ge> snapshot), prr_endpoint = endpoint,
       prr_relay_node_id = pp_relay_node_id p, prr_snapshot_cursor = snapshot,
       prr_acknowledged_cursor = pp_cursor p, prr_published_events = pp_published_events p,
       prr_pages = pp_pages p,
       prr_reconfirmed_unchanged_head = (initial = snapshot \<and> pp_published_events p = 0) \<rparr>"

definition find_target :: "string \<Rightarrow> replication_health_view \<Rightarrow> publication_target_view option" where
  "find_target endpoint h = find (\<lambda>v. ptv_endpoint v = endpoint) (rh_targets h)"

text \<open>The checks before the loop: the stored state has to lie on the own log.\<close>

definition publication_start :: "ext \<Rightarrow> node_identity \<Rightarrow> int \<Rightarrow> string \<Rightarrow> database \<Rightarrow> (publication_target_view \<times> int) result" where
  "publication_start X me now endpoint db =
     and_then (replication_health X me now db) (\<lambda>h.
     and_then (ok_or (find_target endpoint h) NotFound) (\<lambda>target.
     let snapshot_cursor = fst (current_head db) in
     and_then (fail_if (ptv_acknowledged_cursor target > snapshot_cursor) Conflict) (\<lambda>_.
     and_then (event_hash_at db (ptv_acknowledged_cursor target)) (\<lambda>hash.
     and_then (fail_if (hash \<noteq> ptv_acknowledged_event_hash target) Conflict) (\<lambda>_.
       Inr (target, snapshot_cursor))))))"

definition publish_origin_inner ::
  "ext \<Rightarrow> node_identity \<Rightarrow> relay_session \<Rightarrow> int \<Rightarrow> string \<Rightarrow> nat \<Rightarrow> nat option \<Rightarrow> database \<Rightarrow>
   publication_run_report result \<times> database" where
  "publish_origin_inner X me R now endpoint batch_size max_pages db =
     then_run (publication_start X me now endpoint db, db) (\<lambda>(target, snapshot) db.
     then_run (publish_pages X me R endpoint (clamp_limit batch_size) max_pages snapshot
         \<lparr> pp_cursor = ptv_acknowledged_cursor target,
           pp_relay_node_id = (case ptv_relay_node_id target of None \<Rightarrow> [] | Some i \<Rightarrow> i),
           pp_published_events = 0, pp_pages = 0 \<rparr> db) (\<lambda>p db.
       (Inr (publication_report endpoint snapshot (ptv_acknowledged_cursor target) p), db)))"

text \<open>The delay after a failure, in seconds: doubled with each failure in a row, up to an hour.\<close>

definition retry_delay :: "int \<Rightarrow> int" where
  "retry_delay failures = min (30 * 2 ^ nat (min failures 7)) 3600"

record publish_clock =
  pc_configured :: int
  pc_refreshed :: int
  pc_started :: int
  pc_failed :: int
  pc_next :: int
  pc_noted :: int
  pc_rechecked :: int

definition note_failure ::
  "ext \<Rightarrow> node_identity \<Rightarrow> relay_session \<Rightarrow> publish_clock \<Rightarrow> string \<Rightarrow> error \<Rightarrow> database \<Rightarrow>
   publication_run_report result \<times> database" where
  "note_failure X me R C endpoint e db =
     then_run (replication_health X me (pc_failed C) db, db) (\<lambda>h db.
     let failures = (case find_target endpoint h of None \<Rightarrow> 0 | Some v \<Rightarrow> ptv_consecutive_failures v) in
     then_run (record_publication_failure X (pc_noted C) (pc_rechecked C) endpoint (rl_describe R e)
                 (pc_next C + seconds (retry_delay failures)) db) (\<lambda>_ db. (Inl e, db)))"

definition publish_origin ::
  "ext \<Rightarrow> url_printer \<Rightarrow> node_identity \<Rightarrow> relay_session \<Rightarrow> publish_clock \<Rightarrow> string \<Rightarrow> nat \<Rightarrow> nat option \<Rightarrow> database \<Rightarrow>
   publication_run_report result \<times> database" where
  "publish_origin X U me R C relay batch_size max_pages db =
     then_run (normalize_server_url X U relay, db) (\<lambda>endpoint db.
     then_run (configure_publication_target X (pc_configured C) (pc_refreshed C) endpoint db) (\<lambda>_ db.
     case publish_origin_inner X me R (pc_started C) endpoint batch_size max_pages db of
       (Inl e, db1) \<Rightarrow> note_failure X me R C endpoint e db1
     | answered \<Rightarrow> answered))"

section \<open>The relay's side\<close>

text \<open>The handlers \<open>import_federation_bundle\<close> and \<open>publish_federation_bundle\<close> of \<^verbatim>\<open>api.rs\<close>; the
  admission guard they hold keeps two of them from running at the same time.\<close>

record import_clock =
  ic_observed :: int
  ic_now :: int
  ic_detected :: int
  ic_received :: int
  ic_retained :: int

definition handle_import ::
  "ext \<Rightarrow> node_identity \<Rightarrow> edge_policy \<Rightarrow> import_clock \<Rightarrow> edge_request \<Rightarrow> federation_bundle \<Rightarrow> database \<Rightarrow>
   federation_import_report result \<times> database" where
  "handle_import X me policy C headers b db =
     then_run (authorize_federation_bundle X policy headers (fb_origin_node_id b) (cp_cursor (fb_checkpoint b)) db, db)
       (\<lambda>_ db. import_federation_bundle X me (ic_observed C) (ic_now C) (ic_detected C) (ic_received C) b db)"

definition handle_publish ::
  "ext \<Rightarrow> node_identity \<Rightarrow> edge_policy \<Rightarrow> import_clock \<Rightarrow> edge_request \<Rightarrow> federation_bundle \<Rightarrow> database \<Rightarrow>
   federation_publish_report result \<times> database" where
  "handle_publish X me policy C headers b db =
     then_run (handle_import X me policy C headers b db) (\<lambda>report db.
     then_run (make_replication_receipt X me (ic_retained C) (fb_checkpoint b), db) (\<lambda>receipt db.
       (Inr \<lparr> fpr_import = report, fpr_receipt = receipt \<rparr>, db)))"

section \<open>The writes of publication\<close>

text \<open>The operations of this component that write to the database, each under one hold of the lock; the
  page of open work refreshes the work item as well.  A refused operation may have written.\<close>

inductive publication_step :: "ext \<Rightarrow> node_identity \<Rightarrow> database \<Rightarrow> database \<Rightarrow> bool" for X me where
  relay_configured: "publication_step X me db (snd (configure_publication_target X now checked endpoint db))"
| replicas_desired: "publication_step X me db (snd (set_desired_replicas X checked n db))"
| receipt_recorded: "publication_step X me db (snd (record_publication_success X me now checked endpoint receipt db))"
| failure_recorded: "publication_step X me db (snd (record_publication_failure X now checked endpoint message next_at db))"
| work_refreshed: "publication_step X me db (snd (refresh_replication_work X now db))"

inductive_cases publication_stepE: "publication_step X me db db'"

section \<open>Lemmas on the work item and the settings\<close>

lemma refresh_frame: "\<exists>ws. snd (refresh_replication_work X now db) = db\<lparr>work_items := ws\<rparr>"
proof -
  have same: "\<exists>ws. db = db\<lparr>work_items := ws\<rparr>" by (rule exI [of _ "work_items db"]) simp
  show ?thesis
    using same by (auto simp: refresh_replication_work_def insert_work_item_def Let_def case_prod_beta
        split: option.splits sum.splits)
qed

lemma refreshE:
  assumes "refresh_replication_work X now db = (r, db')"
  obtains ws where "db' = db\<lparr>work_items := ws\<rparr>"
  using refresh_frame [of X now db] assms by auto

definition settings_ok :: "database \<Rightarrow> bool" where
  "settings_ok db \<longleftrightarrow> (\<exists>n. 1 \<le> n \<and> n \<le> 16 \<and> map_of (meta db) ''desired_replicas'' = Some (show_int n))"

lemma parse_u32_show_int:
  assumes "0 \<le> n" and "n < 2 ^ 32"
  shows "parse_u32 (show_int n) = Some n"
proof -
  obtain c cs where d: "dec_digits n = c # cs" "c \<noteq> CHR ''+''" using dec_digits_hd [OF assms(1)] by metis
  have "parse_digits (c # cs) = Some n" using parse_digits_dec_digits [OF assms(1)] d(1) by simp
  with d assms show ?thesis by (simp add: parse_u32_def show_int_def)
qed

lemma settings_parse:
  assumes "settings_ok db"
  obtains n where "1 \<le> n" "n \<le> 16" "stored_replica_target parse_i64 db = Inr n" "stored_replica_target parse_u32 db = Inr n"
proof -
  obtain n where n: "1 \<le> n" "n \<le> 16" "map_of (meta db) ''desired_replicas'' = Some (show_int n)"
    using assms by (auto simp: settings_ok_def)
  have "parse_i64 (show_int n) = Some n" "parse_u32 (show_int n) = Some n"
    using n by (auto intro!: parse_i64_show_int parse_u32_show_int simp: i64_range_def)
  with n show thesis by (intro that [of n]) (simp_all add: stored_replica_target_def)
qed

lemma refresh_succeeds:
  assumes "settings_ok db"
  shows "fst (refresh_replication_work X now db) = Inr ()"
proof -
  obtain n where "stored_replica_target parse_i64 db = Inr n" using assms by (rule settings_parse)
  then show ?thesis by (auto simp: refresh_replication_work_def Let_def case_prod_beta split: option.splits)
qed

section \<open>What the table of relays says about the log\<close>

text \<open>A row without a receipt acknowledges nothing; a row with one agrees with its receipt, and the
  acknowledged head lies on the own log.\<close>

definition target_ok :: "ext \<Rightarrow> node_identity \<Rightarrow> database \<Rightarrow> target_row \<Rightarrow> bool" where
  "target_ok X me db t \<longleftrightarrow> stored_receipt_matches X me t = Inr () \<and>
     event_hash_at db (tgt_acknowledged_cursor t) = Inr (tgt_acknowledged_event_hash t) \<and>
     (tgt_receipt t = None \<longrightarrow> tgt_acknowledged_cursor t = 0) \<and> 0 \<le> tgt_consecutive_failures t"

definition targets_ok :: "ext \<Rightarrow> node_identity \<Rightarrow> database \<Rightarrow> bool" where
  "targets_ok X me db \<longleftrightarrow> distinct (map tgt_endpoint (publication_targets db)) \<and>
     (\<forall>t\<in>set (publication_targets db). target_ok X me db t)"

text \<open>How a row may develop: the endpoint and a known relay identity stay, the cursor never falls.\<close>

definition row_advances :: "target_row \<Rightarrow> target_row \<Rightarrow> bool" where
  "row_advances t t' \<longleftrightarrow> tgt_endpoint t' = tgt_endpoint t \<and> tgt_acknowledged_cursor t \<le> tgt_acknowledged_cursor t' \<and>
     (tgt_relay_node_id t = None \<or> tgt_relay_node_id t' = tgt_relay_node_id t) \<and>
     (tgt_relay_node_public_key t = None \<or> tgt_relay_node_public_key t' = tgt_relay_node_public_key t)"

text \<open>And how a database may develop while relays are published to.\<close>

definition evolves :: "ext \<Rightarrow> node_identity \<Rightarrow> database \<Rightarrow> database \<Rightarrow> bool" where
  "evolves X me db db' \<longleftrightarrow> prefix (events db) (events db') \<and>
     (settings_ok db \<longrightarrow> settings_ok db') \<and>
     (targets_ok X me db \<longrightarrow> targets_ok X me db' \<and>
        (\<forall>t\<in>set (publication_targets db). \<exists>t'\<in>set (publication_targets db'). row_advances t t'))"

lemma row_advances_refl [simp]: "row_advances t t"
  by (simp add: row_advances_def)

lemma row_advances_trans: "row_advances t t' \<Longrightarrow> row_advances t' t'' \<Longrightarrow> row_advances t t''"
  by (auto simp: row_advances_def)

lemma rows_kept: "t \<in> set ts \<Longrightarrow> \<exists>t'\<in>set ts. row_advances t t'"
  by (rule bexI [of _ t]) simp_all

lemma evolves_refl [simp]: "evolves X me db db"
  by (simp add: evolves_def rows_kept)

lemma evolves_trans: "evolves X me db db' \<Longrightarrow> evolves X me db' db'' \<Longrightarrow> evolves X me db db''"
  unfolding evolves_def by (meson prefix_order.trans row_advances_trans)

lemma event_hash_at_cong: "events db = events db' \<Longrightarrow> event_hash_at db c = event_hash_at db' c"
  by (simp add: event_hash_at_def)

lemma target_ok_cong:
  "events db = events db' \<Longrightarrow> target_ok X me db t = target_ok X me db' t"
  by (simp add: target_ok_def event_hash_at_def)

text \<open>A log that grew still has the acknowledged heads.\<close>

lemma event_hash_at_prefix:
  assumes "prefix (events db) (events db')" and "event_hash_at db c = Inr h"
  shows "event_hash_at db' c = Inr h"
proof -
  obtain rest where "events db' = events db @ rest" using assms(1) by (auto simp: prefix_def)
  with assms(2) show ?thesis
    by (auto simp: event_hash_at_def split: if_splits option.splits simp del: first_row_None)
qed

lemma targets_ok_prefix:
  assumes "targets_ok X me db" and "prefix (events db) (events db')" and "publication_targets db' = publication_targets db"
  shows "targets_ok X me db'"
  using assms event_hash_at_prefix [OF assms(2)] by (auto simp: targets_ok_def target_ok_def)

lemma evolves_log_growth:
  assumes "prefix (events db) (events db')" and "publication_targets db' = publication_targets db" and "meta db' = meta db"
  shows "evolves X me db db'"
  unfolding evolves_def
  using assms targets_ok_prefix [OF _ assms(1,2)] by (simp add: settings_ok_def rows_kept)

lemma evolves_refresh: "evolves X me db (snd (refresh_replication_work X now db))"
  using refresh_frame [of X now db] by (auto intro!: evolves_log_growth)

text \<open>The tables an operation writes before the work item is refreshed.\<close>

lemma evolves_rows:
  assumes "targets_ok X me db \<Longrightarrow> distinct (map tgt_endpoint ts)"
    and "\<And>t. targets_ok X me db \<Longrightarrow> t \<in> set ts \<Longrightarrow> target_ok X me db t"
    and "\<And>t. targets_ok X me db \<Longrightarrow> t \<in> set (publication_targets db) \<Longrightarrow> \<exists>t'\<in>set ts. row_advances t t'"
  shows "evolves X me db (db\<lparr>publication_targets := ts\<rparr>)"
  using assms target_ok_cong [of db "db\<lparr>publication_targets := ts\<rparr>" X me]
  unfolding evolves_def targets_ok_def [of X me "db\<lparr>publication_targets := ts\<rparr>"]
  by (simp add: settings_ok_def)

lemma new_target_ok: "target_ok X me db (new_target endpoint now)"
  by (simp add: target_ok_def new_target_def stored_receipt_matches_def event_hash_at_def)

lemma evolves_configure: "evolves X me db (snd (configure_publication_target X now checked endpoint db))"
proof -
  let ?ts = "insert_or_ignore (\<lambda>r s. tgt_endpoint r = tgt_endpoint s) (new_target endpoint now) (publication_targets db)"
  have "evolves X me db (db\<lparr>publication_targets := ?ts\<rparr>)"
  proof (rule evolves_rows)
    assume "targets_ok X me db"
    then show "distinct (map tgt_endpoint ?ts)"
      by (intro insert_or_ignore_distinct) (auto simp: targets_ok_def)
    show "\<And>t. t \<in> set ?ts \<Longrightarrow> target_ok X me db t"
      using \<open>targets_ok X me db\<close> new_target_ok by (auto simp: insert_or_ignore_def targets_ok_def split: if_splits)
  next
    fix t assume "t \<in> set (publication_targets db)"
    then show "\<exists>t'\<in>set ?ts. row_advances t t'"
      by (intro bexI [of _ t]) (simp_all add: insert_or_ignore_def)
  qed
  then show ?thesis
    using evolves_trans evolves_refresh by (auto simp: configure_publication_target_def)
qed

lemma evolves_set_desired: "evolves X me db (snd (set_desired_replicas X checked n db))"
proof (cases "n < 1 \<or> n > 16")
  case False
  let ?db = "db\<lparr>meta := set_value ''desired_replicas'' (show_int n) (meta db)\<rparr>"
  have "settings_ok ?db" using False by (auto simp: settings_ok_def map_of_set_value intro!: exI [of _ n])
  then have "evolves X me db ?db"
    using targets_ok_prefix [of X me db ?db] by (auto simp: evolves_def rows_kept)
  with False show ?thesis by (auto simp: set_desired_replicas_def intro: evolves_trans [OF _ evolves_refresh])
qed (simp add: set_desired_replicas_def)

lemma check_receipt_Inr:
  assumes "check_receipt X me endpoint receipt db = Inr u"
  obtains t where "t \<in> set (publication_targets db)" "tgt_endpoint t = endpoint"
    "verify_replication_receipt X receipt = Inr ()"
    "cp_node_id (rc_origin_checkpoint receipt) = node_id me"
    "cp_node_public_key (rc_origin_checkpoint receipt) = node_public_key me"
    "event_hash_at db (cp_cursor (rc_origin_checkpoint receipt)) = Inr (cp_event_hash (rc_origin_checkpoint receipt))"
    "tgt_relay_node_id t \<in> {None, Some (rc_relay_node_id receipt)}"
    "tgt_relay_node_public_key t \<in> {None, Some (rc_relay_node_public_key receipt)}"
    "tgt_acknowledged_cursor t \<le> cp_cursor (rc_origin_checkpoint receipt)"
proof -
  from assms obtain t where t: "first_row (\<lambda>t. tgt_endpoint t = endpoint) (publication_targets db) = Some t"
    and rest: "verify_replication_receipt X receipt = Inr ()"
      "cp_node_id (rc_origin_checkpoint receipt) = node_id me"
      "cp_node_public_key (rc_origin_checkpoint receipt) = node_public_key me"
      "(if cp_cursor (rc_origin_checkpoint receipt) = 0 then Some zero_hash else map_option ev_event_hash
          (first_row (\<lambda>r. ev_sequence r = cp_cursor (rc_origin_checkpoint receipt)) (events db))) =
        Some (cp_event_hash (rc_origin_checkpoint receipt))"
      "tgt_relay_node_id t \<in> {None, Some (rc_relay_node_id receipt)}"
      "tgt_relay_node_public_key t \<in> {None, Some (rc_relay_node_public_key receipt)}"
      "tgt_acknowledged_cursor t \<le> cp_cursor (rc_origin_checkpoint receipt)"
    unfolding check_receipt_def Let_def by (auto simp: not_less simp del: insert_iff)
  have "0 \<le> cp_cursor (rc_origin_checkpoint receipt)"
    using rest(1) by (auto simp: verify_replication_receipt_def not_less)
  with rest(4) have "event_hash_at db (cp_cursor (rc_origin_checkpoint receipt)) = Inr (cp_event_hash (rc_origin_checkpoint receipt))"
    by (auto simp: event_hash_at_def split: if_splits)
  with first_row_Some [OF t] rest that show thesis by blast
qed

lemma evolves_success: "evolves X me db (snd (record_publication_success X me now checked endpoint receipt db))"
proof (cases "check_receipt X me endpoint receipt db")
  case (Inr u)
  then obtain t where t: "t \<in> set (publication_targets db)" "tgt_endpoint t = endpoint"
    "verify_replication_receipt X receipt = Inr ()"
    "cp_node_id (rc_origin_checkpoint receipt) = node_id me"
    "cp_node_public_key (rc_origin_checkpoint receipt) = node_public_key me"
    "event_hash_at db (cp_cursor (rc_origin_checkpoint receipt)) = Inr (cp_event_hash (rc_origin_checkpoint receipt))"
    "tgt_relay_node_id t \<in> {None, Some (rc_relay_node_id receipt)}"
    "tgt_relay_node_public_key t \<in> {None, Some (rc_relay_node_public_key receipt)}"
    "tgt_acknowledged_cursor t \<le> cp_cursor (rc_origin_checkpoint receipt)"
    by (rule check_receipt_Inr)
  let ?ts = "update_rows (\<lambda>t. tgt_endpoint t = endpoint) (acknowledge_target now receipt) (publication_targets db)"
  have ok: "target_ok X me db (acknowledge_target now receipt r)" for r
    using t(3-6) by (simp add: target_ok_def acknowledge_target_def stored_receipt_matches_def)
  have "evolves X me db (db\<lparr>publication_targets := ?ts\<rparr>)"
  proof (rule evolves_rows)
    assume k: "targets_ok X me db"
    have "map tgt_endpoint ?ts = map tgt_endpoint (publication_targets db)"
      by (rule update_rows_keys) (simp add: acknowledge_target_def)
    with k show "distinct (map tgt_endpoint ?ts)" by (simp add: targets_ok_def)
    show "\<And>r. r \<in> set ?ts \<Longrightarrow> target_ok X me db r" using k ok by (auto simp: in_update_rows targets_ok_def)
    fix r assume r: "r \<in> set (publication_targets db)"
    have "row_advances r (if tgt_endpoint r = endpoint then acknowledge_target now receipt r else r)"
    proof (cases "tgt_endpoint r = endpoint")
      case True
      then have "r = t" using k r t(1,2) by (auto simp: targets_ok_def distinct_map inj_on_def)
      with True t(7-9) show ?thesis by (auto simp: row_advances_def acknowledge_target_def)
    qed simp
    with r show "\<exists>r'\<in>set ?ts. row_advances r r'"
      by (intro bexI [of _ "if tgt_endpoint r = endpoint then acknowledge_target now receipt r else r"])
        (auto simp: in_update_rows)
  qed
  with Inr show ?thesis by (auto simp: record_publication_success_def intro: evolves_trans [OF _ evolves_refresh])
qed (simp add: record_publication_success_def)

lemma evolves_failure:
  "evolves X me db (snd (record_publication_failure X now checked endpoint message next_at db))"
proof -
  let ?f = "\<lambda>t. t\<lparr> tgt_updated_at := millis now, tgt_last_attempt_at := Some (millis now),
                  tgt_consecutive_failures := tgt_consecutive_failures t + 1,
                  tgt_next_attempt_at := Some (millis next_at),
                  tgt_last_error := Some (take_chars 1024 message) \<rparr>"
  let ?ts = "update_rows (\<lambda>t. tgt_endpoint t = endpoint) ?f (publication_targets db)"
  have "evolves X me db (db\<lparr>publication_targets := ?ts\<rparr>)"
  proof (rule evolves_rows)
    assume k: "targets_ok X me db"
    have "map tgt_endpoint ?ts = map tgt_endpoint (publication_targets db)" by (rule update_rows_keys) simp
    with k show "distinct (map tgt_endpoint ?ts)" by (simp add: targets_ok_def)
    have "target_ok X me db (?f r)" if "target_ok X me db r" for r
      using that by (cases "tgt_receipt r") (auto simp: target_ok_def stored_receipt_matches_def)
    with k show "\<And>r. r \<in> set ?ts \<Longrightarrow> target_ok X me db r" by (auto simp: in_update_rows targets_ok_def)
    fix r assume "r \<in> set (publication_targets db)"
    then show "\<exists>r'\<in>set ?ts. row_advances r r'"
      by (intro bexI [of _ "if tgt_endpoint r = endpoint then ?f r else r"]) (auto simp: in_update_rows row_advances_def)
  qed
  then show ?thesis by (auto simp: record_publication_failure_def intro: evolves_trans [OF _ evolves_refresh])
qed

lemmas evolves_writes = evolves_configure evolves_set_desired evolves_success evolves_failure evolves_refresh

lemma publication_step_evolves: "publication_step X me db db' \<Longrightarrow> evolves X me db db'"
  by (elim publication_stepE) (simp_all add: evolves_writes)

text \<open>Beyond the table of relays and the work items only the one setting changes.\<close>

definition beyond_publication :: "database \<Rightarrow> database" where
  "beyond_publication db = db\<lparr>meta := [], publication_targets := [], work_items := []\<rparr>"

lemma beyond_publication_write [simp]:
  "beyond_publication (db\<lparr>publication_targets := ts\<rparr>) = beyond_publication db"
  "beyond_publication (db\<lparr>meta := m\<rparr>) = beyond_publication db"
  by (simp_all add: beyond_publication_def)

lemma beyond_refresh:
  "beyond_publication (snd (refresh_replication_work X now db)) = beyond_publication db"
  "meta (snd (refresh_replication_work X now db)) = meta db"
  using refresh_frame [of X now db] by (auto simp: beyond_publication_def)

lemma publication_step_frame:
  assumes "publication_step X me db db'"
  shows "beyond_publication db' = beyond_publication db"
    and "meta db' = meta db \<or> (\<exists>v. meta db' = set_value ''desired_replicas'' v (meta db))"
proof -
  have "beyond_publication db' = beyond_publication db \<and>
      (meta db' = meta db \<or> (\<exists>v. meta db' = set_value ''desired_replicas'' v (meta db)))"
    using assms
    by (elim publication_stepE)
      (auto simp: configure_publication_target_def set_desired_replicas_def record_publication_success_def
        record_publication_failure_def beyond_refresh split: sum.splits)
  then show "beyond_publication db' = beyond_publication db"
    "meta db' = meta db \<or> (\<exists>v. meta db' = set_value ''desired_replicas'' v (meta db))" by simp_all
qed

section \<open>What a run of publication guarantees\<close>

lemma evolves_then_run:
  assumes "evolves X me db (snd r)" and "\<And>x d. r = (Inr x, d) \<Longrightarrow> evolves X me d (snd (f x d))"
  shows "evolves X me db (snd (then_run r f))"
  using assms by (cases r) (auto simp: then_run_def split: sum.splits intro: evolves_trans)

lemma evolves_page:
  assumes "\<And>k d. evolves X me d (rl_meanwhile R k d)"
  shows "evolves X me db (snd (publish_page X me R endpoint batch pages cursor db))"
  unfolding publish_page_def Let_def
  by (auto intro!: evolves_then_run evolves_success assms intro: evolves_trans [OF assms assms])

text \<open>The rule of the loop: what holds at every turn, and what follows when it is left.\<close>

lemma publish_pages_rule:
  assumes "I p db"
    and fail: "\<And>p d e d'. I p d \<Longrightarrow> publish_page X me R endpoint batch (pp_pages p) (pp_cursor p) d = (Inl e, d') \<Longrightarrow> Q (Inl e, d')"
    and more: "\<And>p d b r d'. I p d \<Longrightarrow> publish_page X me R endpoint batch (pp_pages p) (pp_cursor p) d = (Inr (b, r), d') \<Longrightarrow>
      I (advance_progress b r p) d'"
    and stop: "\<And>p d b r d'. I p d \<Longrightarrow> publish_page X me R endpoint batch (pp_pages p) (pp_cursor p) d = (Inr (b, r), d') \<Longrightarrow>
      snapshot \<le> fb_through_cursor b \<or> fb_events b = [] \<or> max_pages \<noteq> None \<Longrightarrow> Q (Inr (advance_progress b r p), d')"
  shows "Q (publish_pages X me R endpoint batch max_pages snapshot p db)"
  using assms(1)
proof (induction "nat (snapshot - pp_cursor p)" arbitrary: p db rule: less_induct)
  case less
  note unfold = publish_pages.simps [of X me R endpoint batch max_pages snapshot p db]
  obtain r d where page: "publish_page X me R endpoint batch (pp_pages p) (pp_cursor p) db = (r, d)" by fastforce
  show ?case
  proof (cases r)
    case (Inl e)
    with fail [OF less.prems] page show ?thesis by (simp add: unfold)
  next
    case (Inr pair)
    then obtain b receipt where p: "publish_page X me R endpoint batch (pp_pages p) (pp_cursor p) db = (Inr (b, receipt), d)"
      using page by (cases pair) simp
    let ?q = "advance_progress b receipt p"
    consider (out) "snapshot \<le> fb_through_cursor b \<or> fb_events b = []"
      | (limit) "\<not> (snapshot \<le> fb_through_cursor b \<or> fb_events b = [])"
          "case max_pages of None \<Rightarrow> False | Some m \<Rightarrow> pp_pages ?q \<ge> max m 1"
      | (on) "\<not> (snapshot \<le> fb_through_cursor b \<or> fb_events b = [])"
          "\<not> (case max_pages of None \<Rightarrow> False | Some m \<Rightarrow> pp_pages ?q \<ge> max m 1)" by blast
    then show ?thesis
    proof cases
      case out
      then have "publish_pages X me R endpoint batch max_pages snapshot p db = (Inr ?q, d)"
        unfolding unfold by (simp add: p advance_progress_def)
      moreover have "Q (Inr ?q, d)" by (rule stop [OF less.prems p]) (use out in blast)
      ultimately show ?thesis by simp
    next
      case limit
      then have "max_pages \<noteq> None" by (auto split: option.splits)
      moreover have "publish_pages X me R endpoint batch max_pages snapshot p db = (Inr ?q, d)"
        using limit unfolding unfold by (simp add: p Let_def)
      ultimately show ?thesis using stop [OF less.prems p] by simp
    next
      case on
      have "pp_cursor p < fb_through_cursor b" by (rule page_advances [OF p]) (use on in simp)
      then have "Q (publish_pages X me R endpoint batch max_pages snapshot ?q d)"
        using on(1) by (intro less.hyps more [OF less.prems p]) (simp add: advance_progress_def)
      moreover have "publish_pages X me R endpoint batch max_pages snapshot p db =
          publish_pages X me R endpoint batch max_pages snapshot ?q d"
        using on unfolding unfold by (simp add: p Let_def) (simp add: advance_progress_def)
      ultimately show ?thesis by simp
    qed
  qed
qed

lemma evolves_pages:
  assumes "\<And>k d. evolves X me d (rl_meanwhile R k d)"
  shows "evolves X me db (snd (publish_pages X me R endpoint batch max_pages snapshot p db))"
proof -
  have page: "evolves X me db d'" if "evolves X me db d"
    and "publish_page X me R endpoint batch (pp_pages q) (pp_cursor q) d = (r, d')" for q d r d'
    using evolves_trans [OF that(1) evolves_page [OF assms, of d endpoint batch "pp_pages q" "pp_cursor q"]] that(2) by simp
  show ?thesis
    by (rule publish_pages_rule [where I = "\<lambda>_. evolves X me db" and Q = "\<lambda>r. evolves X me db (snd r)"])
      (auto intro: page)
qed

lemma evolves_publish_origin:
  assumes "\<And>k d. evolves X me d (rl_meanwhile R k d)"
  shows "evolves X me db (snd (publish_origin X U me R C relay batch_size max_pages db))"
proof -
  have inner: "evolves X me d (snd (publish_origin_inner X me R now endpoint batch_size max_pages d))" for now endpoint d
    unfolding publish_origin_inner_def by (auto intro!: evolves_then_run evolves_pages [OF assms] split: prod.splits)
  have failed: "evolves X me d (snd (note_failure X me R C endpoint e d))" for endpoint e d
    unfolding note_failure_def Let_def by (auto intro!: evolves_then_run evolves_failure)
  have both: "evolves X me d (snd (case publish_origin_inner X me R now endpoint batch_size max_pages d of
      (Inl e, db1) \<Rightarrow> note_failure X me R C endpoint e db1 | answered \<Rightarrow> answered))" for now endpoint d
    using inner [of d now endpoint] failed
    by (cases "publish_origin_inner X me R now endpoint batch_size max_pages d")
      (auto split: sum.splits intro: evolves_trans)
  show ?thesis
    unfolding publish_origin_def by (intro evolves_then_run evolves_configure both) auto
qed

lemma publish_origin_Inr:
  assumes "publish_origin X U me R C relay batch_size max_pages db = (Inr rep, db')"
  obtains endpoint now d where "publish_origin_inner X me R now endpoint batch_size max_pages d = (Inr rep, db')"
proof -
  from assms obtain endpoint d where run: "(case publish_origin_inner X me R (pc_started C) endpoint batch_size max_pages d of
      (Inl e, db1) \<Rightarrow> note_failure X me R C endpoint e db1 | answered \<Rightarrow> answered) = (Inr rep, db')"
    by (auto simp: publish_origin_def then_run_Inr)
  have "note_failure X me R C endpoint e d' \<noteq> (Inr rep, db')" for e d'
    by (auto simp: note_failure_def Let_def then_run_Inr)
  with run that show thesis
    by (cases "publish_origin_inner X me R (pc_started C) endpoint batch_size max_pages d") (auto split: sum.splits)
qed

text \<open>The last page of a run that succeeds leaves its receipt in the table.\<close>

definition acknowledged :: "ext \<Rightarrow> node_identity \<Rightarrow> string \<Rightarrow> int \<Rightarrow> string \<Rightarrow> database \<Rightarrow> bool" where
  "acknowledged X me endpoint cursor relay db \<longleftrightarrow>
     (\<exists>t\<in>set (publication_targets db). \<exists>r. tgt_endpoint t = endpoint \<and> tgt_receipt t = Some r \<and>
        tgt_acknowledged_cursor t = cursor \<and> tgt_relay_node_id t = Some relay \<and>
        verify_replication_receipt X r = Inr () \<and> rc_relay_node_id r = relay \<and>
        cp_node_id (rc_origin_checkpoint r) = node_id me \<and> cp_cursor (rc_origin_checkpoint r) = cursor \<and>
        event_hash_at db cursor = Inr (cp_event_hash (rc_origin_checkpoint r)))"

lemma success_acknowledged:
  assumes "record_publication_success X me now checked endpoint receipt db = (Inr (), db')"
  shows "acknowledged X me endpoint (cp_cursor (rc_origin_checkpoint receipt)) (rc_relay_node_id receipt) db'"
proof -
  let ?ts = "update_rows (\<lambda>t. tgt_endpoint t = endpoint) (acknowledge_target now receipt) (publication_targets db)"
  from assms have c: "check_receipt X me endpoint receipt db = Inr ()"
    and r: "refresh_replication_work X checked (db\<lparr>publication_targets := ?ts\<rparr>) = (Inr (), db')"
    by (auto simp: record_publication_success_def split: sum.splits)
  from r obtain ws where "db' = db\<lparr>publication_targets := ?ts, work_items := ws\<rparr>" by (rule refreshE) simp
  then have db': "publication_targets db' = ?ts" "events db' = events db" by simp_all
  from c obtain t where t: "t \<in> set (publication_targets db)" "tgt_endpoint t = endpoint"
    "verify_replication_receipt X receipt = Inr ()" "cp_node_id (rc_origin_checkpoint receipt) = node_id me"
    "event_hash_at db (cp_cursor (rc_origin_checkpoint receipt)) = Inr (cp_event_hash (rc_origin_checkpoint receipt))"
    by (rule check_receipt_Inr)
  have "acknowledge_target now receipt t \<in> set ?ts" using t(1,2) by (auto simp: in_update_rows)
  moreover have "event_hash_at db' (cp_cursor (rc_origin_checkpoint receipt)) = Inr (cp_event_hash (rc_origin_checkpoint receipt))"
    using t(5) event_hash_at_cong [OF db'(2)] by simp
  ultimately show ?thesis
    unfolding acknowledged_def db'(1) using t(2-4)
    by (intro bexI [of _ "acknowledge_target now receipt t"] exI [of _ receipt]) (simp_all add: acknowledge_target_def)
qed

lemma bundle_checkpoint:
  assumes "federation_bundle_after X me now after limit db = Inr b"
  shows "cp_cursor (fb_checkpoint b) = fb_through_cursor b" "fb_origin_node_id b = node_id me"
    "cp_node_id (fb_checkpoint b) = node_id me" "cp_node_public_key (fb_checkpoint b) = node_public_key me"
    "event_hash_at db (fb_through_cursor b) = Inr (cp_event_hash (fb_checkpoint b))"
  using assms by (auto simp: federation_bundle_after_def checkpoint_at_def Let_def)

lemma page_acknowledged:
  assumes "publish_page X me R endpoint batch pages cursor db = (Inr (b, receipt), db')"
  shows "acknowledged X me endpoint (fb_through_cursor b) (rc_relay_node_id receipt) db'"
  using assms
proof (rule publish_page_Inr)
  fix db0 db1 response
  assume b: "federation_bundle_after X me (rl_clock R pages 0) cursor batch db0 = Inr b"
    and c: "check_response X me b response = Inr ()" "receipt = fpr_receipt response"
    and s: "record_publication_success X me (rl_clock R pages 1) (rl_clock R pages 2) endpoint receipt db1 = (Inr (), db')"
  have "rc_origin_checkpoint receipt = fb_checkpoint b" using c by (auto simp: check_response_def)
  with success_acknowledged [OF s] bundle_checkpoint(1) [OF b] show ?thesis by simp
qed

lemma pages_acknowledged:
  assumes "publish_pages X me R endpoint batch max_pages snapshot p db = (Inr q, db')"
  shows "acknowledged X me endpoint (pp_cursor q) (pp_relay_node_id q) db'"
proof -
  let ?Q = "\<lambda>(r, d). \<forall>q. r = Inr q \<longrightarrow> acknowledged X me endpoint (pp_cursor q) (pp_relay_node_id q) d"
  have "?Q (publish_pages X me R endpoint batch max_pages snapshot p db)"
    by (rule publish_pages_rule [where I = "\<lambda>_ _. True"]) (auto simp: advance_progress_def dest: page_acknowledged)
  with assms show ?thesis by simp
qed

section \<open>Lemmas on the health report\<close>

text \<open>The relays that count: the signer of a receipt that verifies for exactly the head of the own log,
  confirmed at \<open>since\<close> or later.\<close>

definition head_receipts :: "ext \<Rightarrow> node_identity \<Rightarrow> database \<Rightarrow> (target_row \<times> replication_receipt) set" where
  "head_receipts X me db = {(t, r). t \<in> set (publication_targets db) \<and> tgt_receipt t = Some r \<and>
     verify_replication_receipt X r = Inr () \<and> cp_node_id (rc_origin_checkpoint r) = node_id me \<and>
     (cp_cursor (rc_origin_checkpoint r), cp_event_hash (rc_origin_checkpoint r)) = current_head db}"

definition recent_relays :: "ext \<Rightarrow> node_identity \<Rightarrow> int \<Rightarrow> database \<Rightarrow> string set" where
  "recent_relays X me since db = {rc_relay_node_id r |t r at. (t, r) \<in> head_receipts X me db \<and>
     tgt_last_success_at t = Some at \<and> since \<le> at}"

lemma map_result_total: "\<forall>x\<in>set xs. f x = Inr (g x) \<Longrightarrow> map_result f xs = Inr (map g xs)"
  by (induction xs) simp_all

lemma map_result_set: "map_result f xs = Inr ys \<Longrightarrow> y \<in> set ys \<longleftrightarrow> (\<exists>x\<in>set xs. f x = Inr y)"
  by (induction xs arbitrary: ys) (auto split: sum.splits)

lemma relays_of_set: "set (relays_of vs) = {i. \<exists>v\<in>set vs. ptv_relay_node_id v = Some i}"
  and relays_of_sorted: "str_sorted (relays_of vs)"
proof -
  let ?f = "\<lambda>v s. case ptv_relay_node_id v of None \<Rightarrow> s | Some relay \<Rightarrow> btree_insert relay s"
  have "set (fold ?f vs s) = set s \<union> {i. \<exists>v\<in>set vs. ptv_relay_node_id v = Some i}" for s
    by (induction vs arbitrary: s) (auto split: option.splits)
  then show "set (relays_of vs) = {i. \<exists>v\<in>set vs. ptv_relay_node_id v = Some i}" by (simp add: relays_of_def)
  have "str_sorted s \<Longrightarrow> str_sorted (fold ?f vs s)" for s
    by (induction vs arbitrary: s) (auto simp: str_sorted_btree_insert split: option.splits)
  then show "str_sorted (relays_of vs)" by (simp add: relays_of_def)
qed

lemma relays_of_count: "len (relays_of vs) = int (card {i. \<exists>v\<in>set vs. ptv_relay_node_id v = Some i})"
proof -
  have "distinct (relays_of vs)" using relays_of_sorted by (rule str_sorted_distinct)
  then show ?thesis by (simp add: distinct_card len_def flip: relays_of_set)
qed

lemma target_view_total:
  assumes "target_ok X me db t" and "tgt_consecutive_failures t < 2 ^ 32"
  obtains v where "target_view X me recent head t = Inr v" "ptv_endpoint v = tgt_endpoint t"
    "ptv_relay_node_id v = tgt_relay_node_id t" "ptv_acknowledged_cursor v = tgt_acknowledged_cursor t"
    "ptv_acknowledged_event_hash v = tgt_acknowledged_event_hash t"
    "ptv_recently_reconfirmed v \<longleftrightarrow> tgt_receipt t \<noteq> None \<and>
       (tgt_acknowledged_cursor t, tgt_acknowledged_event_hash t) = head \<and>
       (\<exists>at. tgt_last_success_at t = Some at \<and> recent \<le> at)"
  using assms by (auto simp: target_view_def target_ok_def Let_def split: option.splits)

lemma health_Inr:
  assumes "replication_health X me now db = Inr h"
  shows "stored_replica_target parse_u32 db = Inr (rh_desired_replicas h)"
    "map_result (target_view X me (now - hours RECENT_CONFIRMATION_HOURS) (current_head db))
       (order_by target_before (publication_targets db)) = Inr (rh_targets h)"
    "rh_recently_reconfirmed_current_replicas h = len (relays_of (filter ptv_recently_reconfirmed (rh_targets h)))"
    "rh_status h = replication_status (rh_targets h) (rh_recently_reconfirmed_current_replicas h) (rh_desired_replicas h)"
  using assms by (auto simp: replication_health_def Let_def)

lemma health_total:
  assumes "targets_ok X me db" and "settings_ok db"
    and "\<forall>t\<in>set (publication_targets db). tgt_consecutive_failures t < 2 ^ 32"
  obtains h where "replication_health X me now db = Inr h"
proof -
  let ?rows = "order_by target_before (publication_targets db)"
  let ?view = "target_view X me (now - hours RECENT_CONFIRMATION_HOURS) (current_head db)"
  have "\<forall>t\<in>set ?rows. \<exists>v. ?view t = Inr v"
    using assms(1,3) by (auto simp: targets_ok_def elim!: target_view_total)
  from bchoice [OF this] obtain g where "\<forall>t\<in>set ?rows. ?view t = Inr (g t)" ..
  then have vs: "map_result ?view ?rows = Inr (map g ?rows)" by (rule map_result_total)
  obtain n where "stored_replica_target parse_u32 db = Inr n" using assms(2) by (rule settings_parse)
  with vs that show thesis by (simp add: replication_health_def Let_def)
qed

lemma health_relays:
  assumes ok: "targets_ok X me db" and low: "\<forall>t\<in>set (publication_targets db). tgt_consecutive_failures t < 2 ^ 32"
    and vs: "map_result (target_view X me since (current_head db)) (order_by target_before (publication_targets db)) = Inr vs"
  shows "{i. \<exists>v\<in>set (filter ptv_recently_reconfirmed vs). ptv_relay_node_id v = Some i} = recent_relays X me since db"
proof -
  let ?rows = "order_by target_before (publication_targets db)"
  let ?view = "target_view X me since (current_head db)"
  have views: "v \<in> set vs \<longleftrightarrow> (\<exists>t\<in>set (publication_targets db). ?view t = Inr v)" for v
    using map_result_set [OF vs] by simp
  have row: "(\<exists>v. ?view t = Inr v \<and> ptv_recently_reconfirmed v \<and> ptv_relay_node_id v = Some i) \<longleftrightarrow>
      (\<exists>r at. (t, r) \<in> head_receipts X me db \<and> tgt_last_success_at t = Some at \<and> since \<le> at \<and> i = rc_relay_node_id r)"
    if t: "t \<in> set (publication_targets db)" for t i
  proof -
    have tok: "target_ok X me db t" using ok t by (simp add: targets_ok_def)
    obtain v where v: "?view t = Inr v" "ptv_relay_node_id v = tgt_relay_node_id t"
      "ptv_recently_reconfirmed v \<longleftrightarrow> tgt_receipt t \<noteq> None \<and>
       (tgt_acknowledged_cursor t, tgt_acknowledged_event_hash t) = current_head db \<and>
       (\<exists>at. tgt_last_success_at t = Some at \<and> since \<le> at)"
      by (rule target_view_total [OF tok, of since "current_head db"]) (use low t in auto)
    show ?thesis
      using t v tok unfolding target_ok_def
      by (cases "tgt_receipt t") (auto simp: head_receipts_def stored_receipt_matches_def)
  qed
  show ?thesis
    unfolding recent_relays_def using views row by (auto simp: head_receipts_def) blast+
qed

text \<open>The report counts the distinct signers of current receipts.\<close>

lemma health_counts_signed_receipts:
  assumes "targets_ok X me db" and "settings_ok db"
    and "\<forall>t\<in>set (publication_targets db). tgt_consecutive_failures t < 2 ^ 32"
  shows "\<exists>h. replication_health X me now db = Inr h \<and>
    rh_recently_reconfirmed_current_replicas h = int (card (recent_relays X me (now - hours 24) db)) \<and>
    (rh_status h = ''replicated'' \<longleftrightarrow> publication_targets db \<noteq> [] \<and>
       rh_desired_replicas h \<le> int (card (recent_relays X me (now - hours 24) db)))"
proof -
  obtain h where h: "replication_health X me now db = Inr h" using assms by (rule health_total)
  note facts = health_Inr [OF h]
  have n: "rh_recently_reconfirmed_current_replicas h = int (card (recent_relays X me (now - hours 24) db))"
    unfolding facts(3) relays_of_count health_relays [OF assms(1,3) facts(2)] RECENT_CONFIRMATION_HOURS_def by (rule refl)
  have "rh_targets h = [] \<longleftrightarrow> publication_targets db = []"
  proof -
    have "length (rh_targets h) = length (order_by target_before (publication_targets db))"
      using facts(2) by (simp add: map_result_Inr list_all2_lengthD)
    moreover have "order_by target_before (publication_targets db) = [] \<longleftrightarrow> publication_targets db = []"
      by (metis set_empty set_order_by)
    ultimately show ?thesis by (metis length_0_conv)
  qed
  with h n facts(4) show ?thesis by (auto simp: replication_status_def)
qed

section \<open>A relay that keeps its word\<close>

text \<open>What the answer to a bundle has to be, and that the handler of a relay gives no other.\<close>

definition acknowledges :: "ext \<Rightarrow> node_identity \<Rightarrow> federation_bundle \<Rightarrow> federation_publish_report \<Rightarrow> bool" where
  "acknowledges X relay b rep \<longleftrightarrow> ir_origin_node_id (fpr_import rep) = fb_origin_node_id b \<and>
     fb_through_cursor b \<le> ir_current_cursor (fpr_import rep) \<and>
     (\<exists>now. make_replication_receipt X relay now (fb_checkpoint b) = Inr (fpr_receipt rep))"

lemma import_reaches_checkpoint:
  assumes ok: "peers_ok db" and run: "import_federation_bundle X me observed now detected received b db = (Inr r, db')"
  shows "ir_origin_node_id r = fb_origin_node_id b \<and> fb_through_cursor b \<le> ir_current_cursor r"
proof -
  from run obtain w where "import_transaction X me now detected received b w db = Done (r, db')"
    by (rule import_bundle_Inr)
  then obtain known hash db0 s witness where v: "verify_bundle X b = Inr ()"
    and o: "open_peer now b db = Inr (known, hash, db0)" "fb_from_cursor b \<le> known"
    and s: "import_events X now detected (fb_origin_node_id b) known (fb_events b)
       \<lparr> ims_db = db0, ims_cursor = known, ims_hash = hash, ims_count = 0 \<rparr> = Done s"
    and r: "r = import_report b known s witness"
    by (rule import_transaction_Done)
  have inv: "importing (fb_origin_node_id b) db0 s" by (rule import_events_importing [OF open_peer_importing [OF ok o(1)] s])
  have "fb_through_cursor b \<le> ims_cursor s"
  proof (cases "fb_events b = []")
    case True
    then have "fb_through_cursor b = fb_from_cursor b" using v by (auto elim!: verify_bundle_Inr)
    with True s o(2) show ?thesis by auto
  next
    case False
    from import_events_last [OF s False] last_sequence(1) [OF v False] obtain row where
      "stored_event (fb_origin_node_id b) (fb_through_cursor b) (ims_db s) = Some row" by auto
    from stored_event_bounds [OF this] inv show ?thesis by (simp add: importing_def)
  qed
  then show ?thesis by (simp add: r import_report_def)
qed

lemma handle_publish_acknowledges:
  assumes "peers_ok db" and "handle_publish X me policy C headers b db = (Inr rep, db')"
  shows "acknowledges X me b rep"
proof -
  from assms(2) obtain report d receipt where
    i: "import_federation_bundle X me (ic_observed C) (ic_now C) (ic_detected C) (ic_received C) b db = (Inr report, d)"
    and r: "make_replication_receipt X me (ic_retained C) (fb_checkpoint b) = Inr receipt"
    "rep = \<lparr> fpr_import = report, fpr_receipt = receipt \<rparr>"
    by (auto simp: handle_publish_def handle_import_def then_run_Inr)
  from import_reaches_checkpoint [OF assms(1) i] r show ?thesis by (auto simp: acknowledges_def)
qed

text \<open>The state in which the node can publish, and what the other threads may do meanwhile: they extend
  the log as the node does and leave the table of relays alone.\<close>

definition publishable :: "ext \<Rightarrow> node_identity \<Rightarrow> database \<Rightarrow> bool" where
  "publishable X me db \<longleftrightarrow> log_ok X me db \<and> targets_ok X me db \<and> settings_ok db \<and> fst (current_head db) \<le> 2 ^ 53"

definition unhindered :: "ext \<Rightarrow> node_identity \<Rightarrow> relay_session \<Rightarrow> bool" where
  "unhindered X me R \<longleftrightarrow> (\<forall>k d. publishable X me d \<longrightarrow> publishable X me (rl_meanwhile R k d) \<and>
     prefix (events d) (events (rl_meanwhile R k d)) \<and>
     publication_targets (rl_meanwhile R k d) = publication_targets d)"

definition honest_relay :: "ext \<Rightarrow> node_identity \<Rightarrow> node_identity \<Rightarrow> relay_session \<Rightarrow> bool" where
  "honest_relay X me relay R \<longleftrightarrow> identity_ok X relay \<and> node_id relay \<noteq> node_id me \<and>
     (\<forall>n b. verify_bundle X b = Inr () \<longrightarrow> fb_origin_node_id b = node_id me \<longrightarrow>
        (\<exists>rep. rl_answer R n b = Inr rep \<and> acknowledges X relay b rep))"

definition open_to :: "node_identity \<Rightarrow> string \<Rightarrow> database \<Rightarrow> bool" where
  "open_to relay endpoint db \<longleftrightarrow> (\<forall>t\<in>set (publication_targets db). tgt_endpoint t = endpoint \<longrightarrow>
     tgt_relay_node_id t \<in> {None, Some (node_id relay)} \<and>
     tgt_relay_node_public_key t \<in> {None, Some (node_public_key relay)})"

text \<open>The table says that \<open>endpoint\<close> acknowledged the log up to \<open>cursor\<close>.\<close>

definition known_cursor :: "string \<Rightarrow> int \<Rightarrow> database \<Rightarrow> bool" where
  "known_cursor endpoint cursor db \<longleftrightarrow>
     (\<exists>t\<in>set (publication_targets db). tgt_endpoint t = endpoint \<and> tgt_acknowledged_cursor t = cursor)"

lemma log_ok_cong: "events db = events db' \<Longrightarrow> log_ok X me db \<longleftrightarrow> log_ok X me db'"
  by (simp add: log_ok_def verify_log_def portable_log_def)

lemma current_head_cong: "events db = events db' \<Longrightarrow> current_head db = current_head db'"
  by (simp add: current_head_def)

lemma log_head:
  assumes "ext_laws X" and "log_ok X me db"
  obtains h where "verify_log X me db = Inr (fst (current_head db), h)" "portable_log X db"
    "fst (current_head db) = len (events db)"
    "map ev_sequence (events db) = map (\<lambda>i. int i + 1) [0..<length (events db)]"
proof -
  obtain n h where v: "verify_log X me db = Inr (n, h)" "portable_log X db" using assms(2) by (auto simp: log_ok_def)
  note nums = verified_row_numbers [OF _ _ v(1)]
  have l: "hash_laws X" "hex_laws X" using assms(1) by (simp_all add: ext_laws_def)
  from nums [OF l] v that show thesis by simp
qed

text \<open>Every hash on a log that verifies is the text of 32 bytes.\<close>

lemma logged_hash_decodes:
  assumes laws: "ext_laws X" and log: "log_ok X me db" and h: "event_hash_at db c = Inr h"
  shows "\<exists>bytes. decode_hash X Validation h = Inr bytes"
proof -
  have l: "hash_laws X" "hex_laws X" using laws by (simp_all add: ext_laws_def)
  have hex: "\<exists>bytes. decode_hash X Validation (x_hex_encode X bs) = Inr bytes" if "length bs = 32" for bs
    using l(2) that by (simp add: decode_hash_def hex_laws_def)
  show ?thesis
  proof (cases "c = 0")
    case True
    then have "h = x_hex_encode X zero_bytes" using h l(2) by (simp add: event_hash_at_def hex_laws_def)
    with hex [of zero_bytes] show ?thesis by (simp add: zero_bytes_def)
  next
    case False
    then obtain row where row: "row \<in> set (events db)" "ev_event_hash row = h"
      using h first_row_Some by (fastforce simp: event_hash_at_def split: if_splits)
    obtain us vs where split: "events db = (us @ [row]) @ vs" using row(1) by (auto simp: in_set_conv_decomp)
    obtain n g where v: "verify_log X me db = Inr (n, g)" using log by (auto simp: log_ok_def)
    then obtain key s where "fold_result (verify_row X key) (events db) log_start = Inr s" by (rule verify_log_rows)
    then obtain m where "fold_result (verify_row X key) (us @ [row]) log_start = Inr m"
      unfolding split fold_result_append_Inr by blast
    from verified_cursor [OF l this] row(2) hex show ?thesis by (auto simp: cursor_ok_def)
  qed
qed

lemma event_hash_at_bounds:
  assumes "ext_laws X" and "log_ok X me db" and "event_hash_at db c = Inr h"
  shows "0 \<le> c" and "c \<le> fst (current_head db)"
proof -
  obtain g where n: "fst (current_head db) = len (events db)"
    "map ev_sequence (events db) = map (\<lambda>i. int i + 1) [0..<length (events db)]"
    using assms(1,2) by (rule log_head)
  show "0 \<le> c" using assms(3) by (auto simp: event_hash_at_def split: if_splits)
  show "c \<le> fst (current_head db)"
  proof (cases "c = 0")
    case False
    then obtain row where "row \<in> set (events db)" "ev_sequence row = c"
      using assms(3) first_row_Some by (fastforce simp: event_hash_at_def split: if_splits)
    then have "c \<in> set (map ev_sequence (events db))" by auto
    then show ?thesis unfolding n by (auto simp: len_def)
  qed (simp add: n(1) len_def)
qed

lemma receipt_of_honest_relay:
  assumes laws: "ext_laws X" and relay: "identity_ok X relay" and log: "log_ok X me db"
    and made: "make_replication_receipt X relay now c = Inr r" and h: "event_hash_at db (cp_cursor c) = Inr (cp_event_hash c)"
  shows "verify_replication_receipt X r = Inr ()" "rc_origin_checkpoint r = c"
    "rc_relay_node_id r = node_id relay" "rc_relay_node_public_key r = node_public_key relay"
proof -
  have l: "b64_laws X" "sig_laws X" using laws by (simp_all add: ext_laws_def)
  have "cp_cursor c = 0 \<longrightarrow> cp_event_hash c = zero_hash" using h by (auto simp: event_hash_at_def)
  with replication_receipt_verifies [OF l relay made] event_hash_at_bounds(1) [OF laws log h] logged_hash_decodes [OF laws log h]
  show "verify_replication_receipt X r = Inr ()" "rc_origin_checkpoint r = c" "rc_relay_node_id r = node_id relay" by auto
  show "rc_relay_node_public_key r = node_public_key relay"
    using made by (auto simp: make_replication_receipt_def Let_def)
qed

lemma check_receipt_intro:
  assumes ok: "targets_ok X me db" and t: "t \<in> set (publication_targets db)" "tgt_endpoint t = endpoint"
    and v: "verify_replication_receipt X r = Inr ()"
    and c: "cp_node_id (rc_origin_checkpoint r) = node_id me" "cp_node_public_key (rc_origin_checkpoint r) = node_public_key me"
    and h: "event_hash_at db (cp_cursor (rc_origin_checkpoint r)) = Inr (cp_event_hash (rc_origin_checkpoint r))"
    and relay: "tgt_relay_node_id t \<in> {None, Some (rc_relay_node_id r)}"
      "tgt_relay_node_public_key t \<in> {None, Some (rc_relay_node_public_key r)}"
    and up: "tgt_acknowledged_cursor t \<le> cp_cursor (rc_origin_checkpoint r)"
  shows "check_receipt X me endpoint r db = Inr ()"
proof -
  have "event_hash_at db (tgt_acknowledged_cursor t) = Inr (tgt_acknowledged_event_hash t)"
    using ok t(1) by (simp add: targets_ok_def target_ok_def)
  with h have same: "\<not> (cp_cursor (rc_origin_checkpoint r) = tgt_acknowledged_cursor t \<and>
      cp_event_hash (rc_origin_checkpoint r) \<noteq> tgt_acknowledged_event_hash t)" by auto
  have row: "first_row (\<lambda>t. tgt_endpoint t = endpoint) (publication_targets db) = Some t"
    using ok t by (intro first_row_key) (simp_all add: targets_ok_def)
  have stored: "(if cp_cursor (rc_origin_checkpoint r) = 0 then Some zero_hash else map_option ev_event_hash
      (first_row (\<lambda>e. ev_sequence e = cp_cursor (rc_origin_checkpoint r)) (events db))) =
      Some (cp_event_hash (rc_origin_checkpoint r))"
    using h by (auto simp: event_hash_at_def split: if_splits)
  show ?thesis
    unfolding check_receipt_def Let_def v stored row using c relay up same
    by (auto simp: fail_if_def)
qed

lemma publishable_success:
  assumes pub: "publishable X me db" and c: "check_receipt X me endpoint r db = Inr ()"
  obtains db' where "record_publication_success X me now checked endpoint r db = (Inr (), db')"
    "publishable X me db'" "events db' = events db"
    "publication_targets db' = update_rows (\<lambda>t. tgt_endpoint t = endpoint) (acknowledge_target now r) (publication_targets db)"
proof -
  let ?db = "db\<lparr>publication_targets := update_rows (\<lambda>t. tgt_endpoint t = endpoint) (acknowledge_target now r)
    (publication_targets db)\<rparr>"
  have "settings_ok ?db" using pub by (simp add: publishable_def settings_ok_def)
  from refresh_succeeds [OF this, of X checked] obtain db' where
    r: "refresh_replication_work X checked ?db = (Inr (), db')" by (cases "refresh_replication_work X checked ?db") auto
  then obtain ws where db': "db' = ?db\<lparr>work_items := ws\<rparr>" by (rule refreshE)
  have run: "record_publication_success X me now checked endpoint r db = (Inr (), db')"
    by (simp add: record_publication_success_def c r)
  have e: "events db' = events db" by (simp add: db')
  have "evolves X me db db'" using evolves_success [of X me db now checked endpoint r] run by simp
  then have "publishable X me db'"
    using pub log_ok_cong [OF e] current_head_cong [OF e] by (simp add: publishable_def evolves_def)
  with run e show thesis by (intro that [OF run]) (simp_all add: db')
qed

lemma updated_row: "r \<in> set (update_rows P f tbl) \<Longrightarrow> P r \<Longrightarrow> \<exists>old. r = f old"
  by (auto simp: in_update_rows split: if_splits)

lemma page_succeeds:
  assumes laws: "ext_laws X" and me: "identity_ok X me" and relay: "honest_relay X me relay R"
    and calm: "unhindered X me R" and pub: "publishable X me db" and to: "open_to relay endpoint db"
    and at: "known_cursor endpoint cursor db"
  obtains b receipt db' where "publish_page X me R endpoint batch pages cursor db = (Inr (b, receipt), db')"
    "publishable X me db'" "open_to relay endpoint db'" "known_cursor endpoint (fb_through_cursor b) db'"
    "fst (current_head db) \<le> fst (current_head db')" "fb_events b = [] \<Longrightarrow> fst (current_head db) \<le> cursor"
    "rc_relay_node_id receipt = node_id relay"
proof -
  let ?d0 = "rl_meanwhile R (2 * pages) db"
  let ?d1 = "rl_meanwhile R (2 * pages + 1) ?d0"
  have d0: "publishable X me ?d0" "prefix (events db) (events ?d0)" "publication_targets ?d0 = publication_targets db"
    using calm pub by (simp_all add: unhindered_def)
  have d1: "publishable X me ?d1" "prefix (events ?d0) (events ?d1)" "publication_targets ?d1 = publication_targets db"
    using calm d0 by (simp_all add: unhindered_def)
  have log: "log_ok X me db" "log_ok X me ?d0" "log_ok X me ?d1" and tok: "targets_ok X me ?d0" "targets_ok X me ?d1"
    using pub d0 d1 by (simp_all add: publishable_def)
  have len: "fst (current_head d) = len (events d)" if "log_ok X me d" for d using laws that by (rule log_head)
  have heads: "fst (current_head db) \<le> fst (current_head ?d0)" "fst (current_head ?d0) \<le> fst (current_head ?d1)"
    using d0(2) d1(2) unfolding len [OF log(1)] len [OF log(2)] len [OF log(3)]
    by (simp_all add: len_def prefix_length_le)
  obtain t where t: "t \<in> set (publication_targets db)" "tgt_endpoint t = endpoint" "tgt_acknowledged_cursor t = cursor"
    using at by (auto simp: known_cursor_def)
  then have hash: "event_hash_at ?d0 cursor = Inr (tgt_acknowledged_event_hash t)"
    using tok(1) d0(3) by (auto simp: targets_ok_def target_ok_def)
  note cursor = event_hash_at_bounds [OF laws log(2) hash]
  obtain g where v: "verify_log X me ?d0 = Inr (fst (current_head ?d0), g)" "portable_log X ?d0"
    using laws log(2) by (rule log_head)
  obtain b where b: "federation_bundle_after X me (rl_clock R pages 0) cursor batch ?d0 = Inr b" "verify_bundle X b = Inr ()"
    "fb_through_cursor b = min (fst (current_head ?d0)) (cursor + int (clamp_limit batch))"
    using served_bundle [OF laws me v cursor] d0(1) by (auto simp: publishable_def)
  note cp = bundle_checkpoint [OF b(1)]
  have h1: "event_hash_at ?d1 (cp_cursor (fb_checkpoint b)) = Inr (cp_event_hash (fb_checkpoint b))"
    using event_hash_at_prefix [OF d1(2) cp(5)] cp(1) by simp
  have "\<exists>rep. rl_answer R pages b = Inr rep \<and> acknowledges X relay b rep"
    using relay b(2) cp(2) by (simp add: honest_relay_def)
  then obtain rep now where rep: "rl_answer R pages b = Inr rep" "ir_origin_node_id (fpr_import rep) = node_id me"
    "fb_through_cursor b \<le> ir_current_cursor (fpr_import rep)"
    "make_replication_receipt X relay now (fb_checkpoint b) = Inr (fpr_receipt rep)"
    unfolding acknowledges_def cp(2) by blast
  have rid: "identity_ok X relay" using relay by (simp add: honest_relay_def)
  note rc = receipt_of_honest_relay [OF laws rid log(3) rep(4) h1]
  have resp: "check_response X me b rep = Inr ()"
    using rep rc(1,2) by (simp add: check_response_def)
  have "cursor \<le> fb_through_cursor b" using b(3) cursor(2) by (simp add: min_def)
  then have chk: "check_receipt X me endpoint (fpr_receipt rep) ?d1 = Inr ()"
    using to t d1(3) rc cp h1 by (intro check_receipt_intro [OF tok(2), of t]) (auto simp: open_to_def)
  obtain d2 where d2: "record_publication_success X me (rl_clock R pages 1) (rl_clock R pages 2) endpoint (fpr_receipt rep) ?d1 =
      (Inr (), d2)" "publishable X me d2" "events d2 = events ?d1"
    "publication_targets d2 = update_rows (\<lambda>t. tgt_endpoint t = endpoint)
       (acknowledge_target (rl_clock R pages 1) (fpr_receipt rep)) (publication_targets ?d1)"
    by (rule publishable_success [OF d1(1) chk])
  show thesis
  proof (rule that)
    show "publish_page X me R endpoint batch pages cursor db = (Inr (b, fpr_receipt rep), d2)"
      using b(1) rep(1) resp d2(1) by (simp add: publish_page_def then_run_def Let_def)
    show "publishable X me d2" by (rule d2(2))
    show "open_to relay endpoint d2"
      unfolding open_to_def d2(4) using rc(3,4)
      by (auto simp: acknowledge_target_def dest!: updated_row)
    show "known_cursor endpoint (fb_through_cursor b) d2"
      using success_acknowledged [OF d2(1)] rc(2) cp(1) by (auto simp: acknowledged_def known_cursor_def)
    show "fst (current_head db) \<le> fst (current_head d2)" using heads current_head_cong [OF d2(3)] by simp
    show "rc_relay_node_id (fpr_receipt rep) = node_id relay" by (rule rc(3))
    assume "fb_events b = []"
    then have "fb_through_cursor b = cursor" by (rule bundle_advances(2) [OF b(1)])
    then show "fst (current_head db) \<le> cursor"
      using b(3) heads by (auto simp: min_def clamp_limit_def split: if_splits)
  qed
qed

lemma pages_catch_up:
  fixes p :: publish_progress
  assumes laws: "ext_laws X" and me: "identity_ok X me" and relay: "honest_relay X me relay R"
    and calm: "unhindered X me R" and pub: "publishable X me db" and to: "open_to relay endpoint db"
    and at: "known_cursor endpoint (pp_cursor p) db" and snap: "snapshot \<le> fst (current_head db)"
  obtains q db' where "publish_pages X me R endpoint batch None snapshot p db = (Inr q, db')"
    "snapshot \<le> pp_cursor q" "pp_relay_node_id q = node_id relay"
proof -
  let ?I = "\<lambda>(p :: publish_progress) d. publishable X me d \<and> open_to relay endpoint d \<and> known_cursor endpoint (pp_cursor p) d \<and>
    snapshot \<le> fst (current_head d)"
  let ?Q = "\<lambda>(r, d). \<exists>q. r = Inr q \<and> snapshot \<le> pp_cursor q \<and> pp_relay_node_id q = node_id relay"
  have turn: "\<exists>b receipt d'. publish_page X me R endpoint batch (pp_pages p) (pp_cursor p) d = (Inr (b, receipt), d') \<and>
      ?I (advance_progress b receipt p) d' \<and> (fb_events b = [] \<longrightarrow> snapshot \<le> fb_through_cursor b) \<and>
      rc_relay_node_id receipt = node_id relay" if i: "?I p d" for p d
  proof -
    obtain b receipt d' where t: "publish_page X me R endpoint batch (pp_pages p) (pp_cursor p) d = (Inr (b, receipt), d')"
      "publishable X me d'" "open_to relay endpoint d'" "known_cursor endpoint (fb_through_cursor b) d'"
      "fst (current_head d) \<le> fst (current_head d')" "fb_events b = [] \<Longrightarrow> fst (current_head d) \<le> pp_cursor p"
      "rc_relay_node_id receipt = node_id relay"
      using page_succeeds [OF laws me relay calm, of d endpoint "pp_cursor p" batch "pp_pages p"] i by blast
    have "fb_events b = [] \<longrightarrow> snapshot \<le> fb_through_cursor b"
      using publish_page_Inr [OF t(1)] bundle_advances(2) t(6) i by (metis order_trans)
    with t i show ?thesis by (auto simp: advance_progress_def)
  qed
  have "?Q (publish_pages X me R endpoint batch None snapshot p db)"
  proof (rule publish_pages_rule [where I = ?I])
    show "?I p db" using pub to at snap by simp
  next
    fix p d e d'
    assume "?I p d" "publish_page X me R endpoint batch (pp_pages p) (pp_cursor p) d = (Inl e, d')"
    with turn [of d p] show "?Q (Inl e, d')" by auto
  next
    fix p d b r d'
    assume i: "?I p d" and g: "publish_page X me R endpoint batch (pp_pages p) (pp_cursor p) d = (Inr (b, r), d')"
    from turn [OF i] g show "?I (advance_progress b r p) d'" by auto
    assume "snapshot \<le> fb_through_cursor b \<or> fb_events b = [] \<or> (None :: nat option) \<noteq> None"
    with turn [OF i] g show "?Q (Inr (advance_progress b r p), d')" by (auto simp: advance_progress_def)
  qed
  with that show thesis by (auto split: prod.splits)
qed

lemma target_view_Inr:
  assumes "target_view X me since head t = Inr v"
  shows "ptv_endpoint v = tgt_endpoint t" "ptv_acknowledged_cursor v = tgt_acknowledged_cursor t"
    "ptv_acknowledged_event_hash v = tgt_acknowledged_event_hash t"
  using assms by (auto simp: target_view_def Let_def)

lemma start_succeeds:
  assumes laws: "ext_laws X" and pub: "publishable X me db"
    and low: "\<forall>t\<in>set (publication_targets db). tgt_consecutive_failures t < 2 ^ 32"
    and row: "endpoint \<in> tgt_endpoint ` set (publication_targets db)"
  obtains v where "publication_start X me now endpoint db = Inr (v, fst (current_head db))"
    "known_cursor endpoint (ptv_acknowledged_cursor v) db"
proof -
  have ok: "targets_ok X me db" "settings_ok db" "log_ok X me db" using pub by (simp_all add: publishable_def)
  obtain h where h: "replication_health X me now db = Inr h" using ok(1,2) low by (rule health_total)
  note views = map_result_set [OF health_Inr(2) [OF h]]
  obtain t0 where t0: "t0 \<in> set (publication_targets db)" "tgt_endpoint t0 = endpoint" using row by auto
  then have "target_ok X me db t0" "tgt_consecutive_failures t0 < 2 ^ 32" using ok(1) low by (auto simp: targets_ok_def)
  then obtain v0 where "target_view X me (now - hours RECENT_CONFIRMATION_HOURS) (current_head db) t0 = Inr v0"
    by (rule target_view_total)
  with t0 have "\<exists>v\<in>set (rh_targets h). ptv_endpoint v = endpoint" using views target_view_Inr(1) by fastforce
  then obtain v where v: "find_target endpoint h = Some v"
    unfolding find_target_def by (cases "find (\<lambda>v. ptv_endpoint v = endpoint) (rh_targets h)") (auto simp: find_None_iff)
  then have e: "v \<in> set (rh_targets h)" "ptv_endpoint v = endpoint" by (auto simp: find_target_def find_Some_iff)
  then obtain t where "t \<in> set (publication_targets db)"
    "target_view X me (now - hours RECENT_CONFIRMATION_HOURS) (current_head db) t = Inr v" using views by auto
  with e(2) target_view_Inr [OF this(2)] have t: "t \<in> set (publication_targets db)" "tgt_endpoint t = endpoint"
    "ptv_acknowledged_cursor v = tgt_acknowledged_cursor t" "ptv_acknowledged_event_hash v = tgt_acknowledged_event_hash t"
    by simp_all
  have hash: "event_hash_at db (tgt_acknowledged_cursor t) = Inr (tgt_acknowledged_event_hash t)"
    using ok(1) t(1) by (simp add: targets_ok_def target_ok_def)
  show thesis
    using h v t hash event_hash_at_bounds(2) [OF laws ok(3) hash]
    by (intro that [of v]) (auto simp: publication_start_def Let_def known_cursor_def)
qed

lemma configure_succeeds:
  assumes pub: "publishable X me db" and e: "endpoint \<noteq> []" "len endpoint \<le> 2048" and to: "open_to relay endpoint db"
    and low: "\<forall>t\<in>set (publication_targets db). tgt_consecutive_failures t < 2 ^ 32"
  obtains db' where "configure_publication_target X now checked endpoint db = (Inr (), db')" "publishable X me db'"
    "open_to relay endpoint db'" "\<forall>t\<in>set (publication_targets db'). tgt_consecutive_failures t < 2 ^ 32"
    "endpoint \<in> tgt_endpoint ` set (publication_targets db')" "current_head db' = current_head db"
proof -
  let ?ts = "insert_or_ignore (\<lambda>r s. tgt_endpoint r = tgt_endpoint s) (new_target endpoint now) (publication_targets db)"
  let ?db = "db\<lparr>publication_targets := ?ts\<rparr>"
  have "settings_ok ?db" using pub by (simp add: publishable_def settings_ok_def)
  from refresh_succeeds [OF this, of X checked] obtain db' where
    r: "refresh_replication_work X checked ?db = (Inr (), db')" by (cases "refresh_replication_work X checked ?db") auto
  then obtain ws where db': "db' = ?db\<lparr>work_items := ws\<rparr>" by (rule refreshE)
  have run: "configure_publication_target X now checked endpoint db = (Inr (), db')"
    using e r by (simp add: configure_publication_target_def)
  have ev: "events db' = events db" and ts: "publication_targets db' = ?ts" by (simp_all add: db')
  have "evolves X me db db'" using evolves_configure [of X me db now checked endpoint] run by simp
  then have pub': "publishable X me db'"
    using pub log_ok_cong [OF ev] current_head_cong [OF ev] by (simp add: publishable_def evolves_def)
  show thesis
    by (rule that [OF run pub'])
      (use to low current_head_cong [OF ev] in \<open>auto simp: ts insert_or_ignore_def open_to_def new_target_def list_ex_iff
        split: if_splits\<close>)
qed

section \<open>Properties\<close>

text \<open>C17: publication never takes an acknowledgement back.  Whatever the relay answers and however the
  run ends, the own log keeps its events, every row stays backed by its receipt and the log, no
  acknowledged cursor falls and no relay identity that is known changes; when the run reports success, the
  row of the relay holds a receipt that verifies, signed by the relay the report names, for the cursor the
  report names and the hash the log has there.\<close>

theorem publication_never_regresses:
  assumes "\<forall>k d. evolves X me d (rl_meanwhile R k d)" and "targets_ok X me db"
    and "publish_origin X U me R C relay batch_size max_pages db = (result, db')"
  shows "prefix (events db) (events db') \<and> targets_ok X me db' \<and>
    (\<forall>t\<in>set (publication_targets db). \<exists>t'\<in>set (publication_targets db'). row_advances t t') \<and>
    (\<forall>rep. result = Inr rep \<longrightarrow>
       acknowledged X me (prr_endpoint rep) (prr_acknowledged_cursor rep) (prr_relay_node_id rep) db')"
proof -
  have e: "evolves X me db db'"
    using evolves_publish_origin [of X me R db U C relay batch_size max_pages] assms(1,3) by simp
  have "acknowledged X me (prr_endpoint rep) (prr_acknowledged_cursor rep) (prr_relay_node_id rep) db'"
    if "result = Inr rep" for rep
  proof -
    from assms(3) that obtain endpoint now d where
      "publish_origin_inner X me R now endpoint batch_size max_pages d = (Inr rep, db')"
      by (auto elim: publish_origin_Inr)
    then obtain initial snapshot q p where p: "publish_pages X me R endpoint (clamp_limit batch_size) max_pages snapshot p d = (Inr q, db')"
      and rep: "rep = publication_report endpoint snapshot initial q"
      by (auto simp: publish_origin_inner_def then_run_Inr)
    from pages_acknowledged [OF p] show ?thesis by (simp add: rep publication_report_def)
  qed
  with e assms(2) show ?thesis by (simp add: evolves_def)
qed

text \<open>C16: a node catches up with a relay that keeps its word.  If the relay answers every bundle as the
  publish handler does, and the other threads only extend the log meanwhile, a run without a page limit
  succeeds, with an acknowledgement from that relay for the whole log as it was when the run began.\<close>

theorem publish_origin_catches_up:
  assumes "ext_laws X" and "identity_ok X me" and "honest_relay X me relay R" and "unhindered X me R"
    and "publishable X me db" and "normalize_server_url X U url = Inr endpoint" and "endpoint \<noteq> []" and "len endpoint \<le> 2048"
    and "open_to relay endpoint db" and "\<forall>t\<in>set (publication_targets db). tgt_consecutive_failures t < 2 ^ 32"
  shows "\<exists>rep db'. publish_origin X U me R C url batch_size None db = (Inr rep, db') \<and> prr_caught_up rep \<and>
    prr_snapshot_cursor rep = fst (current_head db) \<and> prr_snapshot_cursor rep \<le> prr_acknowledged_cursor rep \<and>
    acknowledged X me endpoint (prr_acknowledged_cursor rep) (node_id relay) db'"
proof -
  obtain d where d: "configure_publication_target X (pc_configured C) (pc_refreshed C) endpoint db = (Inr (), d)"
    "publishable X me d" "open_to relay endpoint d" "\<forall>t\<in>set (publication_targets d). tgt_consecutive_failures t < 2 ^ 32"
    "endpoint \<in> tgt_endpoint ` set (publication_targets d)" "current_head d = current_head db"
    using assms(5,7-10) by (rule configure_succeeds)
  obtain v where v: "publication_start X me (pc_started C) endpoint d = Inr (v, fst (current_head d))"
    "known_cursor endpoint (ptv_acknowledged_cursor v) d"
    by (rule start_succeeds [OF assms(1) d(2,4,5)])
  let ?p = "\<lparr> pp_cursor = ptv_acknowledged_cursor v,
    pp_relay_node_id = (case ptv_relay_node_id v of None \<Rightarrow> [] | Some i \<Rightarrow> i), pp_published_events = 0, pp_pages = 0 \<rparr>"
  have at: "known_cursor endpoint (pp_cursor ?p) d" using v(2) by simp
  obtain q db' where q: "publish_pages X me R endpoint (clamp_limit batch_size) None (fst (current_head d)) ?p d = (Inr q, db')"
    "fst (current_head d) \<le> pp_cursor q" "pp_relay_node_id q = node_id relay"
    by (rule pages_catch_up [OF assms(1-4) d(2,3) at order_refl])
  have "publish_origin X U me R C url batch_size None db =
      (Inr (publication_report endpoint (fst (current_head d)) (ptv_acknowledged_cursor v) q), db')"
    using assms(6) d(1) v(1) q(1) by (simp add: publish_origin_def publish_origin_inner_def then_run_def)
  with pages_acknowledged [OF q(1)] q d(6) show ?thesis by (simp add: publication_report_def)
qed

section \<open>Witnesses\<close>

text \<open>A node with one event publishes to a relay that acknowledges every bundle, or to one that is down.\<close>

definition demo_publisher :: database where
  "demo_publisher = demo_log\<lparr>meta := [(''desired_replicas'', ''2'')]\<rparr>"

definition demo_answer :: "nat \<Rightarrow> federation_bundle \<Rightarrow> federation_publish_report result" where
  "demo_answer n b = and_then (make_replication_receipt demo_ext demo_relay 5 (fb_checkpoint b)) (\<lambda>r.
     Inr \<lparr> fpr_import = \<lparr> ir_origin_node_id = fb_origin_node_id b, ir_previously_known_cursor = fb_from_cursor b,
             ir_imported_events = length (fb_events b), ir_current_cursor = fb_through_cursor b,
             ir_current_event_hash = cp_event_hash (fb_checkpoint b), ir_witness_event_id = None \<rparr>,
           fpr_receipt = r \<rparr>)"

definition demo_session :: "(nat \<Rightarrow> federation_bundle \<Rightarrow> federation_publish_report result) \<Rightarrow> relay_session" where
  "demo_session answer = \<lparr> rl_answer = answer, rl_clock = (\<lambda>_ _. 0), rl_meanwhile = (\<lambda>_ d. d),
     rl_describe = (\<lambda>_. ''refused'') \<rparr>"

definition demo_urls :: url_printer where
  "demo_urls = \<lparr> up_path = (\<lambda>_. ''/''), up_with_path = (\<lambda>s path. s @ path) \<rparr>"

definition demo_hours :: publish_clock where
  "demo_hours = \<lparr> pc_configured = 0, pc_refreshed = 0, pc_started = 0, pc_failed = 0, pc_next = 0, pc_noted = 0,
     pc_rechecked = 0 \<rparr>"

lemma demo_relay_identity: "identity_ok demo_ext demo_relay" "node_id demo_relay \<noteq> node_id demo_me"
proof -
  show "identity_ok demo_ext demo_relay" by (simp add: identity_ok_def demo_relay_def demo_ext_def)
  show "node_id demo_relay \<noteq> node_id demo_me" by code_simp
qed

lemma demo_honest: "honest_relay demo_ext demo_me demo_relay (demo_session demo_answer)"
proof -
  have "\<exists>r. make_replication_receipt demo_ext demo_relay 5 (fb_checkpoint b) = Inr r"
    if "verify_bundle demo_ext b = Inr ()" "fb_origin_node_id b = node_id demo_me" for b
  proof -
    have "verify_checkpoint demo_ext (fb_checkpoint b) = Inr ()" "cp_node_id (fb_checkpoint b) \<noteq> node_id demo_relay"
      using that demo_relay_identity(2) by (auto elim!: verify_bundle_Inr)
    then show ?thesis
      by (simp add: make_replication_receipt_def Let_def sign_object_def signing_preimage_def
          canonical_without_signature_def e_replication_receipt_def demo_ext_def)
  qed
  then show ?thesis
    using demo_relay_identity
    by (fastforce simp: honest_relay_def acknowledges_def demo_session_def demo_answer_def)
qed

lemma demo_targets: "publication_targets demo_publisher = []"
proof -
  obtain rows where "demo_log = empty_database\<lparr>events := rows\<rparr>"
    using demo_log_appended by (auto dest!: append_event_frame)
  then have "publication_targets demo_log = publication_targets (empty_database\<lparr>events := rows\<rparr>)" by (rule arg_cong)
  then show ?thesis by (simp add: demo_publisher_def)
qed

lemma demo_setting: "show_int 2 = ''2''"
  by code_simp

lemma demo_publishable: "publishable demo_ext demo_me demo_publisher"
proof -
  have e: "events demo_publisher = events demo_log" by (simp add: demo_publisher_def)
  obtain h where v: "verify_log demo_ext demo_me demo_log = Inr (1, h)" using demo_log_verified by blast
  have l: "hash_laws demo_ext" "hex_laws demo_ext" using demo_laws by (simp_all add: ext_laws_def)
  have "settings_ok demo_publisher"
    unfolding settings_ok_def by (intro exI [of _ 2]) (simp add: demo_publisher_def demo_setting)
  moreover have "log_ok demo_ext demo_me demo_publisher"
    using log_ok_cong [OF e] v demo_log_portable by (auto simp: log_ok_def)
  ultimately show ?thesis
    using verified_row_numbers(3) [OF l v] current_head_cong [OF e] by (simp add: publishable_def targets_ok_def demo_targets)
qed

theorem publication_never_regresses_witness:
  "case publish_origin demo_ext demo_urls demo_me (demo_session (\<lambda>_ _. Inl Http)) demo_hours ''https://a.example'' 10 None
     demo_publisher of (result, db') \<Rightarrow> prefix (events demo_publisher) (events db') \<and> targets_ok demo_ext demo_me db'"
proof -
  have calm: "\<forall>k d. evolves demo_ext demo_me d (rl_meanwhile (demo_session (\<lambda>_ _. Inl Http)) k d)"
    by (simp add: demo_session_def)
  have ok: "targets_ok demo_ext demo_me demo_publisher" using demo_publishable by (simp add: publishable_def)
  obtain result db' where r: "publish_origin demo_ext demo_urls demo_me (demo_session (\<lambda>_ _. Inl Http)) demo_hours
    ''https://a.example'' 10 None demo_publisher = (result, db')" by fastforce
  from publication_never_regresses [OF calm ok r] show ?thesis unfolding r by simp
qed

theorem publish_origin_catches_up_witness:
  "\<exists>rep db'. publish_origin demo_ext demo_urls demo_me (demo_session demo_answer) demo_hours ''https://a.example'' 10 None
     demo_publisher = (Inr rep, db') \<and> prr_caught_up rep \<and> prr_snapshot_cursor rep = fst (current_head demo_publisher)"
proof -
  have me: "identity_ok demo_ext demo_me" by (simp add: identity_ok_def demo_me_def demo_ext_def)
  have calm: "unhindered demo_ext demo_me (demo_session demo_answer)" by (simp add: unhindered_def demo_session_def)
  have url: "normalize_server_url demo_ext demo_urls ''https://a.example'' = Inr ''https://a.example/''"
    by (simp add: normalize_server_url_def demo_ext_def demo_urls_def Let_def)
  have rest: "''https://a.example/'' \<noteq> []" "len ''https://a.example/'' \<le> 2048"
    "open_to demo_relay ''https://a.example/'' demo_publisher"
    "\<forall>t\<in>set (publication_targets demo_publisher). tgt_consecutive_failures t < 2 ^ 32"
    by (simp_all add: open_to_def demo_targets)
  from publish_origin_catches_up [OF demo_laws me demo_honest calm demo_publishable url rest, of demo_hours 10]
  show ?thesis by auto
qed

end
