(* ===== verification/Observation.thy ===== *)
theory Observation
  imports World
begin

text \<open>
  Ingested observations (\<open>append_observation\<close> of \<^verbatim>\<open>src/src/db.rs\<close>): the one event a node writes on
  its own account, with the story it opens or joins, the work it creates and the candidate pairs of
  similar stories.  \<open>similarity\<close> is compared with 0.15 on the integers behind the quotient.  The
  instruction text of a candidate pair shows a rounded number and two quoted titles for human
  readers; \<open>render\<close> stands for that formatting and nothing depends on its result.
\<close>

record ingested_observation =
  io_source_id :: string
  io_canonical_url :: string
  io_title :: string
  io_summary :: string
  io_published_at :: "int option"
  io_retrieved_at :: int
  io_language :: "string option"
  io_document_hash :: string
  io_raw_metadata :: json

section \<open>Similar titles\<close>

definition to_ascii_lowercase :: "string \<Rightarrow> string" where
  "to_ascii_lowercase s = map (\<lambda>c. if ascii_uppercase c then char_of (nat (byte_of c + 32)) else c) s"

text \<open>\<open>str::split\<close> at the characters (as byte blocks) that satisfy a predicate.\<close>

fun split_blocks :: "(string \<Rightarrow> bool) \<Rightarrow> string list \<Rightarrow> string list" where
  "split_blocks P [] = [[]]"
| "split_blocks P (c # cs) =
     (if P c then [] # split_blocks P cs
      else (case split_blocks P cs of [] \<Rightarrow> [c] | p # ps \<Rightarrow> (c @ p) # ps))"

definition STOP_WORDS :: "string list" where
  "STOP_WORDS = [''about'', ''after'', ''from'', ''into'', ''that'', ''their'', ''the'', ''this'', ''with'']"

definition title_terms :: "ext \<Rightarrow> string \<Rightarrow> string list" where
  "title_terms X title = remdups (filter (\<lambda>t. len t \<ge> 3 \<and> t \<notin> set STOP_WORDS)
     (map to_ascii_lowercase (split_blocks (\<lambda>c. \<not> x_alphanumeric X c) (utf8_chars title))))"

text \<open>The quotient of the sizes of intersection and union, as a pair; no terms count as 0 over 1.\<close>

definition title_similarity :: "ext \<Rightarrow> string \<Rightarrow> string \<Rightarrow> int \<times> int" where
  "title_similarity X first second =
     (let a = title_terms X first; b = title_terms X second in
      if a = [] \<or> b = [] then (0, 1)
      else (len (filter (\<lambda>t. t \<in> set b) a), len (remdups (a @ b))))"

definition too_dissimilar :: "int \<times> int \<Rightarrow> bool" where
  "too_dissimilar s \<longleftrightarrow> 100 * fst s < 15 * snd s"

definition insert_cluster_candidates ::
  "ext \<Rightarrow> (int \<times> int \<Rightarrow> string \<Rightarrow> string \<Rightarrow> string) \<Rightarrow> string \<Rightarrow> string \<Rightarrow> int \<Rightarrow> database \<Rightarrow> database" where
  "insert_cluster_candidates X render story_id title created_sequence db =
     fold (\<lambda>s d. let similarity = title_similarity X title (sto_title s) in
         if too_dissimilar similarity then d
         else insert_work_item X ''cluster_stories'' ''story_pair'' (story_pair_id story_id (sto_story_id s))
                (render similarity title (sto_title s)) 1 created_sequence d)
       (take 50 (order_by (\<lambda>a b. sto_created_sequence a > sto_created_sequence b)
          (filter (\<lambda>s. sto_story_id s \<noteq> story_id \<and> sto_merged_into s = None) (stories db)))) db"

section \<open>Appending an observation\<close>

definition observation_id_of :: "ext \<Rightarrow> ingested_observation \<Rightarrow> string" where
  "observation_id_of X ob = prefixed_id X ''cwobs_''
     (io_source_id ob @ [CHR 0x00] @ io_canonical_url ob @ [CHR 0x00] @ io_document_hash ob)"

definition known_observation :: "string \<Rightarrow> database \<Rightarrow> accepted_object option" where
  "known_observation i db = Option.bind (first_row (\<lambda>r. obs_observation_id r = i) (observations db)) (\<lambda>r.
     map_option (\<lambda>e. \<lparr> acc_id = ev_event_id e, acc_sequence = ev_sequence e,
                       acc_event_hash = ev_event_hash e \<rparr>)
       (first_row (\<lambda>e. ev_sequence e = obs_created_sequence r) (events db)))"

definition ingestible_status :: "string \<Rightarrow> bool" where
  "ingestible_status st \<longleftrightarrow> st = ''probation'' \<or> st = ''active'' \<or> st = ''degraded''"

text \<open>The story of the earliest observation of the same page.\<close>

definition existing_story :: "ingested_observation \<Rightarrow> database \<Rightarrow> string option" where
  "existing_story ob db =
     (case List.map_filter (\<lambda>r. map_option sob_story_id
         (first_row (\<lambda>l. sob_observation_id l = obs_observation_id r) (story_observations db)))
       (order_by (\<lambda>a b. obs_created_sequence a < obs_created_sequence b)
         (filter (\<lambda>r. obs_source_id r = io_source_id ob \<and> obs_canonical_url r = io_canonical_url ob)
           (observations db))) of [] \<Rightarrow> None | s # _ \<Rightarrow> Some s)"

definition observation_payload :: "ext \<Rightarrow> string \<Rightarrow> string \<Rightarrow> ingested_observation \<Rightarrow> json" where
  "observation_payload X observation_id story_id ob = JObj [
     (''canonical_url'', JStr (io_canonical_url ob)),
     (''document_hash'', JStr (io_document_hash ob)),
     (''language'', e_opt JStr (io_language ob)),
     (''observation_id'', JStr observation_id),
     (''published_at'', e_opt (e_time X) (io_published_at ob)),
     (''raw_metadata'', io_raw_metadata ob),
     (''retrieved_at'', e_time X (io_retrieved_at ob)),
     (''source_id'', JStr (io_source_id ob)),
     (''story_id'', JStr story_id),
     (''summary'', JStr (io_summary ob)),
     (''title'', JStr (io_title ob))]"

definition observation_object :: "json \<Rightarrow> json" where
  "observation_object payload = JObj [
     (''kind'', JStr ''observation''), (''payload'', payload), (''protocol'', JStr PROTOCOL_VERSION)]"

definition observation_input :: "string \<Rightarrow> ingested_observation \<Rightarrow> json \<Rightarrow> string \<Rightarrow> event_input" where
  "observation_input story_id ob payload canonical =
     \<lparr> in_kind = ''observation'', in_lineage_id = None, in_delegation_id = None,
       in_created_at = io_retrieved_at ob, in_author_nonce = None,
       in_targets = [story_id, io_source_id ob], in_supersedes = [], in_payload = payload,
       in_canonical_json = canonical, in_author_signature = None \<rparr>"

definition observation_clash :: "observation_row \<Rightarrow> observation_row \<Rightarrow> bool" where
  "observation_clash r s \<longleftrightarrow> obs_observation_id r = obs_observation_id s \<or>
     (obs_source_id r = obs_source_id s \<and> obs_canonical_url r = obs_canonical_url s \<and>
      obs_document_hash r = obs_document_hash s)"

definition new_story :: "string \<Rightarrow> ingested_observation \<Rightarrow> int \<Rightarrow> story_row" where
  "new_story story_id ob n =
     \<lparr> sto_story_id = story_id, sto_title = io_title ob, sto_first_seen_at = millis (io_retrieved_at ob),
       sto_created_sequence = n, sto_merged_into = None \<rparr>"

definition new_observation :: "string \<Rightarrow> ingested_observation \<Rightarrow> int \<Rightarrow> observation_row" where
  "new_observation observation_id ob n =
     \<lparr> obs_observation_id = observation_id, obs_source_id = io_source_id ob,
       obs_canonical_url = io_canonical_url ob, obs_title = io_title ob,
       obs_summary = io_summary ob, obs_published_at = map_option millis (io_published_at ob),
       obs_retrieved_at = millis (io_retrieved_at ob), obs_language = io_language ob,
       obs_document_hash = io_document_hash ob, obs_raw_metadata = io_raw_metadata ob,
       obs_created_sequence = n \<rparr>"

definition new_link :: "string \<Rightarrow> string \<Rightarrow> story_observation_row" where
  "new_link story_id observation_id =
     \<lparr> sob_story_id = story_id, sob_observation_id = observation_id, sob_linked_event_id = None \<rparr>"

text \<open>The two standing tasks of an observation.\<close>

definition observation_work :: "ext \<Rightarrow> string \<Rightarrow> string \<Rightarrow> int \<Rightarrow> database \<Rightarrow> database" where
  "observation_work X observation_id story_id n db =
     insert_work_item X ''assess_story'' ''story'' story_id
       ''Assess significance, claims, uncertainty, and missing perspectives with citations.'' 2 n
       (insert_work_item X ''verify_observation'' ''observation'' observation_id
         ''Independently refetch or corroborate this observation; report evidence and disagreement.'' 2 n db)"

text \<open>The statements after the event, in their order.\<close>

definition record_observation ::
  "ext \<Rightarrow> (int \<times> int \<Rightarrow> string \<Rightarrow> string \<Rightarrow> string) \<Rightarrow> string \<Rightarrow> string \<Rightarrow> bool \<Rightarrow> ingested_observation \<Rightarrow>
   accepted_object \<Rightarrow> database \<Rightarrow> database result" where
  "record_observation X render observation_id story_id is_new_story ob accepted db =
     (let n = acc_sequence accepted;
          st = insert_or_ignore (\<lambda>r s. sto_story_id r = sto_story_id s) (new_story story_id ob n) (stories db) in
      and_then (insert_unique observation_clash (new_observation observation_id ob n) (observations db)) (\<lambda>os.
      and_then (insert_unique (\<lambda>r s. sob_observation_id r = sob_observation_id s)
                  (new_link story_id observation_id) (story_observations db)) (\<lambda>ls.
      let db1 = observation_work X observation_id story_id n
            (db\<lparr>stories := st, observations := os, story_observations := ls\<rparr>) in
      Inr (if is_new_story then insert_cluster_candidates X render story_id (io_title ob) n db1
           else db1))))"

definition append_observation ::
  "ext \<Rightarrow> node_identity \<Rightarrow> (int \<times> int \<Rightarrow> string \<Rightarrow> string \<Rightarrow> string) \<Rightarrow> int \<Rightarrow> ingested_observation \<Rightarrow>
   database \<Rightarrow> (accepted_object \<times> database) result" where
  "append_observation X me render received ob db =
     (let i = observation_id_of X ob in
      case known_observation i db of
        Some known \<Rightarrow> Inr (known, db)
      | None \<Rightarrow>
          and_then (fail_if (\<not> list_ex (\<lambda>s. src_source_id s = io_source_id ob \<and>
                       ingestible_status (src_status s)) (sources db)) Validation) (\<lambda>_.
          let story = existing_story ob db;
              story_id = (case story of Some s \<Rightarrow> s | None \<Rightarrow> prefixed_id X ''cwstory_'' i);
              payload = observation_payload X i story_id ob in
          and_then (canonical_json X (observation_object payload)) (\<lambda>canonical.
          and_then (append_event X me received (observation_input story_id ob payload canonical) db)
            (\<lambda>(accepted, db1).
          and_then (record_observation X render i story_id (story = None) ob accepted db1) (\<lambda>db2.
            Inr (accepted, db2))))))"

section \<open>Lemmas\<close>

definition wire_observation :: "ingested_observation \<Rightarrow> bool" where
  "wire_observation ob \<longleftrightarrow> time_ok (io_retrieved_at ob) \<and>
     (case io_published_at ob of None \<Rightarrow> True | Some t \<Rightarrow> time_ok t) \<and> json_safe (io_raw_metadata ob)"

lemma observation_envelope_roundtrip:
  assumes "time_laws X" and "wire_observation ob"
  shows "\<exists>v. d_federated_observation_envelope X (observation_object (observation_payload X i sid ob)) = Some v \<and>
    fop_story_id (foe_payload v) = sid \<and> fop_source_id (foe_payload v) = io_source_id ob"
  using assms
  by (cases "io_published_at ob"; cases "io_language ob")
    (simp_all add: d_federated_observation_envelope_def d_federated_observation_payload_def
      observation_object_def observation_payload_def wire_observation_def e_opt_def e_time_def
      time_laws_def)

lemma json_safe_observation:
  "wire_observation ob \<Longrightarrow> json_safe (observation_payload X i sid ob) \<and>
     json_safe (observation_object (observation_payload X i sid ob))"
  by (cases "io_published_at ob"; cases "io_language ob")
    (simp_all add: observation_object_def observation_payload_def wire_observation_def byte_of_def
      e_opt_def e_time_def)

lemma faithful_observation:
  assumes laws: "json_laws X" "time_laws X" and w: "wire_observation ob"
    and c: "canonical_json X (observation_object (observation_payload X i sid ob)) = Inr canonical"
  shows "faithful_input X (observation_input sid ob (observation_payload X i sid ob) canonical)"
proof -
  let ?v = "observation_object (observation_payload X i sid ob)"
  have "x_jcs X ?v = Some canonical" using c by (simp add: canonical_json_def)
  moreover have "json_get ''payload'' ?v = Some (observation_payload X i sid ob)"
    by (simp add: observation_object_def)
  ultimately show ?thesis
    unfolding faithful_input_def
    using json_safe_observation [OF w, of X i sid] observation_envelope_roundtrip [OF laws(2) w, of i sid]
    by (intro exI [of _ ?v]) (auto simp: observation_input_def expected_projection_def from_value_def)
qed

lemma append_observation_Inr:
  assumes "append_observation X me render received ob db = Inr (acc, db')"
  obtains (known) "known_observation (observation_id_of X ob) db = Some acc" "db' = db"
  | (fresh) sid new canonical db1 where "known_observation (observation_id_of X ob) db = None"
    "\<exists>s\<in>set (sources db). src_source_id s = io_source_id ob \<and> ingestible_status (src_status s)"
    "canonical_json X (observation_object (observation_payload X (observation_id_of X ob) sid ob)) = Inr canonical"
    "append_event X me received
       (observation_input sid ob (observation_payload X (observation_id_of X ob) sid ob) canonical) db = Inr (acc, db1)"
    "record_observation X render (observation_id_of X ob) sid new ob acc db1 = Inr db'"
proof (cases "known_observation (observation_id_of X ob) db")
  case None
  let ?i = "observation_id_of X ob"
  define sid where "sid = (case existing_story ob db of Some s \<Rightarrow> s | None \<Rightarrow> prefixed_id X ''cwstory_'' ?i)"
  obtain canonical db1 where
    "\<exists>s\<in>set (sources db). src_source_id s = io_source_id ob \<and> ingestible_status (src_status s)"
    "canonical_json X (observation_object (observation_payload X ?i sid ob)) = Inr canonical"
    "append_event X me received (observation_input sid ob (observation_payload X ?i sid ob) canonical) db
       = Inr (acc, db1)"
    "record_observation X render ?i sid (existing_story ob db = None) ob acc db1 = Inr db'"
    using assms None by (auto simp: append_observation_def Let_def list_ex_iff sid_def)
  with None show ?thesis by (intro fresh)
next
  case (Some k)
  with assms show ?thesis by (intro known) (auto simp: append_observation_def Let_def)
qed

lemma cluster_frame:
  "\<exists>ws. insert_cluster_candidates X render sid title n db = db\<lparr>work_items := ws\<rparr>"
proof -
  have "\<exists>ws. fold (\<lambda>s d. let similarity = title_similarity X title (sto_title s) in
         if too_dissimilar similarity then d
         else insert_work_item X ''cluster_stories'' ''story_pair'' (story_pair_id sid (sto_story_id s))
                (render similarity title (sto_title s)) 1 n d) ss db = db\<lparr>work_items := ws\<rparr>" for ss
  proof (induction ss rule: rev_induct)
    case Nil
    show ?case by (rule exI [of _ "work_items db"]) simp
  next
    case (snoc s ss)
    then show ?case by (auto simp: Let_def insert_work_item_def)
  qed
  then show ?thesis by (simp add: insert_cluster_candidates_def)
qed

text \<open>What the recording statements leave behind.\<close>

lemma observation_work_frame: "\<exists>ws. observation_work X i sid n db = db\<lparr>work_items := ws\<rparr>"
  by (auto simp: observation_work_def insert_work_item_def)

lemma record_observation_effect:
  assumes "record_observation X render i sid new ob acc db = Inr db'"
  obtains st ws where "sid \<in> set (map sto_story_id st)"
    "set (map sto_story_id (stories db)) \<subseteq> set (map sto_story_id st)"
    "\<forall>r\<in>set (observations db). obs_observation_id r \<noteq> i"
    "\<forall>r\<in>set (story_observations db). sob_observation_id r \<noteq> i"
    "db' = db\<lparr>stories := st, observations := observations db @ [new_observation i ob (acc_sequence acc)],
      story_observations := story_observations db @ [new_link sid i], work_items := ws\<rparr>"
proof -
  define n where "n = acc_sequence acc"
  define st where "st = insert_or_ignore (\<lambda>r s. sto_story_id r = sto_story_id s) (new_story sid ob n) (stories db)"
  define db2 where "db2 = db\<lparr>stories := st, observations := observations db @ [new_observation i ob n],
      story_observations := story_observations db @ [new_link sid i]\<rparr>"
  have st: "sid \<in> set (map sto_story_id st)" "set (map sto_story_id (stories db)) \<subseteq> set (map sto_story_id st)"
    by (auto simp: st_def insert_or_ignore_def list_ex_iff new_story_def image_iff)
  have run: "\<forall>r\<in>set (observations db). \<not> observation_clash (new_observation i ob n) r"
    "\<forall>r\<in>set (story_observations db). sob_observation_id (new_link sid i) \<noteq> sob_observation_id r"
    "db' = observation_work X i sid n db2 \<or>
     db' = insert_cluster_candidates X render sid (io_title ob) n (observation_work X i sid n db2)"
    using assms by (auto simp: record_observation_def Let_def n_def st_def db2_def split: if_splits)
  obtain ws where "observation_work X i sid n db2 = db2\<lparr>work_items := ws\<rparr>"
    using observation_work_frame by blast
  with run(3) obtain ws where "db' = db2\<lparr>work_items := ws\<rparr>"
    using cluster_frame [of X render sid "io_title ob" n "db2\<lparr>work_items := ws\<rparr>"] by auto
  with st run(1,2) show ?thesis
    by (intro that [of st ws]) (auto simp: n_def db2_def observation_clash_def new_observation_def new_link_def)
qed

text \<open>The archive of a node: every observation has one key and is linked to exactly one known story.\<close>

definition archive_ok :: "database \<Rightarrow> bool" where
  "archive_ok db \<longleftrightarrow> links_ok db \<and> distinct (map obs_observation_id (observations db)) \<and>
     set (map obs_observation_id (observations db)) = set (map sob_observation_id (story_observations db))"

lemma archive_ok_cong:
  assumes "archive_ok db" and "map sto_story_id (stories db') = map sto_story_id (stories db)"
    "observations db' = observations db" "story_observations db' = story_observations db"
  shows "archive_ok db'"
proof -
  have "set (map sto_story_id (stories db')) = set (map sto_story_id (stories db))" by (simp only: assms(2))
  with assms show ?thesis by (simp add: archive_ok_def links_ok_def)
qed

text \<open>How a fresh observation changes the database, all statements together.\<close>

lemma append_observation_effect:
  assumes "append_observation X me render received ob db = Inr (acc, db')"
  obtains (known) "known_observation (observation_id_of X ob) db = Some acc" "db' = db"
  | (fresh) row st sid ws where "known_observation (observation_id_of X ob) db = None"
    "\<exists>s\<in>set (sources db). src_source_id s = io_source_id ob \<and> ingestible_status (src_status s)"
    "sid \<in> set (map sto_story_id st)" "set (map sto_story_id (stories db)) \<subseteq> set (map sto_story_id st)"
    "\<forall>r\<in>set (observations db). obs_observation_id r \<noteq> observation_id_of X ob"
    "\<forall>r\<in>set (story_observations db). sob_observation_id r \<noteq> observation_id_of X ob"
    "acc = \<lparr> acc_id = ev_event_id row, acc_sequence = ev_sequence row, acc_event_hash = ev_event_hash row \<rparr>"
    "ev_sequence row = next_sequence db"
    "db' = db\<lparr>events := events db @ [row], stories := st,
      observations := observations db @ [new_observation (observation_id_of X ob) ob (acc_sequence acc)],
      story_observations := story_observations db @ [new_link sid (observation_id_of X ob)],
      work_items := ws\<rparr>"
  using assms
proof (cases rule: append_observation_Inr)
  case known
  then show ?thesis by (rule that(1))
next
  case (fresh sid new canonical db1)
  from fresh(4) obtain row where row: "db1 = db\<lparr>events := events db @ [row]\<rparr>"
    "acc = \<lparr> acc_id = ev_event_id row, acc_sequence = ev_sequence row, acc_event_hash = ev_event_hash row \<rparr>"
    "ev_sequence row = next_sequence db"
    by (rule append_event_Inr) auto
  from fresh(5) obtain st ws where "sid \<in> set (map sto_story_id st)"
    "set (map sto_story_id (stories db1)) \<subseteq> set (map sto_story_id st)"
    "\<forall>r\<in>set (observations db1). obs_observation_id r \<noteq> observation_id_of X ob"
    "\<forall>r\<in>set (story_observations db1). sob_observation_id r \<noteq> observation_id_of X ob"
    "db' = db1\<lparr>stories := st,
      observations := observations db1 @ [new_observation (observation_id_of X ob) ob (acc_sequence acc)],
      story_observations := story_observations db1 @ [new_link sid (observation_id_of X ob)], work_items := ws\<rparr>"
    by (rule record_observation_effect)
  with fresh(1,2) row show ?thesis by (intro that(2) [of sid st row ws]) simp_all
qed

lemma archive_ok_append_observation:
  assumes ok: "archive_ok db" and run: "append_observation X me render received ob db = Inr (acc, db')"
  shows "archive_ok db'"
  using run
proof (cases rule: append_observation_effect)
  case known
  with ok show ?thesis by simp
next
  case (fresh row st sid ws)
  have o: "map obs_observation_id (observations db') =
      map obs_observation_id (observations db) @ [observation_id_of X ob]"
    and l: "map sob_observation_id (story_observations db') =
      map sob_observation_id (story_observations db) @ [observation_id_of X ob]"
    and t: "map sob_story_id (story_observations db') = map sob_story_id (story_observations db) @ [sid]"
    and u: "stories db' = st"
    by (simp_all add: fresh(9) new_observation_def new_link_def)
  have "set (map sob_story_id (story_observations db)) \<subseteq> set (map sto_story_id st)"
    using ok fresh(4) unfolding archive_ok_def links_ok_def by (blast intro: subset_trans)
  with ok fresh(3,5,6) show ?thesis unfolding archive_ok_def links_ok_def o l t u by auto
qed

text \<open>On a verified log the sequence of the next event is new.\<close>

lemma next_sequence_new:
  assumes "hash_laws X" and "hex_laws X" and "verify_log X me db = Inr (n, h)" and "r \<in> set (events db)"
  shows "ev_sequence r < next_sequence db"
proof -
  obtain key s where s: "fold_result (verify_row X key) (events db) log_start = Inr s"
    using assms(3) by (auto simp: verify_log_def verify_rows_def)
  obtain i where i: "i < length (events db)" "r = events db ! i"
    using assms(4) by (auto simp: in_set_conv_nth)
  have "ev_sequence (last (events db)) = int (length (events db))"
    using verified_cursor [OF assms(1,2) s] i(1) by (auto simp: cursor_ok_def)
  with verified_sequences [OF assms(1,2) s i(1)] i show ?thesis by (auto simp: next_sequence_def)
qed

section \<open>Properties\<close>

text \<open>C37: one story per observation.  Recording an observation keeps every observation linked to exactly
  one known story, adds at most one event, and a new one is only taken from a source that passed review.\<close>

theorem append_observation_archives:
  assumes "archive_ok db" and "append_observation X me render received ob db = Inr (acc, db')"
  shows "archive_ok db' \<and> (db' = db \<or>
    (\<exists>row s. events db' = events db @ [row] \<and> ev_event_id row = acc_id acc \<and>
       s \<in> set (sources db) \<and> src_source_id s = io_source_id ob \<and> ingestible_status (src_status s)))"
  using assms(2)
proof (cases rule: append_observation_effect)
  case known
  with assms(1) show ?thesis by simp
next
  case (fresh row st sid ws)
  from archive_ok_append_observation [OF assms] fresh(2,7,9) show ?thesis by auto
qed

section \<open>Example\<close>

definition demo_page :: ingested_observation where
  "demo_page = \<lparr> io_source_id = ''S'', io_canonical_url = ''https://example.org/1'', io_title = ''Flood in town'',
     io_summary = [], io_published_at = None, io_retrieved_at = 9, io_language = None,
     io_document_hash = ''d1'', io_raw_metadata = JNull \<rparr>"

definition demo_feed :: database where
  "demo_feed = demo_db\<lparr> sources := [demo_source\<lparr>src_status := ''probation''\<rparr>] \<rparr>"

definition demo_observed :: "(accepted_object \<times> database) result" where
  "demo_observed = append_observation demo_ext demo_me (\<lambda>_ _ _. []) 9 demo_page demo_feed"

lemma demo_observed_case:
  "(case demo_observed of Inl _ \<Rightarrow> False
    | Inr (_, db) \<Rightarrow> length (story_observations db) = 1 \<and> length (work_items db) = 2)"
  by code_simp

lemma demo_observed_run: "\<exists>acc. demo_observed = Inr (acc, accepted_db demo_observed)"
  using accepted_case [OF demo_observed_case] accepted_db_eq by blast

lemma demo_feed_ok: "archive_ok demo_feed" "verify_log demo_ext demo_me demo_feed = Inr (0, zero_hash)"
  using demo_db_verified
  by (simp_all add: demo_feed_def demo_db_def archive_ok_def links_ok_def verify_log_def)

theorem append_observation_archives_witness:
  "\<exists>acc. demo_observed = Inr (acc, accepted_db demo_observed) \<and> archive_ok (accepted_db demo_observed)"
proof -
  obtain acc where a: "demo_observed = Inr (acc, accepted_db demo_observed)" using demo_observed_run by blast
  from append_observation_archives [OF demo_feed_ok(1)] a show ?thesis
    unfolding demo_observed_def by blast
qed

end
