(* ===== verification/Node.thy ===== *)
theory Node
  imports Publication Observation
begin

text \<open>
  The node as a whole: every operation that changes its state, as steps of a transition relation, and
  the invariant that all of them keep.  A step is one accepted request, one recorded observation or
  fetch, one stored artifact, one restart, one import (accepted or refused), or one statement about the relays of
  the operator; a refused local request changes nothing and is not a step.
\<close>

section \<open>The state and its steps\<close>

record node_state =
  ns_db :: database
  ns_store :: forge_store

text \<open>The premises \<open>time_ok\<close> and \<open>wire_\<dots>\<close> say that the request was read from the wire: its instants are
  ones RFC 3339 can write, its integers and payload ones JSON can carry.\<close>

inductive node_step :: "ext \<Rightarrow> node_identity \<Rightarrow> node_state \<Rightarrow> node_state \<Rightarrow> bool" for X me where
  step_lineage: "time_ok (lr_created_at reg) \<Longrightarrow>
    register_lineage X me now received reg (ns_db s) = Inr (acc, db') \<Longrightarrow> node_step X me s (s\<lparr>ns_db := db'\<rparr>)"
| step_delegation: "wire_delegation d \<Longrightarrow>
    register_delegation X me now received d (ns_db s) = Inr (acc, db') \<Longrightarrow> node_step X me s (s\<lparr>ns_db := db'\<rparr>)"
| step_revocation: "time_ok (dr_created_at r) \<Longrightarrow>
    revoke_delegation X me now received r (ns_db s) = Inr (acc, db') \<Longrightarrow> node_step X me s (s\<lparr>ns_db := db'\<rparr>)"
| step_rotation: "time_ok (kr_created_at (sk_statement k)) \<Longrightarrow>
    rotate_lineage_key X me now received k (ns_db s) = Inr (acc, db') \<Longrightarrow> node_step X me s (s\<lparr>ns_db := db'\<rparr>)"
| step_acknowledgement: "wire_acknowledgement a \<Longrightarrow>
    acknowledge X me now received a (ns_db s) = Inr (acc, db') \<Longrightarrow> node_step X me s (s\<lparr>ns_db := db'\<rparr>)"
| step_contribution: "wire_contribution c \<Longrightarrow>
    accept_contribution X me (ns_store s) now received c (ns_db s) = Inr (acc, db') \<Longrightarrow>
    node_step X me s (s\<lparr>ns_db := db'\<rparr>)"
| step_observation: "wire_observation ob \<Longrightarrow>
    append_observation X me render received ob (ns_db s) = Inr (acc, db') \<Longrightarrow> node_step X me s (s\<lparr>ns_db := db'\<rparr>)"
| step_fetch: "node_step X me s (s\<lparr>ns_db := mark_source_fetch now source_id success (ns_db s)\<rparr>)"
| step_artifact: "store_forge_artifact X me now received (ns_db s) a bytes (ns_store s) = Inr (receipt, st') \<Longrightarrow>
    node_step X me s (s\<lparr>ns_store := st'\<rparr>)"
| step_restart: "node_open X \<lparr> dd_key = Some key, dd_database = Some (ns_db s) \<rparr> = (Inr me, dir) \<Longrightarrow>
    dd_database dir = Some db' \<Longrightarrow> node_step X me s (s\<lparr>ns_db := db'\<rparr>)"
| step_import: "time_ok observed \<Longrightarrow> wire_checkpoint (fb_checkpoint b) \<Longrightarrow>
    import_federation_bundle X me observed now detected received b (ns_db s) = (report, db') \<Longrightarrow>
    node_step X me s (s\<lparr>ns_db := db'\<rparr>)"
| step_publication: "publication_step X me (ns_db s) db' \<Longrightarrow> node_step X me s (s\<lparr>ns_db := db'\<rparr>)"

text \<open>A node starts with its initialization in an empty directory.\<close>

inductive reachable :: "ext \<Rightarrow> node_identity \<Rightarrow> node_state \<Rightarrow> bool" for X me where
  start: "node_initialize X pretty secret now \<lparr> dd_key = None, dd_database = None \<rparr> = (Inr me, dir) \<Longrightarrow>
    dd_database dir = Some db \<Longrightarrow> reachable X me \<lparr> ns_db = db, ns_store = empty_store \<rparr>"
| step: "reachable X me s \<Longrightarrow> node_step X me s s' \<Longrightarrow> reachable X me s'"

section \<open>The invariant\<close>

definition owned :: "node_identity \<Rightarrow> database \<Rightarrow> bool" where
  "owned me db \<longleftrightarrow> settled db \<and> map_of (meta db) ''node_id'' = Some (node_id me)"

definition node_ok :: "ext \<Rightarrow> node_identity \<Rightarrow> database \<Rightarrow> bool" where
  "node_ok X me db \<longleftrightarrow> log_ok X me db \<and> authority_ok db \<and> sources_ok db \<and> peers_ok db \<and> owned me db \<and>
     targets_ok X me db \<and> settings_ok db"

text \<open>What an operation owes the node: at most one faithful event, and the other parts kept.\<close>

locale node_operation =
  fixes X :: ext and me :: node_identity and run :: "database \<Rightarrow> database \<Rightarrow> bool"
  assumes logs: "ext_laws X \<Longrightarrow> owned me db \<Longrightarrow> peers_ok db \<Longrightarrow> run db db' \<Longrightarrow> log_step X me db db'"
    and authority: "owned me db \<Longrightarrow> authority_ok db \<Longrightarrow> peers_ok db \<Longrightarrow> run db db' \<Longrightarrow> authority_ok db'"
    and sources_kept: "owned me db \<Longrightarrow> sources_ok db \<Longrightarrow> peers_ok db \<Longrightarrow> run db db' \<Longrightarrow> sources_ok db'"
    and peers: "owned me db \<Longrightarrow> peers_ok db \<Longrightarrow> run db db' \<Longrightarrow> peers_ok db'"
    and owner: "owned me db \<Longrightarrow> peers_ok db \<Longrightarrow> run db db' \<Longrightarrow> owned me db'"
    and relays: "owned me db \<Longrightarrow> peers_ok db \<Longrightarrow> run db db' \<Longrightarrow> prefix (events db) (events db') \<Longrightarrow> evolves X me db db'"
begin

lemma keeps_node_ok:
  assumes "ext_laws X" and "identity_ok X me" and "node_ok X me db" and "run db db'"
  shows "node_ok X me db' \<and> prefix (events db) (events db')"
proof -
  have "log_ok X me db' \<and> prefix (events db) (events db')"
    using assms logs log_step_ok [of X me db db'] unfolding node_ok_def by blast
  moreover from this have "targets_ok X me db' \<and> settings_ok db'"
    using assms(3,4) relays unfolding node_ok_def evolves_def by blast
  ultimately show ?thesis using assms authority sources_kept peers owner unfolding node_ok_def by blast
qed

end

context logged_operation
begin

lemma gives_log_step: "ext_laws X \<Longrightarrow> wire_ok a \<Longrightarrow> op a db = Inr (acc, db') \<Longrightarrow> log_step X me db db'"
  unfolding log_step_def by (drule logged, assumption+) blast

end

section \<open>What the operations leave alone\<close>

definition followed :: "database \<Rightarrow> remote_event_row list \<times> peer_row list \<times> settings \<times> target_row list" where
  "followed db = (remote_events db, federation_peers db, meta db, publication_targets db)"

definition reviewed :: "database \<Rightarrow> source_row list \<times> source_review_row list" where
  "reviewed db = (sources db, source_reviews db)"

definition delegated :: "database \<Rightarrow> lineage_row list \<times> lineage_key_row list \<times> delegation_row list" where
  "delegated db = (lineages db, lineage_keys db, delegations db)"

lemma peers_ok_followed: "peers_ok db \<Longrightarrow> followed db' = followed db \<Longrightarrow> peers_ok db'"
  by (simp add: followed_def peers_ok_def peer_ok_def remote_log_def)

lemma sources_ok_reviewed: "sources_ok db \<Longrightarrow> reviewed db' = reviewed db \<Longrightarrow> sources_ok db'"
  by (simp add: reviewed_def sources_ok_def)

lemma authority_ok_delegated: "authority_ok db \<Longrightarrow> delegated db' = delegated db \<Longrightarrow> authority_ok db'"
  using authority_ok_cong [of db' db] by (simp add: delegated_def)

lemma owned_followed: "owned me db \<Longrightarrow> followed db' = followed db \<Longrightarrow> owned me db'"
  by (simp add: followed_def owned_def settled_def)

lemma evolves_followed: "prefix (events db) (events db') \<Longrightarrow> followed db' = followed db \<Longrightarrow> evolves X me db db'"
  by (rule evolves_log_growth) (simp_all add: followed_def)

lemmas keeps_by_frame = evolves_followed owned_followed peers_ok_followed sources_ok_reviewed authority_ok_delegated

text \<open>Authority.\<close>

lemma lineage_frame:
  "register_lineage X me now received reg db = Inr (acc, db') \<Longrightarrow> followed db' = followed db \<and> reviewed db' = reviewed db"
  by (elim register_lineage_Inr db_register_lineage_Inr) (simp add: followed_def reviewed_def)

lemma delegation_frame:
  "register_delegation X me now received d db = Inr (acc, db') \<Longrightarrow> followed db' = followed db \<and> reviewed db' = reviewed db"
  by (elim register_delegation_Inr db_register_delegation_Inr) (simp add: followed_def reviewed_def)

lemma revocation_frame:
  "revoke_delegation X me now received r db = Inr (acc, db') \<Longrightarrow> followed db' = followed db \<and> reviewed db' = reviewed db"
  by (elim revoke_delegation_Inr db_revoke_delegation_Inr) (simp add: followed_def reviewed_def)

lemma rotation_frame:
  "rotate_lineage_key X me now received k db = Inr (acc, db') \<Longrightarrow> followed db' = followed db \<and> reviewed db' = reviewed db"
  by (elim rotate_lineage_key_Inr db_rotate_lineage_key_Inr) (simp add: followed_def reviewed_def)

lemma acknowledgement_frame:
  "acknowledge X me now received a db = Inr (acc, db') \<Longrightarrow> followed db' = followed db \<and> reviewed db' = reviewed db"
  by (elim acknowledge_Inr append_acknowledgement_Inr) (simp add: followed_def reviewed_def)

text \<open>Contributions and observations.\<close>

lemma work_frames [simp]:
  "remote_events (insert_work_item X k t j i q n db) = remote_events db"
  "federation_peers (insert_work_item X k t j i q n db) = federation_peers db"
  "remote_events (close_work P n db) = remote_events db" "federation_peers (close_work P n db) = federation_peers db"
  "remote_events (complete_work k j n db) = remote_events db" "federation_peers (complete_work k j n db) = federation_peers db"
  "remote_events (admit_source i db) = remote_events db" "federation_peers (admit_source i db) = federation_peers db"
  "publication_targets (insert_work_item X k t j i q n db) = publication_targets db"
  "publication_targets (close_work P n db) = publication_targets db"
  "publication_targets (complete_work k j n db) = publication_targets db"
  "publication_targets (admit_source i db) = publication_targets db"
  by (simp_all add: world_writes)

lemma project_commons_frame:
  "project_commons_contribution X node n l e c db = Inr db' \<Longrightarrow> followed db' = followed db \<and> delegated db' = delegated db"
  by (auto simp: project_commons_contribution_def with_payload_def project_topic_def project_vote_def
      project_post_def project_openpgp_key_def project_message_def Let_def followed_def delegated_def
      split: contribution_kind.splits if_splits)

lemma story_link_frame:
  assumes "apply_story_link acc p db = Inr db'"
  shows "followed db' = followed db \<and> delegated db' = delegated db"
proof -
  have "followed d' = followed d \<and> delegated d' = delegated d" if "link_observation sid acc i d = Inr d'" for sid i d d'
    using that by (auto simp: link_observation_def Let_def followed_def delegated_def split: if_splits)
  with assms show ?thesis
    unfolding apply_story_link_def
    by - (erule fold_result_invariant [where P = "\<lambda>d. followed d = followed db \<and> delegated d = delegated db"], auto)
qed

lemma apply_projection_frame:
  assumes "apply_projection X l c acc db = Inr db'"
  shows "followed db' = followed db \<and> delegated db' = delegated db"
  using assms
  by (cases "sc_kind c")
    (auto simp: apply_projection_def with_payload_def apply_source_proposal_def apply_source_review_def
      apply_verification_def apply_assessment_def apply_work_claim_def apply_work_result_def Let_def
      followed_def delegated_def
      dest: project_commons_frame [unfolded followed_def delegated_def] story_link_frame [unfolded followed_def delegated_def])

lemma append_event_frames:
  "append_event X me now input db = Inr (acc, db') \<Longrightarrow>
   followed db' = followed db \<and> delegated db' = delegated db \<and> reviewed db' = reviewed db"
  using append_event_frame [of X me now input db acc db'] by (auto simp: followed_def delegated_def reviewed_def)

lemma contribution_frame:
  assumes "accept_contribution X me st now received c db = Inr (acc, db')"
  shows "followed db' = followed db \<and> delegated db' = delegated db"
  using assms
proof (rule accept_contribution_Inr)
  fix d assume "append_contribution X me received (dv_lineage_id d) c db = Inr (acc, db')"
  then obtain canonical db1 where
    "append_event X me received (contribution_input X (dv_lineage_id d) c canonical) db = Inr (acc, db1)"
    "apply_projection X (dv_lineage_id d) c acc db1 = Inr db'"
    by (rule append_contribution_Inr)
  with append_event_frames [OF this(1)] apply_projection_frame [OF this(2)] show ?thesis by simp
qed

lemma observation_frame:
  assumes "append_observation X me render received ob db = Inr (acc, db')"
  shows "followed db' = followed db \<and> delegated db' = delegated db \<and> reviewed db' = reviewed db"
  using assms
proof (cases rule: append_observation_Inr)
  case (fresh sid new canonical db1)
  from fresh(5) have "followed db' = followed db1 \<and> delegated db' = delegated db1 \<and> reviewed db' = reviewed db1"
    by (rule record_observation_effect) (simp add: followed_def delegated_def reviewed_def)
  with append_event_frames [OF fresh(4)] show ?thesis by simp
qed simp

text \<open>Imports.\<close>

lemma beyond_import_frame:
  assumes "beyond_import origin db' = beyond_import origin db"
  shows "delegated db' = delegated db \<and> reviewed db' = reviewed db \<and> meta db' = meta db \<and>
    publication_targets db' = publication_targets db"
proof -
  note * = arg_cong [OF assms]
  have "publication_targets db' = publication_targets db"
    using * [of publication_targets] by (simp add: beyond_import_def others_def unaffected_def)
  moreover have "meta db' = meta db" using * [of meta] by (simp add: beyond_import_def others_def unaffected_def)
  moreover have "lineages db' = lineages db" using * [of lineages] by (simp add: beyond_import_def others_def unaffected_def)
  moreover have "lineage_keys db' = lineage_keys db"
    using * [of lineage_keys] by (simp add: beyond_import_def others_def unaffected_def)
  moreover have "delegations db' = delegations db"
    using * [of delegations] by (simp add: beyond_import_def others_def unaffected_def)
  moreover have "sources db' = sources db" using * [of sources] by (simp add: beyond_import_def others_def unaffected_def)
  moreover have "source_reviews db' = source_reviews db"
    using * [of source_reviews] by (simp add: beyond_import_def others_def unaffected_def)
  ultimately show ?thesis by (simp add: delegated_def reviewed_def)
qed

lemma evidence_frame:
  assumes "evidence_added db db'"
  shows "followed db' = followed db \<and> delegated db' = delegated db \<and> reviewed db' = reviewed db \<and> events db' = events db"
proof -
  obtain v where "db' = db\<lparr>equivocation_evidence := v\<rparr>" using assms unfolding evidence_added_def by blast
  then show ?thesis by (simp add: followed_def delegated_def reviewed_def)
qed

text \<open>An import either completes, or leaves the database, or adds evidence to it.\<close>

lemma import_cases:
  assumes "import_federation_bundle X me observed now detected received b db = (report, db')"
  obtains (kept) "db' = db" | (evidence) "evidence_added db db'"
  | (completed) w r where "make_checkpoint_witness X me observed b = Inr w"
      "import_transaction X me now detected received b w db = Done (r, db')"
proof (cases report)
  case (Inr r)
  with assms have "import_federation_bundle X me observed now detected received b db = (Inr r, db')" by simp
  then show ?thesis by (rule import_bundle_Inr) (rule completed)
next
  case (Inl e)
  with assms import_transaction_committed show ?thesis
    by (auto simp: import_federation_bundle_def db_import_federation_bundle_def end_transaction_def
        split: sum.splits outcome.splits intro: kept evidence)
qed

section \<open>The operations meet the contract\<close>

interpretation lineage_step: node_operation X me
  "\<lambda>db db'. \<exists>now received reg acc. time_ok (lr_created_at reg) \<and> register_lineage X me now received reg db = Inr (acc, db')" for X me
proof (unfold_locales; elim exE conjE)
  fix db db' now received reg acc
  assume wire: "time_ok (lr_created_at reg)" and run: "register_lineage X me now received reg db = Inr (acc, db')"
  note frame = lineage_frame [OF run]
  show "log_step X me db db'" if "ext_laws X"
    using lineage_log.gives_log_step [OF that, of "(now, received, reg)"] wire run by simp
  show "authority_ok db'" if "authority_ok db"
    using run by (rule register_lineage_Inr) (use that authority_ok_register_lineage in blast)
  show "sources_ok db'" if "sources_ok db" using that frame by (blast intro: keeps_by_frame)
  show "peers_ok db'" if "peers_ok db" using that frame by (blast intro: keeps_by_frame)
  show "owned me db'" if "owned me db" using that frame by (blast intro: keeps_by_frame)
  show "evolves X me db db'" if "prefix (events db) (events db')" using that frame by (blast intro: keeps_by_frame)
qed

interpretation delegation_step: node_operation X me
  "\<lambda>db db'. \<exists>now received d acc. wire_delegation d \<and> register_delegation X me now received d db = Inr (acc, db')" for X me
proof (unfold_locales; elim exE conjE)
  fix db db' now received d acc
  assume wire: "wire_delegation d" and run: "register_delegation X me now received d db = Inr (acc, db')"
  note frame = delegation_frame [OF run]
  show "log_step X me db db'" if "ext_laws X"
    using delegation_log.gives_log_step [OF that, of "(now, received, d)"] wire run by simp
  show "authority_ok db'" if "authority_ok db"
    using run by (rule register_delegation_Inr) (use that authority_ok_register_delegation in blast)
  show "sources_ok db'" if "sources_ok db" using that frame by (blast intro: keeps_by_frame)
  show "peers_ok db'" if "peers_ok db" using that frame by (blast intro: keeps_by_frame)
  show "owned me db'" if "owned me db" using that frame by (blast intro: keeps_by_frame)
  show "evolves X me db db'" if "prefix (events db) (events db')" using that frame by (blast intro: keeps_by_frame)
qed

interpretation revocation_step: node_operation X me
  "\<lambda>db db'. \<exists>now received r acc. time_ok (dr_created_at r) \<and> revoke_delegation X me now received r db = Inr (acc, db')" for X me
proof (unfold_locales; elim exE conjE)
  fix db db' now received r acc
  assume wire: "time_ok (dr_created_at r)" and run: "revoke_delegation X me now received r db = Inr (acc, db')"
  note frame = revocation_frame [OF run]
  show "log_step X me db db'" if "ext_laws X"
    using revocation_log.gives_log_step [OF that, of "(now, received, r)"] wire run by simp
  show "authority_ok db'" if "authority_ok db"
    using run by (rule revoke_delegation_Inr) (use that authority_ok_revoke_delegation in blast)
  show "sources_ok db'" if "sources_ok db" using that frame by (blast intro: keeps_by_frame)
  show "peers_ok db'" if "peers_ok db" using that frame by (blast intro: keeps_by_frame)
  show "owned me db'" if "owned me db" using that frame by (blast intro: keeps_by_frame)
  show "evolves X me db db'" if "prefix (events db) (events db')" using that frame by (blast intro: keeps_by_frame)
qed

interpretation rotation_step: node_operation X me
  "\<lambda>db db'. \<exists>now received k acc. time_ok (kr_created_at (sk_statement k)) \<and> rotate_lineage_key X me now received k db = Inr (acc, db')" for X me
proof (unfold_locales; elim exE conjE)
  fix db db' now received k acc
  assume wire: "time_ok (kr_created_at (sk_statement k))" and run: "rotate_lineage_key X me now received k db = Inr (acc, db')"
  note frame = rotation_frame [OF run]
  show "log_step X me db db'" if "ext_laws X"
    using rotation_log.gives_log_step [OF that, of "(now, received, k)"] wire run by simp
  show "authority_ok db'" if "authority_ok db"
    using run by (rule rotate_lineage_key_Inr) (use that authority_ok_rotate in blast)
  show "sources_ok db'" if "sources_ok db" using that frame by (blast intro: keeps_by_frame)
  show "peers_ok db'" if "peers_ok db" using that frame by (blast intro: keeps_by_frame)
  show "owned me db'" if "owned me db" using that frame by (blast intro: keeps_by_frame)
  show "evolves X me db db'" if "prefix (events db) (events db')" using that frame by (blast intro: keeps_by_frame)
qed

interpretation acknowledgement_step: node_operation X me
  "\<lambda>db db'. \<exists>now received a acc. wire_acknowledgement a \<and> acknowledge X me now received a db = Inr (acc, db')" for X me
proof (unfold_locales; elim exE conjE)
  fix db db' now received a acc
  assume wire: "wire_acknowledgement a" and run: "acknowledge X me now received a db = Inr (acc, db')"
  note frame = acknowledgement_frame [OF run]
  show "log_step X me db db'" if "ext_laws X"
    using acknowledgement_log.gives_log_step [OF that, of "(now, received, a)"] wire run by simp
  show "authority_ok db'" if "authority_ok db"
    using run by (rule acknowledge_Inr) (use that authority_ok_append_acknowledgement in blast)
  show "sources_ok db'" if "sources_ok db" using that frame by (blast intro: keeps_by_frame)
  show "peers_ok db'" if "peers_ok db" using that frame by (blast intro: keeps_by_frame)
  show "owned me db'" if "owned me db" using that frame by (blast intro: keeps_by_frame)
  show "evolves X me db db'" if "prefix (events db) (events db')" using that frame by (blast intro: keeps_by_frame)
qed

interpretation contribution_step: node_operation X me
  "\<lambda>db db'. \<exists>st now received c acc. wire_contribution c \<and> accept_contribution X me st now received c db = Inr (acc, db')" for X me
proof (unfold_locales; elim exE conjE)
  fix db db' st now received c acc
  assume wire: "wire_contribution c" and run: "accept_contribution X me st now received c db = Inr (acc, db')"
  note frame = contribution_frame [OF run]
  show "log_step X me db db'" if "ext_laws X"
    using contribution_log.gives_log_step [OF that, of "(st, now, received, c)"] wire run by simp
  show "sources_ok db'" if "sources_ok db"
    using run by (rule accept_contribution_Inr) (rule sources_ok_append_contribution [OF that])
  show "authority_ok db'" if "authority_ok db" using that frame by (blast intro: keeps_by_frame)
  show "peers_ok db'" if "peers_ok db" using that frame by (blast intro: keeps_by_frame)
  show "owned me db'" if "owned me db" using that frame by (blast intro: keeps_by_frame)
  show "evolves X me db db'" if "prefix (events db) (events db')" using that frame by (blast intro: keeps_by_frame)
qed

lemma observation_log_step:
  assumes "ext_laws X" and "wire_observation ob" and "append_observation X me render received ob db = Inr (acc, db')"
  shows "log_step X me db db'"
  using assms(3)
proof (cases rule: append_observation_Inr)
  case (fresh sid new canonical db1)
  have "json_laws X" "time_laws X" using assms(1) by (simp_all add: ext_laws_def)
  note faithful = faithful_observation [OF this assms(2) fresh(3)]
  have "events db' = events db1" by (rule record_observation_effect [OF fresh(5)]) simp
  with faithful fresh(4) show ?thesis unfolding log_step_def by blast
qed (simp add: log_step_def)

interpretation observation_step: node_operation X me
  "\<lambda>db db'. \<exists>render received ob acc. wire_observation ob \<and> append_observation X me render received ob db = Inr (acc, db')" for X me
proof (unfold_locales; elim exE conjE)
  fix db db' render received ob acc
  assume wire: "wire_observation ob" and run: "append_observation X me render received ob db = Inr (acc, db')"
  note frame = observation_frame [OF run]
  show "log_step X me db db'" if "ext_laws X" by (rule observation_log_step [OF that wire run])
  show "authority_ok db'" if "authority_ok db" using that frame by (blast intro: keeps_by_frame)
  show "sources_ok db'" if "sources_ok db" using that frame by (blast intro: keeps_by_frame)
  show "peers_ok db'" if "peers_ok db" using that frame by (blast intro: keeps_by_frame)
  show "owned me db'" if "owned me db" using that frame by (blast intro: keeps_by_frame)
  show "evolves X me db db'" if "prefix (events db) (events db')" using that frame by (blast intro: keeps_by_frame)
qed

definition owners :: "database \<Rightarrow> (string \<times> string) list" where
  "owners db = map (\<lambda>s. (src_source_id s, src_proposer_lineage_id s)) (sources db)"

lemma sources_ok_owners:
  assumes "sources_ok db" and "owners db' = owners db" and "source_reviews db' = source_reviews db"
  shows "sources_ok db'"
proof -
  have ids: "map src_source_id (sources d) = map fst (owners d)" for d by (simp add: owners_def o_def)
  have rows: "(\<exists>s\<in>set (sources d). src_source_id s = i \<and> src_proposer_lineage_id s \<noteq> l) \<longleftrightarrow>
      (\<exists>p. (i, p) \<in> set (owners d) \<and> p \<noteq> l)" for d i l
    by (auto simp: owners_def)
  show ?thesis using assms(1) unfolding sources_ok_def rows ids assms(2,3) .
qed

interpretation fetch_step: node_operation X me
  "\<lambda>db db'. \<exists>now i success. db' = mark_source_fetch now i success db" for X me
proof (unfold_locales; elim exE conjE)
  fix db db' now i success
  assume run: "db' = mark_source_fetch now i success db"
  have frame: "followed db' = followed db" "delegated db' = delegated db"
    by (simp_all add: run mark_source_fetch_def followed_def delegated_def)
  show "log_step X me db db'" by (simp add: run log_step_def mark_source_fetch_def)
  show "authority_ok db'" if "authority_ok db" using that frame by (blast intro: keeps_by_frame)
  show "sources_ok db'" if "sources_ok db"
    using that by (rule sources_ok_owners) (simp_all add: run owners_def mark_source_fetch_def update_rows_def)
  show "peers_ok db'" if "peers_ok db" using that frame by (blast intro: keeps_by_frame)
  show "owned me db'" if "owned me db" using that frame by (blast intro: keeps_by_frame)
  show "evolves X me db db'" if "prefix (events db) (events db')" using that frame by (blast intro: keeps_by_frame)
qed

lemma import_frame:
  assumes ok: "peers_ok db" and run: "import_federation_bundle X me observed now detected received b db = (report, db')"
  shows "peers_ok db' \<and> delegated db' = delegated db \<and> reviewed db' = reviewed db \<and> meta db' = meta db \<and>
    publication_targets db' = publication_targets db"
  using run
proof (cases rule: import_cases)
  case kept
  with ok show ?thesis by simp
next
  case evidence
  with ok evidence_frame [OF evidence] show ?thesis by (auto simp: followed_def intro: peers_ok_followed)
next
  case (completed w r)
  have "beyond_import (fb_origin_node_id b) db' = beyond_import (fb_origin_node_id b) db"
    by (rule completed_import [OF ok completed(2)])
  with beyond_import_frame completed_import_peers [OF ok completed(2)] show ?thesis by blast
qed

interpretation import_step: node_operation X me
  "\<lambda>db db'. \<exists>observed now detected received b report. time_ok observed \<and> wire_checkpoint (fb_checkpoint b) \<and>
     import_federation_bundle X me observed now detected received b db = (report, db')" for X me
proof (unfold_locales; elim exE conjE)
  fix db db' observed now detected received b report
  assume wire: "time_ok observed" "wire_checkpoint (fb_checkpoint b)"
    and run: "import_federation_bundle X me observed now detected received b db = (report, db')"
  show "log_step X me db db'" if laws: "ext_laws X" and ok: "peers_ok db"
    using run
  proof (cases rule: import_cases)
    case evidence
    then show ?thesis using evidence_frame by (simp add: log_step_def)
  next
    case (completed w r)
    then show ?thesis by (rule import_log_step [OF laws wire ok])
  qed (simp add: log_step_def)
  show "authority_ok db'" if "authority_ok db" "peers_ok db"
    using that(1) import_frame [OF that(2) run] by (blast intro: keeps_by_frame)
  show "sources_ok db'" if "sources_ok db" "peers_ok db"
    using that(1) import_frame [OF that(2) run] by (blast intro: keeps_by_frame)
  show "peers_ok db'" if "peers_ok db" using import_frame [OF that run] by blast
  show "owned me db'" if "owned me db" "peers_ok db"
    using that(1) import_frame [OF that(2) run] by (simp add: owned_def settled_def)
  show "evolves X me db db'" if "prefix (events db) (events db')" "peers_ok db"
    using that(1) import_frame [OF that(2) run] by (blast intro: evolves_log_growth)
qed

lemma restart_effect:
  assumes "owned me db" and "node_open X \<lparr> dd_key = Some key, dd_database = Some db \<rparr> = (Inr me, dir)"
    and "dd_database dir = Some db'"
  shows "db' = db\<lparr>work_items := seed_rows X (work_items db)\<rparr>"
  using assms(2)
proof (rule node_open_Inr)
  fix d d'
  assume "database_open X (dd_database \<lparr> dd_key = Some key, dd_database = Some db \<rparr>) = Inr d"
    and b: "bind_node me d = Inr d'" and dir: "dir = \<lparr> dd_key = Some key, dd_database = Some db \<rparr>\<lparr>dd_database := Some d'\<rparr>"
  then have d: "d = seed_bootstrap_work X db"
    using assms(1) by (simp add: owned_def database_open_again)
  have "d' = d" using bind_node_Inr(3) [OF b] assms(1) by (simp add: d seed_eq owned_def)
  with assms(3) dir d show ?thesis by (simp add: seed_eq)
qed

interpretation restart_step: node_operation X me
  "\<lambda>db db'. \<exists>key dir. node_open X \<lparr> dd_key = Some key, dd_database = Some db \<rparr> = (Inr me, dir) \<and>
     dd_database dir = Some db'" for X me
proof (unfold_locales; elim exE conjE)
  fix db db' key dir
  assume own: "owned me db" and run: "node_open X \<lparr> dd_key = Some key, dd_database = Some db \<rparr> = (Inr me, dir)"
    "dd_database dir = Some db'"
  note effect = restart_effect [OF own run]
  have frame: "followed db' = followed db" "delegated db' = delegated db" "reviewed db' = reviewed db"
    by (simp_all add: effect followed_def delegated_def reviewed_def)
  show "log_step X me db db'" by (simp add: effect log_step_def)
  show "authority_ok db'" if "authority_ok db" using that frame by (blast intro: keeps_by_frame)
  show "sources_ok db'" if "sources_ok db" using that frame by (blast intro: keeps_by_frame)
  show "peers_ok db'" if "peers_ok db" using that frame by (blast intro: keeps_by_frame)
  show "owned me db'" using own frame by (blast intro: keeps_by_frame)
  show "evolves X me db db'" if "prefix (events db) (events db')" using that frame by (blast intro: keeps_by_frame)
qed

lemma settled_setting:
  assumes "settled db" and "meta db' = set_value ''desired_replicas'' v (meta db)"
  shows "settled db'"
proof -
  have "map_of (meta db) k = Some ''1''"
    if "k \<in> {''volunteer_gateway_schema'', ''topic_commons_schema'', ''source_fetch_policy_schema''}" for k
    using map_of_extend_schema [of "meta db" k] assms(1) that by (simp add: settled_def)
  then have "extend_schema (meta db') = meta db'"
    using assms by (simp add: extend_schema_def Let_def set_value_same map_of_set_value settled_def)
  with assms show ?thesis by (simp add: settled_def map_of_set_value)
qed

interpretation publication_write: node_operation X me "publication_step X me" for X me
proof
  fix db db'
  assume run: "publication_step X me db db'"
  note * = arg_cong [OF publication_step_frame(1) [OF run]]
  have e: "events db' = events db" using * [of events] by (simp add: beyond_publication_def)
  have d: "delegated db' = delegated db" "reviewed db' = reviewed db"
    using * [of delegated] * [of reviewed] by (simp_all add: beyond_publication_def delegated_def reviewed_def)
  have f: "remote_events db' = remote_events db" "federation_peers db' = federation_peers db"
    using * [of remote_events] * [of federation_peers] by (simp_all add: beyond_publication_def)
  show "log_step X me db db'" by (simp add: e log_step_def)
  show "authority_ok db'" if "authority_ok db" using that d by (blast intro: keeps_by_frame)
  show "sources_ok db'" if "sources_ok db" using that d by (blast intro: keeps_by_frame)
  show "peers_ok db'" if "peers_ok db" using that f by (simp add: peers_ok_def peer_ok_def remote_log_def)
  show "owned me db'" if "owned me db"
    using that publication_step_frame(2) [OF run] settled_setting [of db db']
    by (auto simp: owned_def settled_def map_of_set_value)
  show "evolves X me db db'" using run by (rule publication_step_evolves)
qed

section \<open>Reachable nodes\<close>

lemma node_step_ok:
  assumes laws: "ext_laws X" "identity_ok X me" and ok: "node_ok X me (ns_db s)" and step: "node_step X me s s'"
  shows "node_ok X me (ns_db s') \<and> prefix (events (ns_db s)) (events (ns_db s'))"
  using step
proof cases
  case (step_lineage reg now received acc db')
  then show ?thesis using lineage_step.keeps_node_ok [OF laws ok, of db'] by auto
next
  case (step_delegation d now received acc db')
  then show ?thesis using delegation_step.keeps_node_ok [OF laws ok, of db'] by auto
next
  case (step_revocation r now received acc db')
  then show ?thesis using revocation_step.keeps_node_ok [OF laws ok, of db'] by auto
next
  case (step_rotation k now received acc db')
  then show ?thesis using rotation_step.keeps_node_ok [OF laws ok, of db'] by auto
next
  case (step_acknowledgement a now received acc db')
  then show ?thesis using acknowledgement_step.keeps_node_ok [OF laws ok, of db'] by auto
next
  case (step_contribution c now received acc db')
  then have "\<exists>st now received c acc. wire_contribution c \<and> accept_contribution X me st now received c (ns_db s) = Inr (acc, db')"
    by blast
  from contribution_step.keeps_node_ok [OF laws ok this] show ?thesis by (simp add: step_contribution(1))
next
  case (step_observation ob render received acc db')
  then show ?thesis using observation_step.keeps_node_ok [OF laws ok, of db'] by auto
next
  case (step_fetch now source_id success)
  then show ?thesis using fetch_step.keeps_node_ok [OF laws ok] by auto
next
  case (step_artifact now received a bytes receipt st')
  with ok show ?thesis by simp
next
  case (step_restart key dir db')
  then have "\<exists>key dir. node_open X \<lparr> dd_key = Some key, dd_database = Some (ns_db s) \<rparr> = (Inr me, dir) \<and>
     dd_database dir = Some db'" by blast
  from restart_step.keeps_node_ok [OF laws ok this] show ?thesis by (simp add: step_restart(1))
next
  case (step_import observed b now detected received report db')
  then have "\<exists>observed now detected received b report. time_ok observed \<and> wire_checkpoint (fb_checkpoint b) \<and>
     import_federation_bundle X me observed now detected received b (ns_db s) = (report, db')" by blast
  from import_step.keeps_node_ok [OF laws ok this] show ?thesis by (simp add: step_import(1))
next
  case (step_publication db')
  then show ?thesis using publication_write.keeps_node_ok [OF laws ok, of db'] by simp
qed

lemma migrate_without_lineages:
  "lineages db = [] \<Longrightarrow> migrate version db = db\<lparr>meta := meta (migrate version db)\<rparr>"
  by (cases "version < 2") (simp_all add: migrate_def migrate_authority_def Let_def)

lemma fresh_settings:
  assumes "database_open X None = Inr db"
  shows "settings_ok db"
proof -
  have "map_of (meta db) ''desired_replicas'' = Some ''2''"
    using assms
    by (auto simp: database_open_def Let_def seed_eq map_of_extend_schema migrate_def migrate_authority_def
        settings_simps parse_schema_versions)
  then show ?thesis unfolding settings_ok_def by (intro exI [of _ 2]) (simp add: demo_setting)
qed

lemma bind_node_settings:
  "bind_node me db = Inr db' \<Longrightarrow> map_of (meta db') ''desired_replicas'' = map_of (meta db) ''desired_replicas''"
  by (auto simp: bind_node_def map_add_def split: option.splits if_splits)

lemma fresh_node:
  assumes "node_initialize X pretty secret now \<lparr> dd_key = None, dd_database = None \<rparr> = (Inr me, dir)"
    and "dd_database dir = Some db"
  shows "identity_ok X me" and "owned me db" and "\<exists>m ws. db = empty_database\<lparr>work_items := ws, meta := m\<rparr>"
    and "settings_ok db"
proof -
  let ?dir = "\<lparr> dd_key = Some (pretty (e_node_key_file X (new_key_file X secret now)) @ [CHR 0x0A]), dd_database = None \<rparr>"
  have "node_open X ?dir = (Inr me, dir)" using assms(1) by (simp add: node_initialize_def)
  then obtain d where o: "open_identity X ?dir = Inr me" "database_open X None = Inr d" "bind_node me d = Inr db"
    using assms(2) by (elim node_open_Inr) auto
  show "identity_ok X me" by (rule open_identity_ok [OF o(1)])
  show "settings_ok db" using fresh_settings [OF o(2)] bind_node_settings [OF o(3)] by (simp add: settings_ok_def)
  show "owned me db"
    using bind_node_settled [OF o(3) database_open_settled [OF o(2)]] bind_node_Inr(1) [OF o(3)] by (simp add: owned_def)
  obtain m ws where "d = empty_database\<lparr>work_items := ws, meta := m\<rparr>"
  proof (rule database_open_Inr [OF o(2)])
    fix db m version
    assume db: "db = (case None of None \<Rightarrow> empty_database | Some d \<Rightarrow> d)"
      and d: "d = seed_bootstrap_work X ((migrate version (db\<lparr>meta := m\<rparr>))\<lparr>meta := extend_schema (meta (migrate version (db\<lparr>meta := m\<rparr>)))\<rparr>)"
    define m' where "m' = meta (migrate version (db\<lparr>meta := m\<rparr>))"
    have "migrate version (db\<lparr>meta := m\<rparr>) = db\<lparr>meta := m'\<rparr>"
      using migrate_without_lineages [of "db\<lparr>meta := m\<rparr>" version] db unfolding m'_def by simp
    then have "d = empty_database\<lparr>work_items := seed_rows X (work_items db), meta := extend_schema m'\<rparr>"
      by (simp add: d db seed_eq)
    then show ?thesis by (rule that)
  qed
  with bind_node_Inr(2) [OF o(3)] have "db = empty_database\<lparr>work_items := ws, meta := meta db\<rparr>" by simp
  then show "\<exists>m ws. db = empty_database\<lparr>work_items := ws, meta := m\<rparr>" by blast
qed

lemma start_ok:
  assumes "ext_laws X" and "identity_ok X me" and "owned me db" and "db = empty_database\<lparr>work_items := ws, meta := m\<rparr>"
    and "settings_ok db"
  shows "node_ok X me db"
proof -
  have "b64_laws X" "sig_laws X" using assms(1) by (simp_all add: ext_laws_def)
  note key = identity_key [OF this assms(2)]
  have "verify_log X me db = Inr (0, zero_hash)"
    by (simp add: assms(4) verify_log_def verify_rows_def key log_start_def)
  then have "log_ok X me db" by (simp add: log_ok_def portable_log_def assms(4))
  with assms(3,5) show ?thesis
    by (simp add: node_ok_def authority_ok_def sources_ok_def peers_ok_def targets_ok_def lineage_keys_of_def assms(4))
qed

lemma reachable_ok:
  assumes "ext_laws X" and "reachable X me s"
  shows "identity_ok X me \<and> node_ok X me (ns_db s)"
  using assms(2)
proof induction
  case (start pretty secret now dir db)
  from fresh_node [OF start] start_ok [OF assms(1)] show ?case by auto
next
  case (step s s')
  then show ?case using node_step_ok [OF assms(1)] by blast
qed

lemma run_ok:
  assumes "ext_laws X" and "identity_ok X me" and "(node_step X me)\<^sup>*\<^sup>* s s'" and "node_ok X me (ns_db s)"
  shows "node_ok X me (ns_db s') \<and> prefix (events (ns_db s)) (events (ns_db s'))"
  using assms(3)
proof induction
  case (step t u)
  with node_step_ok [OF assms(1,2)] prefix_order.trans show ?case by blast
qed (use assms(4) in simp)

section \<open>Properties\<close>

text \<open>C3: a node never rewrites its history.  From any state a node can reach after its initialization,
  through any further sequence of registrations, revocations, rotations, acknowledgements,
  contributions, observations, fetches, uploads, restarts, imports and publications, the log still verifies and
  can be served, the key histories, the source reviews and the followed logs stay well formed, the
  database stays bound to the node, and the events there were are still the beginning of the log.\<close>

theorem node_history_is_append_only:
  assumes "ext_laws X" and "reachable X me s" and "(node_step X me)\<^sup>*\<^sup>* s s'"
  shows "node_ok X me (ns_db s') \<and> prefix (events (ns_db s)) (events (ns_db s'))"
  using reachable_ok [OF assms(1,2)] run_ok [OF assms(1) _ assms(3)] by blast

section \<open>Example\<close>

text \<open>A node that was initialized, and the same node after the registration of a lineage.\<close>

definition demo_start :: "node_identity result \<times> data_dir" where
  "demo_start = node_initialize lenient_ext demo_print (pad 32 ''node'') 0 demo_dir"

lemma demo_start_run:
  obtains me dir db acc db' where "demo_start = (Inr me, dir)" "dd_database dir = Some db"
    "register_lineage lenient_ext me 0 0 demo_enrolment db = Inr (acc, db')"
proof -
  have "case demo_start of (Inl _, _) \<Rightarrow> False | (Inr me, dir) \<Rightarrow> (case dd_database dir of None \<Rightarrow> False
      | Some db \<Rightarrow> \<not> isl (register_lineage lenient_ext me 0 0 demo_enrolment db))" by code_simp
  then show ?thesis using accepted_db_eq by (elim imported_case) (auto split: option.splits intro: that)
qed

theorem node_history_is_append_only_witness:
  "\<exists>me s s'. reachable lenient_ext me s \<and> node_step lenient_ext me s s' \<and> node_ok lenient_ext me (ns_db s') \<and>
     prefix (events (ns_db s)) (events (ns_db s'))"
proof -
  obtain me dir db acc db' where d: "demo_start = (Inr me, dir)" "dd_database dir = Some db"
    "register_lineage lenient_ext me 0 0 demo_enrolment db = Inr (acc, db')"
    by (rule demo_start_run)
  let ?s = "\<lparr> ns_db = db, ns_store = empty_store \<rparr>"
  have r: "reachable lenient_ext me ?s"
    using d(1,2) unfolding demo_start_def demo_dir_def by (rule reachable.start)
  have "time_ok (lr_created_at demo_enrolment)" by (simp add: demo_enrolment_def Let_def time_ok_def)
  then have step: "node_step lenient_ext me ?s (?s\<lparr>ns_db := db'\<rparr>)" using d(3) by (intro node_step.step_lineage) auto
  from node_history_is_append_only [OF lenient_laws r r_into_rtranclp [of "node_step lenient_ext me", OF step]] r step
  show ?thesis by blast
qed

end
