(* ===== verification/Net_Address.thy ===== *)
theory Net_Address
  imports Prelude "HOL-Library.Word"
begin

text \<open>
  The IP addresses of the standard library, as far as the collector and the volunteer gateway ask about
  them (\<^verbatim>\<open>src/src/ingest.rs\<close>, \<^verbatim>\<open>src/src/volunteer.rs\<close>), and the reference they are held against: the
  blocks of the special-purpose address registries, as base address and prefix length.
\<close>

unbundle bit_operations_syntax

section \<open>Addresses\<close>

datatype ipv4 = Ipv4 "8 word" "8 word" "8 word" "8 word"

datatype ipv6 = Ipv6 "16 word" "16 word" "16 word" "16 word" "16 word" "16 word" "16 word" "16 word"

datatype ip_address = V4 ipv4 | V6 ipv6

datatype url_host = Domain string | HostIpv4 ipv4 | HostIpv6 ipv6

fun v4_private :: "ipv4 \<Rightarrow> bool" where
  "v4_private (Ipv4 a b c d) \<longleftrightarrow> a = 10 \<or> a = 172 \<and> 16 \<le> b \<and> b \<le> 31 \<or> a = 192 \<and> b = 168"

fun v4_loopback :: "ipv4 \<Rightarrow> bool" where
  "v4_loopback (Ipv4 a b c d) \<longleftrightarrow> a = 127"

fun v4_link_local :: "ipv4 \<Rightarrow> bool" where
  "v4_link_local (Ipv4 a b c d) \<longleftrightarrow> a = 169 \<and> b = 254"

fun v4_broadcast :: "ipv4 \<Rightarrow> bool" where
  "v4_broadcast (Ipv4 a b c d) \<longleftrightarrow> a = 255 \<and> b = 255 \<and> c = 255 \<and> d = 255"

fun v4_documentation :: "ipv4 \<Rightarrow> bool" where
  "v4_documentation (Ipv4 a b c d) \<longleftrightarrow>
     a = 192 \<and> b = 0 \<and> c = 2 \<or> a = 198 \<and> b = 51 \<and> c = 100 \<or> a = 203 \<and> b = 0 \<and> c = 113"

fun v4_unspecified :: "ipv4 \<Rightarrow> bool" where
  "v4_unspecified (Ipv4 a b c d) \<longleftrightarrow> a = 0 \<and> b = 0 \<and> c = 0 \<and> d = 0"

fun v4_multicast :: "ipv4 \<Rightarrow> bool" where
  "v4_multicast (Ipv4 a b c d) \<longleftrightarrow> 224 \<le> a \<and> a \<le> 239"

fun first_segment :: "ipv6 \<Rightarrow> 16 word" where
  "first_segment (Ipv6 a b c d e f g h) = a"

fun v6_loopback :: "ipv6 \<Rightarrow> bool" where
  "v6_loopback (Ipv6 a b c d e f g h) \<longleftrightarrow>
     a = 0 \<and> b = 0 \<and> c = 0 \<and> d = 0 \<and> e = 0 \<and> f = 0 \<and> g = 0 \<and> h = 1"

fun v6_unspecified :: "ipv6 \<Rightarrow> bool" where
  "v6_unspecified (Ipv6 a b c d e f g h) \<longleftrightarrow>
     a = 0 \<and> b = 0 \<and> c = 0 \<and> d = 0 \<and> e = 0 \<and> f = 0 \<and> g = 0 \<and> h = 0"

definition v6_unique_local :: "ipv6 \<Rightarrow> bool" where
  "v6_unique_local ip \<longleftrightarrow> first_segment ip AND 0xfe00 = 0xfc00"

definition v6_unicast_link_local :: "ipv6 \<Rightarrow> bool" where
  "v6_unicast_link_local ip \<longleftrightarrow> first_segment ip AND 0xffc0 = 0xfe80"

definition v6_multicast :: "ipv6 \<Rightarrow> bool" where
  "v6_multicast ip \<longleftrightarrow> first_segment ip AND 0xff00 = 0xff00"

definition high_byte :: "16 word \<Rightarrow> 8 word" where
  "high_byte w = ucast (drop_bit 8 w)"

definition low_byte :: "16 word \<Rightarrow> 8 word" where
  "low_byte w = ucast w"

text \<open>\<open>Ipv6Addr::to_ipv4\<close> reads mapped and compatible addresses alike, the loopback address too.\<close>

fun to_ipv4 :: "ipv6 \<Rightarrow> ipv4 option" where
  "to_ipv4 (Ipv6 a b c d e f g h) =
     (if a = 0 \<and> b = 0 \<and> c = 0 \<and> d = 0 \<and> e = 0 \<and> (f = 0 \<or> f = 0xffff)
      then Some (Ipv4 (high_byte g) (low_byte g) (high_byte h) (low_byte h)) else None)"

section \<open>Address blocks\<close>

fun v4_number :: "ipv4 \<Rightarrow> nat" where
  "v4_number (Ipv4 a b c d) = ((unat a * 256 + unat b) * 256 + unat c) * 256 + unat d"

fun in_block :: "ipv4 \<Rightarrow> ipv4 \<times> nat \<Rightarrow> bool" where
  "in_block ip (base, n) \<longleftrightarrow> v4_number ip div 2 ^ (32 - n) = v4_number base div 2 ^ (32 - n)"

lemma octet_less: "unat (x :: 8 word) < 256"
  using unsigned_less [of x] by simp

text \<open>The leading octets of a number, by which a block of at least sixteen bits compares.\<close>

lemma v4_number_div:
  "v4_number (Ipv4 a b c d) div 256 = (unat a * 256 + unat b) * 256 + unat c"
  "v4_number (Ipv4 a b c d) div (65536 * k) = (unat a * 256 + unat b) div k"
proof -
  have e: "(x * 256 + unat y) div 256 = x" for x :: nat and y :: "8 word"
    using octet_less [of y] by simp
  show "v4_number (Ipv4 a b c d) div 256 = (unat a * 256 + unat b) * 256 + unat c"
    by (simp only: v4_number.simps e)
  have "v4_number (Ipv4 a b c d) div (256 * (256 * k)) = (unat a * 256 + unat b) div k"
    by (simp only: div_mult2_eq v4_number.simps e)
  then show "v4_number (Ipv4 a b c d) div (65536 * k) = (unat a * 256 + unat b) div k" by simp
qed

lemma v4_blocks:
  "in_block (Ipv4 a b c d) (base, 24) \<longleftrightarrow> v4_number (Ipv4 a b c d) div 256 = v4_number base div 256"
  "in_block (Ipv4 a b c d) (base, 16) \<longleftrightarrow> v4_number (Ipv4 a b c d) div (65536 * 1) = v4_number base div (65536 * 1)"
  "in_block (Ipv4 a b c d) (base, 15) \<longleftrightarrow> v4_number (Ipv4 a b c d) div (65536 * 2) = v4_number base div (65536 * 2)"
  "in_block (Ipv4 a b c d) (base, 12) \<longleftrightarrow> v4_number (Ipv4 a b c d) div (65536 * 16) = v4_number base div (65536 * 16)"
  "in_block (Ipv4 a b c d) (base, 10) \<longleftrightarrow> v4_number (Ipv4 a b c d) div (65536 * 64) = v4_number base div (65536 * 64)"
  "in_block (Ipv4 a b c d) (base, 8) \<longleftrightarrow> v4_number (Ipv4 a b c d) div (65536 * 256) = v4_number base div (65536 * 256)"
  "in_block (Ipv4 a b c d) (base, 4) \<longleftrightarrow> v4_number (Ipv4 a b c d) div (65536 * 4096) = v4_number base div (65536 * 4096)"
  by (simp_all del: v4_number.simps)

section \<open>Addresses outside the public network\<close>

text \<open>\<open>is_non_public_v4\<close> of the collector.\<close>

fun is_non_public_v4 :: "ipv4 \<Rightarrow> bool" where
  "is_non_public_v4 (Ipv4 a b c d) \<longleftrightarrow>
     (let ip = Ipv4 a b c d in
      v4_private ip \<or> v4_loopback ip \<or> v4_link_local ip \<or> v4_broadcast ip \<or> v4_documentation ip \<or>
      v4_unspecified ip \<or> v4_multicast ip \<or> a = 0 \<or> a = 100 \<and> 64 \<le> b \<and> b \<le> 127 \<or>
      a = 192 \<and> b = 0 \<or> a = 198 \<and> 18 \<le> b \<and> b \<le> 19 \<or> 240 \<le> a)"

definition special_v4_blocks :: "(ipv4 \<times> nat) list" where
  "special_v4_blocks = [(Ipv4 0 0 0 0, 8), (Ipv4 10 0 0 0, 8), (Ipv4 100 64 0 0, 10), (Ipv4 127 0 0 0, 8),
     (Ipv4 169 254 0 0, 16), (Ipv4 172 16 0 0, 12), (Ipv4 192 0 0 0, 16), (Ipv4 192 168 0 0, 16),
     (Ipv4 198 18 0 0, 15), (Ipv4 198 51 100 0, 24), (Ipv4 203 0 113 0, 24), (Ipv4 224 0 0 0, 4),
     (Ipv4 240 0 0 0, 4)]"

lemma div_eq_interval: "0 < k \<Longrightarrow> n div k = q \<longleftrightarrow> k * q \<le> n \<and> n < k * q + k" for k n q :: nat
  using div_nat_eqI [of k q n] dividend_less_times_div [of k n] by auto

lemma octet_range:
  fixes A B m l h :: nat
  assumes "B < 256" and "h \<le> 256"
  shows "m * 256 + l \<le> A * 256 + B \<and> A * 256 + B < m * 256 + h \<longleftrightarrow> A = m \<and> l \<le> B \<and> B < h"
proof (cases A m rule: linorder_cases)
  case less
  then have "A * 256 + 256 \<le> m * 256" by simp
  with less assms show ?thesis by linarith
next
  case greater
  then have "m * 256 + 256 \<le> A * 256" by simp
  with greater assms show ?thesis by linarith
qed auto

lemma octet_pair:
  fixes A B :: nat
  assumes "B < 256"
  shows "(A * 256 + B) div 256 = A" "(A * 256 + B) div 4096 = A div 16"
    "n < 256 \<Longrightarrow> A * 256 + B = m * 256 + n \<longleftrightarrow> A = m \<and> B = n"
    "0 < k \<Longrightarrow> k * q = m * 256 + l \<Longrightarrow> l + k \<le> 256 \<Longrightarrow>
       (A * 256 + B) div k = q \<longleftrightarrow> A = m \<and> l \<le> B \<and> B < l + k"
proof -
  show div: "(A * 256 + B) div 256 = A" using assms by simp
  have "(A * 256 + B) div (256 * 16) = (A * 256 + B) div 256 div 16" by (rule div_mult2_eq)
  then show "(A * 256 + B) div 4096 = A div 16" by (simp add: div)
  show "n < 256 \<Longrightarrow> A * 256 + B = m * 256 + n \<longleftrightarrow> A = m \<and> B = n"
    using octet_range [OF assms, of "n + 1" m n A] by auto
  show "0 < k \<Longrightarrow> k * q = m * 256 + l \<Longrightarrow> l + k \<le> 256 \<Longrightarrow>
       (A * 256 + B) div k = q \<longleftrightarrow> A = m \<and> l \<le> B \<and> B < l + k"
    using octet_range [OF assms, of "l + k" m l A] by (simp add: div_eq_interval add.assoc)
qed

lemma special_blocks:
  fixes a b c d :: "8 word"
  shows "in_block (Ipv4 a b c d) (Ipv4 m 0 0 0, 8) \<longleftrightarrow> a = m"
    "in_block (Ipv4 a b c d) (Ipv4 m n 0 0, 16) \<longleftrightarrow> a = m \<and> b = n"
    "in_block (Ipv4 a b c d) (Ipv4 m n k 0, 24) \<longleftrightarrow> a = m \<and> b = n \<and> c = k"
    "in_block (Ipv4 a b c d) (Ipv4 100 64 0 0, 10) \<longleftrightarrow> a = 100 \<and> 64 \<le> b \<and> b \<le> 127"
    "in_block (Ipv4 a b c d) (Ipv4 172 16 0 0, 12) \<longleftrightarrow> a = 172 \<and> 16 \<le> b \<and> b \<le> 31"
    "in_block (Ipv4 a b c d) (Ipv4 198 18 0 0, 15) \<longleftrightarrow> a = 198 \<and> 18 \<le> b \<and> b \<le> 19"
    "in_block (Ipv4 a b c d) (Ipv4 224 0 0 0, 4) \<longleftrightarrow> 224 \<le> a \<and> a \<le> 239"
    "in_block (Ipv4 a b c d) (Ipv4 240 0 0 0, 4) \<longleftrightarrow> 240 \<le> a"
proof -
  note rules = v4_blocks v4_number_div octet_pair(1,2,3) [OF octet_less] octet_less word_unat_eq_iff
    word_le_nat_alt
  show "in_block (Ipv4 a b c d) (Ipv4 m 0 0 0, 8) \<longleftrightarrow> a = m"
    by (simp only: rules)
  show "in_block (Ipv4 a b c d) (Ipv4 m n 0 0, 16) \<longleftrightarrow> a = m \<and> b = n"
    by (simp only: rules div_by_1)
  show "in_block (Ipv4 a b c d) (Ipv4 m n k 0, 24) \<longleftrightarrow> a = m \<and> b = n \<and> c = k"
    by (simp only: rules conj_assoc)
  show "in_block (Ipv4 a b c d) (Ipv4 100 64 0 0, 10) \<longleftrightarrow> a = 100 \<and> 64 \<le> b \<and> b \<le> 127"
    unfolding v4_blocks v4_number_div word_unat_eq_iff word_le_nat_alt
    using octet_pair(4) [OF octet_less [of b], of 64 401 100 64 "unat a"] by auto
  show "in_block (Ipv4 a b c d) (Ipv4 172 16 0 0, 12) \<longleftrightarrow> a = 172 \<and> 16 \<le> b \<and> b \<le> 31"
    unfolding v4_blocks v4_number_div word_unat_eq_iff word_le_nat_alt
    using octet_pair(4) [OF octet_less [of b], of 16 2753 172 16 "unat a"] by auto
  show "in_block (Ipv4 a b c d) (Ipv4 198 18 0 0, 15) \<longleftrightarrow> a = 198 \<and> 18 \<le> b \<and> b \<le> 19"
    unfolding v4_blocks v4_number_div word_unat_eq_iff word_le_nat_alt
    using octet_pair(4) [OF octet_less [of b], of 2 25353 198 18 "unat a"] by auto
  show "in_block (Ipv4 a b c d) (Ipv4 224 0 0 0, 4) \<longleftrightarrow> 224 \<le> a \<and> a \<le> 239"
    unfolding v4_blocks v4_number_div word_le_nat_alt octet_pair(2) [OF octet_less] by (auto simp: div_eq_interval)
  show "in_block (Ipv4 a b c d) (Ipv4 240 0 0 0, 4) \<longleftrightarrow> 240 \<le> a"
    unfolding v4_blocks v4_number_div word_le_nat_alt octet_pair(2) [OF octet_less]
    using octet_less [of a] by (auto simp: div_eq_interval)
qed

lemma is_non_public_v4_blocks: "is_non_public_v4 ip \<longleftrightarrow> list_ex (in_block ip) special_v4_blocks"
proof (cases ip)
  case (Ipv4 a b c d)
  have broadcast: "a = 255 \<Longrightarrow> 240 \<le> a" by (simp add: word_le_nat_alt)
  have blocks: "list_ex (in_block ip) special_v4_blocks \<longleftrightarrow>
     a = 0 \<or> a = 10 \<or> a = 100 \<and> 64 \<le> b \<and> b \<le> 127 \<or> a = 127 \<or> a = 169 \<and> b = 254 \<or>
     a = 172 \<and> 16 \<le> b \<and> b \<le> 31 \<or> a = 192 \<and> b = 0 \<or> a = 192 \<and> b = 168 \<or> a = 198 \<and> 18 \<le> b \<and> b \<le> 19 \<or>
     a = 198 \<and> b = 51 \<and> c = 100 \<or> a = 203 \<and> b = 0 \<and> c = 113 \<or> 224 \<le> a \<and> a \<le> 239 \<or> 240 \<le> a"
    unfolding special_v4_blocks_def Ipv4 list_ex_Nil_iff list_ex_Cons_iff by (simp only: special_blocks simp_thms)
  show ?thesis
    unfolding blocks unfolding Ipv4 is_non_public_v4.simps Let_def v4_private.simps v4_loopback.simps
      v4_link_local.simps v4_broadcast.simps v4_documentation.simps v4_unspecified.simps v4_multicast.simps
    using broadcast by argo
qed

end
