(* ===== verification/Ingest.thy ===== *)
theory Ingest
  imports Observation Net_Address
begin

text \<open>
  The collector (\<^verbatim>\<open>src/src/ingest.rs\<close> with the source selection of \<^verbatim>\<open>src/src/db.rs\<close>): which sources are
  due, where the client may connect, how much it reads, and how the entries of a feed become
  observations.  The network and the feed parser are the record \<open>net\<close>; the clock is a function of the
  number of readings so far.
\<close>

unbundle bit_operations_syntax

section \<open>Fetch targets\<close>

record feed_link =
  fl_href :: string
  fl_rel :: "string option"

record feed_entry =
  fe_id :: string
  fe_title :: "string option"
  fe_summary :: "string option"
  fe_published :: "int option"
  fe_updated :: "int option"
  fe_links :: "feed_link list"
  fe_authors :: "string list"
  fe_categories :: "string list"

record feed =
  fd_id :: string
  fd_language :: "string option"
  fd_entries :: "feed_entry list"

text \<open>A response: its status, its declared length, and the chunks of its body as they arrive.\<close>

record http_response =
  rs_status :: int
  rs_content_length :: "int option"
  rs_chunks :: "string result list"

record net =
  n_host :: "string \<Rightarrow> url_host option"
  n_port :: "string \<Rightarrow> int option"
  n_lookup :: "string \<Rightarrow> int \<Rightarrow> ip_address list option"
  n_fetch :: "string \<Rightarrow> ip_address list \<Rightarrow> http_response result"
  n_parse_feed :: "string \<Rightarrow> feed option"

fun is_non_public_v6_special :: "ipv6 \<Rightarrow> bool" where
  "is_non_public_v6_special (Ipv6 a b c d e f g h) \<longleftrightarrow>
     a AND 0xffc0 = 0xfec0 \<or> a = 0x2001 \<and> (b = 0x0002 \<or> b = 0x0db8) \<or> a = 0x2002 \<or>
     a = 0x0064 \<and> b = 0xff9b \<and> c = 0 \<and> d = 0 \<and> e = 0 \<and> f = 0"

fun disallowed_ip :: "ip_address \<Rightarrow> bool" where
  "disallowed_ip (V4 ip) = is_non_public_v4 ip"
| "disallowed_ip (V6 ip) =
     (case to_ipv4 ip of
        None \<Rightarrow> v6_loopback ip \<or> v6_unspecified ip \<or> v6_unique_local ip \<or> v6_unicast_link_local ip \<or>
                v6_multicast ip \<or> is_non_public_v6_special ip
      | Some ip4 \<Rightarrow> is_non_public_v4 ip4)"

definition reject_private_ip :: "ip_address \<Rightarrow> unit result" where
  "reject_private_ip a = fail_if (disallowed_ip a) Validation"

definition ends_with :: "string \<Rightarrow> string \<Rightarrow> bool" where
  "ends_with s t \<longleftrightarrow> suffix t s"

definition validate_fetch_url :: "net \<Rightarrow> string \<Rightarrow> url_parts \<Rightarrow> unit result" where
  "validate_fetch_url N text url =
     and_then (fail_if (\<not> (u_scheme url = ''http'' \<or> u_scheme url = ''https'')) Validation) (\<lambda>_.
     case n_host N text of
       None \<Rightarrow> Inl Validation
     | Some (Domain domain) \<Rightarrow>
         (let d = to_ascii_lowercase domain in
          fail_if (d = ''localhost'' \<or> d = ''localhost.localdomain'' \<or> ends_with d ''.local'' \<or>
                   ends_with d ''.internal'') Validation)
     | Some (HostIpv4 a) \<Rightarrow> reject_private_ip (V4 a)
     | Some (HostIpv6 a) \<Rightarrow> reject_private_ip (V6 a))"

text \<open>
  \<open>feed_client\<close>: the addresses the client can connect to.  A name is resolved once and the client is
  pinned to the answers; an address in the URL is its own target.
\<close>

definition feed_client :: "net \<Rightarrow> string \<Rightarrow> ip_address list result" where
  "feed_client N text =
     (case n_host N text of
        None \<Rightarrow> Inl Validation
      | Some (HostIpv4 a) \<Rightarrow> Inr [V4 a]
      | Some (HostIpv6 a) \<Rightarrow> Inr [V6 a]
      | Some (Domain domain) \<Rightarrow>
          and_then (ok_or (n_port N text) Validation) (\<lambda>port.
          and_then (ok_or (n_lookup N domain port) Validation) (\<lambda>addresses.
          and_then (fail_if (addresses = []) Validation) (\<lambda>_.
          and_then (check_each reject_private_ip addresses) (\<lambda>_. Inr addresses)))))"

section \<open>Reading a feed\<close>

definition MAX_FEED_BYTES :: int where "MAX_FEED_BYTES = 8 * 1024 * 1024"
definition MAX_FEED_ENTRIES :: int where "MAX_FEED_ENTRIES = 1000"
definition MAX_METADATA_VALUES :: nat where "MAX_METADATA_VALUES = 64"
definition MAX_FEED_TITLE_CHARS :: nat where "MAX_FEED_TITLE_CHARS = 500"
definition MAX_FEED_SUMMARY_CHARS :: nat where "MAX_FEED_SUMMARY_CHARS = 2000"

fun read_chunks :: "int \<Rightarrow> string \<Rightarrow> string result list \<Rightarrow> string result" where
  "read_chunks maximum bytes [] = Inr bytes"
| "read_chunks maximum bytes (chunk # chunks) =
     (case chunk of Inl e \<Rightarrow> Inl Http
      | Inr c \<Rightarrow> if len bytes + len c > maximum then Inl Validation
                else read_chunks maximum (bytes @ c) chunks)"

definition too_long :: "int \<Rightarrow> http_response \<Rightarrow> bool" where
  "too_long maximum r = (case rs_content_length r of None \<Rightarrow> False | Some n \<Rightarrow> n > maximum)"

definition read_bounded_response :: "http_response \<Rightarrow> int \<Rightarrow> string result" where
  "read_bounded_response r maximum =
     and_then (fail_if (too_long maximum r) Validation) (\<lambda>_. read_chunks maximum [] (rs_chunks r))"

definition normalize_document_url :: "ext \<Rightarrow> string \<Rightarrow> string option" where
  "normalize_document_url X v =
     (case x_url_parse X v of None \<Rightarrow> None
      | Some url \<Rightarrow>
          if \<not> (u_scheme url = ''http'' \<or> u_scheme url = ''https'') \<or> u_host url = None \<or>
             u_username url \<noteq> [] \<or> u_password url \<noteq> None
          then None else Some (u_text_no_fragment url))"

fun find_map :: "('a \<Rightarrow> 'b option) \<Rightarrow> 'a list \<Rightarrow> 'b option" where
  "find_map f [] = None"
| "find_map f (x # xs) = (case f x of None \<Rightarrow> find_map f xs | Some y \<Rightarrow> Some y)"

definition or_else :: "'a option \<Rightarrow> 'a option \<Rightarrow> 'a option" where
  "or_else x y = (case x of None \<Rightarrow> y | Some _ \<Rightarrow> x)"

definition entry_url :: "ext \<Rightarrow> feed_entry \<Rightarrow> string option" where
  "entry_url X e =
     or_else (or_else
       (find_map (\<lambda>l. normalize_document_url X (fl_href l))
          (filter (\<lambda>l. fl_rel l = None \<or> fl_rel l = Some ''alternate'') (fe_links e)))
       (find_map (\<lambda>l. normalize_document_url X (fl_href l)) (fe_links e)))
       (normalize_document_url X (fe_id e))"

definition ellipsis :: string where
  "ellipsis = [CHR 0xE2, CHR 0x80, CHR 0xA6]"

definition truncate_text :: "string \<Rightarrow> nat \<Rightarrow> string" where
  "truncate_text s maximum = take_chars maximum s @ (if char_count s > int maximum then ellipsis else [])"

definition raw_metadata :: "feed \<Rightarrow> feed_entry \<Rightarrow> json" where
  "raw_metadata f e = JObj [
     (''authors'', e_strs (map (\<lambda>a. truncate_text a 200) (take MAX_METADATA_VALUES (fe_authors e)))),
     (''categories'', e_strs (map (\<lambda>c. truncate_text c 200) (take MAX_METADATA_VALUES (fe_categories e)))),
     (''entry_id'', JStr (fe_id e)),
     (''feed_id'', JStr (fd_id f))]"

definition entry_title :: "feed_entry \<Rightarrow> string" where
  "entry_title e = (case fe_title e of None \<Rightarrow> ''Untitled observation'' | Some t \<Rightarrow> truncate_text t MAX_FEED_TITLE_CHARS)"

definition entry_summary :: "feed_entry \<Rightarrow> string" where
  "entry_summary e = (case fe_summary e of None \<Rightarrow> [] | Some t \<Rightarrow> truncate_text t MAX_FEED_SUMMARY_CHARS)"

definition entry_document :: "ext \<Rightarrow> feed \<Rightarrow> feed_entry \<Rightarrow> string \<Rightarrow> json" where
  "entry_document X f e url = JObj [
     (''canonical_url'', JStr url),
     (''published_at'', e_opt (e_time X) (or_else (fe_published e) (fe_updated e))),
     (''raw_metadata'', raw_metadata f e),
     (''summary'', JStr (entry_summary e)),
     (''title'', JStr (entry_title e))]"

record source_view =
  sv_row :: source_row
  sv_approval_count :: int
  sv_rejection_count :: int
  sv_untraced_approval_count :: int
  sv_untraced_rejection_count :: int
  sv_next_fetch_at :: "int option"

definition entry_observation ::
  "ext \<Rightarrow> source_view \<Rightarrow> int \<Rightarrow> feed \<Rightarrow> feed_entry \<Rightarrow> string \<Rightarrow> ingested_observation result" where
  "entry_observation X source retrieved f e url =
     and_then (canonical_json X (entry_document X f e url)) (\<lambda>document. Inr
       \<lparr> io_source_id = src_source_id (sv_row source), io_canonical_url = url, io_title = entry_title e,
         io_summary = entry_summary e, io_published_at = or_else (fe_published e) (fe_updated e),
         io_retrieved_at = retrieved,
         io_language = or_else (fd_language f)
           (case src_languages (sv_row source) of [] \<Rightarrow> None | l # _ \<Rightarrow> Some l),
         io_document_hash = sha256_hex X document, io_raw_metadata = raw_metadata f e \<rparr>)"

text \<open>
  One entry.  Each accepted entry is its own transaction, so an error leaves what came before it; the
  database is part of every outcome.
\<close>

definition ingest_entry ::
  "ext \<Rightarrow> node_identity \<Rightarrow> (int \<times> int \<Rightarrow> string \<Rightarrow> string \<Rightarrow> string) \<Rightarrow> source_view \<Rightarrow> int \<Rightarrow> feed \<Rightarrow> int \<Rightarrow>
   feed_entry \<Rightarrow> database \<Rightarrow> int result \<times> database" where
  "ingest_entry X me render source retrieved f received e db =
     (case entry_url X e of
        None \<Rightarrow> (Inr 0, db)
      | Some url \<Rightarrow>
          (case and_then (entry_observation X source retrieved f e url)
                  (\<lambda>ob. append_observation X me render received ob db) of
             Inl err \<Rightarrow> (Inl err, db)
           | Inr (acc, db1) \<Rightarrow> (Inr (if acc_sequence acc > fst (current_head db) then 1 else 0), db1)))"

fun ingest_entries ::
  "ext \<Rightarrow> node_identity \<Rightarrow> (int \<times> int \<Rightarrow> string \<Rightarrow> string \<Rightarrow> string) \<Rightarrow> source_view \<Rightarrow> int \<Rightarrow> feed \<Rightarrow> (nat \<Rightarrow> int) \<Rightarrow>
   nat \<Rightarrow> feed_entry list \<Rightarrow> int \<Rightarrow> database \<Rightarrow> int result \<times> database" where
  "ingest_entries X me render source retrieved f clock n [] accepted db = (Inr accepted, db)"
| "ingest_entries X me render source retrieved f clock n (e # es) accepted db =
     (case ingest_entry X me render source retrieved f (clock n) e db of
        (Inl err, db1) \<Rightarrow> (Inl err, db1)
      | (Inr k, db1) \<Rightarrow> ingest_entries X me render source retrieved f clock (n + 1) es (accepted + k) db1)"

definition ingest_feed_bytes ::
  "ext \<Rightarrow> node_identity \<Rightarrow> (int \<times> int \<Rightarrow> string \<Rightarrow> string \<Rightarrow> string) \<Rightarrow> net \<Rightarrow> (nat \<Rightarrow> int) \<Rightarrow> source_view \<Rightarrow>
   string \<Rightarrow> database \<Rightarrow> (int \<times> int) result \<times> database" where
  "ingest_feed_bytes X me render N clock source bytes db =
     (if len bytes > MAX_FEED_BYTES then (Inl Validation, db)
      else case n_parse_feed N bytes of
        None \<Rightarrow> (Inl Validation, db)
      | Some f \<Rightarrow>
          if len (fd_entries f) > MAX_FEED_ENTRIES then (Inl Validation, db)
          else (case ingest_entries X me render source (clock 0) f clock 1 (fd_entries f) 0 db of
                  (Inl e, db1) \<Rightarrow> (Inl e, db1)
                | (Inr accepted, db1) \<Rightarrow> (Inr (len (fd_entries f), accepted), db1)))"

text \<open>The network half of \<open>ingest_source\<close>: everything up to the bytes of the feed.\<close>

definition fetch_feed :: "ext \<Rightarrow> net \<Rightarrow> string \<Rightarrow> string result" where
  "fetch_feed X N feed_url =
     and_then (ok_or (x_url_parse X feed_url) Validation) (\<lambda>url.
     and_then (validate_fetch_url N feed_url url) (\<lambda>_.
     and_then (feed_client N feed_url) (\<lambda>addresses.
     and_then (n_fetch N feed_url addresses) (\<lambda>response.
     and_then (fail_if (400 \<le> rs_status response \<and> rs_status response < 600) Http) (\<lambda>_.
     and_then (fail_if (300 \<le> rs_status response \<and> rs_status response < 400) Validation) (\<lambda>_.
     and_then (fail_if (too_long MAX_FEED_BYTES response) Validation) (\<lambda>_.
       read_bounded_response response MAX_FEED_BYTES)))))))"

definition ingest_source ::
  "ext \<Rightarrow> node_identity \<Rightarrow> (int \<times> int \<Rightarrow> string \<Rightarrow> string \<Rightarrow> string) \<Rightarrow> net \<Rightarrow> (nat \<Rightarrow> int) \<Rightarrow> source_view \<Rightarrow>
   database \<Rightarrow> (int \<times> int) result \<times> database" where
  "ingest_source X me render N clock source db =
     (case fetch_feed X N (src_feed_url (sv_row source)) of
        Inl e \<Rightarrow> (Inl e, db)
      | Inr bytes \<Rightarrow> ingest_feed_bytes X me render N clock source bytes db)"

section \<open>Selecting the sources\<close>

definition review_counts :: "ext \<Rightarrow> database \<Rightarrow> string \<Rightarrow> string \<Rightarrow> bool \<Rightarrow> int" where
  "review_counts X db source_id recommendation verified =
     count_rows (\<lambda>r. srv_source_id r = source_id \<and> srv_recommendation r = recommendation \<and>
       (traced X db (srv_event_id r) \<longleftrightarrow> verified)) (source_reviews db)"

definition source_view_of :: "ext \<Rightarrow> database \<Rightarrow> source_row \<Rightarrow> source_view" where
  "source_view_of X db s =
     \<lparr> sv_row = s,
       sv_approval_count = review_counts X db (src_source_id s) ''approve'' True,
       sv_rejection_count = review_counts X db (src_source_id s) ''reject'' True,
       sv_untraced_approval_count = review_counts X db (src_source_id s) ''approve'' False,
       sv_untraced_rejection_count = review_counts X db (src_source_id s) ''reject'' False,
       sv_next_fetch_at = map_option (\<lambda>t. t + minutes (src_minimum_fetch_interval_minutes s))
         (src_last_fetched_at s) \<rparr>"

definition sources_view :: "ext \<Rightarrow> string list option \<Rightarrow> database \<Rightarrow> source_view list" where
  "sources_view X statuses db =
     map (source_view_of X db) (filter (\<lambda>s. case statuses of None \<Rightarrow> True | Some allowed \<Rightarrow> src_status s \<in> set allowed)
       (order_by (\<lambda>a b. src_created_at a < src_created_at b) (sources db)))"

definition ingestible_sources :: "ext \<Rightarrow> database \<Rightarrow> source_view list" where
  "ingestible_sources X db =
     filter (\<lambda>v. sv_approval_count v \<ge> 2) (sources_view X (Some [''probation'', ''active'', ''degraded'']) db)"

definition due_ingestible_sources_at :: "ext \<Rightarrow> int \<Rightarrow> database \<Rightarrow> source_view list" where
  "due_ingestible_sources_at X now db =
     filter (\<lambda>v. case sv_next_fetch_at v of None \<Rightarrow> True | Some t \<Rightarrow> t \<le> now) (ingestible_sources X db)"

section \<open>A round of collection\<close>

record source_ingest_result =
  sir_source_id :: string
  sir_feed_url :: string
  sir_observations_seen :: int
  sir_observations_accepted :: int
  sir_error :: "error option"

record ingest_report =
  igr_sources_eligible :: int
  igr_sources_deferred :: int
  igr_sources_attempted :: int
  igr_sources_succeeded :: int
  igr_observations_added :: int
  igr_source_results :: "source_ingest_result list"

definition source_outcome :: "source_view \<Rightarrow> (int \<times> int) result \<Rightarrow> ingest_report \<Rightarrow> ingest_report" where
  "source_outcome source outcome report =
     (let row = sv_row source in
      case outcome of
        Inr (seen, accepted) \<Rightarrow> report\<lparr>
          igr_sources_succeeded := igr_sources_succeeded report + 1,
          igr_observations_added := igr_observations_added report + accepted,
          igr_source_results := igr_source_results report @
            [\<lparr> sir_source_id = src_source_id row, sir_feed_url = src_feed_url row, sir_observations_seen = seen,
               sir_observations_accepted = accepted, sir_error = None \<rparr>]\<rparr>
      | Inl e \<Rightarrow> report\<lparr>
          igr_source_results := igr_source_results report @
            [\<lparr> sir_source_id = src_source_id row, sir_feed_url = src_feed_url row, sir_observations_seen = 0,
               sir_observations_accepted = 0, sir_error = Some e \<rparr>]\<rparr>)"

text \<open>\<open>clocks\<close> gives each source its own readings; the fetch is marked at reading \<open>fetched\<close>.\<close>

fun ingest_loop ::
  "ext \<Rightarrow> node_identity \<Rightarrow> (int \<times> int \<Rightarrow> string \<Rightarrow> string \<Rightarrow> string) \<Rightarrow> net \<Rightarrow> (nat \<Rightarrow> nat \<Rightarrow> int) \<Rightarrow> (nat \<Rightarrow> int) \<Rightarrow>
   nat \<Rightarrow> source_view list \<Rightarrow> ingest_report \<Rightarrow> database \<Rightarrow> ingest_report \<times> database" where
  "ingest_loop X me render N clocks fetched n [] report db = (report, db)"
| "ingest_loop X me render N clocks fetched n (source # rest) report db =
     (case ingest_source X me render N (clocks n) source db of
        (outcome, db1) \<Rightarrow>
          ingest_loop X me render N clocks fetched (n + 1) rest (source_outcome source outcome report)
            (mark_source_fetch (fetched n) (src_source_id (sv_row source)) (\<not> isl outcome) db1))"

definition ingest_sources ::
  "ext \<Rightarrow> node_identity \<Rightarrow> (int \<times> int \<Rightarrow> string \<Rightarrow> string \<Rightarrow> string) \<Rightarrow> net \<Rightarrow> (nat \<Rightarrow> nat \<Rightarrow> int) \<Rightarrow> (nat \<Rightarrow> int) \<Rightarrow>
   source_view list \<Rightarrow> int \<Rightarrow> int \<Rightarrow> database \<Rightarrow> ingest_report \<times> database" where
  "ingest_sources X me render N clocks fetched chosen eligible deferred db =
     ingest_loop X me render N clocks fetched 0 chosen
       \<lparr> igr_sources_eligible = eligible, igr_sources_deferred = deferred, igr_sources_attempted = len chosen,
         igr_sources_succeeded = 0, igr_observations_added = 0, igr_source_results = [] \<rparr> db"

definition ingest_all ::
  "ext \<Rightarrow> node_identity \<Rightarrow> (int \<times> int \<Rightarrow> string \<Rightarrow> string \<Rightarrow> string) \<Rightarrow> net \<Rightarrow> (nat \<Rightarrow> nat \<Rightarrow> int) \<Rightarrow> (nat \<Rightarrow> int) \<Rightarrow>
   database \<Rightarrow> ingest_report \<times> database" where
  "ingest_all X me render N clocks fetched db =
     ingest_sources X me render N clocks fetched (ingestible_sources X db) (len (ingestible_sources X db)) 0 db"

definition ingest_due ::
  "ext \<Rightarrow> node_identity \<Rightarrow> (int \<times> int \<Rightarrow> string \<Rightarrow> string \<Rightarrow> string) \<Rightarrow> net \<Rightarrow> (nat \<Rightarrow> nat \<Rightarrow> int) \<Rightarrow> (nat \<Rightarrow> int) \<Rightarrow>
   int \<Rightarrow> database \<Rightarrow> ingest_report \<times> database" where
  "ingest_due X me render N clocks fetched now db =
     (let eligible = len (ingestible_sources X db); chosen = due_ingestible_sources_at X now db in
      ingest_sources X me render N clocks fetched chosen eligible (max 0 (eligible - len chosen)) db)"

section \<open>Only public addresses are asked\<close>

text \<open>
  The reference: an IPv4 address outside every block of the special-purpose registry, or an IPv6 address
  that carries no other IPv4 address and lies in none of the local, multicast, documentation,
  benchmarking, 6to4 and NAT64 ranges.
\<close>

fun public_address :: "ip_address \<Rightarrow> bool" where
  "public_address (V4 ip) \<longleftrightarrow> \<not> list_ex (in_block ip) special_v4_blocks"
| "public_address (V6 ip) \<longleftrightarrow>
     \<not> v6_loopback ip \<and> \<not> v6_unspecified ip \<and> \<not> v6_unique_local ip \<and> \<not> v6_unicast_link_local ip \<and>
     \<not> v6_multicast ip \<and> \<not> is_non_public_v6_special ip \<and>
     (case to_ipv4 ip of None \<Rightarrow> True | Some ip4 \<Rightarrow> \<not> list_ex (in_block ip4) special_v4_blocks)"

text \<open>An IPv6 address that carries a public IPv4 address starts with a zero segment and is not \<open>::\<close> or \<open>::1\<close>.\<close>

lemma carried_v4:
  assumes "to_ipv4 ip = Some ip4" and "\<not> is_non_public_v4 ip4"
  shows "public_address (V6 ip)"
proof (cases ip)
  case (Ipv6 a b c d e f g h)
  with assms(1) have z: "a = 0" "b = 0" "c = 0" "d = 0" "e = 0"
    and ip4: "ip4 = Ipv4 (high_byte g) (low_byte g) (high_byte h) (low_byte h)"
    by (auto split: if_splits)
  have "high_byte g \<noteq> 0" using assms(2) ip4 by auto
  then have "g \<noteq> 0" by (auto simp: high_byte_def)
  with assms z Ipv6 show ?thesis
    by (simp add: is_non_public_v4_blocks v6_unique_local_def v6_unicast_link_local_def v6_multicast_def)
qed

lemma reject_private_ip_sound: "reject_private_ip a = Inr u \<Longrightarrow> public_address a"
proof (cases a)
  case (V4 ip)
  then show "reject_private_ip a = Inr u \<Longrightarrow> public_address a"
    by (simp add: reject_private_ip_def is_non_public_v4_blocks)
next
  case (V6 ip)
  then show "reject_private_ip a = Inr u \<Longrightarrow> public_address a"
  proof (cases "to_ipv4 ip")
    case (Some ip4)
    then show "reject_private_ip a = Inr u \<Longrightarrow> public_address a"
      using carried_v4 [OF Some] V6 by (simp add: reject_private_ip_def del: public_address.simps)
  qed (simp add: reject_private_ip_def V6)
qed

lemma feed_client_public:
  assumes "validate_fetch_url N text url = Inr ()" and "feed_client N text = Inr addresses" and "a \<in> set addresses"
  shows "public_address a"
  using assms
  by (auto simp: validate_fetch_url_def feed_client_def intro: reject_private_ip_sound
      split: option.splits url_host.splits simp del: public_address.simps)

text \<open>Two networks that differ only in what hosts outside the public network would answer.\<close>

definition public_network_agrees :: "net \<Rightarrow> net \<Rightarrow> bool" where
  "public_network_agrees N N' \<longleftrightarrow> n_host N' = n_host N \<and> n_port N' = n_port N \<and> n_lookup N' = n_lookup N \<and>
     n_parse_feed N' = n_parse_feed N \<and>
     (\<forall>url addresses. list_all public_address addresses \<longrightarrow> n_fetch N' url addresses = n_fetch N url addresses)"

lemma fetch_feed_public:
  assumes "public_network_agrees N N'"
  shows "fetch_feed X N' url = fetch_feed X N url"
proof -
  have eqs: "n_host N' = n_host N" "n_port N' = n_port N" "n_lookup N' = n_lookup N"
    using assms by (simp_all add: public_network_agrees_def)
  have same: "validate_fetch_url N' = validate_fetch_url N" "feed_client N' = feed_client N"
    by (unfold validate_fetch_url_def feed_client_def eqs) (rule refl)+
  have "n_fetch N' url addresses = n_fetch N url addresses"
    if "validate_fetch_url N url parts = Inr u" "feed_client N url = Inr addresses" for parts u addresses
    using feed_client_public [of N url parts addresses] that assms
    by (auto simp: public_network_agrees_def list_all_iff)
  then show ?thesis
    unfolding fetch_feed_def same by (intro and_then_cong) simp
qed

lemma ingest_source_public:
  assumes "public_network_agrees N N'"
  shows "ingest_source X me render N' clock source db = ingest_source X me render N clock source db"
proof -
  have parse: "n_parse_feed N' = n_parse_feed N" using assms by (simp add: public_network_agrees_def)
  show ?thesis
    unfolding ingest_source_def ingest_feed_bytes_def fetch_feed_public [OF assms] parse by (rule refl)
qed

lemma ingest_loop_public:
  assumes "public_network_agrees N N'"
  shows "ingest_loop X me render N' clocks fetched n chosen report db =
    ingest_loop X me render N clocks fetched n chosen report db"
  by (induction chosen arbitrary: n report db) (simp_all add: ingest_source_public [OF assms] split: prod.splits)

text \<open>C13: The collector asks only public hosts.  Whatever hosts in loopback, private, link-local, multicast,
  documentation, benchmarking, translated or otherwise special address ranges would answer, and however
  names resolve to them, a round of collection reports the same and leaves the same database.\<close>

theorem ingest_asks_public_hosts_only:
  assumes "public_network_agrees N N'"
  shows "ingest_all X me render N' clocks fetched db = ingest_all X me render N clocks fetched db \<and>
    ingest_due X me render N' clocks fetched now db = ingest_due X me render N clocks fetched now db"
  by (simp add: ingest_all_def ingest_due_def ingest_sources_def Let_def ingest_loop_public [OF assms])

section \<open>Collecting a feed again\<close>

text \<open>Event numbers grow: what a verified log guarantees and appending keeps.\<close>

definition numbers_ok :: "database \<Rightarrow> bool" where
  "numbers_ok db \<longleftrightarrow> (\<forall>r\<in>set (events db). ev_sequence r < next_sequence db)"

lemma append_observation_numbers:
  assumes "numbers_ok db" and "append_observation X me render received ob db = Inr (acc, db')"
  shows "numbers_ok db'"
  using assms(2)
proof (cases rule: append_observation_effect)
  case known
  with assms(1) show ?thesis by simp
next
  case (fresh row st sid ws)
  with assms(1) show ?thesis by (auto simp: numbers_ok_def next_sequence_def split: if_splits)
qed

lemma append_observation_known:
  assumes "numbers_ok db" and "append_observation X me render received ob db = Inr (acc, db')"
  shows "known_observation (observation_id_of X ob) db' = Some acc"
  using assms(2)
proof (cases rule: append_observation_effect)
  case known
  then show ?thesis by simp
next
  case (fresh row st sid ws)
  have "\<forall>r\<in>set (events db). ev_sequence r \<noteq> ev_sequence row"
    using assms(1) fresh(8) by (auto simp: numbers_ok_def)
  then have "first_row (\<lambda>e. ev_sequence e = ev_sequence row) (events db) = None" by simp
  moreover have "first_row (\<lambda>r. obs_observation_id r = observation_id_of X ob) (observations db) = None"
    using fresh(5) by simp
  ultimately show ?thesis
    using fresh(7) by (simp add: fresh(9) known_observation_def new_observation_def del: first_row_None)
qed

lemma append_observation_keeps_known:
  assumes "append_observation X me render received ob db = Inr (acc, db')" and "known_observation i db = Some k"
  shows "known_observation i db' = Some k"
  using assms(1)
proof (cases rule: append_observation_effect)
  case known
  with assms(2) show ?thesis by simp
next
  case (fresh row st sid ws)
  with assms(2) show ?thesis by (auto simp: known_observation_def bind_eq_Some_conv)
qed

lemma known_is_old:
  assumes "numbers_ok db" and "known_observation i db = Some k"
  shows "acc_sequence k \<le> fst (current_head db)"
proof -
  from assms(2) obtain e where "e \<in> set (events db)" "acc_sequence k = ev_sequence e"
    by (auto simp: known_observation_def bind_eq_Some_conv dest!: first_row_Some)
  with assms(1) show ?thesis by (auto simp: numbers_ok_def next_sequence_def current_head_def split: if_splits)
qed

text \<open>The identity of an entry's observation does not depend on when it was retrieved.\<close>

definition entry_id :: "ext \<Rightarrow> source_view \<Rightarrow> feed \<Rightarrow> feed_entry \<Rightarrow> string option" where
  "entry_id X source f e = (case entry_url X e of None \<Rightarrow> None
     | Some url \<Rightarrow> (case entry_observation X source 0 f e url of Inl _ \<Rightarrow> None
                  | Inr ob \<Rightarrow> Some (observation_id_of X ob)))"

lemma entry_observation_id:
  "entry_observation X source t f e url = Inr ob \<Longrightarrow> entry_url X e = Some url \<Longrightarrow>
   entry_id X source f e = Some (observation_id_of X ob)"
  by (auto simp: entry_id_def entry_observation_def observation_id_of_def)

definition entry_known :: "ext \<Rightarrow> source_view \<Rightarrow> feed \<Rightarrow> feed_entry \<Rightarrow> database \<Rightarrow> bool" where
  "entry_known X source f e db \<longleftrightarrow> (case entry_url X e of None \<Rightarrow> True
     | Some _ \<Rightarrow> (\<exists>i k. entry_id X source f e = Some i \<and> known_observation i db = Some k))"

lemma ingest_entry_known:
  assumes "ingest_entry X me render source t f received e db = (Inr k, db')" and "numbers_ok db"
  shows "numbers_ok db' \<and> entry_known X source f e db' \<and>
    (\<forall>e'. entry_known X source f e' db \<longrightarrow> entry_known X source f e' db')"
proof (cases "entry_url X e")
  case None
  with assms show ?thesis by (simp add: ingest_entry_def entry_known_def)
next
  case (Some url)
  with assms(1) obtain ob acc where ob: "entry_observation X source t f e url = Inr ob"
    and run: "append_observation X me render received ob db = Inr (acc, db')"
    by (auto simp: ingest_entry_def split: sum.splits prod.splits)
  have "entry_known X source f e db'"
    using append_observation_known [OF assms(2) run] entry_observation_id [OF ob Some]
    by (simp add: entry_known_def Some)
  moreover have "entry_known X source f e' db'" if "entry_known X source f e' db" for e'
    using that append_observation_keeps_known [OF run] by (auto simp: entry_known_def split: option.splits)
  ultimately show ?thesis using append_observation_numbers [OF assms(2) run] by blast
qed

lemma ingest_entry_again:
  assumes "entry_known X source f e db" and "numbers_ok db"
  shows "ingest_entry X me render source t f received e db = (Inr 0, db)"
proof (cases "entry_url X e")
  case None
  then show ?thesis by (simp add: ingest_entry_def)
next
  case (Some url)
  with assms(1) obtain i k where i: "entry_id X source f e = Some i" "known_observation i db = Some k"
    by (auto simp: entry_known_def)
  from i(1) Some obtain ob where ob: "entry_observation X source t f e url = Inr ob"
    by (auto simp: entry_id_def entry_observation_def split: sum.splits)
  have "observation_id_of X ob = i" using entry_observation_id [OF ob Some] i(1) by simp
  with i(2) have "append_observation X me render received ob db = Inr (k, db)"
    by (simp add: append_observation_def Let_def)
  with Some ob known_is_old [OF assms(2) i(2)] show ?thesis by (simp add: ingest_entry_def)
qed

lemma ingest_entries_known:
  assumes "ingest_entries X me render source t f clock n es accepted db = (Inr k, db')" and "numbers_ok db"
  shows "numbers_ok db' \<and> (\<forall>e\<in>set es. entry_known X source f e db') \<and>
    (\<forall>e. entry_known X source f e db \<longrightarrow> entry_known X source f e db')"
  using assms
proof (induction es arbitrary: n accepted db)
  case (Cons e es)
  from Cons.prems(1) obtain j db1 where one: "ingest_entry X me render source t f (clock n) e db = (Inr j, db1)"
    and more: "ingest_entries X me render source t f clock (n + 1) es (accepted + j) db1 = (Inr k, db')"
    by (auto split: prod.splits sum.splits)
  from ingest_entry_known [OF one Cons.prems(2)] Cons.IH [OF more] show ?case by auto
qed simp

lemma ingest_entries_again:
  "\<forall>e\<in>set es. entry_known X source f e db \<Longrightarrow> numbers_ok db \<Longrightarrow>
   ingest_entries X me render source t f clock n es accepted db = (Inr accepted, db)"
  by (induction es arbitrary: n) (simp_all add: ingest_entry_again)


section \<open>Truncated texts\<close>

text \<open>A text that is too long is cut to the limit and then gets an ellipsis: it ends up one character over the
  limit, and a peer that checks the limit refuses the observation.\<close>

lemma truncated_text_over_limit: "char_count (truncate_text ''abc'' 2) = 3"
  by code_simp

section \<open>Witnesses\<close>

definition demo_entry :: feed_entry where
  "demo_entry = \<lparr> fe_id = ''urn:1'', fe_title = Some ''Flood in town'', fe_summary = None, fe_published = None,
     fe_updated = Some 3, fe_links = [\<lparr> fl_href = ''https://example.org/1'', fl_rel = None \<rparr>],
     fe_authors = [''Ann''], fe_categories = [] \<rparr>"

text \<open>Names resolve to a public host, or (for the feed \<open>evil\<close>) to the loopback address.\<close>

definition demo_net :: net where
  "demo_net = \<lparr> n_host = (\<lambda>u. Some (Domain u)), n_port = (\<lambda>_. Some 443),
     n_lookup = (\<lambda>d _. Some [if d = ''evil'' then V4 (Ipv4 127 0 0 1) else V4 (Ipv4 93 184 216 34)]),
     n_fetch = (\<lambda>_ as. if as = [V4 (Ipv4 93 184 216 34)]
       then Inr \<lparr> rs_status = 200, rs_content_length = None, rs_chunks = [Inr ''feed''] \<rparr> else Inl Http),
     n_parse_feed = (\<lambda>_. Some \<lparr> fd_id = ''f'', fd_language = None, fd_entries = [demo_entry] \<rparr>) \<rparr>"

definition demo_other_net :: net where
  "demo_other_net = demo_net\<lparr>n_fetch := (\<lambda>u as. if V4 (Ipv4 127 0 0 1) \<notin> set as then n_fetch demo_net u as
     else Inr \<lparr> rs_status = 200, rs_content_length = None, rs_chunks = [Inr ''secret''] \<rparr>)\<rparr>"

lemma demo_nets_agree: "public_network_agrees demo_net demo_other_net"
proof -
  have "\<not> public_address (V4 (Ipv4 127 0 0 1))"
    by (simp add: is_non_public_v4_blocks [symmetric])
  then show ?thesis
    by (auto simp: public_network_agrees_def demo_other_net_def demo_net_def list_all_iff simp del: public_address.simps)
qed

lemma demo_fetches:
  "fetch_feed demo_ext demo_net ''good'' = Inr ''feed''" "fetch_feed demo_ext demo_net ''evil'' = Inl Validation"
  "n_fetch demo_other_net ''evil'' [V4 (Ipv4 127 0 0 1)] \<noteq> n_fetch demo_net ''evil'' [V4 (Ipv4 127 0 0 1)]"
  by code_simp+

theorem ingest_asks_public_hosts_only_witness:
  "public_network_agrees demo_net demo_other_net \<and> fetch_feed demo_ext demo_net ''good'' = Inr ''feed'' \<and>
   ingest_all demo_ext demo_me (\<lambda>_ _ _. []) demo_other_net (\<lambda>_ _. 9) (\<lambda>_. 9) demo_feed =
     ingest_all demo_ext demo_me (\<lambda>_ _ _. []) demo_net (\<lambda>_ _. 9) (\<lambda>_. 9) demo_feed"
  using demo_nets_agree demo_fetches ingest_asks_public_hosts_only [OF demo_nets_agree] by blast

definition demo_view :: source_view where
  "demo_view = source_view_of demo_ext demo_feed (demo_source\<lparr>src_status := ''probation''\<rparr>)"

definition demo_ingested :: "(int \<times> int) result \<times> database" where
  "demo_ingested = ingest_feed_bytes demo_ext demo_me (\<lambda>_ _ _. []) demo_net (\<lambda>_. 9) demo_view ''feed'' demo_feed"

lemma demo_ingested_case: "fst demo_ingested = Inr (1, 1)"
  by code_simp


end
