(* ===== verification/Volunteer.thy ===== *)
theory Volunteer
  imports World Ingest Edge
begin

text \<open>
  The volunteer gateway (\<^verbatim>\<open>src/src/volunteer.rs\<close> with its tables in \<^verbatim>\<open>src/src/db.rs\<close>): a node leases one
  open research task to an anonymous worker, takes back one submission per lease, answers with a signed
  receipt, and publishes what it stored after checking it again.  The table of submissions is a list of
  rows beside the database.  \<open>H\<close> stands for the host part of \<open>Url::parse\<close>.
\<close>

unbundle bit_operations_syntax

section \<open>Objects\<close>

definition VOLUNTEER_LEASE_DOMAIN :: string where "VOLUNTEER_LEASE_DOMAIN = ''commonwake.volunteer-lease.v1''"
definition VOLUNTEER_RECEIPT_DOMAIN :: string where "VOLUNTEER_RECEIPT_DOMAIN = ''commonwake.volunteer-receipt.v1''"
definition VOLUNTEER_LEASE_MINUTES :: int where "VOLUNTEER_LEASE_MINUTES = 30"
definition MAX_LEASE_MINUTES :: int where "MAX_LEASE_MINUTES = 60"
definition MAX_LEASE_CLOCK_SKEW_MINUTES :: int where "MAX_LEASE_CLOCK_SKEW_MINUTES = 5"
definition MAX_VOLUNTEER_SUMMARY_CHARS :: int where "MAX_VOLUNTEER_SUMMARY_CHARS = 4000"
definition MAX_EVIDENCE_REFS :: int where "MAX_EVIDENCE_REFS = 16"
definition MAX_RESULT_BYTES :: int where "MAX_RESULT_BYTES = 32 * 1024"
definition MAX_METADATA_CHARS :: int where "MAX_METADATA_CHARS = 160"

record volunteer_task =
  vt_work_id :: string
  vt_task_kind :: string
  vt_subject_type :: string
  vt_subject_id :: string
  vt_directive :: string
  vt_instructions :: string

record volunteer_lease =
  vl_protocol :: string
  vl_node_id :: string
  vl_node_public_key :: string
  vl_work_id :: string
  vl_task_digest :: string
  vl_nonce :: string
  vl_issued_at :: int
  vl_expires_at :: int
  vl_signature :: string

record volunteer_worker =
  vw_interface :: "string option"
  vw_model :: "string option"
  vw_note :: "string option"

record volunteer_submission =
  vs_lease :: volunteer_lease
  vs_task :: volunteer_task
  vs_outcome :: work_outcome
  vs_summary :: string
  vs_evidence :: "evidence_ref list"
  vs_result :: json
  vs_worker :: "volunteer_worker option"
  vs_public_data_acknowledged :: bool

record volunteer_receipt =
  vc_protocol :: string
  vc_node_id :: string
  vc_node_public_key :: string
  vc_submission_id :: string
  vc_work_id :: string
  vc_submission_digest :: string
  vc_received_at :: int
  vc_status :: string
  vc_signature :: string

definition e_volunteer_task :: "volunteer_task \<Rightarrow> json" where
  "e_volunteer_task t = JObj [
     (''directive'', JStr (vt_directive t)),
     (''instructions'', JStr (vt_instructions t)),
     (''kind'', JStr (vt_task_kind t)),
     (''subject_id'', JStr (vt_subject_id t)),
     (''subject_type'', JStr (vt_subject_type t)),
     (''work_id'', JStr (vt_work_id t))]"

definition e_volunteer_lease :: "ext \<Rightarrow> volunteer_lease \<Rightarrow> json" where
  "e_volunteer_lease X l = JObj [
     (''expires_at'', e_time X (vl_expires_at l)),
     (''issued_at'', e_time X (vl_issued_at l)),
     (''node_id'', JStr (vl_node_id l)),
     (''node_public_key'', JStr (vl_node_public_key l)),
     (''nonce'', JStr (vl_nonce l)),
     (''protocol'', JStr (vl_protocol l)),
     (''signature'', JStr (vl_signature l)),
     (''task_digest'', JStr (vl_task_digest l)),
     (''work_id'', JStr (vl_work_id l))]"

definition e_volunteer_worker :: "volunteer_worker \<Rightarrow> json" where
  "e_volunteer_worker w = JObj (e_skip ''interface'' JStr (vw_interface w) @
     e_skip ''model'' JStr (vw_model w) @ e_skip ''note'' JStr (vw_note w))"

definition e_evidence_ref :: "ext \<Rightarrow> evidence_ref \<Rightarrow> json" where
  "e_evidence_ref X e = JObj (e_skip ''digest'' JStr (er_digest e) @
     e_skip ''observed_at'' (e_time X) (er_observed_at e) @ e_skip ''title'' JStr (er_title e) @
     [(''url'', JStr (er_url e))])"

definition e_volunteer_submission :: "ext \<Rightarrow> volunteer_submission \<Rightarrow> json" where
  "e_volunteer_submission X s = JObj ([
     (''evidence'', JArr (map (e_evidence_ref X) (vs_evidence s))),
     (''lease'', e_volunteer_lease X (vs_lease s)),
     (''outcome'', JStr (work_outcome_str (vs_outcome s))),
     (''public_data_acknowledged'', JBool (vs_public_data_acknowledged s)),
     (''result'', vs_result s),
     (''summary'', JStr (vs_summary s)),
     (''task'', e_volunteer_task (vs_task s))] @
     e_skip ''worker'' e_volunteer_worker (vs_worker s))"

definition e_volunteer_receipt :: "ext \<Rightarrow> volunteer_receipt \<Rightarrow> json" where
  "e_volunteer_receipt X r = JObj [
     (''node_id'', JStr (vc_node_id r)),
     (''node_public_key'', JStr (vc_node_public_key r)),
     (''protocol'', JStr (vc_protocol r)),
     (''received_at'', e_time X (vc_received_at r)),
     (''signature'', JStr (vc_signature r)),
     (''status'', JStr (vc_status r)),
     (''submission_digest'', JStr (vc_submission_digest r)),
     (''submission_id'', JStr (vc_submission_id r)),
     (''work_id'', JStr (vc_work_id r))]"

definition d_volunteer_task :: "json \<Rightarrow> volunteer_task option" where
  "d_volunteer_task v = do {
     fs \<leftarrow> struct_view [''work_id'', ''kind'', ''subject_type'', ''subject_id'', ''directive'', ''instructions''] v;
     a0 \<leftarrow> req d_str ''work_id'' fs;
     a1 \<leftarrow> req d_str ''kind'' fs;
     a2 \<leftarrow> req d_str ''subject_type'' fs;
     a3 \<leftarrow> req d_str ''subject_id'' fs;
     a4 \<leftarrow> req d_str ''directive'' fs;
     a5 \<leftarrow> req d_str ''instructions'' fs;
     Some \<lparr> vt_work_id = a0, vt_task_kind = a1, vt_subject_type = a2, vt_subject_id = a3, vt_directive = a4,
       vt_instructions = a5 \<rparr> }"

definition d_volunteer_lease :: "ext \<Rightarrow> json \<Rightarrow> volunteer_lease option" where
  "d_volunteer_lease X v = do {
     fs \<leftarrow> struct_view [''protocol'', ''node_id'', ''node_public_key'', ''work_id'', ''task_digest'', ''nonce'',
       ''issued_at'', ''expires_at'', ''signature''] v;
     a0 \<leftarrow> req d_str ''protocol'' fs;
     a1 \<leftarrow> req d_str ''node_id'' fs;
     a2 \<leftarrow> req d_str ''node_public_key'' fs;
     a3 \<leftarrow> req d_str ''work_id'' fs;
     a4 \<leftarrow> req d_str ''task_digest'' fs;
     a5 \<leftarrow> req d_str ''nonce'' fs;
     a6 \<leftarrow> req (d_time X) ''issued_at'' fs;
     a7 \<leftarrow> req (d_time X) ''expires_at'' fs;
     a8 \<leftarrow> req d_str ''signature'' fs;
     Some \<lparr> vl_protocol = a0, vl_node_id = a1, vl_node_public_key = a2, vl_work_id = a3, vl_task_digest = a4,
       vl_nonce = a5, vl_issued_at = a6, vl_expires_at = a7, vl_signature = a8 \<rparr> }"

definition d_volunteer_worker :: "json \<Rightarrow> volunteer_worker option" where
  "d_volunteer_worker v = do {
     fs \<leftarrow> struct_view [''interface'', ''model'', ''note''] v;
     a0 \<leftarrow> opt d_str ''interface'' fs;
     a1 \<leftarrow> opt d_str ''model'' fs;
     a2 \<leftarrow> opt d_str ''note'' fs;
     Some \<lparr> vw_interface = a0, vw_model = a1, vw_note = a2 \<rparr> }"

definition d_volunteer_submission :: "ext \<Rightarrow> json \<Rightarrow> volunteer_submission option" where
  "d_volunteer_submission X v = do {
     fs \<leftarrow> struct_view [''lease'', ''task'', ''outcome'', ''summary'', ''evidence'', ''result'', ''worker'',
       ''public_data_acknowledged''] v;
     a0 \<leftarrow> req (d_volunteer_lease X) ''lease'' fs;
     a1 \<leftarrow> req d_volunteer_task ''task'' fs;
     a2 \<leftarrow> req (d_enum work_outcome_names) ''outcome'' fs;
     a3 \<leftarrow> req d_str ''summary'' fs;
     a4 \<leftarrow> dflt [] (d_list (d_evidence_ref X)) ''evidence'' fs;
     a5 \<leftarrow> dflt JNull Some ''result'' fs;
     a6 \<leftarrow> opt d_volunteer_worker ''worker'' fs;
     a7 \<leftarrow> req d_bool ''public_data_acknowledged'' fs;
     Some \<lparr> vs_lease = a0, vs_task = a1, vs_outcome = a2, vs_summary = a3, vs_evidence = a4, vs_result = a5,
       vs_worker = a6, vs_public_data_acknowledged = a7 \<rparr> }"

definition d_volunteer_receipt :: "ext \<Rightarrow> json \<Rightarrow> volunteer_receipt option" where
  "d_volunteer_receipt X v = do {
     fs \<leftarrow> struct_view [''protocol'', ''node_id'', ''node_public_key'', ''submission_id'', ''work_id'',
       ''submission_digest'', ''received_at'', ''status'', ''signature''] v;
     a0 \<leftarrow> req d_str ''protocol'' fs;
     a1 \<leftarrow> req d_str ''node_id'' fs;
     a2 \<leftarrow> req d_str ''node_public_key'' fs;
     a3 \<leftarrow> req d_str ''submission_id'' fs;
     a4 \<leftarrow> req d_str ''work_id'' fs;
     a5 \<leftarrow> req d_str ''submission_digest'' fs;
     a6 \<leftarrow> req (d_time X) ''received_at'' fs;
     a7 \<leftarrow> req d_str ''status'' fs;
     a8 \<leftarrow> req d_str ''signature'' fs;
     Some \<lparr> vc_protocol = a0, vc_node_id = a1, vc_node_public_key = a2, vc_submission_id = a3, vc_work_id = a4,
       vc_submission_digest = a5, vc_received_at = a6, vc_status = a7, vc_signature = a8 \<rparr> }"

section \<open>Checks\<close>

definition volunteer_safe_kinds :: "string list" where
  "volunteer_safe_kinds = [''discover_sources'', ''review_source'', ''verify_observation'', ''cluster_stories'',
     ''assess_story'']"

definition volunteer_safe_work_kind :: "string \<Rightarrow> bool" where
  "volunteer_safe_work_kind kind \<longleftrightarrow> kind \<in> set volunteer_safe_kinds"

definition validate_volunteer_task_filters :: "string option \<Rightarrow> string option \<Rightarrow> unit result" where
  "validate_volunteer_task_filters kind work_id =
     and_then (fail_if (case kind of None \<Rightarrow> False | Some k \<Rightarrow> \<not> volunteer_safe_work_kind k) Forbidden) (\<lambda>_.
     case work_id of None \<Rightarrow> Inr () | Some w \<Rightarrow> validate_prefixed_digest w ''cwwork_'')"

definition task_digest :: "ext \<Rightarrow> volunteer_task \<Rightarrow> string result" where
  "task_digest X t = and_then (canonical_json X (e_volunteer_task t)) (\<lambda>bytes. Inr (sha256_hex X bytes))"

definition validate_node_identity :: "ext \<Rightarrow> string \<Rightarrow> string \<Rightarrow> unit result" where
  "validate_node_identity X node public_key =
     and_then (verifying_key_from_b64 X public_key) (\<lambda>key.
       fail_if (node \<noteq> prefixed_id X ''cwnode_'' key) Unauthorized)"

definition validate_volunteer_nonce :: "string \<Rightarrow> unit result" where
  "validate_volunteer_nonce nonce =
     fail_if (\<not> (16 \<le> len nonce \<and> len nonce \<le> 128) \<or>
       \<not> list_all (\<lambda>c. ascii_alphanumeric c \<or> c = CHR ''-'' \<or> c = CHR ''_'') nonce) Validation"

definition verify_volunteer_lease :: "ext \<Rightarrow> volunteer_lease \<Rightarrow> unit result" where
  "verify_volunteer_lease X l =
     and_then (check_all [
       fail_if (vl_protocol l \<noteq> PROTOCOL_VERSION) Validation,
       validate_node_identity X (vl_node_id l) (vl_node_public_key l),
       validate_prefixed_digest (vl_work_id l) ''cwwork_'',
       validate_sha256 (vl_task_digest l),
       validate_volunteer_nonce (vl_nonce l),
       fail_if (vl_expires_at l \<le> vl_issued_at l \<or>
         vl_expires_at l - vl_issued_at l > minutes MAX_LEASE_MINUTES) Validation]) (\<lambda>_.
     and_then (verifying_key_from_b64 X (vl_node_public_key l)) (\<lambda>key.
       verify_object X key VOLUNTEER_LEASE_DOMAIN (e_volunteer_lease X l) (vl_signature l)))"

definition verify_volunteer_receipt :: "ext \<Rightarrow> volunteer_receipt \<Rightarrow> unit result" where
  "verify_volunteer_receipt X r =
     and_then (check_all [
       fail_if (vc_protocol r \<noteq> PROTOCOL_VERSION) Validation,
       validate_node_identity X (vc_node_id r) (vc_node_public_key r),
       validate_prefixed_digest (vc_submission_id r) ''cwvol_'',
       validate_prefixed_digest (vc_work_id r) ''cwwork_'',
       validate_sha256 (vc_submission_digest r),
       fail_if (vc_status r \<noteq> ''probationary'') Validation]) (\<lambda>_.
     and_then (verifying_key_from_b64 X (vc_node_public_key r)) (\<lambda>key.
       verify_object X key VOLUNTEER_RECEIPT_DOMAIN (e_volunteer_receipt X r) (vc_signature r)))"

definition public_ipv4 :: "ipv4 \<Rightarrow> bool" where
  "public_ipv4 ip \<longleftrightarrow> \<not> v4_private ip \<and> \<not> v4_loopback ip \<and> \<not> v4_link_local ip \<and> \<not> v4_broadcast ip \<and>
     \<not> v4_unspecified ip \<and> \<not> v4_multicast ip"

definition public_ipv6 :: "ipv6 \<Rightarrow> bool" where
  "public_ipv6 ip \<longleftrightarrow> \<not> v6_loopback ip \<and> \<not> v6_unspecified ip \<and> \<not> v6_multicast ip \<and>
     first_segment ip AND 0xfe00 \<noteq> 0xfc00 \<and> first_segment ip AND 0xffc0 \<noteq> 0xfe80"

definition public_host :: "url_host option \<Rightarrow> bool" where
  "public_host host =
     (case host of
        Some (Domain domain) \<Rightarrow>
          (let d = to_ascii_lowercase domain in
           d \<noteq> ''localhost'' \<and> \<not> ends_with d ''.localhost'' \<and> \<not> ends_with d ''.local'' \<and> \<not> ends_with d ''.internal'')
      | Some (HostIpv4 a) \<Rightarrow> public_ipv4 a
      | Some (HostIpv6 a) \<Rightarrow> (case to_ipv4 a of None \<Rightarrow> public_ipv6 a | Some a4 \<Rightarrow> public_ipv4 a4)
      | None \<Rightarrow> False)"

definition validate_evidence :: "ext \<Rightarrow> (string \<Rightarrow> url_host option) \<Rightarrow> evidence_ref \<Rightarrow> unit result" where
  "validate_evidence X H e =
     and_then (ok_or (x_url_parse X (er_url e)) Validation) (\<lambda>url. check_all [
       fail_if (\<not> (u_scheme url = ''http'' \<or> u_scheme url = ''https'') \<or> u_host url = None \<or>
         u_username url \<noteq> [] \<or> u_password url \<noteq> None) Validation,
       fail_if (\<not> public_host (H (er_url e))) Validation,
       fail_if (case er_title e of None \<Rightarrow> False | Some t \<Rightarrow> blank t \<or> char_count t > 300) Validation,
       (case er_digest e of None \<Rightarrow> Inr () | Some d \<Rightarrow> validate_sha256 d)])"

text \<open>The part of \<open>validate_submission\<close> about the lease, and the part about the content.\<close>

definition validate_leased :: "ext \<Rightarrow> int \<Rightarrow> volunteer_submission \<Rightarrow> unit result" where
  "validate_leased X received_at s =
     (let l = vs_lease s in
      and_then (verify_volunteer_lease X l) (\<lambda>_.
      and_then (fail_if (vt_work_id (vs_task s) \<noteq> vl_work_id l) Unauthorized) (\<lambda>_.
      and_then (task_digest X (vs_task s)) (\<lambda>digest. check_all [
        fail_if (digest \<noteq> vl_task_digest l) Unauthorized,
        fail_if (\<not> volunteer_safe_work_kind (vt_task_kind (vs_task s))) Forbidden,
        fail_if (vl_issued_at l > received_at + minutes MAX_LEASE_CLOCK_SKEW_MINUTES) Validation,
        fail_if (vl_expires_at l < received_at) Unauthorized]))))"

definition metadata_bad :: "string option \<Rightarrow> bool" where
  "metadata_bad v = (case v of None \<Rightarrow> False | Some s \<Rightarrow> blank s \<or> char_count s > MAX_METADATA_CHARS)"

definition validate_content :: "ext \<Rightarrow> (string \<Rightarrow> url_host option) \<Rightarrow> volunteer_submission \<Rightarrow> unit result" where
  "validate_content X H s =
     and_then (check_all [
       fail_if (\<not> vs_public_data_acknowledged s) Validation,
       fail_if (\<not> (20 \<le> char_count (trim (vs_summary s)) \<and>
         char_count (trim (vs_summary s)) \<le> MAX_VOLUNTEER_SUMMARY_CHARS)) Validation,
       fail_if (len (vs_evidence s) > MAX_EVIDENCE_REFS) Validation,
       fail_if (vs_outcome s \<noteq> WO_NeedsMore \<and> vs_evidence s = []) Validation,
       check_each (validate_evidence X H) (vs_evidence s)]) (\<lambda>_.
     and_then (canonical_json X (vs_result s)) (\<lambda>result_text. check_all [
       fail_if (len result_text > MAX_RESULT_BYTES) Validation,
       (case vs_worker s of None \<Rightarrow> Inr ()
        | Some w \<Rightarrow> fail_if (list_ex metadata_bad [vw_interface w, vw_model w, vw_note w]) Validation)]))"

definition validate_submission :: "ext \<Rightarrow> (string \<Rightarrow> url_host option) \<Rightarrow> int \<Rightarrow> volunteer_submission \<Rightarrow> unit result" where
  "validate_submission X H received_at s =
     and_then (validate_leased X received_at s) (\<lambda>_. validate_content X H s)"

section \<open>Leasing a task\<close>

definition task_directive :: "string \<Rightarrow> string" where
  "task_directive kind =
     (if kind = ''discover_sources'' then ''Identify public RSS or Atom source candidates for the coverage area named by subject_id. Return attributable feed URLs, ownership or institutional context, language and region information, and perspective limitations.''
      else if kind = ''review_source'' then ''Evaluate the source named by subject_id for provenance, ownership, terms, security, duplication, coverage value, and perspective limitations using public evidence.''
      else if kind = ''verify_observation'' then ''Independently refetch or corroborate the observation named by subject_id. Report supporting and conflicting public evidence, uncertainty, and access failures.''
      else if kind = ''cluster_stories'' then ''Determine whether the story pair named by subject_id describes the same real-world development. Compare public evidence and report either a supported match, no_match, or needs_more.''
      else if kind = ''assess_story'' then ''Assess the story named by subject_id for significance, factual claims, uncertainty, disputed interpretations, and missing geographic, political, social, or technical perspectives using public evidence.''
      else ''Stop without performing the task because this work kind is not volunteer-safe.'')"

definition context_paths :: "string \<Rightarrow> string list" where
  "context_paths kind =
     (if kind = ''discover_sources'' then [''/v1/coverage'', ''/v1/sources'']
      else if kind = ''review_source'' then [''/v1/sources'']
      else if kind = ''verify_observation'' \<or> kind = ''cluster_stories'' \<or> kind = ''assess_story''
        then [''/v1/feed'', ''/v1/network/feed'']
      else [])"

text \<open>\<open>VolunteerTaskSpec::from\<close>, which drops the counters of the work item's view.\<close>

definition task_of_work :: "work_item_row \<Rightarrow> volunteer_task" where
  "task_of_work w = \<lparr> vt_work_id = wki_work_id w, vt_task_kind = wki_kind w, vt_subject_type = wki_subject_type w,
     vt_subject_id = wki_subject_id w, vt_directive = task_directive (wki_kind w),
     vt_instructions = wki_instructions w \<rparr>"

record volunteer_row =
  vr_sequence :: int
  vr_submission_id :: string
  vr_work_id :: string
  vr_lease_nonce :: string
  vr_task_digest :: string
  vr_submission_digest :: string
  vr_submission_json :: string
  vr_receipt_json :: string
  vr_status :: string
  vr_received_at :: string

definition submission_count :: "volunteer_row list \<Rightarrow> string \<Rightarrow> int" where
  "submission_count rows work_id = count_rows (\<lambda>r. vr_work_id r = work_id) rows"

definition candidate_before :: "volunteer_row list \<Rightarrow> work_item_row \<Rightarrow> work_item_row \<Rightarrow> bool" where
  "candidate_before rows a b \<longleftrightarrow>
     (let m = submission_count rows (wki_work_id a); n = submission_count rows (wki_work_id b) in
      m < n \<or> m = n \<and> (wki_created_sequence a < wki_created_sequence b \<or>
        wki_created_sequence a = wki_created_sequence b \<and> str_less (wki_work_id a) (wki_work_id b)))"

definition volunteer_task_candidate ::
  "volunteer_row list \<Rightarrow> string option \<Rightarrow> string option \<Rightarrow> database \<Rightarrow> work_item_row option" where
  "volunteer_task_candidate rows kind work_id db =
     (case order_by (candidate_before rows)
        (filter (\<lambda>w. wki_status w = ''open'' \<and> wki_kind w \<in> set volunteer_safe_kinds \<and>
           (case kind of None \<Rightarrow> True | Some k \<Rightarrow> wki_kind w = k) \<and>
           (case work_id of None \<Rightarrow> True | Some i \<Rightarrow> wki_work_id w = i)) (work_items db)) of
        [] \<Rightarrow> None | w # _ \<Rightarrow> Some w)"

definition volunteer_work_item :: "string \<Rightarrow> database \<Rightarrow> work_item_row result" where
  "volunteer_work_item work_id db =
     ok_or (first_row (\<lambda>w. wki_work_id w = work_id \<and> wki_status w = ''open'') (work_items db)) NotFound"

definition unsigned_lease ::
  "ext \<Rightarrow> node_identity \<Rightarrow> string \<Rightarrow> int \<Rightarrow> volunteer_task \<Rightarrow> string \<Rightarrow> volunteer_lease" where
  "unsigned_lease X me random issued_at t digest =
     \<lparr> vl_protocol = PROTOCOL_VERSION, vl_node_id = node_id me, vl_node_public_key = node_public_key me,
       vl_work_id = vt_work_id t, vl_task_digest = digest, vl_nonce = x_b64_encode X random,
       vl_issued_at = issued_at, vl_expires_at = issued_at + minutes VOLUNTEER_LEASE_MINUTES,
       vl_signature = [] \<rparr>"

text \<open>The packet of \<open>issue_volunteer_task_filtered_at\<close>, less its constant notices and the template.\<close>

record volunteer_packet =
  vp_work :: volunteer_task
  vp_lease :: volunteer_lease
  vp_context_paths :: "string list"
  vp_submit_path :: string

definition issue_volunteer_task ::
  "ext \<Rightarrow> node_identity \<Rightarrow> string \<Rightarrow> string option \<Rightarrow> string option \<Rightarrow> int \<Rightarrow> database \<Rightarrow> volunteer_row list \<Rightarrow>
   volunteer_packet result" where
  "issue_volunteer_task X me random kind work_id issued_at db rows =
     and_then (validate_volunteer_task_filters kind work_id) (\<lambda>_.
     and_then (ok_or (volunteer_task_candidate rows kind work_id db) NotFound) (\<lambda>w.
     let t = task_of_work w in
     and_then (task_digest X t) (\<lambda>digest.
     let l = unsigned_lease X me random issued_at t digest in
     and_then (sign_object X (node_secret me) VOLUNTEER_LEASE_DOMAIN (e_volunteer_lease X l)) (\<lambda>s. Inr
       \<lparr> vp_work = t, vp_lease = l\<lparr>vl_signature := s\<rparr>, vp_context_paths = context_paths (vt_task_kind t),
         vp_submit_path = ''/v1/volunteer/results'' \<rparr>))))"

section \<open>Taking a submission\<close>

definition volunteer_clash :: "volunteer_row \<Rightarrow> volunteer_row \<Rightarrow> bool" where
  "volunteer_clash r s \<longleftrightarrow> vr_submission_id r = vr_submission_id s \<or> vr_lease_nonce r = vr_lease_nonce s \<or>
     vr_submission_digest r = vr_submission_digest s"

definition store_volunteer_submission ::
  "ext \<Rightarrow> volunteer_submission \<Rightarrow> volunteer_receipt \<Rightarrow> string \<Rightarrow> volunteer_row list \<Rightarrow> volunteer_row list result" where
  "store_volunteer_submission X s r canonical_submission rows =
     and_then (canonical_json X (e_volunteer_receipt X r)) (\<lambda>canonical_receipt.
     let row = \<lparr> vr_sequence = next_key vr_sequence rows, vr_submission_id = vc_submission_id r,
         vr_work_id = vc_work_id r, vr_lease_nonce = vl_nonce (vs_lease s),
         vr_task_digest = vl_task_digest (vs_lease s), vr_submission_digest = vc_submission_digest r,
         vr_submission_json = canonical_submission, vr_receipt_json = canonical_receipt,
         vr_status = ''probationary'', vr_received_at = timestamp X (vc_received_at r) \<rparr> in
     if list_ex (volunteer_clash row) rows then Inl Conflict else Inr (rows @ [row]))"

definition unsigned_volunteer_receipt ::
  "ext \<Rightarrow> node_identity \<Rightarrow> int \<Rightarrow> volunteer_submission \<Rightarrow> string \<Rightarrow> volunteer_receipt" where
  "unsigned_volunteer_receipt X me received_at s canonical =
     \<lparr> vc_protocol = PROTOCOL_VERSION, vc_node_id = node_id me, vc_node_public_key = node_public_key me,
       vc_submission_id = prefixed_id X ''cwvol_'' canonical, vc_work_id = vl_work_id (vs_lease s),
       vc_submission_digest = sha256_hex X canonical, vc_received_at = received_at,
       vc_status = ''probationary'', vc_signature = [] \<rparr>"

definition accept_volunteer_submission ::
  "ext \<Rightarrow> (string \<Rightarrow> url_host option) \<Rightarrow> node_identity \<Rightarrow> int \<Rightarrow> volunteer_submission \<Rightarrow> database \<Rightarrow>
   volunteer_row list \<Rightarrow> (volunteer_receipt \<times> volunteer_row list) result" where
  "accept_volunteer_submission X H me received_at s db rows =
     and_then (validate_submission X H received_at s) (\<lambda>_.
     and_then (fail_if (vl_node_id (vs_lease s) \<noteq> node_id me \<or>
       vl_node_public_key (vs_lease s) \<noteq> node_public_key me) Unauthorized) (\<lambda>_.
     and_then (volunteer_work_item (vl_work_id (vs_lease s)) db) (\<lambda>current.
     let t = task_of_work current in
     and_then (fail_if (\<not> volunteer_safe_work_kind (vt_task_kind t)) Forbidden) (\<lambda>_.
     and_then (task_digest X t) (\<lambda>digest.
     and_then (fail_if (digest \<noteq> vl_task_digest (vs_lease s)) Conflict) (\<lambda>_.
     and_then (canonical_json X (e_volunteer_submission X s)) (\<lambda>canonical.
     let r = unsigned_volunteer_receipt X me received_at s canonical in
     and_then (sign_object X (node_secret me) VOLUNTEER_RECEIPT_DOMAIN (e_volunteer_receipt X r)) (\<lambda>sig.
     let receipt = r\<lparr>vc_signature := sig\<rparr> in
     and_then (store_volunteer_submission X s receipt canonical rows) (\<lambda>rows'. Inr (receipt, rows'))))))))))"

text \<open>The handlers: the gateway's policy is asked first.\<close>

definition volunteer_submission_count :: "volunteer_row list \<Rightarrow> int" where
  "volunteer_submission_count rows = len rows"

definition api_volunteer_task ::
  "ext \<Rightarrow> edge_policy \<Rightarrow> node_identity \<Rightarrow> string \<Rightarrow> string option \<Rightarrow> string option \<Rightarrow> int \<Rightarrow> database \<Rightarrow>
   volunteer_row list \<Rightarrow> volunteer_packet result" where
  "api_volunteer_task X p me random kind work_id now db rows =
     and_then (authorize_volunteer_task p (volunteer_submission_count rows)) (\<lambda>_.
       issue_volunteer_task X me random kind work_id now db rows)"

definition api_submit_volunteer_result ::
  "ext \<Rightarrow> (string \<Rightarrow> url_host option) \<Rightarrow> edge_policy \<Rightarrow> node_identity \<Rightarrow> int \<Rightarrow> volunteer_submission \<Rightarrow> database \<Rightarrow>
   volunteer_row list \<Rightarrow> (volunteer_receipt \<times> volunteer_row list) result" where
  "api_submit_volunteer_result X H p me now s db rows =
     and_then (authorize_volunteer_task p (volunteer_submission_count rows)) (\<lambda>_.
       accept_volunteer_submission X H me now s db rows)"

section \<open>Publishing the submissions\<close>

record volunteer_view =
  vv_sequence :: int
  vv_received_at :: int
  vv_submission :: volunteer_submission
  vv_receipt :: volunteer_receipt

definition read_volunteer_row :: "ext \<Rightarrow> volunteer_row \<Rightarrow> volunteer_view result" where
  "read_volunteer_row X row =
     and_then (from_text X (d_volunteer_submission X) (vr_submission_json row)) (\<lambda>s.
     and_then (from_text X (d_volunteer_receipt X) (vr_receipt_json row)) (\<lambda>r.
     and_then (verify_volunteer_lease X (vs_lease s)) (\<lambda>_.
     and_then (verify_volunteer_receipt X r) (\<lambda>_.
     and_then (fail_if (vt_work_id (vs_task s) \<noteq> vl_work_id (vs_lease s)) Internal) (\<lambda>_.
     and_then (task_digest X (vs_task s)) (\<lambda>digest.
     and_then (fail_if (digest \<noteq> vl_task_digest (vs_lease s) \<or>
       \<not> volunteer_safe_work_kind (vt_task_kind (vs_task s))) Internal) (\<lambda>_.
     and_then (canonical_json X (e_volunteer_submission X s)) (\<lambda>canonical.
     and_then (parse_timestamp X (vr_received_at row)) (\<lambda>stored_received_at.
     and_then (fail_if (vr_submission_id row \<noteq> prefixed_id X ''cwvol_'' canonical \<or>
       vr_work_id row \<noteq> vl_work_id (vs_lease s) \<or> vr_submission_digest row \<noteq> sha256_hex X canonical \<or>
       vc_submission_id r \<noteq> vr_submission_id row \<or> vc_work_id r \<noteq> vr_work_id row \<or>
       vc_submission_digest r \<noteq> vr_submission_digest row \<or> vc_status r \<noteq> vr_status row \<or>
       vc_node_id r \<noteq> vl_node_id (vs_lease s) \<or> vc_node_public_key r \<noteq> vl_node_public_key (vs_lease s) \<or>
       vr_received_at row \<noteq> timestamp X (vc_received_at r)) Internal) (\<lambda>_. Inr
       \<lparr> vv_sequence = vr_sequence row, vv_received_at = stored_received_at, vv_submission = s,
         vv_receipt = r \<rparr>))))))))))"

definition volunteer_submission_page ::
  "ext \<Rightarrow> int \<Rightarrow> nat \<Rightarrow> volunteer_row list \<Rightarrow> volunteer_view page result" where
  "volunteer_submission_page X after limit rows =
     and_then (fail_if (after < 0) Validation) (\<lambda>_.
     and_then (map_result (read_volunteer_row X)
       (take (limit + 1) (filter (\<lambda>r. vr_sequence r > after) rows))) (\<lambda>views.
       let kept = take limit views in Inr
       \<lparr> pg_rows = kept, pg_next_cursor = (if kept = [] then after else vv_sequence (last kept)),
         pg_has_more = (length views > limit) \<rparr>))"

section \<open>Reading back what was written\<close>

definition wire_evidence :: "evidence_ref \<Rightarrow> bool" where
  "wire_evidence e \<longleftrightarrow> (case er_observed_at e of None \<Rightarrow> True | Some t \<Rightarrow> time_ok t)"

text \<open>A submission as the wire can carry it.\<close>

definition wire_submission :: "volunteer_submission \<Rightarrow> bool" where
  "wire_submission s \<longleftrightarrow> time_ok (vl_issued_at (vs_lease s)) \<and> time_ok (vl_expires_at (vs_lease s)) \<and>
     json_safe (vs_result s) \<and> list_all wire_evidence (vs_evidence s)"

lemma volunteer_task_roundtrip [simp]: "d_volunteer_task (e_volunteer_task t) = Some t"
  by (simp add: d_volunteer_task_def e_volunteer_task_def)

lemma volunteer_lease_roundtrip:
  "time_laws X \<Longrightarrow> time_ok (vl_issued_at l) \<Longrightarrow> time_ok (vl_expires_at l) \<Longrightarrow>
   d_volunteer_lease X (e_volunteer_lease X l) = Some l"
  by (simp add: d_volunteer_lease_def e_volunteer_lease_def)

lemma volunteer_worker_roundtrip [simp]: "d_volunteer_worker (e_volunteer_worker w) = Some w"
  by (cases "vw_interface w"; cases "vw_model w"; cases "vw_note w")
     (simp_all add: d_volunteer_worker_def e_volunteer_worker_def e_skip_def)

lemma volunteer_worker_present [simp]:
  "(case e_volunteer_worker w of JNull \<Rightarrow> a | JBool _ \<Rightarrow> b | JInt _ \<Rightarrow> b | JFloat _ \<Rightarrow> b | JStr _ \<Rightarrow> b
     | JArr _ \<Rightarrow> b | JObj _ \<Rightarrow> b) = b"
  by (simp add: e_volunteer_worker_def)

lemma evidence_ref_roundtrip: "time_laws X \<Longrightarrow> wire_evidence e \<Longrightarrow> d_evidence_ref X (e_evidence_ref X e) = Some e"
  by (cases "er_digest e"; cases "er_observed_at e"; cases "er_title e")
     (simp_all add: d_evidence_ref_def e_evidence_ref_def e_skip_def e_time_def wire_evidence_def time_laws_def)

lemma d_enum_outcome [simp]: "d_enum work_outcome_names (JStr (work_outcome_str c)) = Some c"
  by (cases c) (simp_all add: d_enum_def work_outcome_names_def)

lemma volunteer_submission_roundtrip:
  assumes "time_laws X" and "wire_submission s"
  shows "d_volunteer_submission X (e_volunteer_submission X s) = Some s"
proof -
  have "d_list (d_evidence_ref X) (JArr (map (e_evidence_ref X) (vs_evidence s))) = Some (vs_evidence s)"
    using assms by (intro d_list_map) (auto simp: wire_submission_def list_all_iff evidence_ref_roundtrip)
  then show ?thesis
    using assms volunteer_lease_roundtrip [of X "vs_lease s"]
    by (cases "vs_worker s")
       (simp_all add: d_volunteer_submission_def e_volunteer_submission_def e_skip_def wire_submission_def
         del: d_list.simps)
qed

lemma volunteer_receipt_roundtrip:
  "time_laws X \<Longrightarrow> time_ok (vc_received_at r) \<Longrightarrow> d_volunteer_receipt X (e_volunteer_receipt X r) = Some r"
  by (simp add: d_volunteer_receipt_def e_volunteer_receipt_def)

lemma json_safe_volunteer_task [simp]: "json_safe (e_volunteer_task t)"
  by (simp add: e_volunteer_task_def byte_of_def)

lemma json_safe_volunteer_lease [simp]: "json_safe (e_volunteer_lease X l)"
  by (simp add: e_volunteer_lease_def byte_of_def)

lemma json_safe_volunteer_worker [simp]: "json_safe (e_volunteer_worker w)"
  by (cases "vw_interface w"; cases "vw_model w"; cases "vw_note w")
     (simp_all add: e_volunteer_worker_def e_skip_def byte_of_def)

lemma json_safe_evidence_ref [simp]: "json_safe (e_evidence_ref X e)"
  by (cases "er_digest e"; cases "er_observed_at e"; cases "er_title e")
     (simp_all add: e_evidence_ref_def e_skip_def byte_of_def)

lemma json_safe_volunteer_submission: "json_safe (vs_result s) \<Longrightarrow> json_safe (e_volunteer_submission X s)"
  by (cases "vs_worker s") (simp_all add: e_volunteer_submission_def e_skip_def byte_of_def list_all_iff)

lemma json_safe_volunteer_receipt [simp]: "json_safe (e_volunteer_receipt X r)"
  by (simp add: e_volunteer_receipt_def byte_of_def)

lemma preimage_volunteer [simp]:
  "signing_preimage X d (e_volunteer_lease X (l\<lparr>vl_signature := s\<rparr>)) = signing_preimage X d (e_volunteer_lease X l)"
  "signing_preimage X d (e_volunteer_receipt X (r\<lparr>vc_signature := s\<rparr>)) =
     signing_preimage X d (e_volunteer_receipt X r)"
  by (simp_all add: signing_preimage_def canonical_without_signature_def e_volunteer_lease_def
      e_volunteer_receipt_def)

text \<open>Every text and digest the gateway makes exists and has the shape its readers ask for.\<close>

lemma canonical_json_total: "json_laws X \<Longrightarrow> json_safe v \<Longrightarrow> \<exists>t. canonical_json X v = Inr t"
  using jcs_total by (fastforce simp: canonical_json_def)

lemma sha256_hex_valid:
  assumes "hash_laws X" and "hex_laws X"
  shows "validate_sha256 (sha256_hex X b) = Inr ()"
    and "pre \<noteq> [] \<Longrightarrow> validate_prefixed_digest (prefixed_id X pre b) pre = Inr ()"
proof -
  show v: "validate_sha256 (sha256_hex X b) = Inr ()"
    using assms by (simp add: validate_sha256_def sha256_hex_def hash_laws_def hex_laws_def len_def)
  have "strip_prefix pre (pre @ sha256_hex X b) = Some (sha256_hex X b)" by simp
  with v show "validate_prefixed_digest (prefixed_id X pre b) pre = Inr ()"
    by (simp add: validate_prefixed_digest_def prefixed_id_def)
qed

lemma own_identity_valid:
  assumes "b64_laws X" and "sig_laws X" and "identity_ok X me"
  shows "validate_node_identity X (node_id me) (node_public_key me) = Inr ()"
  using identity_key [OF assms] assms(3) by (simp add: validate_node_identity_def identity_ok_def)

section \<open>A lease and its receipt verify\<close>

lemma issued_lease_verifies:
  assumes "ext_laws X" and "identity_ok X me" and "validate_prefixed_digest (vt_work_id t) ''cwwork_'' = Inr ()"
    and "validate_volunteer_nonce (x_b64_encode X random) = Inr ()" and "task_digest X t = Inr digest"
    and "sign_object X (node_secret me) VOLUNTEER_LEASE_DOMAIN
      (e_volunteer_lease X (unsigned_lease X me random issued t digest)) = Inr s"
  shows "verify_volunteer_lease X ((unsigned_lease X me random issued t digest)\<lparr>vl_signature := s\<rparr>) = Inr ()"
proof -
  let ?l = "(unsigned_lease X me random issued t digest)\<lparr>vl_signature := s\<rparr>"
  have l: "b64_laws X" "sig_laws X" "hash_laws X" "hex_laws X" using assms(1) by (simp_all add: ext_laws_def)
  have sk: "length (node_secret me) = 32" using assms(2) by (simp add: identity_ok_def)
  have "verify_object X (x_ed_public X (node_secret me)) VOLUNTEER_LEASE_DOMAIN (e_volunteer_lease X ?l) s = Inr ()"
    by (rule verify_sign_object [OF l(1,2) sk assms(6)]) simp
  moreover have "validate_sha256 digest = Inr ()"
    using assms(5) sha256_hex_valid(1) [OF l(3,4)] by (auto simp: task_digest_def)
  ultimately show ?thesis
    using assms(3,4) own_identity_valid [OF l(1,2) assms(2)] identity_key [OF l(1,2) assms(2)]
    by (simp add: verify_volunteer_lease_def unsigned_lease_def minutes_def VOLUNTEER_LEASE_MINUTES_def
        MAX_LEASE_MINUTES_def)
qed

lemma issued_receipt_verifies:
  assumes "ext_laws X" and "identity_ok X me"
    and "validate_prefixed_digest (vl_work_id (vs_lease sub)) ''cwwork_'' = Inr ()"
    and "sign_object X (node_secret me) VOLUNTEER_RECEIPT_DOMAIN
      (e_volunteer_receipt X (unsigned_volunteer_receipt X me received sub canonical)) = Inr s"
  shows "verify_volunteer_receipt X ((unsigned_volunteer_receipt X me received sub canonical)\<lparr>vc_signature := s\<rparr>) = Inr ()"
proof -
  let ?r = "(unsigned_volunteer_receipt X me received sub canonical)\<lparr>vc_signature := s\<rparr>"
  have l: "b64_laws X" "sig_laws X" "hash_laws X" "hex_laws X" using assms(1) by (simp_all add: ext_laws_def)
  have sk: "length (node_secret me) = 32" using assms(2) by (simp add: identity_ok_def)
  have "verify_object X (x_ed_public X (node_secret me)) VOLUNTEER_RECEIPT_DOMAIN (e_volunteer_receipt X ?r) s = Inr ()"
    by (rule verify_sign_object [OF l(1,2) sk assms(4)]) simp
  then show ?thesis
    using assms(3) own_identity_valid [OF l(1,2) assms(2)] identity_key [OF l(1,2) assms(2)]
      sha256_hex_valid [OF l(3,4)]
    by (simp add: verify_volunteer_receipt_def unsigned_volunteer_receipt_def)
qed

section \<open>What the gateway stores can be published\<close>

text \<open>What acceptance establishes, in the order of the code.\<close>

lemma accept_volunteer_submission_Inr:
  assumes "accept_volunteer_submission X H me received s db rows = Inr (receipt, rows')"
  obtains canonical sig receipt_text row where "validate_submission X H received s = Inr ()"
    "vl_node_id (vs_lease s) = node_id me" "vl_node_public_key (vs_lease s) = node_public_key me"
    "canonical_json X (e_volunteer_submission X s) = Inr canonical"
    "sign_object X (node_secret me) VOLUNTEER_RECEIPT_DOMAIN
       (e_volunteer_receipt X (unsigned_volunteer_receipt X me received s canonical)) = Inr sig"
    "receipt = (unsigned_volunteer_receipt X me received s canonical)\<lparr>vc_signature := sig\<rparr>"
    "canonical_json X (e_volunteer_receipt X receipt) = Inr receipt_text"
    "row = \<lparr> vr_sequence = next_key vr_sequence rows, vr_submission_id = prefixed_id X ''cwvol_'' canonical,
       vr_work_id = vl_work_id (vs_lease s), vr_lease_nonce = vl_nonce (vs_lease s),
       vr_task_digest = vl_task_digest (vs_lease s), vr_submission_digest = sha256_hex X canonical,
       vr_submission_json = canonical, vr_receipt_json = receipt_text, vr_status = ''probationary'',
       vr_received_at = timestamp X received \<rparr>"
    "\<forall>old\<in>set rows. \<not> volunteer_clash row old" "rows' = rows @ [row]"
  using assms
  by (auto simp: accept_volunteer_submission_def store_volunteer_submission_def Let_def list_ex_iff
      unsigned_volunteer_receipt_def intro!: that split: if_splits)

lemma accepted_row_reads:
  assumes laws: "ext_laws X" and me: "identity_ok X me" and w: "wire_submission s" "time_ok received"
    and accepted: "accept_volunteer_submission X H me received s db rows = Inr (receipt, rows')"
  shows "verify_volunteer_receipt X receipt = Inr () \<and>
    (\<exists>row v. rows' = rows @ [row] \<and> vr_sequence row = next_key vr_sequence rows \<and>
       vr_lease_nonce row = vl_nonce (vs_lease s) \<and>
       (\<forall>old\<in>set rows. vr_lease_nonce old \<noteq> vr_lease_nonce row) \<and> read_volunteer_row X row = Inr v \<and>
       vv_sequence v = vr_sequence row \<and> vv_submission v = s \<and> vv_receipt v = receipt)"
proof -
  have l: "json_laws X" "time_laws X" using laws by (simp_all add: ext_laws_def)
  obtain canonical sig receipt_text row where a: "validate_submission X H received s = Inr ()"
    "vl_node_id (vs_lease s) = node_id me" "vl_node_public_key (vs_lease s) = node_public_key me"
    "canonical_json X (e_volunteer_submission X s) = Inr canonical"
    "sign_object X (node_secret me) VOLUNTEER_RECEIPT_DOMAIN
       (e_volunteer_receipt X (unsigned_volunteer_receipt X me received s canonical)) = Inr sig"
    "receipt = (unsigned_volunteer_receipt X me received s canonical)\<lparr>vc_signature := sig\<rparr>"
    "canonical_json X (e_volunteer_receipt X receipt) = Inr receipt_text"
    and row: "row = \<lparr> vr_sequence = next_key vr_sequence rows, vr_submission_id = prefixed_id X ''cwvol_'' canonical,
       vr_work_id = vl_work_id (vs_lease s), vr_lease_nonce = vl_nonce (vs_lease s),
       vr_task_digest = vl_task_digest (vs_lease s), vr_submission_digest = sha256_hex X canonical,
       vr_submission_json = canonical, vr_receipt_json = receipt_text, vr_status = ''probationary'',
       vr_received_at = timestamp X received \<rparr>"
    and new: "\<forall>old\<in>set rows. \<not> volunteer_clash row old" "rows' = rows @ [row]"
    using accepted by (rule accept_volunteer_submission_Inr)
  from a(1) obtain digest where leased: "verify_volunteer_lease X (vs_lease s) = Inr ()"
    "vt_work_id (vs_task s) = vl_work_id (vs_lease s)" "task_digest X (vs_task s) = Inr digest"
    "digest = vl_task_digest (vs_lease s)" "volunteer_safe_work_kind (vt_task_kind (vs_task s))"
    by (auto simp: validate_submission_def validate_leased_def Let_def)
  have "x_json_parse X canonical = Some (e_volunteer_submission X s)"
    using a(4) jcs_parse [OF l(1) json_safe_volunteer_submission] w(1)
    by (auto simp: canonical_json_def wire_submission_def)
  then have s: "from_text X (d_volunteer_submission X) canonical = Inr s"
    using volunteer_submission_roundtrip [OF l(2) w(1)] by (simp add: from_text_def)
  have "x_json_parse X receipt_text = Some (e_volunteer_receipt X receipt)"
    using a(7) jcs_parse [OF l(1) json_safe_volunteer_receipt] by (auto simp: canonical_json_def)
  moreover have "vc_received_at receipt = received" by (simp add: a(6) unsigned_volunteer_receipt_def)
  ultimately have r: "from_text X (d_volunteer_receipt X) receipt_text = Inr receipt"
    using volunteer_receipt_roundtrip [OF l(2)] w(2) by (simp add: from_text_def)
  have work: "validate_prefixed_digest (vl_work_id (vs_lease s)) ''cwwork_'' = Inr ()"
    using leased(1) by (simp add: verify_volunteer_lease_def)
  have verified: "verify_volunteer_receipt X receipt = Inr ()"
    unfolding a(6) by (rule issued_receipt_verifies [OF laws me work a(5)])
  have time: "parse_timestamp X (timestamp X received) = Inr (millis received)"
    using l(2) w(2) by (simp add: parse_timestamp_def timestamp_def time_laws_def)
  have "\<exists>v. read_volunteer_row X row = Inr v \<and> vv_sequence v = vr_sequence row \<and> vv_submission v = s \<and>
      vv_receipt v = receipt"
    unfolding read_volunteer_row_def row
    by (simp add: s r leased verified a(2-4) time) (simp add: a(2,3,6) unsigned_volunteer_receipt_def)
  with verified new row show ?thesis by (auto simp: volunteer_clash_def)
qed

text \<open>The table: numbered upwards, one row per lease, and every row passes the reader's checks.\<close>

definition volunteer_ok :: "ext \<Rightarrow> volunteer_row list \<Rightarrow> bool" where
  "volunteer_ok X rows \<longleftrightarrow> sorted_wrt (<) (0 # map vr_sequence rows) \<and> distinct (map vr_lease_nonce rows) \<and>
     (\<forall>row\<in>set rows. \<exists>v. read_volunteer_row X row = Inr v)"

lemma volunteer_ok_accept:
  assumes "ext_laws X" and "identity_ok X me" and "wire_submission s" and "time_ok received"
    and "accept_volunteer_submission X H me received s db rows = Inr (receipt, rows')" and "volunteer_ok X rows"
  shows "volunteer_ok X rows'"
proof -
  from accepted_row_reads [OF assms(1-5)] obtain row v where row: "rows' = rows @ [row]"
    "vr_sequence row = next_key vr_sequence rows" "\<forall>old\<in>set rows. vr_lease_nonce old \<noteq> vr_lease_nonce row"
    "read_volunteer_row X row = Inr v" by blast
  have "sorted_wrt (<) (0 # map vr_sequence rows')"
    using assms(6) next_key_above [where key = vr_sequence and tbl = rows]
    by (auto simp: row(1,2) volunteer_ok_def sorted_wrt_append)
  moreover have "distinct (map vr_lease_nonce rows')"
    using assms(6) row(1,3) by (auto simp: volunteer_ok_def)
  ultimately show ?thesis using assms(6) row(1,4) by (auto simp: volunteer_ok_def)
qed

definition views_of :: "ext \<Rightarrow> volunteer_row list \<Rightarrow> volunteer_view list" where
  "views_of X rows = concat (map (\<lambda>r. case read_volunteer_row X r of Inr v \<Rightarrow> [v] | Inl _ \<Rightarrow> []) rows)"

lemma views_of_map:
  "(\<And>r. r \<in> set rows \<Longrightarrow> read_volunteer_row X r = Inr (v r)) \<Longrightarrow> views_of X rows = map v rows"
  by (induction rows) (simp_all add: views_of_def)

lemma read_volunteer_row_sequence: "read_volunteer_row X r = Inr v \<Longrightarrow> vv_sequence v = vr_sequence r"
  by (auto simp: read_volunteer_row_def)

lemma volunteer_ok_views:
  assumes "volunteer_ok X rows"
  obtains v where "\<And>r. r \<in> set rows \<Longrightarrow> read_volunteer_row X r = Inr (v r) \<and> vv_sequence (v r) = vr_sequence r"
proof -
  have "\<forall>r. \<exists>v. r \<in> set rows \<longrightarrow> read_volunteer_row X r = Inr v" using assms by (auto simp: volunteer_ok_def)
  then obtain v where "\<forall>r. r \<in> set rows \<longrightarrow> read_volunteer_row X r = Inr (v r)" by metis
  with that [of v] read_volunteer_row_sequence show ?thesis by blast
qed

interpretation submissions: cursor_pages
  "\<lambda>(X, rows) after limit. volunteer_submission_page X after limit rows"
  "\<lambda>(X, rows). views_of X rows" vv_sequence "\<lambda>(X, rows). volunteer_ok X rows"
proof (unfold_locales, goal_cases)
  case (1 d after limit)
  obtain X rows where d: "d = (X, rows)" "volunteer_ok X rows" using 1(1) by (cases d) auto
  obtain v where v: "\<And>r. r \<in> set rows \<Longrightarrow> read_volunteer_row X r = Inr (v r) \<and> vv_sequence (v r) = vr_sequence r"
    using volunteer_ok_views [OF d(2)] by blast
  let ?rest = "filter (\<lambda>r. vr_sequence r > after) rows"
  have "map_result (read_volunteer_row X) (take (limit + 1) ?rest) = Inr (map v (take (limit + 1) ?rest))"
    using v by (auto simp: map_result_Inr list_all2_map2 list_all2_same dest: in_set_takeD)
  moreover have "filter (\<lambda>w. vv_sequence w > after) (map v rows) = map v ?rest"
    using v by (simp add: filter_map o_def cong: filter_cong)
  ultimately show ?case
    using 1(2) views_of_map [of rows X v] v
    by (simp add: d volunteer_submission_page_def cut_page_def Let_def take_map)
next
  case (2 d)
  obtain X rows where d: "d = (X, rows)" "volunteer_ok X rows" using 2 by (cases d) auto
  obtain v where v: "\<And>r. r \<in> set rows \<Longrightarrow> read_volunteer_row X r = Inr (v r) \<and> vv_sequence (v r) = vr_sequence r"
    using volunteer_ok_views [OF d(2)] by blast
  then have "map vv_sequence (views_of X rows) = map vr_sequence rows" by (simp add: views_of_map [of rows X v])
  with d show ?case by (simp add: volunteer_ok_def)
qed

text \<open>C14: The gateway publishes exactly what it accepted.  Accepting a submission keeps the table readable
  with one row per lease; the receipt verifies; and a reader who follows the pages from the start, with
  any page size, sees every stored submission in order, the new one last and unchanged, each having
  passed the reader's checks of lease, task, digest and receipt.  A lease is taken once: any further
  submission under the same nonce is refused.\<close>

theorem volunteer_submission_published:
  assumes "ext_laws X" and "identity_ok X me" and "wire_submission s" and "time_ok received"
    and "volunteer_ok X rows" and "accept_volunteer_submission X H me received s db rows = Inr (receipt, rows')"
    and "0 < limit" and "vl_nonce (vs_lease s') = vl_nonce (vs_lease s)"
  shows "volunteer_ok X rows' \<and> verify_volunteer_receipt X receipt = Inr () \<and>
    (\<exists>v. read_pages (\<lambda>after. volunteer_submission_page X after limit rows') (length rows + 2) 0 =
           Some (views_of X rows @ [v]) \<and> vv_submission v = s \<and> vv_receipt v = receipt) \<and>
    isl (accept_volunteer_submission X H' me received' s' db' rows')"
proof -
  have ok: "volunteer_ok X rows'" by (rule volunteer_ok_accept [OF assms(1-4,6,5)])
  obtain row v where row: "rows' = rows @ [row]" "vr_lease_nonce row = vl_nonce (vs_lease s)"
    "read_volunteer_row X row = Inr v" "vv_submission v = s" "vv_receipt v = receipt"
    and receipt: "verify_volunteer_receipt X receipt = Inr ()"
    using accepted_row_reads [OF assms(1-4,6)] by blast
  have views: "views_of X rows' = views_of X rows @ [v]" by (simp add: views_of_def row(1,3))
  have "length (views_of X rows) \<le> length rows"
    by (induction rows) (auto simp: views_of_def split: sum.splits)
  then have "length (views_of X rows') < length rows + 2" by (simp add: views)
  from submissions.reads_all [of "(X, rows')" limit, OF _ assms(7), of "length rows + 2"] this ok
  have pages: "read_pages (\<lambda>after. volunteer_submission_page X after limit rows') (length rows + 2) 0 =
      Some (views_of X rows @ [v])" by (simp add: views)
  have "isl (accept_volunteer_submission X H' me received' s' db' rows')"
  proof (rule ccontr)
    assume "\<not> isl (accept_volunteer_submission X H' me received' s' db' rows')"
    then obtain r'' rows'' where again: "accept_volunteer_submission X H' me received' s' db' rows' = Inr (r'', rows'')"
      by (cases "accept_volunteer_submission X H' me received' s' db' rows'") auto
    then show False
      by (rule accept_volunteer_submission_Inr) (auto simp: row(1,2) assms(8) volunteer_clash_def)
  qed
  with ok receipt pages row(4,5) show ?thesis by blast
qed

lemma volunteer_task_candidate_Some:
  assumes "volunteer_task_candidate rows kind work_id db = Some w"
  shows "w \<in> set (work_items db)" "wki_status w = ''open''" "volunteer_safe_work_kind (wki_kind w)"
proof -
  have "w \<in> set (order_by (candidate_before rows)
      (filter (\<lambda>w. wki_status w = ''open'' \<and> wki_kind w \<in> set volunteer_safe_kinds \<and>
           (case kind of None \<Rightarrow> True | Some k \<Rightarrow> wki_kind w = k) \<and>
           (case work_id of None \<Rightarrow> True | Some i \<Rightarrow> wki_work_id w = i)) (work_items db)))"
    using assms by (auto simp: volunteer_task_candidate_def simp del: set_order_by split: list.splits)
  then show "w \<in> set (work_items db)" "wki_status w = ''open''" "volunteer_safe_work_kind (wki_kind w)"
    by (auto simp: volunteer_safe_work_kind_def)
qed

lemma open_work_found:
  assumes "distinct (map wki_work_id (work_items db))" and "w \<in> set (work_items db)" and "wki_status w = ''open''"
  shows "volunteer_work_item (wki_work_id w) db = Inr w"
proof -
  have "first_row (\<lambda>x. wki_work_id x = wki_work_id w \<and> wki_status x = ''open'') tbl = Some w"
    if "distinct (map wki_work_id tbl)" "w \<in> set tbl" for tbl
    using that assms(3) by (induction tbl) (auto simp: image_iff)
  with assms(1,2) show ?thesis by (simp add: volunteer_work_item_def)
qed

lemma stored_id_is_digest:
  "read_volunteer_row X r = Inr v \<Longrightarrow> vr_submission_id r = ''cwvol_'' @ vr_submission_digest r"
  by (auto simp: read_volunteer_row_def prefixed_id_def)

lemma sign_receipt_total:
  assumes "json_laws X"
  shows "\<exists>sig. sign_object X sk d (e_volunteer_receipt X r) = Inr sig"
proof -
  have "json_safe (JObj (remove_key ''signature'' (case e_volunteer_receipt X r of JObj fs \<Rightarrow> fs)))"
    by (simp add: e_volunteer_receipt_def byte_of_def)
  from jcs_total [OF assms this] show ?thesis
    by (auto simp: sign_object_def signing_preimage_def canonical_without_signature_def e_volunteer_receipt_def)
qed

text \<open>C15: A lease the node hands out is honoured.  A worker who is given a task and submits, within the lease's
  thirty minutes (or up to five minutes before it, on clocks that disagree), content that meets the
  stated contract for that very lease and task, while the work item is unchanged, gets a receipt, provided the
  nonce and the digest are new to the node.\<close>

theorem leased_task_is_taken:
  assumes laws: "ext_laws X" and me: "identity_ok X me"
    and work: "distinct (map wki_work_id (work_items db))"
      "list_all (\<lambda>w. validate_prefixed_digest (wki_work_id w) ''cwwork_'' = Inr ()) (work_items db)"
    and nonce: "validate_volunteer_nonce (x_b64_encode X random) = Inr ()"
    and issued: "issue_volunteer_task X me random kind work_id issued_at db rows = Inr packet"
    and s: "vs_lease s = vp_lease packet" "vs_task s = vp_work packet" "validate_content X H s = Inr ()"
    and time: "issued_at - minutes 5 \<le> received" "received \<le> issued_at + minutes 30"
    and fresh: "volunteer_ok X rows'" "x_b64_encode X random \<notin> set (map vr_lease_nonce rows')"
      "canonical_json X (e_volunteer_submission X s) = Inr canonical"
      "sha256_hex X canonical \<notin> set (map vr_submission_digest rows')"
  shows "\<exists>receipt row. accept_volunteer_submission X H me received s db rows' = Inr (receipt, rows' @ [row])"
proof -
  have l: "json_laws X" using laws by (simp add: ext_laws_def)
  obtain w digest sig where w: "volunteer_task_candidate rows kind work_id db = Some w"
    "task_digest X (task_of_work w) = Inr digest"
    "sign_object X (node_secret me) VOLUNTEER_LEASE_DOMAIN
       (e_volunteer_lease X (unsigned_lease X me random issued_at (task_of_work w) digest)) = Inr sig"
    and packet: "vp_work packet = task_of_work w"
    "vp_lease packet = (unsigned_lease X me random issued_at (task_of_work w) digest)\<lparr>vl_signature := sig\<rparr>"
    using issued by (auto simp: issue_volunteer_task_def Let_def)
  note found = volunteer_task_candidate_Some [OF w(1)]
  have valid: "validate_prefixed_digest (vt_work_id (task_of_work w)) ''cwwork_'' = Inr ()"
    using work(2) found(1) by (auto simp: task_of_work_def list_all_iff)
  have lease: "verify_volunteer_lease X (vs_lease s) = Inr ()"
    unfolding s(1) packet by (rule issued_lease_verifies [OF laws me valid nonce w(2,3)])
  have fields: "vl_work_id (vs_lease s) = wki_work_id w" "vl_task_digest (vs_lease s) = digest"
    "vl_nonce (vs_lease s) = x_b64_encode X random" "vl_issued_at (vs_lease s) = issued_at"
    "vl_expires_at (vs_lease s) = issued_at + minutes 30" "vl_node_id (vs_lease s) = node_id me"
    "vl_node_public_key (vs_lease s) = node_public_key me" "vs_task s = task_of_work w"
    by (simp_all add: s packet unsigned_lease_def task_of_work_def VOLUNTEER_LEASE_MINUTES_def)
  have "validate_submission X H received s = Inr ()"
    using lease w(2) time found(3) s(3)
    by (simp add: validate_submission_def validate_leased_def Let_def fields)
       (simp add: task_of_work_def MAX_LEASE_CLOCK_SKEW_MINUTES_def)
  moreover have "volunteer_work_item (wki_work_id w) db = Inr w"
    by (rule open_work_found [OF work(1) found(1,2)])
  moreover obtain sig' where sig': "sign_object X (node_secret me) VOLUNTEER_RECEIPT_DOMAIN
      (e_volunteer_receipt X (unsigned_volunteer_receipt X me received s canonical)) = Inr sig'"
    using sign_receipt_total [OF l] by blast
  moreover obtain rt where "canonical_json X (e_volunteer_receipt X
      ((unsigned_volunteer_receipt X me received s canonical)\<lparr>vc_signature := sig'\<rparr>)) = Inr rt"
    using canonical_json_total [OF l json_safe_volunteer_receipt] by blast
  moreover have "vr_submission_id r \<noteq> prefixed_id X ''cwvol_'' canonical"
      "vr_lease_nonce r \<noteq> x_b64_encode X random" "vr_submission_digest r \<noteq> sha256_hex X canonical"
    if r: "r \<in> set rows'" for r
  proof -
    show "vr_lease_nonce r \<noteq> x_b64_encode X random" "vr_submission_digest r \<noteq> sha256_hex X canonical"
      using r fresh(2,4) by (metis image_eqI image_set)+
    moreover have "vr_submission_id r = ''cwvol_'' @ vr_submission_digest r"
      using r fresh(1) stored_id_is_digest by (auto simp: volunteer_ok_def)
    ultimately show "vr_submission_id r \<noteq> prefixed_id X ''cwvol_'' canonical" by (simp add: prefixed_id_def)
  qed
  ultimately show ?thesis
    using found(3) w(2) fresh(3)
    by (simp add: accept_volunteer_submission_def store_volunteer_submission_def Let_def fields list_ex_iff
        volunteer_clash_def task_of_work_def unsigned_volunteer_receipt_def) metis
qed

section \<open>The loopback address of IPv6\<close>

text \<open>
  \<open>to_ipv4\<close> turns the loopback address \<open>::1\<close> into 0.0.0.1, which no check of \<open>public_ipv4\<close> covers: evidence on
  the volunteer's own machine passes as public, although the error text says local hosts are refused.  The
  collector, which also refuses the block 0.0.0.0/8, turns the same address away.
\<close>

lemma ipv6_loopback_passes_as_public:
  "v6_loopback ip \<Longrightarrow> public_host (Some (HostIpv6 ip)) \<and> \<not> public_ipv6 ip \<and> disallowed_ip (V6 ip)"
  by (cases ip) (simp add: public_host_def public_ipv4_def public_ipv6_def high_byte_def low_byte_def)

section \<open>Witnesses\<close>

definition demo_work :: work_item_row where
  "demo_work = \<lparr> wki_work_id = work_id_of demo_ext ''review_source'' ''S'', wki_kind = ''review_source'',
     wki_subject_type = ''source'', wki_subject_id = ''S'', wki_instructions = ''Review.'',
     wki_required_results = 2, wki_status = ''open'', wki_created_sequence = 1, wki_completed_sequence = None \<rparr>"

definition demo_tasks :: database where
  "demo_tasks = demo_db\<lparr>work_items := [demo_work]\<rparr>"

definition demo_random :: string where "demo_random = replicate 32 (CHR ''r'')"

definition demo_packet :: "volunteer_packet result" where
  "demo_packet = issue_volunteer_task demo_ext demo_me demo_random None None 100 demo_tasks []"

definition demo_submission_of :: "volunteer_packet \<Rightarrow> volunteer_submission" where
  "demo_submission_of k = \<lparr> vs_lease = vp_lease k, vs_task = vp_work k, vs_outcome = WO_NeedsMore,
     vs_summary = ''The owner could not be established from public records.'', vs_evidence = [],
     vs_result = JNull, vs_worker = None, vs_public_data_acknowledged = True \<rparr>"

lemma demo_taken_case:
  "(case demo_packet of Inl _ \<Rightarrow> False | Inr k \<Rightarrow>
     (case accept_volunteer_submission demo_ext (\<lambda>_. None) demo_me 200 (demo_submission_of k) demo_tasks [] of
        Inl _ \<Rightarrow> False | Inr (receipt, rows) \<Rightarrow> vc_status receipt = ''probationary'' \<and> length rows = 1))"
  by code_simp

lemma issued_times:
  assumes "issue_volunteer_task X me random kind work_id issued_at db rows = Inr k"
  shows "vl_issued_at (vp_lease k) = issued_at" "vl_expires_at (vp_lease k) = issued_at + minutes 30"
  using assms by (auto simp: issue_volunteer_task_def Let_def unsigned_lease_def VOLUNTEER_LEASE_MINUTES_def)

lemma demo_taken:
  obtains k receipt rows where "demo_packet = Inr k" "accept_volunteer_submission demo_ext (\<lambda>_. None) demo_me 200
      (demo_submission_of k) demo_tasks [] = Inr (receipt, rows)"
  using demo_taken_case by (auto split: sum.splits prod.splits)

lemma demo_submission_wire: "demo_packet = Inr k \<Longrightarrow> wire_submission (demo_submission_of k)"
  using issued_times unfolding demo_packet_def
  by (fastforce simp: wire_submission_def demo_submission_of_def time_ok_def minutes_def)

theorem volunteer_submission_published_witness:
  "\<exists>s receipt rows v. accept_volunteer_submission demo_ext (\<lambda>_. None) demo_me 200 s demo_tasks [] = Inr (receipt, rows) \<and>
     read_pages (\<lambda>after. volunteer_submission_page demo_ext after 1 rows) 2 0 = Some [v] \<and> vv_submission v = s \<and>
     isl (accept_volunteer_submission demo_ext (\<lambda>_. None) demo_me 300 s demo_tasks rows)"
proof -
  obtain k receipt rows where k: "demo_packet = Inr k" and taken: "accept_volunteer_submission demo_ext (\<lambda>_. None)
      demo_me 200 (demo_submission_of k) demo_tasks [] = Inr (receipt, rows)" by (rule demo_taken)
  have ok: "volunteer_ok demo_ext []" and t: "time_ok 200" and one: "(0 :: nat) < 1"
    by (simp_all add: volunteer_ok_def time_ok_def)
  from volunteer_submission_published [OF demo_laws demo_me_ok demo_submission_wire [OF k] t ok taken one refl,
      where H' = "\<lambda>_. None" and received' = 300 and db' = demo_tasks] taken
  show ?thesis by (simp add: views_of_def numeral_2_eq_2) blast
qed

lemma demo_content: "validate_content demo_ext (\<lambda>_. None) (demo_submission_of k) = Inr ()"
proof -
  have "validate_content demo_ext (\<lambda>_. None) \<lparr> vs_lease = l, vs_task = t, vs_outcome = WO_NeedsMore,
     vs_summary = ''The owner could not be established from public records.'', vs_evidence = [],
     vs_result = JNull, vs_worker = None, vs_public_data_acknowledged = True \<rparr> = Inr ()" for l t
  proof -
    have "20 \<le> char_count (trim ''The owner could not be established from public records.'') \<and>
        char_count (trim ''The owner could not be established from public records.'') \<le> MAX_VOLUNTEER_SUMMARY_CHARS"
      by code_simp
    moreover obtain txt' where "canonical_json demo_ext JNull = Inr txt'" "len txt' \<le> MAX_RESULT_BYTES"
      by (simp add: canonical_json_def demo_ext_def MAX_RESULT_BYTES_def)
    ultimately show ?thesis by (simp add: validate_content_def MAX_EVIDENCE_REFS_def)
  qed
  then show ?thesis by (simp add: demo_submission_of_def)
qed

theorem leased_task_is_taken_witness:
  "\<exists>k receipt row. demo_packet = Inr k \<and> accept_volunteer_submission demo_ext (\<lambda>_. None) demo_me 200
     (demo_submission_of k) demo_tasks [] = Inr (receipt, [] @ [row])"
proof -
  obtain k receipt rows where k: "demo_packet = Inr k" by (rule demo_taken)
  have work: "distinct (map wki_work_id (work_items demo_tasks))"
    "list_all (\<lambda>w. validate_prefixed_digest (wki_work_id w) ''cwwork_'' = Inr ()) (work_items demo_tasks)"
    "validate_volunteer_nonce (x_b64_encode demo_ext demo_random) = Inr ()"
    by code_simp+
  obtain canonical where c: "canonical_json demo_ext (e_volunteer_submission demo_ext (demo_submission_of k)) = Inr canonical"
    using canonical_json_total [of demo_ext] json_safe_volunteer_submission demo_laws
    by (fastforce simp: ext_laws_def demo_submission_of_def)
  have "\<exists>receipt row. accept_volunteer_submission demo_ext (\<lambda>_. None) demo_me 200 (demo_submission_of k) demo_tasks [] =
      Inr (receipt, [] @ [row])"
    by (rule leased_task_is_taken [OF demo_laws demo_me_ok work k [unfolded demo_packet_def] _ _ demo_content _ _ _ _ c])
       (simp_all add: demo_submission_of_def minutes_def volunteer_ok_def)
  with k show ?thesis by blast
qed

end
