(* ===== verification/Client.thy ===== *)
theory Client
  imports Publication Ingest
begin

text \<open>
  The client of \<^verbatim>\<open>src/src/client.rs\<close>: the identity and session files a participant keeps, the signed
  objects made from them, and the exchange with a node up to the point where a request is sent.  The
  random bytes drawn from the operating system are arguments (a draw can fail), as are the readings of
  the clock and the response of the peer.  The properties put the two ends together: what the client
  signs passes the checks of the node.
\<close>

section \<open>Identity and session files\<close>

record identity_file =
  idf_protocol :: string
  idf_display_name :: string
  idf_lineage_id :: string
  idf_created_at :: int
  idf_public_key :: string
  idf_secret_key :: string

record session_file =
  ssf_protocol :: string
  ssf_delegation :: session_delegation
  ssf_session_secret_key :: string

definition d_identity_file :: "ext \<Rightarrow> json \<Rightarrow> identity_file option" where
  "d_identity_file X v = do {
     fs \<leftarrow> struct_view [''protocol'', ''display_name'', ''lineage_id'', ''created_at'', ''public_key'', ''secret_key''] v;
     a0 \<leftarrow> req d_str ''protocol'' fs;
     a1 \<leftarrow> req d_str ''display_name'' fs;
     a2 \<leftarrow> req d_str ''lineage_id'' fs;
     a3 \<leftarrow> req (d_time X) ''created_at'' fs;
     a4 \<leftarrow> req d_str ''public_key'' fs;
     a5 \<leftarrow> req d_str ''secret_key'' fs;
     Some \<lparr> idf_protocol = a0, idf_display_name = a1, idf_lineage_id = a2, idf_created_at = a3,
       idf_public_key = a4, idf_secret_key = a5 \<rparr> }"

definition e_identity_file :: "ext \<Rightarrow> identity_file \<Rightarrow> json" where
  "e_identity_file X r = JObj [
     (''created_at'', e_time X (idf_created_at r)), (''display_name'', JStr (idf_display_name r)),
     (''lineage_id'', JStr (idf_lineage_id r)), (''protocol'', JStr (idf_protocol r)),
     (''public_key'', JStr (idf_public_key r)), (''secret_key'', JStr (idf_secret_key r))]"

definition d_session_file :: "ext \<Rightarrow> json \<Rightarrow> session_file option" where
  "d_session_file X v = do {
     fs \<leftarrow> struct_view [''protocol'', ''delegation'', ''session_secret_key''] v;
     a0 \<leftarrow> req d_str ''protocol'' fs;
     a1 \<leftarrow> req (d_session_delegation X) ''delegation'' fs;
     a2 \<leftarrow> req d_str ''session_secret_key'' fs;
     Some \<lparr> ssf_protocol = a0, ssf_delegation = a1, ssf_session_secret_key = a2 \<rparr> }"

definition e_session_file :: "ext \<Rightarrow> session_file \<Rightarrow> json" where
  "e_session_file X r = JObj [
     (''delegation'', e_session_delegation X (ssf_delegation r)), (''protocol'', JStr (ssf_protocol r)),
     (''session_secret_key'', JStr (ssf_session_secret_key r))]"

text \<open>A file is its text, or missing; \<open>write_secret\<close> never replaces one (\<open>create_new\<close>), and
  \<open>pretty\<close> is \<open>serde_json::to_vec_pretty\<close>.\<close>

definition read_identity :: "ext \<Rightarrow> string option \<Rightarrow> identity_file result" where
  "read_identity X file =
     and_then (ok_or file Io) (\<lambda>contents.
     and_then (from_text X (d_identity_file X) contents) (\<lambda>identity.
     and_then (fail_if (idf_protocol identity \<noteq> PROTOCOL_VERSION) Validation) (\<lambda>_. Inr identity)))"

definition read_session :: "ext \<Rightarrow> string option \<Rightarrow> session_file result" where
  "read_session X file =
     and_then (ok_or file Io) (\<lambda>contents.
     and_then (from_text X (d_session_file X) contents) (\<lambda>session.
     and_then (fail_if (ssf_protocol session \<noteq> PROTOCOL_VERSION) Validation) (\<lambda>_. Inr session)))"

definition write_secret :: "(json \<Rightarrow> string) \<Rightarrow> json \<Rightarrow> string option \<Rightarrow> unit result \<times> string option" where
  "write_secret pretty value file =
     (case file of Some _ \<Rightarrow> (Inl Io, file) | None \<Rightarrow> (Inr (), Some (pretty value @ [CHR 0x0A])))"

section \<open>Signed objects\<close>

text \<open>\<open>random_32\<close> and \<open>generate_signing_key\<close>: 32 bytes of the operating system, or an error.\<close>

type_synonym draw = "string result"

definition fresh_nonce :: "ext \<Rightarrow> draw \<Rightarrow> string result" where
  "fresh_nonce X random = and_then random (\<lambda>bytes. Inr (x_b64_encode X bytes))"

definition create_identity :: "ext \<Rightarrow> draw \<Rightarrow> int \<Rightarrow> string \<Rightarrow> identity_file result" where
  "create_identity X key now display_name =
     (let name = trim display_name in
      and_then (fail_if (len name < 2 \<or> len name > 80) Validation) (\<lambda>_.
      and_then key (\<lambda>secret.
        Inr \<lparr> idf_protocol = PROTOCOL_VERSION, idf_display_name = name,
              idf_lineage_id = lineage_id_of X (x_ed_public X secret), idf_created_at = now,
              idf_public_key = x_b64_encode X (x_ed_public X secret),
              idf_secret_key = x_b64_encode X secret \<rparr>)))"

definition checked_identity_key :: "ext \<Rightarrow> identity_file \<Rightarrow> string result" where
  "checked_identity_key X identity =
     and_then (signing_key_from_b64 X (idf_secret_key identity)) (\<lambda>key.
     and_then (fail_if (x_b64_encode X (x_ed_public X key) \<noteq> idf_public_key identity) Unauthorized) (\<lambda>_. Inr key))"

definition make_registration :: "ext \<Rightarrow> draw \<Rightarrow> identity_file \<Rightarrow> lineage_registration result" where
  "make_registration X random identity =
     and_then (signing_key_from_b64 X (idf_secret_key identity)) (\<lambda>key.
     and_then (fresh_nonce X random) (\<lambda>nonce.
     let registration = \<lparr> lr_protocol = PROTOCOL_VERSION, lr_display_name = idf_display_name identity,
           lr_public_key = idf_public_key identity, lr_created_at = idf_created_at identity, lr_nonce = nonce,
           lr_signature = [] \<rparr> in
     and_then (sign_object X key LINEAGE_DOMAIN (e_lineage_registration X registration)) (\<lambda>s.
       Inr (registration\<lparr>lr_signature := s\<rparr>))))"

definition make_session ::
  "ext \<Rightarrow> draw \<Rightarrow> draw \<Rightarrow> int \<Rightarrow> identity_file \<Rightarrow> scope list \<Rightarrow> int \<Rightarrow> session_file result" where
  "make_session X key random now identity scopes lifetime =
     and_then (fail_if (lifetime \<le> 0 \<or> lifetime > days 30) Validation) (\<lambda>_.
     and_then (signing_key_from_b64 X (idf_secret_key identity)) (\<lambda>lineage_key.
     and_then key (\<lambda>session_key.
     and_then (fresh_nonce X random) (\<lambda>nonce.
     let unsigned = \<lparr> sd_protocol = PROTOCOL_VERSION, sd_lineage_id = idf_lineage_id identity,
           sd_session_public_key = x_b64_encode X (x_ed_public X session_key), sd_scopes = scopes,
           sd_not_before = now, sd_expires_at = now + lifetime, sd_nonce = nonce, sd_signature = [] \<rparr> in
     and_then (sign_object X lineage_key DELEGATION_DOMAIN (e_session_delegation X unsigned)) (\<lambda>s.
       Inr \<lparr> ssf_protocol = PROTOCOL_VERSION, ssf_delegation = unsigned\<lparr>sd_signature := s\<rparr>,
             ssf_session_secret_key = x_b64_encode X session_key \<rparr>)))))"

definition delegation_id_of :: "ext \<Rightarrow> session_file \<Rightarrow> string result" where
  "delegation_id_of X session =
     and_then (canonical_without_signature X (e_session_delegation X (ssf_delegation session))) (\<lambda>bytes.
       Inr (prefixed_id X ''cwdel_'' bytes))"

definition make_delegation_revocation ::
  "ext \<Rightarrow> draw \<Rightarrow> int \<Rightarrow> identity_file \<Rightarrow> string \<Rightarrow> string \<Rightarrow> delegation_revocation result" where
  "make_delegation_revocation X random now identity revoked reason =
     and_then (checked_identity_key X identity) (\<lambda>key.
     and_then (fresh_nonce X random) (\<lambda>nonce.
     let revocation = \<lparr> dr_protocol = PROTOCOL_VERSION, dr_lineage_id = idf_lineage_id identity,
           dr_delegation_id = revoked, dr_reason = reason, dr_created_at = now, dr_nonce = nonce,
           dr_signature = [] \<rparr> in
     and_then (sign_object X key REVOCATION_DOMAIN (e_delegation_revocation X revocation)) (\<lambda>s.
       Inr (revocation\<lparr>dr_signature := s\<rparr>))))"

definition make_key_rotation ::
  "ext \<Rightarrow> draw \<Rightarrow> draw \<Rightarrow> int \<Rightarrow> identity_file \<Rightarrow> string \<Rightarrow> bool \<Rightarrow> (identity_file \<times> signed_key_rotation) result" where
  "make_key_rotation X key random now identity reason revoke_existing_delegations =
     and_then (checked_identity_key X identity) (\<lambda>previous_key.
     and_then key (\<lambda>new_key.
     and_then (fresh_nonce X random) (\<lambda>nonce.
     let new_public_key = x_b64_encode X (x_ed_public X new_key);
         statement = \<lparr> kr_protocol = PROTOCOL_VERSION, kr_lineage_id = idf_lineage_id identity,
           kr_previous_public_key = idf_public_key identity, kr_new_public_key = new_public_key,
           kr_revoke_existing_delegations = revoke_existing_delegations, kr_reason = reason,
           kr_created_at = now, kr_nonce = nonce \<rparr> in
     and_then (sign_object X previous_key KEY_ROTATION_DOMAIN (e_key_rotation_statement X statement)) (\<lambda>s.
     and_then (sign_object X new_key KEY_ROTATION_DOMAIN (e_key_rotation_statement X statement)) (\<lambda>s'.
       Inr (identity\<lparr>idf_protocol := PROTOCOL_VERSION, idf_public_key := new_public_key,
              idf_secret_key := x_b64_encode X new_key\<rparr>,
            \<lparr> sk_statement = statement, sk_previous_signature = s, sk_new_signature = s' \<rparr>))))))"

definition make_contribution_with_reporting ::
  "ext \<Rightarrow> draw \<Rightarrow> int \<Rightarrow> session_file \<Rightarrow> contribution_kind \<Rightarrow> json \<Rightarrow> string list \<Rightarrow> string list \<Rightarrow>
   reporting_declaration \<Rightarrow> signed_contribution result" where
  "make_contribution_with_reporting X random now session kind payload targets supersedes reporting =
     and_then (signing_key_from_b64 X (ssf_session_secret_key session)) (\<lambda>key.
     and_then (delegation_id_of X session) (\<lambda>own.
     and_then (fresh_nonce X random) (\<lambda>nonce.
     let contribution = \<lparr> sc_protocol = PROTOCOL_VERSION, sc_delegation_id = own, sc_kind = kind,
           sc_created_at = now, sc_nonce = nonce, sc_targets = targets, sc_supersedes = supersedes,
           sc_reporting = reporting, sc_payload = payload, sc_signature = [] \<rparr> in
     and_then (sign_object X key CONTRIBUTION_DOMAIN (e_signed_contribution X contribution)) (\<lambda>s.
       Inr (contribution\<lparr>sc_signature := s\<rparr>)))))"

definition make_contribution ::
  "ext \<Rightarrow> draw \<Rightarrow> int \<Rightarrow> session_file \<Rightarrow> contribution_kind \<Rightarrow> json \<Rightarrow> string list \<Rightarrow> string list \<Rightarrow>
   signed_contribution result" where
  "make_contribution X random now session kind payload targets supersedes =
     make_contribution_with_reporting X random now session kind payload targets supersedes unverified_reporting"

definition make_traceable_contribution ::
  "ext \<Rightarrow> draw \<Rightarrow> int \<Rightarrow> session_file \<Rightarrow> contribution_kind \<Rightarrow> json \<Rightarrow> string list \<Rightarrow> string list \<Rightarrow> string list \<Rightarrow>
   signed_contribution result" where
  "make_traceable_contribution X random now session kind payload targets supersedes trace_event_ids =
     make_contribution_with_reporting X random now session kind payload targets supersedes
       \<lparr> rd_mode = RM_Traceable, rd_trace_event_ids = trace_event_ids \<rparr>"

definition make_artifact_upload_authorization ::
  "ext \<Rightarrow> draw \<Rightarrow> int \<Rightarrow> session_file \<Rightarrow> string \<Rightarrow> forge_artifact_ref \<Rightarrow> forge_artifact_purpose \<Rightarrow>
   artifact_upload_authorization result" where
  "make_artifact_upload_authorization X random now session repository_id artifact purpose =
     and_then (validate_repository_id repository_id) (\<lambda>_.
     and_then (validate_artifact_purpose purpose artifact) (\<lambda>_.
     and_then (signing_key_from_b64 X (ssf_session_secret_key session)) (\<lambda>key.
     and_then (delegation_id_of X session) (\<lambda>own.
     and_then (fresh_nonce X random) (\<lambda>nonce.
     let upload = \<lparr> au_protocol = PROTOCOL_VERSION, au_delegation_id = own,
           au_repository_id = repository_id, au_artifact = artifact, au_purpose = purpose,
           au_created_at = now, au_nonce = nonce, au_signature = [] \<rparr> in
     and_then (sign_object X key ARTIFACT_UPLOAD_DOMAIN (e_artifact_upload_authorization X upload)) (\<lambda>s.
       Inr (upload\<lparr>au_signature := s\<rparr>)))))))"

definition make_acknowledgement ::
  "ext \<Rightarrow> draw \<Rightarrow> int \<Rightarrow> session_file \<Rightarrow> int \<Rightarrow> memory_provenance \<Rightarrow> signed_acknowledgement result" where
  "make_acknowledgement X random now session cursor memory_provenance =
     and_then (signing_key_from_b64 X (ssf_session_secret_key session)) (\<lambda>key.
     and_then (delegation_id_of X session) (\<lambda>own.
     and_then (fresh_nonce X random) (\<lambda>nonce.
     let acknowledgement = \<lparr> sa_protocol = PROTOCOL_VERSION, sa_delegation_id = own, sa_cursor = cursor,
           sa_memory_provenance = memory_provenance, sa_created_at = now, sa_nonce = nonce, sa_signature = [] \<rparr> in
     and_then (sign_object X key ACK_DOMAIN (e_signed_acknowledgement X acknowledgement)) (\<lambda>s.
       Inr (acknowledgement\<lparr>sa_signature := s\<rparr>)))))"

section \<open>Talking to a node\<close>

text \<open>A request as it leaves, and the answer of the network: \<open>send\<close> stands for the HTTP library, which
  reports its own errors; \<open>join\<close> is \<open>Url::join\<close>.\<close>

datatype request_body = JsonBody json | RawBody string

record peer_request =
  pq_url :: string
  pq_headers :: "(string \<times> string) list"
  pq_body :: request_body
  pq_bearer :: "string option"

text \<open>The environment of an exchange: how URLs are printed and joined, and the network.\<close>

record peer_link =
  pl_printer :: url_printer
  pl_join :: "string \<Rightarrow> string \<Rightarrow> string option"
  pl_send :: "peer_request \<Rightarrow> http_response option"

definition peer_endpoint :: "ext \<Rightarrow> peer_link \<Rightarrow> string \<Rightarrow> string \<Rightarrow> string result" where
  "peer_endpoint X L server path =
     and_then (normalize_server_url X (pl_printer L) server) (\<lambda>base. ok_or (pl_join L base path) Validation)"

definition decode_response :: "ext \<Rightarrow> (json \<Rightarrow> 'a option) \<Rightarrow> http_response \<Rightarrow> 'a result" where
  "decode_response X d r =
     and_then (read_bounded_response r MAX_FEDERATION_BODY_BYTES) (\<lambda>bytes.
     and_then (fail_if (rs_status r < 200 \<or> rs_status r \<ge> 300) Validation) (\<lambda>_. from_text X d bytes))"

definition post_json ::
  "ext \<Rightarrow> peer_link \<Rightarrow> (json \<Rightarrow> 'a option) \<Rightarrow> string \<Rightarrow> string \<Rightarrow> json \<Rightarrow> string option \<Rightarrow> 'a result" where
  "post_json X L d server path value token =
     and_then (peer_endpoint X L server path) (\<lambda>url.
     and_then (fail_if (token = Some []) Validation) (\<lambda>_.
     and_then (ok_or (pl_send L \<lparr> pq_url = url, pq_headers = [], pq_body = JsonBody value, pq_bearer = token \<rparr>) Http)
       (decode_response X d)))"

definition d_accepted_object :: "json \<Rightarrow> accepted_object option" where
  "d_accepted_object v = do {
     fs \<leftarrow> struct_view [''id'', ''sequence'', ''event_hash''] v;
     a0 \<leftarrow> req d_str ''id'' fs;
     a1 \<leftarrow> req d_i64 ''sequence'' fs;
     a2 \<leftarrow> req d_str ''event_hash'' fs;
     Some \<lparr> acc_id = a0, acc_sequence = a1, acc_event_hash = a2 \<rparr> }"

definition client_register :: "ext \<Rightarrow> peer_link \<Rightarrow> string \<Rightarrow> lineage_registration \<Rightarrow> string option \<Rightarrow> accepted_object result" where
  "client_register X L server registration token =
     post_json X L d_accepted_object server ''v1/lineages'' (e_lineage_registration X registration) token"

definition client_delegate :: "ext \<Rightarrow> peer_link \<Rightarrow> string \<Rightarrow> session_delegation \<Rightarrow> string option \<Rightarrow> accepted_object result" where
  "client_delegate X L server d token =
     post_json X L d_accepted_object server ''v1/delegations'' (e_session_delegation X d) token"

definition client_revoke :: "ext \<Rightarrow> peer_link \<Rightarrow> string \<Rightarrow> delegation_revocation \<Rightarrow> string option \<Rightarrow> accepted_object result" where
  "client_revoke X L server revocation token =
     post_json X L d_accepted_object server ''v1/revocations'' (e_delegation_revocation X revocation) token"

definition client_rotate :: "ext \<Rightarrow> peer_link \<Rightarrow> string \<Rightarrow> signed_key_rotation \<Rightarrow> string option \<Rightarrow> accepted_object result" where
  "client_rotate X L server rotation token =
     post_json X L d_accepted_object server ''v1/rotations'' (e_signed_key_rotation X rotation) token"

definition client_contribute :: "ext \<Rightarrow> peer_link \<Rightarrow> string \<Rightarrow> signed_contribution \<Rightarrow> string option \<Rightarrow> accepted_object result" where
  "client_contribute X L server contribution token =
     post_json X L d_accepted_object server ''v1/contributions'' (e_signed_contribution X contribution) token"

definition client_acknowledge :: "ext \<Rightarrow> peer_link \<Rightarrow> string \<Rightarrow> signed_acknowledgement \<Rightarrow> string option \<Rightarrow> accepted_object result" where
  "client_acknowledge X L server acknowledgement token =
     post_json X L d_accepted_object server ''v1/acknowledgements'' (e_signed_acknowledgement X acknowledgement) token"

definition ARTIFACT_AUTHORIZATION_HEADER :: string where
  "ARTIFACT_AUTHORIZATION_HEADER = ''x-commonwake-artifact-authorization''"

definition upload_artifact ::
  "ext \<Rightarrow> peer_link \<Rightarrow> string \<Rightarrow> artifact_upload_authorization \<Rightarrow> string \<Rightarrow> string option \<Rightarrow> artifact_receipt result" where
  "upload_artifact X L server a bytes token =
     and_then (peer_endpoint X L server (''v1/artifacts/'' @ fa_sha256 (au_artifact a))) (\<lambda>url.
     and_then (fail_if (token = Some []) Validation) (\<lambda>_.
     and_then (ok_or (pl_send L \<lparr> pq_url = url,
         pq_headers = [(ARTIFACT_AUTHORIZATION_HEADER, encode_artifact_authorization X a),
                       (''content-type'', fa_media_type (au_artifact a))],
         pq_body = RawBody bytes, pq_bearer = token \<rparr>) Http)
       (decode_response X (d_artifact_receipt X))))"

section \<open>What is signed verifies\<close>

text \<open>Every protocol object is signed over its canonical text without the signature field, so sealing the
  object with the signature leaves what was signed as it is.\<close>

locale signed_form =
  fixes ser :: "ext \<Rightarrow> 'a \<Rightarrow> json" and sealed :: "'a \<Rightarrow> string \<Rightarrow> 'a"
  assumes unsealed: "canonical_without_signature X (ser X (sealed r s)) = canonical_without_signature X (ser X r)"
begin

lemma seal_verifies:
  assumes "ext_laws X" and "length sk = 32" and "sign_object X sk domain (ser X r) = Inr s"
  shows "verify_object X (x_ed_public X sk) domain (ser X (sealed r s)) s = Inr ()"
  using assms by (intro verify_sign_object [of X sk domain "ser X r"])
    (simp_all add: ext_laws_def signing_preimage_def unsealed)

end

interpretation registration_form: signed_form e_lineage_registration "\<lambda>r s. r\<lparr>lr_signature := s\<rparr>"
  by unfold_locales (simp add: canonical_without_signature_def e_lineage_registration_def)

interpretation delegation_form: signed_form e_session_delegation "\<lambda>r s. r\<lparr>sd_signature := s\<rparr>"
  by unfold_locales (simp add: canonical_without_signature_def e_session_delegation_def)

interpretation revocation_form: signed_form e_delegation_revocation "\<lambda>r s. r\<lparr>dr_signature := s\<rparr>"
  by unfold_locales (simp add: canonical_without_signature_def e_delegation_revocation_def)

interpretation contribution_form: signed_form e_signed_contribution "\<lambda>r s. r\<lparr>sc_signature := s\<rparr>"
  by unfold_locales (simp add: canonical_without_signature_def e_signed_contribution_def)

interpretation acknowledgement_form: signed_form e_signed_acknowledgement "\<lambda>r s. r\<lparr>sa_signature := s\<rparr>"
  by unfold_locales (simp add: canonical_without_signature_def e_signed_acknowledgement_def)

interpretation upload_form: signed_form e_artifact_upload_authorization "\<lambda>r s. r\<lparr>au_signature := s\<rparr>"
  by unfold_locales (simp add: canonical_without_signature_def e_artifact_upload_authorization_def)

text \<open>Random bytes whose base64url text is a nonce: the alphabet has letters, digits, minus and underscore,
  and 32 bytes give 43 characters.\<close>

definition nonce_bytes :: "ext \<Rightarrow> string \<Rightarrow> bool" where
  "nonce_bytes X r \<longleftrightarrow> require_nonce (x_b64_encode X r) = Inr ()"

lemma key_text:
  assumes "ext_laws X" and "length sk = 32"
  shows "verifying_key_from_b64 X (x_b64_encode X (x_ed_public X sk)) = Inr (x_ed_public X sk)"
    "signing_key_from_b64 X (x_b64_encode X sk) = Inr sk"
  using assms by (auto simp: ext_laws_def sig_laws_def verifying_key_encode signing_key_from_b64_def decode_def b64_laws_def)

text \<open>The identity files whose keys belong together.\<close>

lemma checked_key:
  assumes "checked_identity_key X identity = Inr sk"
  shows "length sk = 32" "signing_key_from_b64 X (idf_secret_key identity) = Inr sk"
    "idf_public_key identity = x_b64_encode X (x_ed_public X sk)"
  using assms by (auto simp: checked_identity_key_def signing_key_from_b64_def decode_def split: if_splits)

lemma made_session:
  assumes "make_session X (Inr session_key) (Inr r) now identity scopes lifetime = Inr session"
    and "checked_identity_key X identity = Inr sk"
  obtains d s where "d = \<lparr> sd_protocol = PROTOCOL_VERSION, sd_lineage_id = idf_lineage_id identity,
      sd_session_public_key = x_b64_encode X (x_ed_public X session_key), sd_scopes = scopes,
      sd_not_before = now, sd_expires_at = now + lifetime, sd_nonce = x_b64_encode X r, sd_signature = [] \<rparr>"
    "sign_object X sk DELEGATION_DOMAIN (e_session_delegation X d) = Inr s"
    "ssf_delegation session = d\<lparr>sd_signature := s\<rparr>" "ssf_session_secret_key session = x_b64_encode X session_key"
    "0 < lifetime" "lifetime \<le> days 30"
  using assms checked_key(2) [OF assms(2)]
  by (auto simp: make_session_def fresh_nonce_def Let_def not_le)

text \<open>The row a registered session gets.\<close>

lemma registered_session:
  assumes reg: "register_delegation X me server received d db = Inr (acc, db')"
  obtains i del where "canonical_without_signature X (e_session_delegation X d) = Inr i"
    "first_row (\<lambda>r. del_delegation_id r = prefixed_id X ''cwdel_'' i) (delegations db') = Some del"
    "del_lineage_id del = sd_lineage_id d" "del_scopes del = sd_scopes d"
    "del_session_public_key del = sd_session_public_key d" "del_revoked_sequence del = None"
    "del_not_before del = millis (sd_not_before d)" "del_expires_at del = millis (sd_expires_at d)"
  using reg
proof (rule register_delegation_Inr)
  fix bytes
  assume b: "canonical_without_signature X (e_session_delegation X d) = Inr bytes"
    and "db_register_delegation X me received (prefixed_id X ''cwdel_'' bytes) d db = Inr (acc, db')"
  from this(2) show thesis
  proof (rule db_register_delegation_Inr, goal_cases)
    case (1 canonical row del)
    then have "first_row (\<lambda>r. del_delegation_id r = prefixed_id X ''cwdel_'' bytes) (delegations db) = None" by simp
    with 1 have "first_row (\<lambda>r. del_delegation_id r = prefixed_id X ''cwdel_'' bytes) (delegations db') = Some del"
      by (simp del: first_row_None)
    with 1 b show ?case by (intro that [of bytes del]) auto
  qed
qed

lemma session_authorizes:
  assumes reg: "register_delegation X me server received d db = Inr (acc, db')"
    and id: "canonical_without_signature X (e_session_delegation X d) = Inr i" and scope: "needed \<in> set (sd_scopes d)"
    and time: "sd_not_before d \<le> created" "created \<le> millis (sd_expires_at d)"
      "accepted \<le> millis (sd_expires_at d) + minutes MAX_CLOCK_SKEW_MINUTES" "created \<le> accepted + minutes MAX_CLOCK_SKEW_MINUTES"
  obtains v where "authorize_delegation db' (prefixed_id X ''cwdel_'' i) needed created accepted = Inr v"
    "dv_session_public_key v = sd_session_public_key d" "dv_lineage_id v = sd_lineage_id d"
  using reg
proof (rule registered_session)
  fix j del
  assume "canonical_without_signature X (e_session_delegation X d) = Inr j"
    and del: "first_row (\<lambda>r. del_delegation_id r = prefixed_id X ''cwdel_'' j) (delegations db') = Some del"
    "del_lineage_id del = sd_lineage_id d" "del_scopes del = sd_scopes d"
    "del_session_public_key del = sd_session_public_key d" "del_revoked_sequence del = None"
    "del_not_before del = millis (sd_not_before d)" "del_expires_at del = millis (sd_expires_at d)"
  then have j: "j = i" using id by simp
  have "millis (sd_not_before d) \<le> created" using time(1) by (simp add: millis_def)
  with del time scope show thesis
    unfolding j by (intro that) (auto simp: authorize_delegation_def delegation_def validate_authored_time_at_def not_less)
qed

text \<open>Trimming twice is trimming once, so the name in a file passes the node's check.\<close>

lemma strip_front_none: "find (\<lambda>w. w \<noteq> [] \<and> prefix w s) ws = None \<Longrightarrow> strip_front ws s = s"
  by (simp add: strip_front.simps [of ws s])

lemma trim_trim [simp]: "trim (trim s) = trim s"
proof -
  let ?u = "trim_start s"
  have pre: "prefix (trim_end ?u) ?u"
    using strip_front_suffix [of "map rev white_space" "rev ?u"] by (simp add: trim_end_def suffix_to_prefix)
  have "find (\<lambda>w. w \<noteq> [] \<and> prefix w (trim_end ?u)) white_space = None"
    using strip_front_stop [of white_space s] prefix_order.trans [OF _ pre]
    by (auto simp: find_None_iff trim_start_def)
  then have a: "trim_start (trim_end ?u) = trim_end ?u" unfolding trim_start_def by (rule strip_front_none)
  have "trim_end (trim_end ?u) = trim_end ?u"
    unfolding trim_end_def rev_rev_ident using strip_front_none [OF strip_front_stop] by metis
  with a show ?thesis by (simp add: trim_def)
qed

text \<open>What an accepted session gives the client: the identifier the node stored is the one the client
  computes, and within its lifetime it authorizes its scopes with its key.\<close>

lemma session_works:
  assumes laws: "ext_laws X" and key: "checked_identity_key X identity = Inr sk" and session_key: "length session_key = 32"
    and made: "make_session X (Inr session_key) (Inr r) now identity scopes lifetime = Inr session"
    and reg: "register_delegation X me server received (ssf_delegation session) db = Inr (acc, db')"
  obtains i where "delegation_id_of X session = Inr i" "signing_key_from_b64 X (ssf_session_secret_key session) = Inr session_key"
    "\<And>needed created accepted. needed \<in> set scopes \<Longrightarrow> now \<le> created \<Longrightarrow> created \<le> millis (now + lifetime) \<Longrightarrow>
      accepted \<le> millis (now + lifetime) + minutes MAX_CLOCK_SKEW_MINUTES \<Longrightarrow> created \<le> accepted + minutes MAX_CLOCK_SKEW_MINUTES \<Longrightarrow>
      \<exists>v. authorize_delegation db' i needed created accepted = Inr v \<and>
        dv_session_public_key v = x_b64_encode X (x_ed_public X session_key) \<and> dv_lineage_id v = idf_lineage_id identity"
proof -
  obtain d s where d: "d = \<lparr> sd_protocol = PROTOCOL_VERSION, sd_lineage_id = idf_lineage_id identity,
      sd_session_public_key = x_b64_encode X (x_ed_public X session_key), sd_scopes = scopes,
      sd_not_before = now, sd_expires_at = now + lifetime, sd_nonce = x_b64_encode X r, sd_signature = [] \<rparr>"
    "ssf_delegation session = d\<lparr>sd_signature := s\<rparr>" "ssf_session_secret_key session = x_b64_encode X session_key"
    using made key by (rule made_session)
  obtain i where i: "canonical_without_signature X (e_session_delegation X (ssf_delegation session)) = Inr i"
    using reg by (rule registered_session)
  have "\<exists>v. authorize_delegation db' (prefixed_id X ''cwdel_'' i) needed created accepted = Inr v \<and>
      dv_session_public_key v = x_b64_encode X (x_ed_public X session_key) \<and> dv_lineage_id v = idf_lineage_id identity"
    if "needed \<in> set scopes" "now \<le> created" "created \<le> millis (now + lifetime)"
      "accepted \<le> millis (now + lifetime) + minutes MAX_CLOCK_SKEW_MINUTES" "created \<le> accepted + minutes MAX_CLOCK_SKEW_MINUTES"
    for needed created accepted
  proof (rule session_authorizes [OF reg i])
    fix v
    assume "authorize_delegation db' (prefixed_id X ''cwdel_'' i) needed created accepted = Inr v"
      "dv_session_public_key v = sd_session_public_key (ssf_delegation session)"
      "dv_lineage_id v = sd_lineage_id (ssf_delegation session)"
    then show ?thesis by (simp add: d(1,2))
  qed (use that in \<open>simp_all add: d(1,2)\<close>)
  moreover have "signing_key_from_b64 X (ssf_session_secret_key session) = Inr session_key"
    unfolding d(3) by (rule key_text(2) [OF laws session_key])
  moreover have "delegation_id_of X session = Inr (prefixed_id X ''cwdel_'' i)" by (simp add: delegation_id_of_def i)
  ultimately show thesis by (intro that)
qed

text \<open>A rotation the client makes passes the checks of a node that knows the lineage by its old key, and the
  identity file that replaces the old one holds the key the lineage has afterwards.\<close>

lemma client_rotation_verifies:
  assumes laws: "ext_laws X" and key: "checked_identity_key X identity = Inr sk" and new: "length new_key = 32"
    and made: "make_key_rotation X (Inr new_key) (Inr r) now identity reason revoke = Inr (identity', rotation)"
    and lin: "lineage_from_connection db (idf_lineage_id identity) = Inr lv" "lv_public_key lv = idf_public_key identity"
    and ok: "validate_authority_change_at (x_b64_encode X r) reason now server = Inr ()"
      "x_b64_encode X (x_ed_public X new_key) \<noteq> idf_public_key identity"
  shows "rotate_lineage_key X me server received rotation db = db_rotate_lineage_key X me received rotation db"
    "checked_identity_key X identity' = Inr new_key" "idf_lineage_id identity' = idf_lineage_id identity"
    "idf_public_key identity' = kr_new_public_key (sk_statement rotation)"
proof -
  obtain u s s' where u: "u = \<lparr> kr_protocol = PROTOCOL_VERSION, kr_lineage_id = idf_lineage_id identity,
           kr_previous_public_key = idf_public_key identity, kr_new_public_key = x_b64_encode X (x_ed_public X new_key),
           kr_revoke_existing_delegations = revoke, kr_reason = reason, kr_created_at = now, kr_nonce = x_b64_encode X r \<rparr>"
      "sign_object X sk KEY_ROTATION_DOMAIN (e_key_rotation_statement X u) = Inr s"
      "sign_object X new_key KEY_ROTATION_DOMAIN (e_key_rotation_statement X u) = Inr s'"
      "rotation = \<lparr> sk_statement = u, sk_previous_signature = s, sk_new_signature = s' \<rparr>"
      "identity' = identity\<lparr>idf_protocol := PROTOCOL_VERSION, idf_public_key := kr_new_public_key u, idf_secret_key := x_b64_encode X new_key\<rparr>"
    using made key by (auto simp: make_key_rotation_def fresh_nonce_def Let_def)
  note old = checked_key [OF key]
  have sig: "verify_object X (x_ed_public X k) KEY_ROTATION_DOMAIN (e_key_rotation_statement X u) s0 = Inr ()"
    if "length k = 32" "sign_object X k KEY_ROTATION_DOMAIN (e_key_rotation_statement X u) = Inr s0" for k s0
    using that laws by (intro verify_sign_object) (simp_all add: ext_laws_def)
  show "rotate_lineage_key X me server received rotation db = db_rotate_lineage_key X me received rotation db"
    using lin ok sig [OF old(1) u(2)] sig [OF new u(3)] key_text(1) [OF laws old(1)] key_text(1) [OF laws new] old(3)
    by (simp add: rotate_lineage_key_def u(1,4) require_protocol_def)
  show "checked_identity_key X identity' = Inr new_key" "idf_lineage_id identity' = idf_lineage_id identity"
    "idf_public_key identity' = kr_new_public_key (sk_statement rotation)"
    using key_text(2) [OF laws new] by (simp_all add: u(1,4,5) checked_identity_key_def)
qed

section \<open>Properties\<close>

text \<open>C22: enrolment.  The registration a client makes for an identity it created passes every check of the
  node, which goes on to store it under the lineage identifier of the identity file; and once the lineage
  is known with that key, so does the delegation of a session, under the identifier the client computes.
  The clocks may differ by the tolerated skew.\<close>

theorem client_enrols:
  assumes laws: "ext_laws X" and key: "length sk = 32" and made: "create_identity X (Inr sk) t name = Inr identity"
    and skew: "t \<le> server + minutes MAX_CLOCK_SKEW_MINUTES" and nonce: "nonce_bytes X r"
  shows "(\<forall>reg. make_registration X (Inr r) identity = Inr reg \<longrightarrow>
      register_lineage X me server received reg db = db_register_lineage X me received (idf_lineage_id identity) reg db) \<and>
    (\<forall>session_key scopes lifetime session lv. make_session X (Inr session_key) (Inr r) t identity scopes lifetime = Inr session \<longrightarrow>
      length session_key = 32 \<longrightarrow> scopes \<noteq> [] \<longrightarrow> distinct scopes \<longrightarrow>
      lineage_from_connection db (idf_lineage_id identity) = Inr lv \<longrightarrow> lv_public_key lv = idf_public_key identity \<longrightarrow>
      (\<exists>i. delegation_id_of X session = Inr i \<and> register_delegation X me server received (ssf_delegation session) db =
         db_register_delegation X me received i (ssf_delegation session) db))"
proof (intro conjI allI impI)
  from made have identity: "identity = \<lparr> idf_protocol = PROTOCOL_VERSION, idf_display_name = trim name,
      idf_lineage_id = lineage_id_of X (x_ed_public X sk), idf_created_at = t,
      idf_public_key = x_b64_encode X (x_ed_public X sk), idf_secret_key = x_b64_encode X sk \<rparr>"
    and name: "\<not> len (trim name) < 2" "\<not> len (trim name) > 80"
    by (auto simp: create_identity_def Let_def)
  note keys = key_text [OF laws key]
  {
    fix reg assume "make_registration X (Inr r) identity = Inr reg"
    then obtain u s where u: "u = \<lparr> lr_protocol = PROTOCOL_VERSION, lr_display_name = trim name,
           lr_public_key = x_b64_encode X (x_ed_public X sk), lr_created_at = t, lr_nonce = x_b64_encode X r,
           lr_signature = [] \<rparr>" "sign_object X sk LINEAGE_DOMAIN (e_lineage_registration X u) = Inr s"
      "reg = u\<lparr>lr_signature := s\<rparr>"
      using keys by (auto simp: make_registration_def fresh_nonce_def identity Let_def)
    have "verify_object X (x_ed_public X sk) LINEAGE_DOMAIN (e_lineage_registration X reg) s = Inr ()"
      unfolding u(3) by (rule registration_form.seal_verifies [OF laws key u(2)])
    then show "register_lineage X me server received reg db = db_register_lineage X me received (idf_lineage_id identity) reg db"
      using keys nonce skew name
      by (simp add: register_lineage_def u(1,3) require_protocol_def validate_display_name_def nonce_bytes_def
          validate_authored_time_at_def identity Let_def)
  next
    fix session_key scopes lifetime session lv
    assume "make_session X (Inr session_key) (Inr r) t identity scopes lifetime = Inr session" and sk: "length session_key = 32"
      and scopes: "scopes \<noteq> []" "distinct scopes" and lin: "lineage_from_connection db (idf_lineage_id identity) = Inr lv"
        "lv_public_key lv = idf_public_key identity"
    moreover have "checked_identity_key X identity = Inr sk" using keys by (simp add: checked_identity_key_def identity)
    ultimately obtain d s where d: "d = \<lparr> sd_protocol = PROTOCOL_VERSION, sd_lineage_id = idf_lineage_id identity,
        sd_session_public_key = x_b64_encode X (x_ed_public X session_key), sd_scopes = scopes,
        sd_not_before = t, sd_expires_at = t + lifetime, sd_nonce = x_b64_encode X r, sd_signature = [] \<rparr>"
      "sign_object X sk DELEGATION_DOMAIN (e_session_delegation X d) = Inr s"
      "ssf_delegation session = d\<lparr>sd_signature := s\<rparr>" "0 < lifetime" "lifetime \<le> days 30"
      by (elim made_session)
    have sig: "verify_object X (x_ed_public X sk) DELEGATION_DOMAIN (e_session_delegation X (d\<lparr>sd_signature := s\<rparr>)) s = Inr ()"
      by (rule delegation_form.seal_verifies [OF laws key d(2)])
    then obtain i where i: "canonical_without_signature X (e_session_delegation X (d\<lparr>sd_signature := s\<rparr>)) = Inr i"
      by (auto simp: verify_object_def signing_preimage_def)
    have "validate_delegation_at X (d\<lparr>sd_signature := s\<rparr>) server = Inr ()"
      using nonce scopes d(4,5) skew key_text(1) [OF laws sk]
      by (simp add: validate_delegation_at_def d(1) nonce_bytes_def MAX_DELEGATION_DAYS_def)
    then show "\<exists>i. delegation_id_of X session = Inr i \<and> register_delegation X me server received (ssf_delegation session) db =
         db_register_delegation X me received i (ssf_delegation session) db"
      using i sig keys lin
      by (auto simp: delegation_id_of_def register_delegation_def d(3) d(1) require_protocol_def identity)
  }
qed

text \<open>C23: a session serves.  Once a node has taken the delegation of a session the client made, what the
  client signs with it during its lifetime, and within its scopes, is authorized and verified by the
  node, which goes on to project it in the name of the client's lineage: contributions of any kind, in
  any reporting mode, and acknowledgements.\<close>

theorem client_session_serves:
  assumes laws: "ext_laws X" and key: "checked_identity_key X identity = Inr sk" and session_key: "length session_key = 32"
    and made: "make_session X (Inr session_key) (Inr r) now identity scopes lifetime = Inr session"
    and reg: "register_delegation X me server received (ssf_delegation session) db = Inr (acc, db')"
    and time: "now \<le> t" "t \<le> millis (now + lifetime)" "t \<le> server' + minutes MAX_CLOCK_SKEW_MINUTES"
      "server' \<le> millis (now + lifetime) + minutes MAX_CLOCK_SKEW_MINUTES"
    and nonce: "nonce_bytes X r'"
  shows "(\<forall>kind payload targets supersedes reporting c.
      make_contribution_with_reporting X (Inr r') t session kind payload targets supersedes reporting = Inr c \<longrightarrow>
      required_scope kind \<in> set scopes \<longrightarrow> validate_lists targets supersedes = Inr () \<longrightarrow>
      accept_contribution X me st server' received' c db' = and_then (require_local_forge_artifacts X st c)
        (\<lambda>_. append_contribution X me received' (idf_lineage_id identity) c db')) \<and>
    (\<forall>cursor memory a. make_acknowledgement X (Inr r') t session cursor memory = Inr a \<longrightarrow>
      S_Ack \<in> set scopes \<longrightarrow> 0 \<le> cursor \<longrightarrow> validate_memory_provenance (mp_statement memory) = Inr () \<longrightarrow>
      acknowledge X me server' received' a db' = append_acknowledgement X me received' (idf_lineage_id identity) a db')"
proof (intro conjI allI impI)
  obtain i where i: "delegation_id_of X session = Inr i" "signing_key_from_b64 X (ssf_session_secret_key session) = Inr session_key"
    and auth: "\<And>needed. needed \<in> set scopes \<Longrightarrow> \<exists>v. authorize_delegation db' i needed t server' = Inr v \<and>
        dv_session_public_key v = x_b64_encode X (x_ed_public X session_key) \<and> dv_lineage_id v = idf_lineage_id identity"
    using session_works [OF laws key session_key made reg] time by metis
  note keys = key_text [OF laws session_key]
  {
    fix kind payload targets supersedes reporting c
    assume c: "make_contribution_with_reporting X (Inr r') t session kind payload targets supersedes reporting = Inr c"
      and scope: "required_scope kind \<in> set scopes" and lists: "validate_lists targets supersedes = Inr ()"
    from c i obtain u s where u: "u = \<lparr> sc_protocol = PROTOCOL_VERSION, sc_delegation_id = i, sc_kind = kind,
           sc_created_at = t, sc_nonce = x_b64_encode X r', sc_targets = targets, sc_supersedes = supersedes,
           sc_reporting = reporting, sc_payload = payload, sc_signature = [] \<rparr>"
        "sign_object X session_key CONTRIBUTION_DOMAIN (e_signed_contribution X u) = Inr s" "c = u\<lparr>sc_signature := s\<rparr>"
      by (auto simp: make_contribution_with_reporting_def fresh_nonce_def Let_def)
    have "verify_object X (x_ed_public X session_key) CONTRIBUTION_DOMAIN (e_signed_contribution X c) s = Inr ()"
      unfolding u(3) by (rule contribution_form.seal_verifies [OF laws session_key u(2)])
    with auth [OF scope] show "accept_contribution X me st server' received' c db' = and_then (require_local_forge_artifacts X st c)
        (\<lambda>_. append_contribution X me received' (idf_lineage_id identity) c db')"
      using keys nonce lists by (auto simp: accept_contribution_def u(1,3) require_protocol_def nonce_bytes_def)
  next
    fix cursor memory a
    assume a: "make_acknowledgement X (Inr r') t session cursor memory = Inr a" and scope: "S_Ack \<in> set scopes"
      and ok: "0 \<le> cursor" "validate_memory_provenance (mp_statement memory) = Inr ()"
    from a i obtain u s where u: "u = \<lparr> sa_protocol = PROTOCOL_VERSION, sa_delegation_id = i, sa_cursor = cursor,
           sa_memory_provenance = memory, sa_created_at = t, sa_nonce = x_b64_encode X r', sa_signature = [] \<rparr>"
        "sign_object X session_key ACK_DOMAIN (e_signed_acknowledgement X u) = Inr s" "a = u\<lparr>sa_signature := s\<rparr>"
      by (auto simp: make_acknowledgement_def fresh_nonce_def Let_def)
    have "verify_object X (x_ed_public X session_key) ACK_DOMAIN (e_signed_acknowledgement X a) s = Inr ()"
      unfolding u(3) by (rule acknowledgement_form.seal_verifies [OF laws session_key u(2)])
    with auth [OF scope] show "acknowledge X me server' received' a db' = append_acknowledgement X me received' (idf_lineage_id identity) a db'"
      using keys nonce ok by (auto simp: acknowledge_def u(1,3) require_protocol_def nonce_bytes_def)
  }
qed

section \<open>A concrete client\<close>

definition client_nonce :: string where "client_nonce = replicate 32 (CHR ''n'')"

definition client_identity :: "identity_file result" where
  "client_identity = create_identity demo_ext (Inr demo_key) 0 '' Ada ''"

definition client_session :: "identity_file \<Rightarrow> session_file result" where
  "client_session identity =
     make_session demo_ext (Inr demo_session_key) (Inr client_nonce) 0 identity [S_Ack, S_Forum] (days 1)"

lemma client_nonce_ok: "nonce_bytes demo_ext client_nonce"
  unfolding nonce_bytes_def client_nonce_def by code_simp

lemma client_key_length: "length demo_key = 32" "length demo_session_key = 32"
  by (simp_all add: demo_key_def demo_session_key_def)

lemma client_identity_run:
  obtains identity session lv where "client_identity = Inr identity" "client_session identity = Inr session"
    "checked_identity_key demo_ext identity = Inr demo_key" "idf_lineage_id identity = demo_lineage"
    "\<not> isl (make_registration demo_ext (Inr client_nonce) identity)"
    "lineage_from_connection demo_db (idf_lineage_id identity) = Inr lv" "lv_public_key lv = idf_public_key identity"
    "\<not> isl (register_delegation demo_ext demo_me 0 0 (ssf_delegation session) demo_db)"
    "\<not> isl (make_acknowledgement demo_ext (Inr client_nonce) 0 session 0 (sa_memory_provenance demo_acknowledgement))"
    "\<not> isl (make_contribution demo_ext (Inr client_nonce) 0 session K_ForumPost JNull [] [])"
proof -
  have "case client_identity of Inl _ \<Rightarrow> False | Inr identity \<Rightarrow> (case client_session identity of Inl _ \<Rightarrow> False | Inr session \<Rightarrow>
     checked_identity_key demo_ext identity = Inr demo_key \<and> idf_lineage_id identity = demo_lineage \<and>
     \<not> isl (make_registration demo_ext (Inr client_nonce) identity) \<and>
     (case lineage_from_connection demo_db (idf_lineage_id identity) of Inl _ \<Rightarrow> False | Inr lv \<Rightarrow> lv_public_key lv = idf_public_key identity) \<and>
     \<not> isl (register_delegation demo_ext demo_me 0 0 (ssf_delegation session) demo_db) \<and>
     \<not> isl (make_acknowledgement demo_ext (Inr client_nonce) 0 session 0 (sa_memory_provenance demo_acknowledgement)) \<and>
     \<not> isl (make_contribution demo_ext (Inr client_nonce) 0 session K_ForumPost JNull [] []))"
    by code_simp
  then show thesis by (auto split: sum.split_asm intro: that)
qed

theorem client_enrols_witness:
  "\<exists>identity reg session i. client_identity = Inr identity \<and>
     make_registration demo_ext (Inr client_nonce) identity = Inr reg \<and> client_session identity = Inr session \<and>
     delegation_id_of demo_ext session = Inr i \<and>
     register_lineage demo_ext demo_me 0 0 reg empty_database = db_register_lineage demo_ext demo_me 0 demo_lineage reg empty_database \<and>
     register_delegation demo_ext demo_me 0 0 (ssf_delegation session) demo_db =
       db_register_delegation demo_ext demo_me 0 i (ssf_delegation session) demo_db"
proof (rule client_identity_run, goal_cases)
  case (1 identity session lv)
  note made = 1(1) [unfolded client_identity_def]
  have skew: "(0::int) \<le> 0 + minutes MAX_CLOCK_SKEW_MINUTES" by (simp add: minutes_def MAX_CLOCK_SKEW_MINUTES_def)
  note enrols = client_enrols [OF demo_laws client_key_length(1) made skew client_nonce_ok]
  from 1(5) obtain reg where reg: "make_registration demo_ext (Inr client_nonce) identity = Inr reg" by (cases "make_registration demo_ext (Inr client_nonce) identity") auto
  moreover have "register_lineage demo_ext demo_me 0 0 reg empty_database = db_register_lineage demo_ext demo_me 0 demo_lineage reg empty_database"
    using enrols [of demo_me 0 empty_database] reg 1(4) by auto
  moreover obtain i where "delegation_id_of demo_ext session = Inr i"
    "register_delegation demo_ext demo_me 0 0 (ssf_delegation session) demo_db =
       db_register_delegation demo_ext demo_me 0 i (ssf_delegation session) demo_db"
    using enrols [of demo_me 0 demo_db] 1(2,6,7) client_key_length(2) unfolding client_session_def by fastforce
  ultimately show ?case using 1(1,2) by blast
qed

theorem client_session_serves_witness:
  "\<exists>identity session acc db' a c. client_identity = Inr identity \<and> client_session identity = Inr session \<and>
     register_delegation demo_ext demo_me 0 0 (ssf_delegation session) demo_db = Inr (acc, db') \<and>
     make_acknowledgement demo_ext (Inr client_nonce) 0 session 0 (sa_memory_provenance demo_acknowledgement) = Inr a \<and>
     make_contribution demo_ext (Inr client_nonce) 0 session K_ForumPost JNull [] [] = Inr c \<and>
     acknowledge demo_ext demo_me 0 0 a db' = append_acknowledgement demo_ext demo_me 0 demo_lineage a db' \<and>
     accept_contribution demo_ext demo_me empty_store 0 0 c db' = and_then (require_local_forge_artifacts demo_ext empty_store c)
        (\<lambda>_. append_contribution demo_ext demo_me 0 demo_lineage c db')"
proof (rule client_identity_run, goal_cases)
  case (1 identity session lv)
  from 1(8) obtain acc db' where reg: "register_delegation demo_ext demo_me 0 0 (ssf_delegation session) demo_db = Inr (acc, db')"
    by (cases "register_delegation demo_ext demo_me 0 0 (ssf_delegation session) demo_db") auto
  from 1(9) obtain a where a: "make_acknowledgement demo_ext (Inr client_nonce) 0 session 0 (sa_memory_provenance demo_acknowledgement) = Inr a"
    by (cases "make_acknowledgement demo_ext (Inr client_nonce) 0 session 0 (sa_memory_provenance demo_acknowledgement)") auto
  from 1(10) obtain c where c: "make_contribution demo_ext (Inr client_nonce) 0 session K_ForumPost JNull [] [] = Inr c"
    by (cases "make_contribution demo_ext (Inr client_nonce) 0 session K_ForumPost JNull [] []") auto
  have t: "(0::int) \<le> millis (0 + days 1)" "(0::int) \<le> 0 + minutes MAX_CLOCK_SKEW_MINUTES"
    "(0::int) \<le> millis (0 + days 1) + minutes MAX_CLOCK_SKEW_MINUTES" by code_simp+
  have m: "validate_memory_provenance (mp_statement (sa_memory_provenance demo_acknowledgement)) = Inr ()"
    "validate_lists [] [] = Inr ()" "required_scope K_ForumPost = S_Forum" by code_simp+
  note serves = client_session_serves [OF demo_laws 1(3) client_key_length(2) 1(2) [unfolded client_session_def] reg order_refl t client_nonce_ok,
      of empty_store 0]
  have "acknowledge demo_ext demo_me 0 0 a db' = append_acknowledgement demo_ext demo_me 0 demo_lineage a db'"
    using serves a m(1) unfolding 1(4) by simp
  moreover have "accept_contribution demo_ext demo_me empty_store 0 0 c db' = and_then (require_local_forge_artifacts demo_ext empty_store c)
        (\<lambda>_. append_contribution demo_ext demo_me 0 demo_lineage c db')"
    using serves c m(2,3) unfolding 1(4) make_contribution_def by simp
  ultimately show ?case using 1(1,2) reg a c by blast
qed

end
