(* ===== verification/Relay.thy ===== *)
theory Relay
  imports Federation_Import
begin

text \<open>
  Passing on what was imported: \<open>remote_events\<close>, \<open>relayed_federation_bundle\<close>, \<open>federation_peers\<close> and
  \<open>equivocation_evidence\<close> of \<^verbatim>\<open>src/src/db.rs\<close>.  A relay holds no key of the origin, so it can only hand out
  the origin's own checkpoints; the properties show that what it kept is always enough for that.
\<close>

section \<open>Reading the retained events\<close>

definition remote_origin_event_from_row :: "ext \<Rightarrow> remote_event_row \<Rightarrow> origin_event result" where
  "remote_origin_event_from_row X row =
     and_then (ok_or (x_json_parse X (rem_canonical_json row)) Database) (\<lambda>canonical.
       Inr \<lparr> oe_sequence = rem_origin_sequence row, oe_event_id = rem_event_id row, oe_kind = rem_kind row,
             oe_lineage_id = rem_lineage_id row, oe_delegation_id = rem_delegation_id row,
             oe_created_at = rem_created_at row, oe_received_at = rem_received_at row,
             oe_canonical = canonical, oe_previous_hash = rem_previous_hash row,
             oe_event_hash = rem_event_hash row, oe_node_signature = rem_node_signature row \<rparr>)"

text \<open>\<open>ORDER BY origin_sequence ASC\<close>\<close>

definition by_origin_sequence :: "remote_event_row list \<Rightarrow> remote_event_row list" where
  "by_origin_sequence = order_by (\<lambda>r s. rem_origin_sequence r < rem_origin_sequence s)"

definition remote_events_after :: "ext \<Rightarrow> string \<Rightarrow> int \<Rightarrow> nat \<Rightarrow> database \<Rightarrow> origin_event list result" where
  "remote_events_after X origin after limit db =
     and_then (fail_if (after < 0) Validation) (\<lambda>_.
       map_result (remote_origin_event_from_row X) (take limit (by_origin_sequence
         (filter (\<lambda>r. rem_origin_node_id r = origin \<and> rem_origin_sequence r > after) (remote_events db)))))"

text \<open>\<open>MAX\<close> and \<open>MIN\<close> of a column, \<open>NULL\<close> when no row is selected.\<close>

definition column_max :: "int list \<Rightarrow> int option" where
  "column_max xs = (case xs of [] \<Rightarrow> None | y # ys \<Rightarrow> Some (fold max ys y))"

definition column_min :: "int list \<Rightarrow> int option" where
  "column_min xs = (case xs of [] \<Rightarrow> None | y # ys \<Rightarrow> Some (fold min ys y))"

definition checkpoints_of :: "string \<Rightarrow> database \<Rightarrow> remote_checkpoint_row list" where
  "checkpoints_of origin db = filter (\<lambda>k. rcp_origin_node_id k = origin) (remote_checkpoints db)"

text \<open>The cursor a page ends at: the last checkpoint within the limit, or else the next one there is.\<close>

definition relay_through :: "string \<Rightarrow> int \<Rightarrow> int \<Rightarrow> int \<Rightarrow> database \<Rightarrow> int result" where
  "relay_through origin after requested_end head db =
     (if after = head then Inr head
      else let cursors = map rcp_cursor (checkpoints_of origin db) in
        ok_or (case column_max (filter (\<lambda>c. c > after \<and> c \<le> requested_end) cursors) of
            Some c \<Rightarrow> Some c
          | None \<Rightarrow> column_min (filter (\<lambda>c. c > after) cursors)) Internal)"

text \<open>\<open>ORDER BY imported_at DESC LIMIT 1\<close>\<close>

definition latest_checkpoint :: "string \<Rightarrow> int \<Rightarrow> database \<Rightarrow> remote_checkpoint_row option" where
  "latest_checkpoint origin cursor db =
     (case order_by (\<lambda>k l. rcp_imported_at k > rcp_imported_at l)
        (filter (\<lambda>k. rcp_cursor k = cursor) (checkpoints_of origin db)) of
        [] \<Rightarrow> None | k # _ \<Rightarrow> Some k)"

text \<open>The sum of \<open>after\<close> and the limit saturates in the source; it is capped by the head at once.\<close>

definition relayed_federation_bundle :: "ext \<Rightarrow> string \<Rightarrow> int \<Rightarrow> nat \<Rightarrow> database \<Rightarrow> federation_bundle result" where
  "relayed_federation_bundle X origin after limit db =
     and_then (fail_if (after < 0) Validation) (\<lambda>_.
     and_then (ok_or (first_row (\<lambda>p. peer_node_id p = origin) (federation_peers db)) NotFound) (\<lambda>peer.
     and_then (fail_if (after > peer_cursor peer) Validation) (\<lambda>_.
     let requested_end = min (after + int (clamp_limit limit)) (peer_cursor peer) in
     and_then (relay_through origin after requested_end (peer_cursor peer) db) (\<lambda>through.
     and_then (ok_or (latest_checkpoint origin through db) Internal) (\<lambda>k.
     and_then (from_text X (d_checkpoint X) (rcp_checkpoint_json k)) (\<lambda>c.
     and_then (map_result (remote_origin_event_from_row X) (by_origin_sequence
         (filter (\<lambda>r. rem_origin_node_id r = origin \<and> rem_origin_sequence r > after \<and> rem_origin_sequence r \<le> through)
           (remote_events db)))) (\<lambda>evs.
     let b = \<lparr> fb_protocol = PROTOCOL_VERSION, fb_origin_node_id = origin,
               fb_origin_node_public_key = peer_node_public_key peer, fb_from_cursor = after,
               fb_through_cursor = through, fb_events = evs, fb_checkpoint = c \<rparr> in
     and_then (verify_bundle X b) (\<lambda>_. Inr b))))))))"

section \<open>Views\<close>

record federation_peer_view =
  fpv_node_id :: string
  fpv_node_public_key :: string
  fpv_first_seen_at :: int
  fpv_last_seen_at :: int
  fpv_cursor :: int
  fpv_event_hash :: string

definition federation_peer_views :: "database \<Rightarrow> federation_peer_view list" where
  "federation_peer_views db = map (\<lambda>p. \<lparr> fpv_node_id = peer_node_id p, fpv_node_public_key = peer_node_public_key p,
       fpv_first_seen_at = peer_first_seen_at p, fpv_last_seen_at = peer_last_seen_at p,
       fpv_cursor = peer_cursor p, fpv_event_hash = peer_event_hash p \<rparr>)
     (order_by (\<lambda>p q. peer_first_seen_at p < peer_first_seen_at q) (federation_peers db))"

record equivocation_evidence_view =
  eev_evidence_id :: string
  eev_origin_node_id :: string
  eev_conflict_kind :: string
  eev_cursor :: int
  eev_existing_hash :: string
  eev_incoming_hash :: string
  eev_existing :: json
  eev_incoming :: json
  eev_detected_at :: int

definition evidence_view :: "ext \<Rightarrow> equivocation_row \<Rightarrow> equivocation_evidence_view result" where
  "evidence_view X v =
     and_then (from_text X Some (eqv_existing_json v)) (\<lambda>existing.
     and_then (from_text X Some (eqv_incoming_json v)) (\<lambda>incoming.
       Inr \<lparr> eev_evidence_id = eqv_evidence_id v, eev_origin_node_id = eqv_origin_node_id v,
             eev_conflict_kind = eqv_conflict_kind v, eev_cursor = eqv_cursor v,
             eev_existing_hash = eqv_existing_hash v, eev_incoming_hash = eqv_incoming_hash v,
             eev_existing = existing, eev_incoming = incoming, eev_detected_at = eqv_detected_at v \<rparr>))"

definition equivocation_evidence_views :: "ext \<Rightarrow> database \<Rightarrow> equivocation_evidence_view list result" where
  "equivocation_evidence_views X db =
     map_result (evidence_view X)
       (order_by (\<lambda>v w. eqv_detected_at v < eqv_detected_at w) (equivocation_evidence db))"

section \<open>Lemmas on the queries\<close>

lemma column_max_Some: "column_max xs = Some m \<Longrightarrow> m \<in> set xs \<and> (\<forall>x\<in>set xs. x \<le> m)"
proof -
  have "fold max ys y \<in> insert y (set ys) \<and> (\<forall>x\<in>insert y (set ys). x \<le> fold max ys y)" for ys and y :: int
  proof (induction ys arbitrary: y)
    case (Cons z ys)
    from Cons [of "max z y"] show ?case by (auto simp: max_def split: if_splits)
  qed simp
  then show "column_max xs = Some m \<Longrightarrow> m \<in> set xs \<and> (\<forall>x\<in>set xs. x \<le> m)"
    by (cases xs) (auto simp: column_max_def)
qed

lemma column_min_Some: "column_min xs = Some m \<Longrightarrow> m \<in> set xs \<and> (\<forall>x\<in>set xs. m \<le> x)"
proof -
  have "fold min ys y \<in> insert y (set ys) \<and> (\<forall>x\<in>insert y (set ys). fold min ys y \<le> x)" for ys and y :: int
  proof (induction ys arbitrary: y)
    case (Cons z ys)
    from Cons [of "min z y"] show ?case by (auto simp: min_def split: if_splits)
  qed simp
  then show "column_min xs = Some m \<Longrightarrow> m \<in> set xs \<and> (\<forall>x\<in>set xs. m \<le> x)"
    by (cases xs) (auto simp: column_min_def)
qed

lemma column_None [simp]: "column_max xs = None \<longleftrightarrow> xs = []" "column_min xs = None \<longleftrightarrow> xs = []"
  by (simp_all add: column_max_def column_min_def split: list.splits)

lemma order_by_sorted:
  assumes "sorted_wrt (\<lambda>x y. \<not> lt y x) xs"
  shows "order_by lt xs = xs"
proof -
  have ins: "insort_by lt x ys = ys @ [x]" if "\<forall>y\<in>set ys. \<not> lt x y" for x ys
    using that by (induction ys) auto
  have "fold (insort_by lt) xs ys = ys @ xs" if "sorted_wrt (\<lambda>x y. \<not> lt y x) (ys @ xs)" for ys
    using that
  proof (induction xs arbitrary: ys)
    case (Cons x xs)
    then have "insort_by lt x ys = ys @ [x]" by (intro ins) (auto simp: sorted_wrt_append)
    with Cons.IH [of "ys @ [x]"] Cons.prems show ?case by simp
  qed simp
  from this [of "[]"] assms show ?thesis by (simp add: order_by_def)
qed

text \<open>A stored log is numbered from one, so a page of it is a slice.\<close>

lemma linked_numbers: "linked_from n h rs \<Longrightarrow> map rem_origin_sequence rs = map (\<lambda>i. n + int i + 1) [0..<length rs]"
proof (induction rs arbitrary: n h)
  case (Cons r rs)
  then have "map rem_origin_sequence rs = map (\<lambda>i. (n + 1) + int i + 1) [0..<length rs]" by auto
  with Cons.prems show ?case by (simp add: upt_conv_Cons map_Suc_upt [symmetric] del: upt_Suc)
qed simp

lemma linked_from_append:
  "linked_from n h (xs @ ys) \<longleftrightarrow> linked_from n h xs \<and> linked_from (n + len xs) (tip_hash h xs) ys"
  by (induction xs arbitrary: n h) (auto simp: tip_hash_def len_def algebra_simps)

lemma linked_page:
  assumes "linked_from 0 h rs" and "0 \<le> a" and "a \<le> c" and "c \<le> len rs"
  shows "by_origin_sequence (filter (\<lambda>r. rem_origin_sequence r > a \<and> rem_origin_sequence r \<le> c) rs) =
    take (nat (c - a)) (drop (nat a) rs)"
proof -
  define xs ys zs where "xs = take (nat a) rs" "ys = take (nat (c - a)) (drop (nat a) rs)"
    "zs = drop (nat (c - a)) (drop (nat a) rs)"
  have rs: "rs = xs @ ys @ zs" by (simp add: xs_ys_zs_def del: drop_drop)
  have n: "len xs = a" "len ys = c - a" using assms(2-4) by (auto simp: xs_ys_zs_def len_def min_def)
  from assms(1) have l: "linked_from 0 h xs" "linked_from a (tip_hash h xs) ys"
    "linked_from c (tip_hash (tip_hash h xs) ys) zs"
    unfolding rs linked_from_append by (simp_all add: n)
  let ?f = "filter (\<lambda>r. rem_origin_sequence r > a \<and> rem_origin_sequence r \<le> c)"
  have "?f xs = []" using linked_from_bounds [OF l(1)] n by (fastforce simp: filter_empty_conv)
  moreover have "?f ys = ys" using linked_from_bounds [OF l(2)] n by (fastforce simp: filter_id_conv)
  moreover have "?f zs = []" using linked_from_bounds [OF l(3)] by (fastforce simp: filter_empty_conv)
  ultimately have "?f rs = ys" by (simp add: rs)
  moreover have "sorted_wrt (\<lambda>x y. \<not> rem_origin_sequence y < rem_origin_sequence x) ys"
  proof -
    have "sorted (map rem_origin_sequence ys)" unfolding linked_numbers [OF l(2)] by (simp add: sorted_wrt_map sorted_wrt_upt [THEN sorted_wrt_mono_rel [rotated]])
    then show ?thesis by (simp add: sorted_map not_less)
  qed
  ultimately show ?thesis by (simp add: by_origin_sequence_def order_by_sorted flip: xs_ys_zs_def(2))
qed

section \<open>What a relay retains\<close>

text \<open>The checks of the bundle verifier that do not depend on where the event stands.\<close>

definition event_sound :: "ext \<Rightarrow> string \<Rightarrow> origin_event \<Rightarrow> bool" where
  "event_sound X key e \<longleftrightarrow>
     \<not> isl (verify_origin_event X key 1 e \<lparr> bs_expected = oe_sequence e, bs_previous = Some (oe_previous_hash e) \<rparr>)"

lemma verify_origin_event_iff:
  "verify_origin_event X key f e s = Inr s' \<longleftrightarrow> event_sound X key e \<and> oe_sequence e = bs_expected s \<and>
     (case bs_previous s of Some p \<Rightarrow> oe_previous_hash e = p | None \<Rightarrow> f = 0 \<longrightarrow> oe_previous_hash e = zero_hash) \<and>
     s' = \<lparr> bs_expected = oe_sequence e + 1, bs_previous = Some (oe_event_hash e) \<rparr>"
proof -
  let ?v = "verify_origin_event X key 1 e \<lparr> bs_expected = oe_sequence e, bs_previous = Some (oe_previous_hash e) \<rparr>"
  have "event_sound X key e \<longleftrightarrow> (\<exists>s'. ?v = Inr s')"
    by (cases ?v) (simp_all add: event_sound_def)
  then have ev: "event_sound X key e \<longleftrightarrow>
      \<not> len (x_json_print X (oe_canonical e)) > MAX_CANONICAL_OBJECT_BYTES \<and>
      (\<exists>previous canonical_record canonical signature. decode_hash X Validation (oe_previous_hash e) = Inr previous \<and>
        canonical_origin_record X e = Inr canonical_record \<and>
        oe_event_hash e = x_hex_encode X (event_hash X previous canonical_record) \<and>
        x_jcs X (oe_canonical e) = Some canonical \<and> oe_event_id e = prefixed_id X ''cwevt_'' canonical \<and>
        signature_from_b64 X (oe_node_signature e) = Inr signature \<and>
        x_ed_verify X key (event_hash X previous canonical_record) signature)"
    by (simp add: verify_origin_event_def Let_def) blast
  show ?thesis
  proof
    assume v: "verify_origin_event X key f e s = Inr s'"
    then show "event_sound X key e \<and> oe_sequence e = bs_expected s \<and>
        (case bs_previous s of Some p \<Rightarrow> oe_previous_hash e = p | None \<Rightarrow> f = 0 \<longrightarrow> oe_previous_hash e = zero_hash) \<and>
        s' = \<lparr> bs_expected = oe_sequence e + 1, bs_previous = Some (oe_event_hash e) \<rparr>"
      unfolding ev by (cases "bs_previous s") (auto simp: verify_origin_event_def Let_def)
  next
    assume r: "event_sound X key e \<and> oe_sequence e = bs_expected s \<and>
        (case bs_previous s of Some p \<Rightarrow> oe_previous_hash e = p | None \<Rightarrow> f = 0 \<longrightarrow> oe_previous_hash e = zero_hash) \<and>
        s' = \<lparr> bs_expected = oe_sequence e + 1, bs_previous = Some (oe_event_hash e) \<rparr>"
    then show "verify_origin_event X key f e s = Inr s'"
      unfolding ev by (cases "bs_previous s") (auto simp: verify_origin_event_def Let_def)
  qed
qed

lemma bundle_events_sound:
  assumes "fold_result (verify_origin_event X key f) es s = Inr t" and "e \<in> set es"
  shows "event_sound X key e"
  using assms by (rule bundle_events_checked) (simp add: verify_origin_event_iff)

definition row_sound :: "ext \<Rightarrow> string \<Rightarrow> remote_event_row \<Rightarrow> bool" where
  "row_sound X key r = (case remote_origin_event_from_row X r of Inl _ \<Rightarrow> False | Inr e \<Rightarrow> event_sound X key e)"

text \<open>A chain of sound rows verifies from wherever the verifier comes to it.\<close>

lemma read_sound_rows:
  assumes "linked_from n h rs" and "\<forall>r\<in>set rs. row_sound X key r" and "p = Some h \<or> p = None \<and> (f = 0 \<longrightarrow> h = zero_hash)"
  obtains es t where "map_result (remote_origin_event_from_row X) rs = Inr es"
    "fold_result (verify_origin_event X key f) es \<lparr> bs_expected = n + 1, bs_previous = p \<rparr> = Inr t"
    "length es = length rs" "map oe_event_hash es = map rem_event_hash rs"
proof -
  have "\<exists>es t. map_result (remote_origin_event_from_row X) rs = Inr es \<and>
    fold_result (verify_origin_event X key f) es \<lparr> bs_expected = n + 1, bs_previous = p \<rparr> = Inr t \<and>
    map oe_event_hash es = map rem_event_hash rs"
    using assms
  proof (induction rs arbitrary: n h p)
    case (Cons r rs)
    then obtain e where e: "remote_origin_event_from_row X r = Inr e" "event_sound X key e"
      by (auto simp: row_sound_def split: sum.splits)
    from e(1) have f: "oe_sequence e = rem_origin_sequence r" "oe_previous_hash e = rem_previous_hash r"
      "oe_event_hash e = rem_event_hash r" by (auto simp: remote_origin_event_from_row_def)
    from Cons.prems f e(2) have v: "verify_origin_event X key f e \<lparr> bs_expected = n + 1, bs_previous = p \<rparr> =
        Inr \<lparr> bs_expected = n + 1 + 1, bs_previous = Some (rem_event_hash r) \<rparr>"
      unfolding verify_origin_event_iff by auto
    from Cons.IH [of "n + 1" "rem_event_hash r" "Some (rem_event_hash r)"] Cons.prems obtain es t where
      "map_result (remote_origin_event_from_row X) rs = Inr es"
      "fold_result (verify_origin_event X key f) es \<lparr> bs_expected = n + 1 + 1, bs_previous = Some (rem_event_hash r) \<rparr> = Inr t"
      "map oe_event_hash es = map rem_event_hash rs" by auto
    with e v f show ?case by (intro exI [of _ "e # es"] exI [of _ t]) simp
  qed simp
  then show thesis using that by (metis length_map)
qed

text \<open>The hash an origin has at a cursor, as far as its events are retained.\<close>

definition retained_hash :: "string \<Rightarrow> int \<Rightarrow> database \<Rightarrow> string option" where
  "retained_hash origin n db = (if n = 0 then Some zero_hash else map_option rem_event_hash (stored_event origin n db))"

definition checkpoint_sound :: "ext \<Rightarrow> peer_row \<Rightarrow> database \<Rightarrow> remote_checkpoint_row \<Rightarrow> bool" where
  "checkpoint_sound X p db k \<longleftrightarrow> 0 \<le> rcp_cursor k \<and> rcp_cursor k \<le> peer_cursor p \<and>
     (\<exists>c. from_text X (d_checkpoint X) (rcp_checkpoint_json k) = Inr c \<and>
        verify_checkpoint X c = Inr () \<and> cp_node_id c = peer_node_id p \<and>
        cp_node_public_key c = peer_node_public_key p \<and> cp_cursor c = rcp_cursor k \<and>
        retained_hash (peer_node_id p) (rcp_cursor k) db = Some (cp_event_hash c))"

text \<open>Sound rows under the origin's key, sound checkpoints, one of them at the head, and never more events
  between two of them than fit a bundle.\<close>

definition retained :: "ext \<Rightarrow> database \<Rightarrow> peer_row \<Rightarrow> bool" where
  "retained X db p \<longleftrightarrow>
     (\<exists>key. verifying_key_from_b64 X (peer_node_public_key p) = Inr key \<and>
        prefixed_id X ''cwnode_'' key = peer_node_id p \<and>
        (\<forall>r\<in>set (remote_log (peer_node_id p) db). row_sound X key r)) \<and>
     (\<forall>k\<in>set (checkpoints_of (peer_node_id p) db). checkpoint_sound X p db k) \<and>
     peer_cursor p \<in> rcp_cursor ` set (checkpoints_of (peer_node_id p) db) \<and>
     (\<forall>n\<ge>0. n < peer_cursor p \<longrightarrow> (\<exists>k\<in>set (checkpoints_of (peer_node_id p) db).
        n < rcp_cursor k \<and> rcp_cursor k \<le> n + int MAX_FEDERATION_EVENTS))"

definition relay_ok :: "ext \<Rightarrow> database \<Rightarrow> bool" where
  "relay_ok X db \<longleftrightarrow> peers_ok db \<and> (\<forall>p\<in>set (federation_peers db). retained X db p) \<and>
     rcp_origin_node_id ` set (remote_checkpoints db) \<subseteq> peer_node_id ` set (federation_peers db)"

section \<open>A relay can serve what it retains\<close>

lemma relay_through_ok:
  assumes r: "retained X db p" and a: "0 \<le> after" "after \<le> peer_cursor p"
    and e: "e = min (after + int (clamp_limit limit)) (peer_cursor p)"
  obtains through where "relay_through (peer_node_id p) after e (peer_cursor p) db = Inr through"
    "after \<le> through" "through \<le> peer_cursor p" "through - after \<le> int MAX_FEDERATION_EVENTS"
    "after < peer_cursor p \<Longrightarrow> after < through" "through \<in> rcp_cursor ` set (checkpoints_of (peer_node_id p) db)"
proof (cases "after = peer_cursor p")
  case True
  with r show thesis by (intro that [of after]) (simp_all add: relay_through_def retained_def)
next
  case False
  let ?cs = "map rcp_cursor (checkpoints_of (peer_node_id p) db)"
  have bound: "c \<le> peer_cursor p" if "c \<in> set ?cs" for c using r that by (auto simp: retained_def checkpoint_sound_def)
  have e': "e \<le> after + int MAX_FEDERATION_EVENTS"
    by (auto simp: e clamp_limit_def MAX_FEDERATION_EVENTS_def)
  have "\<forall>n\<ge>0. n < peer_cursor p \<longrightarrow> (\<exists>k\<in>set (checkpoints_of (peer_node_id p) db).
      n < rcp_cursor k \<and> rcp_cursor k \<le> n + int MAX_FEDERATION_EVENTS)" using r unfolding retained_def by (elim conjE)
  from this [rule_format, of after] a False obtain n where n: "n \<in> set ?cs" "after < n" "n \<le> after + int MAX_FEDERATION_EVENTS"
    by auto
  show thesis
  proof (cases "column_max (filter (\<lambda>c. c > after \<and> c \<le> e) ?cs)")
    case (Some c)
    from column_max_Some [OF this] bound e' Some False show thesis
      by (intro that [of c]) (auto simp: relay_through_def Let_def)
  next
    case None
    then obtain c where c: "column_min (filter (\<lambda>c. c > after) ?cs) = Some c"
      using n by (cases "column_min (filter (\<lambda>c. c > after) ?cs)") (auto simp: filter_empty_conv)
    from column_min_Some [OF c] n have "c \<in> set ?cs" "after < c" "c \<le> n" by auto
    moreover have "relay_through (peer_node_id p) after e (peer_cursor p) db = Inr c"
      using False by (simp add: relay_through_def Let_def None c del: column_None)
    ultimately show thesis using n bound by (intro that [of c]) auto
  qed
qed

lemma latest_checkpoint_exists:
  assumes "c \<in> rcp_cursor ` set (checkpoints_of origin db)"
  obtains k where "latest_checkpoint origin c db = Some k" "k \<in> set (checkpoints_of origin db)" "rcp_cursor k = c"
proof -
  let ?ks = "order_by (\<lambda>k l. rcp_imported_at k > rcp_imported_at l) (filter (\<lambda>k. rcp_cursor k = c) (checkpoints_of origin db))"
  have set: "set ?ks = {k \<in> set (checkpoints_of origin db). rcp_cursor k = c}" by simp
  obtain k0 where "k0 \<in> set ?ks" using assms unfolding set by blast
  then obtain k ks where k: "?ks = k # ks" by (cases ?ks) auto
  have "k \<in> set ?ks" unfolding k by simp
  with k show thesis unfolding set by (intro that [of k]) (auto simp: latest_checkpoint_def)
qed

lemma retained_hash_slice:
  assumes l: "linked_from 0 zero_hash (remote_log origin db)" and h: "retained_hash origin c db = Some hash"
    and a: "0 \<le> a" "a < c"
  shows "take (nat (c - a)) (drop (nat a) (remote_log origin db)) \<noteq> [] \<and>
    rem_event_hash (last (take (nat (c - a)) (drop (nat a) (remote_log origin db)))) = hash"
proof -
  let ?log = "remote_log origin db"
  from h a obtain r where r: "stored_event origin c db = Some r" "rem_event_hash r = hash"
    by (auto simp: retained_hash_def)
  from first_row_Some [OF r(1) [unfolded stored_event_def]]
  have in_log: "r \<in> set ?log" "rem_origin_sequence r = c" by (auto simp: remote_log_def)
  then obtain i where i: "i < length ?log" "?log ! i = r" by (auto simp: in_set_conv_nth)
  have "rem_origin_sequence (?log ! i) = int i + 1"
    using arg_cong [OF linked_numbers [OF l], of "\<lambda>xs. xs ! i"] i(1) by simp
  then have c: "c = int i + 1" using i in_log by simp
  define ys where "ys = take (nat (c - a)) (drop (nat a) ?log)"
  have n: "length ys = nat (c - a)" using i(1) a by (simp add: ys_def c)
  then have "ys \<noteq> []" using a by auto
  moreover have "last ys = ?log ! (nat a + (nat (c - a) - 1))"
    using n \<open>ys \<noteq> []\<close> i(1) a by (simp add: last_conv_nth ys_def c)
  moreover have "nat a + (nat (c - a) - 1) = i" using a c by auto
  ultimately show ?thesis using i r(2) by (simp add: ys_def)
qed

lemma relay_serves:
  assumes ok: "relay_ok X db" and p: "p \<in> set (federation_peers db)" and a: "0 \<le> after" "after \<le> peer_cursor p"
  obtains b where "relayed_federation_bundle X (peer_node_id p) after limit db = Inr b"
    "verify_bundle X b = Inr ()" "fb_origin_node_id b = peer_node_id p" "fb_from_cursor b = after"
    "fb_through_cursor b \<le> peer_cursor p" "after < peer_cursor p \<Longrightarrow> after < fb_through_cursor b"
    "map oe_event_hash (fb_events b) = map rem_event_hash
       (take (nat (fb_through_cursor b - after)) (drop (nat after) (remote_log (peer_node_id p) db)))"
proof -
  let ?o = "peer_node_id p" and ?log = "remote_log (peer_node_id p) db"
  from ok p have ret: "retained X db p" and pk: "peer_ok db p" and dist: "distinct (map peer_node_id (federation_peers db))"
    by (simp_all add: relay_ok_def peers_ok_def)
  have row: "first_row (\<lambda>q. peer_node_id q = ?o) (federation_peers db) = Some p" by (rule first_row_key [OF dist p refl])
  from pk have l: "linked_from 0 zero_hash ?log" "peer_cursor p = len ?log" by (simp_all add: peer_ok_def Let_def)
  obtain through where t: "relay_through ?o after (min (after + int (clamp_limit limit)) (peer_cursor p)) (peer_cursor p) db = Inr through"
    "after \<le> through" "through \<le> peer_cursor p" "through - after \<le> int MAX_FEDERATION_EVENTS"
    "after < peer_cursor p \<Longrightarrow> after < through" "through \<in> rcp_cursor ` set (checkpoints_of ?o db)"
    using relay_through_ok [OF ret a refl, of limit] by metis
  obtain k where k: "latest_checkpoint ?o through db = Some k" "k \<in> set (checkpoints_of ?o db)" "rcp_cursor k = through"
    using t(6) by (rule latest_checkpoint_exists)
  from ret k(2) have "checkpoint_sound X p db k" by (simp add: retained_def)
  with k(3) obtain c where c: "from_text X (d_checkpoint X) (rcp_checkpoint_json k) = Inr c" "verify_checkpoint X c = Inr ()"
    "cp_node_id c = ?o" "cp_node_public_key c = peer_node_public_key p" "cp_cursor c = through"
    "retained_hash ?o through db = Some (cp_event_hash c)"
    by (auto simp: checkpoint_sound_def)
  define rows where "rows = take (nat (through - after)) (drop (nat after) ?log)"
  have page: "by_origin_sequence (filter (\<lambda>r. rem_origin_node_id r = ?o \<and> rem_origin_sequence r > after \<and>
      rem_origin_sequence r \<le> through) (remote_events db)) = rows"
  proof -
    have "filter (\<lambda>r. rem_origin_node_id r = ?o \<and> rem_origin_sequence r > after \<and> rem_origin_sequence r \<le> through)
        (remote_events db) = filter (\<lambda>r. rem_origin_sequence r > after \<and> rem_origin_sequence r \<le> through) ?log"
      by (simp add: remote_log_def conj_commute conj_left_commute)
    with linked_page [OF l(1) a(1) t(2)] t(3) l(2) show ?thesis by (simp add: rows_def)
  qed
  obtain key where key: "verifying_key_from_b64 X (peer_node_public_key p) = Inr key"
    "prefixed_id X ''cwnode_'' key = ?o" "\<forall>r\<in>set ?log. row_sound X key r"
    using ret by (auto simp: retained_def)
  have "linked_from 0 zero_hash (take (nat after) ?log @ drop (nat after) ?log)" using l(1) by simp
  then have "linked_from after (tip_hash zero_hash (take (nat after) ?log)) (drop (nat after) ?log)"
    using a l(2) by (simp add: linked_from_append len_def del: append_take_drop_id)
  then have "linked_from after (tip_hash zero_hash (take (nat after) ?log)) (rows @ drop (nat (through - after)) (drop (nat after) ?log))"
    by (simp add: rows_def del: drop_drop)
  then have linked: "linked_from after (tip_hash zero_hash (take (nat after) ?log)) rows" by (simp add: linked_from_append)
  have sound: "\<forall>r\<in>set rows. row_sound X key r" using key(3) by (auto simp: rows_def dest: in_set_takeD in_set_dropD)
  have "after = 0 \<longrightarrow> tip_hash zero_hash (take (nat after) ?log) = zero_hash" by (simp add: tip_hash_def)
  then obtain es s where es: "map_result (remote_origin_event_from_row X) rows = Inr es"
    "fold_result (verify_origin_event X key after) es \<lparr> bs_expected = after + 1, bs_previous = None \<rparr> = Inr s"
    "length es = length rows" "map oe_event_hash es = map rem_event_hash rows"
    using read_sound_rows [OF linked sound, of None after] by metis
  have n: "length rows = nat (through - after)" using t(2,3) l(2) a by (simp add: rows_def len_def)
  have last: "cp_event_hash c = oe_event_hash (last es)" if "es \<noteq> []"
  proof -
    from that have "length es \<noteq> 0" by simp
    with es(3) n have "after < through" by arith
    from retained_hash_slice [OF l(1) c(6) a(1) this] have "rem_event_hash (last rows) = cp_event_hash c" by (simp add: rows_def)
    moreover have "oe_event_hash (last es) = rem_event_hash (last rows)"
      using that es(3,4) by (metis last_map length_0_conv)
    ultimately show ?thesis by simp
  qed
  let ?b = "\<lparr> fb_protocol = PROTOCOL_VERSION, fb_origin_node_id = ?o, fb_origin_node_public_key = peer_node_public_key p,
      fb_from_cursor = after, fb_through_cursor = through, fb_events = es, fb_checkpoint = c \<rparr>"
  have "verify_bundle X ?b = Inr ()"
    using a t(2,4) key(1,2) c es(2,3) n last
    by (auto simp: verify_bundle_def bundle_start_def len_def retained_hash_def)
  moreover from this have "relayed_federation_bundle X ?o after limit db = Inr ?b"
    using a row t(1) k(1) c(1) page es(1) by (simp add: relayed_federation_bundle_def Let_def)
  ultimately show thesis using t(3,5) es(4) by (intro that [of ?b]) (simp_all add: rows_def)
qed

section \<open>An import keeps what is needed to serve\<close>

text \<open>The values of a bundle survive being printed and read again.\<close>

definition wire_bundle :: "ext \<Rightarrow> federation_bundle \<Rightarrow> bool" where
  "wire_bundle X b \<longleftrightarrow>
     (\<forall>e\<in>set (fb_events b). x_json_parse X (x_json_print X (oe_canonical e)) = Some (oe_canonical e)) \<and>
     from_text X (d_checkpoint X) (checkpoint_text X (fb_checkpoint b)) = Inr (fb_checkpoint b)"

text \<open>It holds of every bundle read off the wire: the objects serde prints read back field by field, whatever
  order the reader's map keeps them in.\<close>

definition object_laws :: "ext \<Rightarrow> bool" where
  "object_laws X \<longleftrightarrow> (\<forall>fs. distinct (map fst fs) \<longrightarrow> list_all (\<lambda>f. json_safe (snd f)) fs \<longrightarrow>
     (\<exists>gs. x_json_parse X (x_json_print X (JObj fs)) = Some (JObj gs) \<and> distinct (map fst gs) \<and> set gs = set fs))"

lemma checkpoint_reads_back:
  assumes "object_laws X" and "time_laws X" and "wire_checkpoint c"
  shows "from_text X (d_checkpoint X) (checkpoint_text X c) = Inr c"
proof -
  let ?fs = "[(''node_id'', JStr (cp_node_id c)), (''node_public_key'', JStr (cp_node_public_key c)),
     (''cursor'', JInt (cp_cursor c)), (''event_hash'', JStr (cp_event_hash c)),
     (''created_at'', e_time X (cp_created_at c)), (''signature'', JStr (cp_signature c))]"
  have d: "distinct (map fst ?fs)" by simp
  have "list_all (\<lambda>f. json_safe (snd f)) ?fs" using assms(3) by (simp add: wire_checkpoint_def)
  with assms(1) d obtain gs where gs: "x_json_parse X (x_json_print X (JObj ?fs)) = Some (JObj gs)"
    "distinct (map fst gs)" "set gs = set ?fs" unfolding object_laws_def by blast
  have "map_of gs = map_of ?fs" by (rule map_of_inject_set [OF gs(2) d, THEN iffD2, OF gs(3)])
  then have req: "req dec k gs = req dec k ?fs" for dec :: "json \<Rightarrow> 'z option" and k by (simp only: req_def)
  have "struct_view [''node_id'', ''node_public_key'', ''cursor'', ''event_hash'', ''created_at'', ''signature''] (JObj gs) = Some gs"
    using gs(3) by (simp add: list_all_iff)
  then have "d_checkpoint X (JObj gs) = d_checkpoint X (JObj ?fs)" by (simp add: d_checkpoint_def req)
  also have "\<dots> = Some c" using assms(2,3) by (simp add: d_checkpoint_def wire_checkpoint_def abs_le_iff)
  finally show ?thesis using gs(1) by (simp add: checkpoint_text_def)
qed

lemma wire_bundle_safe:
  assumes "ext_laws X" and "object_laws X" and "wire_checkpoint (fb_checkpoint b)" and "\<forall>e\<in>set (fb_events b). json_safe (oe_canonical e)"
  shows "wire_bundle X b"
  using assms checkpoint_reads_back [of X] by (auto simp: wire_bundle_def ext_laws_def print_parse simp del: from_text_Inr)

lemma new_row_reads:
  "x_json_parse X (x_json_print X (oe_canonical e)) = Some (oe_canonical e) \<Longrightarrow>
   remote_origin_event_from_row X (new_remote_event X now origin nonce e) = Inr e"
  by (simp add: remote_origin_event_from_row_def new_remote_event_def)

lemma import_events_rows:
  "import_events X now detected origin known es s = Done t \<Longrightarrow>
   \<exists>news. remote_log origin (ims_db t) = remote_log origin (ims_db s) @ news \<and>
     (\<forall>r\<in>set news. \<exists>e\<in>set es. \<exists>nonce. r = new_remote_event X now origin nonce e)"
proof (induction es arbitrary: s)
  case (Cons e es)
  then obtain m where m: "import_event X now detected origin known e s = Done m"
    "import_events X now detected origin known es m = Done t" by auto
  have "\<exists>new. remote_log origin (ims_db m) = remote_log origin (ims_db s) @ new \<and>
     (\<forall>r\<in>set new. \<exists>nonce. r = new_remote_event X now origin nonce e)"
  proof (cases "oe_sequence e \<le> known")
    case True
    from m(1) True have "m = s" by (rule import_event_old)
    then show ?thesis by simp
  next
    case False
    then have "known < oe_sequence e" by simp
    with m(1) obtain nonce db1 where e: "validate_and_project_remote_event X origin e (ims_db s) = Inr (nonce, db1)"
      "m = \<lparr> ims_db = db1\<lparr>remote_events := remote_events db1 @ [new_remote_event X now origin nonce e]\<rparr>,
         ims_cursor = oe_sequence e, ims_hash = oe_event_hash e, ims_count = ims_count s + 1 \<rparr>"
      by (rule import_event_new)
    have "remote_events db1 = remote_events (ims_db s)"
      by (rule unaffected_tables(1) [OF unaffected_remote_event [OF e(1)]])
    then show ?thesis by (intro exI [of _ "[new_remote_event X now origin nonce e]"])
        (simp add: e(2) remote_log_def, simp add: new_remote_event_def)
  qed
  moreover from Cons.IH [OF m(2)] obtain news where "remote_log origin (ims_db t) = remote_log origin (ims_db m) @ news"
    "\<forall>r\<in>set news. \<exists>e\<in>set es. \<exists>nonce. r = new_remote_event X now origin nonce e" by blast
  ultimately show ?case by (metis append_assoc Un_iff list.set_intros set_append)
qed simp

definition new_checkpoint :: "ext \<Rightarrow> int \<Rightarrow> federation_bundle \<Rightarrow> remote_checkpoint_row" where
  "new_checkpoint X now b =
     (let c = fb_checkpoint b in \<lparr> rcp_origin_node_id = fb_origin_node_id b, rcp_cursor = cp_cursor c, rcp_event_hash = cp_event_hash c,
        rcp_created_at = millis (cp_created_at c), rcp_signature = cp_signature c,
        rcp_checkpoint_json = checkpoint_text X c, rcp_imported_at = millis now \<rparr>)"

lemma stored_checkpoints:
  assumes "finish_import X me now received b w known s = Inr (witness, db')"
  shows "set (remote_checkpoints (ims_db s)) \<subseteq> set (remote_checkpoints db')"
    and "set (remote_checkpoints db') \<subseteq> insert (new_checkpoint X now b) (set (remote_checkpoints (ims_db s)))"
    and "\<exists>k\<in>set (remote_checkpoints db'). rcp_origin_node_id k = fb_origin_node_id b \<and> rcp_cursor k = cp_cursor (fb_checkpoint b)"
proof -
  let ?clash = "\<lambda>r q. rcp_origin_node_id r = rcp_origin_node_id q \<and> rcp_cursor r = rcp_cursor q \<and> rcp_event_hash r = rcp_event_hash q"
  have "remote_checkpoints db' = remote_checkpoints (store_checkpoint X now b s)"
  proof (cases "should_witness known b")
    case False
    with assms show ?thesis by (simp add: finish_import_def Let_def)
  next
    case True
    with assms obtain witnessed d where d: "witness_checkpoint X me received b w (store_checkpoint X now b s) = Inr (witnessed, d)"
      "db' = note_import X now b known (ims_cursor s) witnessed d"
      by (auto simp: finish_import_def Let_def)
    from d(1) show ?thesis by (cases rule: witness_checkpoint_effect) (simp_all add: d(2) note_import_def)
  qed
  then have eq: "remote_checkpoints db' = insert_or_ignore ?clash (new_checkpoint X now b) (remote_checkpoints (ims_db s))"
    by (simp add: store_checkpoint_def new_checkpoint_def Let_def)
  show "set (remote_checkpoints (ims_db s)) \<subseteq> set (remote_checkpoints db')"
    "set (remote_checkpoints db') \<subseteq> insert (new_checkpoint X now b) (set (remote_checkpoints (ims_db s)))"
    by (auto simp: eq insert_or_ignore_def split: if_splits)
  show "\<exists>k\<in>set (remote_checkpoints db'). rcp_origin_node_id k = fb_origin_node_id b \<and> rcp_cursor k = cp_cursor (fb_checkpoint b)"
    by (auto simp: eq insert_or_ignore_def list_ex_iff new_checkpoint_def Let_def)
qed

text \<open>What a completed import did to the origin's events and checkpoints.\<close>

lemma import_retains:
  assumes ok: "peers_ok db" and run: "import_transaction X me now detected received b w db = Done (r, db')"
  obtains known news where "known = len (remote_log (fb_origin_node_id b) db)" "fb_from_cursor b \<le> known"
    "remote_log (fb_origin_node_id b) db' = remote_log (fb_origin_node_id b) db @ news"
    "\<forall>row\<in>set news. \<exists>e\<in>set (fb_events b). \<exists>nonce. row = new_remote_event X now (fb_origin_node_id b) nonce e"
    "set (remote_checkpoints db) \<subseteq> set (remote_checkpoints db')"
    "set (remote_checkpoints db') \<subseteq> insert (new_checkpoint X now b) (set (remote_checkpoints db))"
    "\<exists>k\<in>set (remote_checkpoints db'). rcp_origin_node_id k = fb_origin_node_id b \<and> rcp_cursor k = cp_cursor (fb_checkpoint b)"
    "(\<exists>p\<in>set (federation_peers db). peer_node_id p = fb_origin_node_id b \<and>
        peer_node_public_key p = fb_origin_node_public_key b \<and> peer_cursor p = known) \<or>
     fb_origin_node_id b \<notin> peer_node_id ` set (federation_peers db) \<and> known = 0"
  using run
proof (rule import_transaction_Done)
  fix known hash db0 s witness
  let ?o = "fb_origin_node_id b"
  assume o: "open_peer now b db = Inr (known, hash, db0)" and start: "fb_from_cursor b \<le> known"
    and s: "import_events X now detected ?o known (fb_events b)
       \<lparr> ims_db = db0, ims_cursor = known, ims_hash = hash, ims_count = 0 \<rparr> = Done s"
    and f: "finish_import X me now received b w known s = Inr (witness, db')"
  note inv0 = open_peer_importing [OF ok o]
  have inv: "importing ?o db0 s" by (rule import_events_importing [OF inv0 s])
  have log0: "remote_log ?o db0 = remote_log ?o db" by (rule open_peer_effect(1) [OF ok o])
  have known: "known = len (remote_log ?o db)" using inv0 log0 by (simp add: importing_def)
  have "remote_checkpoints (ims_db s) = remote_checkpoints db0"
    using inv by (auto simp: importing_def others_def unaffected_def dest: arg_cong [of _ _ remote_checkpoints])
  moreover have "remote_checkpoints db0 = remote_checkpoints db" using o by (cases rule: open_peer_Inr) simp_all
  ultimately have cps: "remote_checkpoints (ims_db s) = remote_checkpoints db" by simp
  have log': "remote_log ?o db' = remote_log ?o (ims_db s)" by (simp add: remote_log_def finish_import_effect(2) [OF f])
  obtain news where news: "remote_log ?o db' = remote_log ?o db @ news"
    "\<forall>row\<in>set news. \<exists>e\<in>set (fb_events b). \<exists>nonce. row = new_remote_event X now ?o nonce e"
    using import_events_rows [OF s] unfolding log' log0 [symmetric] by auto
  have "(\<exists>p\<in>set (federation_peers db). peer_node_id p = ?o \<and>
        peer_node_public_key p = fb_origin_node_public_key b \<and> peer_cursor p = known) \<or>
     ?o \<notin> peer_node_id ` set (federation_peers db) \<and> known = 0"
    using o
  proof (cases rule: open_peer_Inr)
    case (old p)
    moreover from old(1) o have "peer_node_public_key p = fb_origin_node_public_key b" by (simp add: open_peer_def)
    ultimately show ?thesis using first_row_Some [OF old(1)] by blast
  next
    case new
    then show ?thesis by auto
  qed
  with known start news stored_checkpoints [OF f, unfolded cps] show thesis by (intro that)
qed

lemma stored_event_log: "stored_event origin n db = first_row (\<lambda>r. rem_origin_sequence r = n) (remote_log origin db)"
proof -
  have "find P (filter Q xs) = find (\<lambda>x. Q x \<and> P x) xs" for P Q and xs :: "remote_event_row list"
    by (induction xs) auto
  then show ?thesis by (simp add: stored_event_def remote_log_def first_row_def)
qed

lemma retained_hash_grows:
  assumes "retained_hash origin n db = Some h" and "remote_log origin db' = remote_log origin db @ news"
  shows "retained_hash origin n db' = Some h"
  using assms by (auto simp: retained_hash_def stored_event_log split: if_splits)

lemma retained_cong:
  assumes "remote_log (peer_node_id p) db' = remote_log (peer_node_id p) db"
    and "checkpoints_of (peer_node_id p) db' = checkpoints_of (peer_node_id p) db"
  shows "retained X db' p = retained X db p"
proof -
  have h: "retained_hash (peer_node_id p) n db' = retained_hash (peer_node_id p) n db" for n
    using assms(1) by (simp add: retained_hash_def stored_event_log)
  show ?thesis unfolding retained_def checkpoint_sound_def h assms ..
qed

text \<open>Where the log of the origin ends after a completed import.\<close>

lemma import_cursor:
  assumes ok: "peers_ok db" and run: "import_transaction X me now detected received b w db = Done (r, db')"
    and known: "known = len (remote_log (fb_origin_node_id b) db)" and start: "fb_from_cursor b \<le> known"
    and news: "remote_log (fb_origin_node_id b) db' = remote_log (fb_origin_node_id b) db @ news"
      "\<forall>row\<in>set news. \<exists>e\<in>set (fb_events b). \<exists>nonce. row = new_remote_event X now (fb_origin_node_id b) nonce e"
  shows "fb_through_cursor b \<le> ir_current_cursor r" "known \<le> ir_current_cursor r"
    "ir_current_cursor r = known \<or> ir_current_cursor r = fb_through_cursor b"
proof -
  note k = completed_import_known [OF ok run]
  from k(1) obtain key t where v: "len (fb_events b) = fb_through_cursor b - fb_from_cursor b"
    "fold_result (verify_origin_event X key (fb_from_cursor b)) (fb_events b) (bundle_start (fb_from_cursor b)) = Inr t"
    by (rule verify_bundle_Inr)
  note cursor = completed_import_log(2) [OF ok run]
  show ge: "known \<le> ir_current_cursor r" by (simp add: cursor news(1) known len_def)
  show through: "fb_through_cursor b \<le> ir_current_cursor r"
  proof (cases "fb_events b = []")
    case True
    with v(1) start ge show ?thesis by simp
  next
    case False
    with k(4) [of "last (fb_events b)"] last_sequence(1) [OF k(1) False] show ?thesis by simp
  qed
  have bound: "oe_sequence e \<le> fb_through_cursor b" if "e \<in> set (fb_events b)" for e
  proof -
    from that obtain i where "i < length (fb_events b)" "fb_events b ! i = e" by (auto simp: in_set_conv_nth)
    with conjunct1 [OF bundle_sequences [OF v(2)], THEN arg_cong, of "\<lambda>l. l ! i"] v(1) show ?thesis
      by (simp add: bundle_start_def len_def)
  qed
  show "ir_current_cursor r = known \<or> ir_current_cursor r = fb_through_cursor b"
  proof (cases news rule: rev_cases)
    case Nil
    with cursor news(1) known show ?thesis by simp
  next
    case (snoc ns row)
    with completed_import_log(3) [OF ok run] news(1) cursor have "rem_origin_sequence row = ir_current_cursor r"
      by (simp add: linked_from_snoc len_def flip: append_assoc)
    moreover from news(2) snoc obtain e nonce where "e \<in> set (fb_events b)" "row = new_remote_event X now (fb_origin_node_id b) nonce e"
      by auto
    ultimately have "ir_current_cursor r \<le> fb_through_cursor b" using bound [of e] by (simp add: new_remote_event_def)
    with through show ?thesis by simp
  qed
qed

lemma import_retains_others:
  assumes "beyond_import origin db' = beyond_import origin db"
  shows "filter (\<lambda>p. peer_node_id p \<noteq> origin) (federation_peers db') = filter (\<lambda>p. peer_node_id p \<noteq> origin) (federation_peers db)"
    and "o' \<noteq> origin \<Longrightarrow> checkpoints_of o' db' = checkpoints_of o' db"
proof -
  show "filter (\<lambda>p. peer_node_id p \<noteq> origin) (federation_peers db') = filter (\<lambda>p. peer_node_id p \<noteq> origin) (federation_peers db)"
    using arg_cong [OF assms, of federation_peers] by (simp add: beyond_import_def)
  have "filter (\<lambda>c. rcp_origin_node_id c \<noteq> origin) (remote_checkpoints db') = filter (\<lambda>c. rcp_origin_node_id c \<noteq> origin) (remote_checkpoints db)"
    using arg_cong [OF assms, of remote_checkpoints] by (simp add: beyond_import_def)
  moreover assume "o' \<noteq> origin"
  then have "checkpoints_of o' d = filter (\<lambda>k. rcp_origin_node_id k = o') (filter (\<lambda>c. rcp_origin_node_id c \<noteq> origin) (remote_checkpoints d))" for d
    by (simp add: checkpoints_of_def) (metis (mono_tags, lifting))
  ultimately show "checkpoints_of o' db' = checkpoints_of o' db" by (simp only:)
qed

text \<open>The origin itself: what was retained of it before, and its new checkpoint.\<close>

lemma retained_before:
  assumes ok: "relay_ok X db" and key: "verifying_key_from_b64 X (peer_node_public_key p) = Inr key"
    and peer: "(\<exists>q\<in>set (federation_peers db). peer_node_id q = peer_node_id p \<and> peer_node_public_key q = peer_node_public_key p \<and>
        peer_cursor q = known) \<or> peer_node_id p \<notin> peer_node_id ` set (federation_peers db) \<and> known = 0"
    and known: "known = len (remote_log (peer_node_id p) db)" "known \<le> peer_cursor p"
  shows "\<forall>row\<in>set (remote_log (peer_node_id p) db). row_sound X key row"
    "\<forall>k\<in>set (checkpoints_of (peer_node_id p) db). checkpoint_sound X p db k"
    "known \<noteq> 0 \<Longrightarrow> known \<in> rcp_cursor ` set (checkpoints_of (peer_node_id p) db)"
    "0 \<le> n \<Longrightarrow> n < known \<Longrightarrow> \<exists>k\<in>set (checkpoints_of (peer_node_id p) db). n < rcp_cursor k \<and> rcp_cursor k \<le> n + int MAX_FEDERATION_EVENTS"
proof -
  have "(\<forall>row\<in>set (remote_log (peer_node_id p) db). row_sound X key row) \<and>
      (\<forall>k\<in>set (checkpoints_of (peer_node_id p) db). checkpoint_sound X p db k) \<and>
      (known \<noteq> 0 \<longrightarrow> known \<in> rcp_cursor ` set (checkpoints_of (peer_node_id p) db)) \<and>
      (\<forall>n\<ge>0. n < known \<longrightarrow> (\<exists>k\<in>set (checkpoints_of (peer_node_id p) db). n < rcp_cursor k \<and> rcp_cursor k \<le> n + int MAX_FEDERATION_EVENTS))"
    using peer
  proof (elim disjE bexE conjE)
    fix q assume q: "q \<in> set (federation_peers db)" "peer_node_id q = peer_node_id p"
      "peer_node_public_key q = peer_node_public_key p" "peer_cursor q = known"
    then have "retained X db q" using ok by (simp add: relay_ok_def)
    moreover have "checkpoint_sound X q db k \<Longrightarrow> checkpoint_sound X p db k" for k
      using known(2) q by (auto simp: checkpoint_sound_def)
    ultimately show ?thesis using q key by (simp add: retained_def)
  next
    assume none: "peer_node_id p \<notin> peer_node_id ` set (federation_peers db)" and 0: "known = 0"
    have "rcp_origin_node_id k \<in> peer_node_id ` set (federation_peers db)" if "k \<in> set (remote_checkpoints db)" for k
      using ok that unfolding relay_ok_def by (elim conjE subsetD) simp
    with none have "rcp_origin_node_id k \<noteq> peer_node_id p" if "k \<in> set (remote_checkpoints db)" for k using that by metis
    then have "checkpoints_of (peer_node_id p) db = []" by (simp add: checkpoints_of_def filter_empty_conv)
    moreover from 0 known(1) have "remote_log (peer_node_id p) db = []" by (simp add: len_def)
    ultimately show ?thesis using 0 by simp
  qed
  then show "\<forall>row\<in>set (remote_log (peer_node_id p) db). row_sound X key row"
    "\<forall>k\<in>set (checkpoints_of (peer_node_id p) db). checkpoint_sound X p db k"
    "known \<noteq> 0 \<Longrightarrow> known \<in> rcp_cursor ` set (checkpoints_of (peer_node_id p) db)"
    "0 \<le> n \<Longrightarrow> n < known \<Longrightarrow> \<exists>k\<in>set (checkpoints_of (peer_node_id p) db). n < rcp_cursor k \<and> rcp_cursor k \<le> n + int MAX_FEDERATION_EVENTS"
    by (elim conjE; simp)+
qed

lemma new_checkpoint_sound:
  assumes v: "verify_bundle X b = Inr ()" and wire: "wire_bundle X b" and c: "check_checkpoint X detected b db = Done ()"
    and p: "peer_node_id p = fb_origin_node_id b" "peer_node_public_key p = fb_origin_node_public_key b" "fb_through_cursor b \<le> peer_cursor p"
  shows "checkpoint_sound X p db (new_checkpoint X now b)"
proof -
  have "retained_hash (fb_origin_node_id b) (cp_cursor (fb_checkpoint b)) db = Some (cp_event_hash (fb_checkpoint b))"
    using c by (auto simp: check_checkpoint_def retained_hash_def Let_def split: if_splits)
  then show ?thesis using wire v p
    by (auto simp: checkpoint_sound_def new_checkpoint_def Let_def wire_bundle_def verify_bundle_def)
qed

lemma import_retains_origin:
  assumes ok: "relay_ok X db" and wire: "wire_bundle X b"
    and run: "import_transaction X me now detected received b w db = Done (r, db')"
    and p: "peer_node_id p = fb_origin_node_id b" "peer_node_public_key p = fb_origin_node_public_key b" "peer_cursor p = ir_current_cursor r"
  shows "retained X db' p"
proof -
  let ?o = "peer_node_id p"
  from ok have pk: "peers_ok db" by (simp add: relay_ok_def)
  note fin = completed_import_known [OF pk run]
  from fin(1) obtain key t where v: "verifying_key_from_b64 X (peer_node_public_key p) = Inr key"
    "prefixed_id X ''cwnode_'' key = ?o" "cp_cursor (fb_checkpoint b) = fb_through_cursor b" "0 \<le> fb_from_cursor b"
    "len (fb_events b) = fb_through_cursor b - fb_from_cursor b" "length (fb_events b) \<le> MAX_FEDERATION_EVENTS"
    "fold_result (verify_origin_event X key (fb_from_cursor b)) (fb_events b) (bundle_start (fb_from_cursor b)) = Inr t"
    unfolding p by (rule verify_bundle_Inr)
  from pk run obtain known news where i: "known = len (remote_log (fb_origin_node_id b) db)" "fb_from_cursor b \<le> known"
    "remote_log (fb_origin_node_id b) db' = remote_log (fb_origin_node_id b) db @ news"
    "\<forall>row\<in>set news. \<exists>e\<in>set (fb_events b). \<exists>nonce. row = new_remote_event X now (fb_origin_node_id b) nonce e"
    and cps: "set (remote_checkpoints db) \<subseteq> set (remote_checkpoints db')"
      "set (remote_checkpoints db') \<subseteq> insert (new_checkpoint X now b) (set (remote_checkpoints db))"
      "\<exists>k\<in>set (remote_checkpoints db'). rcp_origin_node_id k = fb_origin_node_id b \<and> rcp_cursor k = cp_cursor (fb_checkpoint b)"
    and peer: "(\<exists>p\<in>set (federation_peers db). peer_node_id p = fb_origin_node_id b \<and>
        peer_node_public_key p = fb_origin_node_public_key b \<and> peer_cursor p = known) \<or>
      fb_origin_node_id b \<notin> peer_node_id ` set (federation_peers db) \<and> known = 0"
    by (rule import_retains)
  note cursor = import_cursor [OF pk run i]
  have known: "known \<le> peer_cursor p" using cursor(2) p(3) by simp
  note i = i [folded p(1)] and old = retained_before [OF ok v(1) peer [folded p(1,2)] i(1) [folded p(1)] known]
  have "row_sound X key row" if "row \<in> set news" for row
  proof -
    from that i(4) obtain e nonce where e: "e \<in> set (fb_events b)" "row = new_remote_event X now ?o nonce e" by blast
    from e wire have "remote_origin_event_from_row X row = Inr e" by (simp add: wire_bundle_def new_row_reads)
    with bundle_events_sound [OF v(7) e(1)] show ?thesis by (simp add: row_sound_def)
  qed
  with old(1) i(3) have rows: "\<forall>row\<in>set (remote_log ?o db'). row_sound X key row" by auto
  have through: "fb_through_cursor b \<le> peer_cursor p" "0 \<le> fb_through_cursor b" using cursor(1) p(3) v(4,5) by (simp_all add: len_def)
  have sound: "checkpoint_sound X p db' k" if "k \<in> set (checkpoints_of ?o db')" for k
  proof (cases "k = new_checkpoint X now b")
    case True
    then show ?thesis using new_checkpoint_sound [OF fin(1) wire fin(5) p(1,2) through(1)] by simp
  next
    case False
    with that cps(2) have "k \<in> set (checkpoints_of ?o db)" by (auto simp: checkpoints_of_def)
    with old(2) have "checkpoint_sound X p db k" by blast
    then show ?thesis using retained_hash_grows [OF _ i(3)] by (auto simp: checkpoint_sound_def)
  qed
  have sub: "set (checkpoints_of ?o db) \<subseteq> set (checkpoints_of ?o db')" using cps(1) by (auto simp: checkpoints_of_def)
  obtain k0 where k0: "k0 \<in> set (checkpoints_of ?o db')" "rcp_cursor k0 = fb_through_cursor b"
    using cps(3) v(3) p(1) by (auto simp: checkpoints_of_def)
  have head: "peer_cursor p \<in> rcp_cursor ` set (checkpoints_of ?o db')"
  proof (cases "peer_cursor p = fb_through_cursor b")
    case True
    then show ?thesis using k0 by force
  next
    case False
    with cursor(3) p(3) through have "peer_cursor p = known" "known \<noteq> 0" by auto
    with old(3) sub show ?thesis by auto
  qed
  have gaps: "\<exists>k\<in>set (checkpoints_of ?o db'). n < rcp_cursor k \<and> rcp_cursor k \<le> n + int MAX_FEDERATION_EVENTS"
    if n: "0 \<le> n" "n < peer_cursor p" for n
  proof (cases "n < known")
    case True
    with old(4) [OF n(1)] sub show ?thesis by blast
  next
    case False
    with n p(3) cursor(3) have "n < fb_through_cursor b" by auto
    moreover have "fb_through_cursor b \<le> n + int MAX_FEDERATION_EVENTS" using v(5,6) i(2) False by (simp add: len_def)
    ultimately show ?thesis using k0 by (intro bexI [of _ k0]) simp_all
  qed
  show ?thesis unfolding retained_def using v(1,2) rows sound head gaps by auto
qed

lemma import_keeps_relay:
  assumes ok: "relay_ok X db" and wire: "wire_bundle X b"
    and run: "import_transaction X me now detected received b w db = Done (r, db')"
  shows "relay_ok X db'"
proof -
  let ?o = "fb_origin_node_id b"
  from ok have pk: "peers_ok db" by (simp add: relay_ok_def)
  have pk': "peers_ok db'" by (rule completed_import_peers [OF pk run])
  from pk run have beyond: "beyond_import ?o db' = beyond_import ?o db" by (rule completed_import)
  note others = import_retains_others [OF beyond]
  from completed_import_peer [OF pk run] obtain q where
    q: "first_row (\<lambda>p. peer_node_id p = ?o) (federation_peers db') = Some q" "peer_node_public_key q = fb_origin_node_public_key b"
    "peer_cursor q = ir_current_cursor r" by blast
  note q' = first_row_Some [OF q(1)]
  have "retained X db' p" if p: "p \<in> set (federation_peers db')" for p
  proof (cases "peer_node_id p = ?o")
    case True
    with p q' pk' have "p = q" unfolding peers_ok_def by (auto simp: distinct_map inj_on_def)
    then show ?thesis using import_retains_origin [OF ok wire run _ q(2,3)] q' by blast
  next
    case False
    then have "p \<in> set (filter (\<lambda>p. peer_node_id p \<noteq> ?o) (federation_peers db'))" using p by simp
    then have "p \<in> set (federation_peers db)" unfolding others(1) by simp
    then have "retained X db p" using ok by (simp add: relay_ok_def)
    then show ?thesis
      using retained_cong [OF completed_import_log(4) [OF pk run False] others(2) [OF False]] by simp
  qed
  moreover have "rcp_origin_node_id k \<in> peer_node_id ` set (federation_peers db')" if k: "k \<in> set (remote_checkpoints db')" for k
  proof (cases "rcp_origin_node_id k = ?o")
    case True
    then show ?thesis using q' by force
  next
    case False
    have "k \<in> set (checkpoints_of (rcp_origin_node_id k) db)" using k unfolding others(2) [OF False, symmetric] by (simp add: checkpoints_of_def)
    with ok have "rcp_origin_node_id k \<in> peer_node_id ` set (federation_peers db)"
      unfolding relay_ok_def by (elim conjE subsetD) (simp add: checkpoints_of_def)
    then obtain p where "p \<in> set (filter (\<lambda>p. peer_node_id p \<noteq> ?o) (federation_peers db))" "peer_node_id p = rcp_origin_node_id k"
      using False by auto
    then show ?thesis unfolding others(1) [symmetric] by force
  qed
  ultimately show ?thesis using pk' unfolding relay_ok_def by blast
qed

lemma relay_ok_evidence: "relay_ok X (db\<lparr>equivocation_evidence := x\<rparr>) = relay_ok X db"
  by (simp add: relay_ok_def peers_ok_def peer_ok_def retained_def checkpoint_sound_def retained_hash_def stored_event_def
      remote_log_def checkpoints_of_def Let_def)

lemma evidence_keeps_relay: "evidence_added db db' \<Longrightarrow> relay_ok X db' = relay_ok X db"
  by (metis evidence_added_def relay_ok_evidence)

lemma refused_import_keeps_relay:
  assumes "relay_ok X db" and "import_federation_bundle X me observed now detected received b db = (Inl e, db')"
  shows "relay_ok X db'"
proof -
  from assms(2) have "db' = db \<or> evidence_added db db'"
    using import_transaction_committed
    by (auto simp: import_federation_bundle_def db_import_federation_bundle_def end_transaction_def
        split: sum.splits outcome.splits)
  with assms(1) evidence_keeps_relay show ?thesis by blast
qed

section \<open>Properties\<close>

text \<open>C18: history travels through relays.  From any state in which a relay can serve what it retains, an
  import of whatever bundle, accepted or refused, leads to such a state again; and in such a state a
  request for the history of any origin the relay follows, from any cursor up to where its copy ends, is
  answered with a bundle that passes the verification of every other node, makes progress unless the
  request was at the end already, and carries the events the relay was given.\<close>

theorem relay_passes_history_on:
  assumes "relay_ok X db" and "wire_bundle X b"
    and "import_federation_bundle X me observed now detected received b db = (res, db')"
  shows "relay_ok X db' \<and> (\<forall>p\<in>set (federation_peers db'). \<forall>after limit. 0 \<le> after \<and> after \<le> peer_cursor p \<longrightarrow>
    (\<exists>page. relayed_federation_bundle X (peer_node_id p) after limit db' = Inr page \<and> verify_bundle X page = Inr () \<and>
       fb_origin_node_id page = peer_node_id p \<and> fb_from_cursor page = after \<and> fb_through_cursor page \<le> peer_cursor p \<and>
       (after < peer_cursor p \<longrightarrow> after < fb_through_cursor page) \<and>
       map oe_event_hash (fb_events page) = map rem_event_hash
         (take (nat (fb_through_cursor page - after)) (drop (nat after) (remote_log (peer_node_id p) db')))))"
proof -
  have ok: "relay_ok X db'"
  proof (cases res)
    case (Inr r)
    with assms(3) obtain w where "import_transaction X me now detected received b w db = Done (r, db')"
      by (auto elim: import_bundle_Inr)
    then show ?thesis by (rule import_keeps_relay [OF assms(1,2)])
  next
    case (Inl e)
    with assms(1,3) refused_import_keeps_relay show ?thesis by blast
  qed
  have "\<exists>page. relayed_federation_bundle X (peer_node_id p) after limit db' = Inr page \<and> verify_bundle X page = Inr () \<and>
       fb_origin_node_id page = peer_node_id p \<and> fb_from_cursor page = after \<and> fb_through_cursor page \<le> peer_cursor p \<and>
       (after < peer_cursor p \<longrightarrow> after < fb_through_cursor page) \<and>
       map oe_event_hash (fb_events page) = map rem_event_hash
         (take (nat (fb_through_cursor page - after)) (drop (nat after) (remote_log (peer_node_id p) db')))"
    if "p \<in> set (federation_peers db')" "0 \<le> after \<and> after \<le> peer_cursor p" for p after limit
    using relay_serves [OF ok that(1) conjunct1 [OF that(2)] conjunct2 [OF that(2)], of limit] by metis
  with ok show ?thesis by blast
qed

lemma demo_objects: "object_laws demo_ext"
  by (simp add: object_laws_def demo_ext_def demo_parse_print del: demo_print.simps)

lemma demo_offer_safe: "(case demo_offer 0 of Inl _ \<Rightarrow> False | Inr b \<Rightarrow> list_all (\<lambda>e. json_safe (oe_canonical e)) (fb_events b))"
  by code_simp

theorem relay_passes_history_on_witness:
  "\<exists>b r db p page. demo_import b empty_database = (Inr r, db) \<and> p \<in> set (federation_peers db) \<and> peer_cursor p = 1 \<and>
     relayed_federation_bundle demo_ext (peer_node_id p) 0 10 db = Inr page \<and> verify_bundle demo_ext page = Inr () \<and>
     fb_through_cursor page = 1"
proof -
  obtain b r db where b: "demo_offer 0 = Inr b" "wire_checkpoint (fb_checkpoint b)"
    and i: "demo_import b empty_database = (Inr r, db)" "ir_imported_events r = 1"
    by (rule demo_import_run)
  have wire: "wire_bundle demo_ext b"
    using demo_offer_safe by (intro wire_bundle_safe demo_laws demo_objects b(2)) (simp add: b(1) list_all_iff)
  from i(1) [unfolded demo_import_def] obtain w where
    run: "import_transaction demo_ext demo_relay 3 4 5 b w empty_database = Done (r, db)" by (rule import_bundle_Inr)
  have "ir_current_cursor r = 1"
    using completed_import_log(1,2) [OF demo_empty(1) run] i(2) by (auto simp: remote_log_def len_def)
  with completed_import_peer [OF demo_empty(1) run] obtain p where p: "p \<in> set (federation_peers db)" "peer_cursor p = 1"
    by (auto dest: first_row_Some)
  have "relay_ok demo_ext empty_database" by (simp add: relay_ok_def demo_empty)
  from conjunct2 [OF relay_passes_history_on [OF this wire i(1) [unfolded demo_import_def]], rule_format, OF p(1), of 0 10]
  obtain page where "relayed_federation_bundle demo_ext (peer_node_id p) 0 10 db = Inr page" "verify_bundle demo_ext page = Inr ()"
    "fb_through_cursor page = 1" by (auto simp: p(2))
  with i(1) p show ?thesis by blast
qed

end
