(* ===== verification/Stories.thy ===== *)
theory Stories
  imports Relay Observation "HOL-Library.Multiset"
begin

text \<open>
  What a reader of the node is shown: the views of stories, local and imported, with their stage, the
  feed, the stories changed between two cursors and the orientation of a lineage
  (\<^verbatim>\<open>src/src/db.rs\<close>, \<open>orient\<close> and \<open>pulse\<close> of \<^verbatim>\<open>src/src/service.rs\<close>).  The constant notices of the
  answers are left out.
\<close>

section \<open>Views\<close>

record observation_view =
  obv_observation_id :: string
  obv_source_id :: string
  obv_source_name :: string
  obv_canonical_url :: string
  obv_title :: string
  obv_summary :: string
  obv_published_at :: "int option"
  obv_retrieved_at :: int
  obv_language :: "string option"
  obv_document_hash :: string
  obv_corroborated_count :: int
  obv_disputed_count :: int
  obv_untraced_corroborated_count :: int
  obv_untraced_disputed_count :: int

record assessment_view =
  asv_assessor_lineage_id :: string
  asv_assessor_display_name :: string
  asv_event_id :: string
  asv_summary :: string
  asv_significance :: string
  asv_confidence :: string
  asv_perspective :: string
  asv_claims :: "claim list"
  asv_evidence :: "evidence_ref list"
  asv_reporting :: reporting_declaration
  asv_created_at :: int

record story_view =
  stv_story_id :: string
  stv_title :: string
  stv_first_seen_at :: int
  stv_stage :: string
  stv_observations :: "observation_view list"
  stv_assessments :: "assessment_view list"
  stv_related_events :: "event_view list"

record federated_story_view =
  fsv_origin_node_id :: string
  fsv_story_id :: string
  fsv_title :: string
  fsv_first_seen_at :: int
  fsv_stage :: string
  fsv_observations :: "observation_view list"
  fsv_assessments :: "assessment_view list"
  fsv_related_events :: "origin_event list"

definition story_stage :: "int \<Rightarrow> nat \<Rightarrow> int \<Rightarrow> string" where
  "story_stage distinct_sources assessment_count verification_count =
     (if distinct_sources \<ge> 2 \<and> assessment_count \<ge> 2 \<and> verification_count \<ge> 2 then ''brief''
      else if assessment_count = 0 \<and> verification_count = 0 then ''raw''
      else ''developing'')"

definition reporting_from_canonical :: "ext \<Rightarrow> string \<Rightarrow> reporting_declaration result" where
  "reporting_from_canonical X canonical =
     and_then (from_text X (d_signed_contribution X) canonical) (\<lambda>c. Inr (sc_reporting c))"

text \<open>\<open>json_each\<close> over a column that holds an array of strings, as the verified columns of the log do.\<close>

definition json_texts :: "ext \<Rightarrow> string \<Rightarrow> string list" where
  "json_texts X text = (case x_json_parse X text of
       Some (JArr vs) \<Rightarrow> List.map_filter d_str vs
     | _ \<Rightarrow> [])"

definition story_event_kinds :: "string list" where
  "story_event_kinds = [''story_link'', ''correction'', ''perspective_gap'', ''translation'']"

text \<open>\<open>SUM(CASE WHEN ... THEN 1 ELSE 0 END)\<close> over the verifications of an observation: the outcome, and
  whether the event joined to the verification reports traceably.\<close>

definition verifications_counted :: "ext \<Rightarrow> database \<Rightarrow> string \<Rightarrow> string \<Rightarrow> bool \<Rightarrow> int" where
  "verifications_counted X db observation_id outcome_text trace =
     count_rows (\<lambda>v. ver_observation_id v = observation_id \<and> ver_outcome v = outcome_text \<and>
       traced X db (ver_event_id v) = trace) (observation_verifications db)"

definition view_of_observation :: "ext \<Rightarrow> database \<Rightarrow> observation_row \<times> source_row \<Rightarrow> observation_view" where
  "view_of_observation X db = (\<lambda>(ob, s).
     let n = verifications_counted X db (obs_observation_id ob) in
     \<lparr> obv_observation_id = obs_observation_id ob, obv_source_id = obs_source_id ob, obv_source_name = src_name s,
       obv_canonical_url = obs_canonical_url ob, obv_title = obs_title ob, obv_summary = obs_summary ob,
       obv_published_at = obs_published_at ob, obv_retrieved_at = obs_retrieved_at ob,
       obv_language = obs_language ob, obv_document_hash = obs_document_hash ob,
       obv_corroborated_count = n ''corroborated'' True, obv_disputed_count = n ''disputed'' True,
       obv_untraced_corroborated_count = n ''corroborated'' False, obv_untraced_disputed_count = n ''disputed'' False \<rparr>)"

text \<open>The observations linked to a story, with their links; an observation identifier is a key of both tables.\<close>

definition linked_rows :: "string \<Rightarrow> database \<Rightarrow> (story_observation_row \<times> observation_row) list" where
  "linked_rows story_id db = concat (map (\<lambda>so. map (Pair so)
       (filter (\<lambda>ob. obs_observation_id ob = sob_observation_id so) (observations db)))
     (filter (\<lambda>so. sob_story_id so = story_id) (story_observations db)))"

definition story_observation_views :: "ext \<Rightarrow> database \<Rightarrow> string \<Rightarrow> observation_view list" where
  "story_observation_views X db story_id = map (view_of_observation X db)
     (order_by (\<lambda>a b. obs_retrieved_at (fst a) < obs_retrieved_at (fst b))
       (concat (map (\<lambda>(so, ob). map (Pair ob) (filter (\<lambda>s. src_source_id s = obs_source_id ob) (sources db)))
         (linked_rows story_id db))))"

definition distinct_sources_of :: "ext \<Rightarrow> database \<Rightarrow> string \<Rightarrow> int" where
  "distinct_sources_of X db story_id = count_distinct (\<lambda>(so, ob). obs_source_id ob)
     (filter (\<lambda>(so, ob). case sob_linked_event_id so of None \<Rightarrow> True | Some e \<Rightarrow> traced X db e)
       (linked_rows story_id db))"

definition view_of_assessment :: "ext \<Rightarrow> assessment_row \<times> lineage_row \<times> event_row \<Rightarrow> assessment_view result" where
  "view_of_assessment X = (\<lambda>(a, l, e).
     and_then (reporting_from_canonical X (ev_canonical_json e)) (\<lambda>reporting.
       Inr \<lparr> asv_assessor_lineage_id = ass_assessor_lineage_id a, asv_assessor_display_name = lin_display_name l,
         asv_event_id = ass_event_id a, asv_summary = ass_summary a, asv_significance = ass_significance a,
         asv_confidence = ass_confidence a, asv_perspective = ass_perspective a, asv_claims = ass_claims a,
         asv_evidence = ass_evidence a, asv_reporting = reporting, asv_created_at = ass_created_at a \<rparr>))"

definition story_assessments :: "string \<Rightarrow> database \<Rightarrow> (assessment_row \<times> lineage_row \<times> event_row) list" where
  "story_assessments story_id db = order_by (\<lambda>a b. ass_created_at (fst a) < ass_created_at (fst b))
     (concat (map (\<lambda>a. concat (map (\<lambda>l. map (\<lambda>e. (a, l, e))
         (filter (\<lambda>e. ev_event_id e = ass_event_id a) (events db)))
       (filter (\<lambda>l. lin_lineage_id l = ass_assessor_lineage_id a) (lineages db))))
     (filter (\<lambda>a. ass_story_id a = story_id) (assessments db))))"

definition traceable_count :: "assessment_view list \<Rightarrow> nat" where
  "traceable_count as = length (filter (\<lambda>a. is_traceable (asv_reporting a)) as)"

definition related_story_events :: "ext \<Rightarrow> database \<Rightarrow> string \<Rightarrow> event_view list result" where
  "related_story_events X db story_id = map_result (event_view_of X)
     (filter (\<lambda>e. ev_kind e \<in> set story_event_kinds \<and> story_id \<in> set (json_texts X (ev_targets_json e))) (events db))"

definition total_verifications :: "observation_view list \<Rightarrow> int" where
  "total_verifications obs = sum_list (map (\<lambda>v. obv_corroborated_count v + obv_disputed_count v) obs)"

definition story_view_of :: "ext \<Rightarrow> database \<Rightarrow> string \<Rightarrow> story_view result" where
  "story_view_of X db story_id =
     and_then (ok_or (first_row (\<lambda>s. sto_story_id s = story_id \<and> sto_merged_into s = None) (stories db)) NotFound) (\<lambda>header.
     let obs = story_observation_views X db story_id in
     and_then (map_result (view_of_assessment X) (story_assessments story_id db)) (\<lambda>as.
     and_then (related_story_events X db story_id) (\<lambda>related.
       Inr \<lparr> stv_story_id = story_id, stv_title = sto_title header, stv_first_seen_at = sto_first_seen_at header,
         stv_stage = story_stage (distinct_sources_of X db story_id) (traceable_count as) (total_verifications obs),
         stv_observations = obs, stv_assessments = as, stv_related_events = related \<rparr>)))"

section \<open>Changes and the feed\<close>

definition story_changes :: "ext \<Rightarrow> database \<Rightarrow> (string \<times> int) list" where
  "story_changes X db =
     map (\<lambda>s. (sto_story_id s, sto_created_sequence s)) (filter (\<lambda>s. sto_merged_into s = None) (stories db)) @
     concat (map (\<lambda>ob. map (\<lambda>so. (sob_story_id so, obs_created_sequence ob))
       (filter (\<lambda>so. sob_observation_id so = obs_observation_id ob) (story_observations db))) (observations db)) @
     concat (map (\<lambda>a. map (\<lambda>e. (ass_story_id a, ev_sequence e))
       (filter (\<lambda>e. ev_event_id e = ass_event_id a) (events db))) (assessments db)) @
     concat (map (\<lambda>v. concat (map (\<lambda>e. map (\<lambda>so. (sob_story_id so, ev_sequence e))
         (filter (\<lambda>so. sob_observation_id so = ver_observation_id v) (story_observations db)))
       (filter (\<lambda>e. ev_event_id e = ver_event_id v) (events db)))) (observation_verifications db)) @
     concat (map (\<lambda>e. concat (map (\<lambda>t. map (\<lambda>s. (sto_story_id s, ev_sequence e))
         (filter (\<lambda>s. sto_story_id s = t) (stories db))) (json_texts X (ev_targets_json e))))
       (filter (\<lambda>e. ev_kind e \<in> set story_event_kinds) (events db)))"

definition changed_story_ids :: "ext \<Rightarrow> database \<Rightarrow> int \<Rightarrow> int \<Rightarrow> string list" where
  "changed_story_ids X db after through = order_by str_less
     (remdups (map fst (filter (\<lambda>(i, n). n > after \<and> n \<le> through) (story_changes X db))))"

definition stories_changed_between :: "ext \<Rightarrow> database \<Rightarrow> int \<Rightarrow> int \<Rightarrow> story_view list result" where
  "stories_changed_between X db after through = map_result (story_view_of X db) (changed_story_ids X db after through)"

record feed_page =
  fdp_stories :: "story_view list"
  fdp_after :: int
  fdp_next_cursor :: int
  fdp_has_more :: bool

definition feed_rows :: "database \<Rightarrow> int \<Rightarrow> story_row list" where
  "feed_rows db after = order_by (\<lambda>s t. sto_created_sequence s < sto_created_sequence t)
     (filter (\<lambda>s. sto_merged_into s = None \<and> sto_created_sequence s > after) (stories db))"

definition feed :: "ext \<Rightarrow> database \<Rightarrow> int \<Rightarrow> nat \<Rightarrow> string option \<Rightarrow> feed_page result" where
  "feed X db after limit stage =
     (let ids = take (limit + 1) (feed_rows db after); kept = take limit ids in
      and_then (map_result (\<lambda>s. story_view_of X db (sto_story_id s)) kept) (\<lambda>views.
        Inr \<lparr> fdp_stories = filter (\<lambda>v. case stage of None \<Rightarrow> True | Some wanted \<Rightarrow> wanted = stv_stage v) views,
              fdp_after = after, fdp_next_cursor = fold (\<lambda>s. max (sto_created_sequence s)) kept after,
              fdp_has_more = (length ids > limit) \<rparr>))"

section \<open>Imported stories\<close>

definition federated_verifications_counted :: "ext \<Rightarrow> database \<Rightarrow> string \<Rightarrow> string \<Rightarrow> string \<Rightarrow> bool \<Rightarrow> int" where
  "federated_verifications_counted X db origin observation_id outcome_text trace =
     count_rows (\<lambda>v. fve_origin_node_id v = origin \<and> fve_observation_id v = observation_id \<and> fve_outcome v = outcome_text \<and>
       remote_traced X origin db (fve_event_id v) = trace) (federated_verifications db)"

definition view_of_federated_observation ::
  "ext \<Rightarrow> database \<Rightarrow> string \<Rightarrow> fed_observation_row \<times> fed_source_row \<Rightarrow> observation_view" where
  "view_of_federated_observation X db origin = (\<lambda>(ob, s).
     let n = federated_verifications_counted X db origin (fob_observation_id ob) in
     \<lparr> obv_observation_id = fob_observation_id ob, obv_source_id = fob_source_id ob, obv_source_name = fso_name s,
       obv_canonical_url = fob_canonical_url ob, obv_title = fob_title ob, obv_summary = fob_summary ob,
       obv_published_at = fob_published_at ob, obv_retrieved_at = fob_retrieved_at ob,
       obv_language = fob_language ob, obv_document_hash = fob_document_hash ob,
       obv_corroborated_count = n ''corroborated'' True, obv_disputed_count = n ''disputed'' True,
       obv_untraced_corroborated_count = n ''corroborated'' False, obv_untraced_disputed_count = n ''disputed'' False \<rparr>)"

definition federated_linked_rows ::
  "string \<Rightarrow> string \<Rightarrow> database \<Rightarrow> (fed_story_observation_row \<times> fed_observation_row) list" where
  "federated_linked_rows origin story_id db = concat (map (\<lambda>so. map (Pair so)
       (filter (\<lambda>ob. fob_origin_node_id ob = origin \<and> fob_observation_id ob = fsb_observation_id so)
         (federated_observations db)))
     (filter (\<lambda>so. fsb_origin_node_id so = origin \<and> fsb_story_id so = story_id) (federated_story_observations db)))"

definition federated_observation_views :: "ext \<Rightarrow> database \<Rightarrow> string \<Rightarrow> string \<Rightarrow> observation_view list" where
  "federated_observation_views X db origin story_id = map (view_of_federated_observation X db origin)
     (order_by (\<lambda>a b. fob_retrieved_at (fst a) < fob_retrieved_at (fst b))
       (concat (map (\<lambda>(so, ob). map (Pair ob)
           (filter (\<lambda>s. fso_origin_node_id s = origin \<and> fso_source_id s = fob_source_id ob) (federated_sources db)))
         (federated_linked_rows origin story_id db))))"

definition federated_distinct_sources :: "ext \<Rightarrow> database \<Rightarrow> string \<Rightarrow> string \<Rightarrow> int" where
  "federated_distinct_sources X db origin story_id = count_distinct (\<lambda>(so, ob). fob_source_id ob)
     (filter (\<lambda>(so, ob). case fsb_linked_event_id so of None \<Rightarrow> True | Some e \<Rightarrow> remote_traced X origin db e)
       (federated_linked_rows origin story_id db))"

definition view_of_federated_assessment ::
  "ext \<Rightarrow> fed_assessment_row \<times> fed_lineage_row \<times> remote_event_row \<Rightarrow> assessment_view result" where
  "view_of_federated_assessment X = (\<lambda>(a, l, e).
     and_then (reporting_from_canonical X (rem_canonical_json e)) (\<lambda>reporting.
       Inr \<lparr> asv_assessor_lineage_id = fas_assessor_lineage_id a, asv_assessor_display_name = fli_display_name l,
         asv_event_id = fas_event_id a, asv_summary = fas_summary a, asv_significance = fas_significance a,
         asv_confidence = fas_confidence a, asv_perspective = fas_perspective a, asv_claims = fas_claims a,
         asv_evidence = fas_evidence a, asv_reporting = reporting, asv_created_at = fas_created_at a \<rparr>))"

definition federated_story_assessments ::
  "string \<Rightarrow> string \<Rightarrow> database \<Rightarrow> (fed_assessment_row \<times> fed_lineage_row \<times> remote_event_row) list" where
  "federated_story_assessments origin story_id db = order_by (\<lambda>a b. fas_created_at (fst a) < fas_created_at (fst b))
     (concat (map (\<lambda>a. concat (map (\<lambda>l. map (\<lambda>e. (a, l, e))
         (filter (\<lambda>e. rem_origin_node_id e = origin \<and> rem_event_id e = fas_event_id a) (remote_events db)))
       (filter (\<lambda>l. fli_origin_node_id l = origin \<and> fli_lineage_id l = fas_assessor_lineage_id a) (federated_lineages db))))
     (filter (\<lambda>a. fas_origin_node_id a = origin \<and> fas_story_id a = story_id) (federated_assessments db))))"

definition federated_related_events :: "ext \<Rightarrow> database \<Rightarrow> string \<Rightarrow> string \<Rightarrow> origin_event list result" where
  "federated_related_events X db origin story_id = map_result (remote_origin_event_from_row X)
     (by_origin_sequence (concat (map (\<lambda>se. filter (\<lambda>e. rem_origin_node_id e = origin \<and>
           rem_origin_sequence e = fse_origin_sequence se) (remote_events db))
       (filter (\<lambda>se. fse_origin_node_id se = origin \<and> fse_story_id se = story_id) (federated_story_events db)))))"

definition federated_story_view_of :: "ext \<Rightarrow> database \<Rightarrow> string \<Rightarrow> string \<Rightarrow> federated_story_view result" where
  "federated_story_view_of X db origin story_id =
     and_then (ok_or (first_row (\<lambda>s. fst_origin_node_id s = origin \<and> fst_story_id s = story_id \<and> fst_merged_into s = None)
       (federated_stories db)) NotFound) (\<lambda>header.
     let obs = federated_observation_views X db origin story_id in
     and_then (map_result (view_of_federated_assessment X) (federated_story_assessments origin story_id db)) (\<lambda>as.
     and_then (federated_related_events X db origin story_id) (\<lambda>related.
       Inr \<lparr> fsv_origin_node_id = origin, fsv_story_id = story_id, fsv_title = fst_title header,
         fsv_first_seen_at = fst_first_seen_at header,
         fsv_stage = story_stage (federated_distinct_sources X db origin story_id) (traceable_count as) (total_verifications obs),
         fsv_observations = obs, fsv_assessments = as, fsv_related_events = related \<rparr>)))"

definition federated_changed_story_ids :: "database \<Rightarrow> int \<Rightarrow> int \<Rightarrow> (string \<times> string) list" where
  "federated_changed_story_ids db after through = order_by
     (\<lambda>a b. str_less (fst a) (fst b) \<or> (fst a = fst b \<and> str_less (snd a) (snd b)))
     (remdups (concat (map (\<lambda>i. concat (map (\<lambda>se. map (\<lambda>s. (fse_origin_node_id se, fse_story_id se))
         (filter (\<lambda>s. fst_origin_node_id s = fse_origin_node_id se \<and> fst_story_id s = fse_story_id se \<and>
           fst_merged_into s = None) (federated_stories db)))
       (filter (\<lambda>se. fse_origin_node_id se = imp_origin_node_id i \<and> fse_origin_sequence se > imp_remote_from_cursor i \<and>
         fse_origin_sequence se \<le> imp_remote_through_cursor i) (federated_story_events db))))
     (filter (\<lambda>i. imp_local_witness_sequence i > after \<and> imp_local_witness_sequence i \<le> through) (federation_imports db)))))"

definition federated_stories_changed_between :: "ext \<Rightarrow> database \<Rightarrow> int \<Rightarrow> int \<Rightarrow> federated_story_view list result" where
  "federated_stories_changed_between X db after through =
     map_result (\<lambda>(origin, i). federated_story_view_of X db origin i) (federated_changed_story_ids db after through)"

record federated_feed_page =
  ffp_origin_node_id :: "string option"
  ffp_stories :: "federated_story_view list"
  ffp_after :: "int option"
  ffp_next_cursor :: "int option"
  ffp_has_more :: bool

definition federated_feed_rows :: "database \<Rightarrow> string option \<Rightarrow> int \<Rightarrow> fed_story_row list" where
  "federated_feed_rows db origin after = (case origin of
       Some node \<Rightarrow> order_by (\<lambda>s t. fst_created_sequence s < fst_created_sequence t)
         (filter (\<lambda>s. fst_origin_node_id s = node \<and> fst_merged_into s = None \<and> fst_created_sequence s > after)
           (federated_stories db))
     | None \<Rightarrow> order_by (\<lambda>s t. fst_first_seen_at s < fst_first_seen_at t \<or> (fst_first_seen_at s = fst_first_seen_at t \<and>
         (str_less (fst_origin_node_id s) (fst_origin_node_id t) \<or>
          (fst_origin_node_id s = fst_origin_node_id t \<and> fst_created_sequence s < fst_created_sequence t))))
         (filter (\<lambda>s. fst_merged_into s = None) (federated_stories db)))"

definition federated_feed ::
  "ext \<Rightarrow> database \<Rightarrow> string option \<Rightarrow> int \<Rightarrow> nat \<Rightarrow> string option \<Rightarrow> federated_feed_page result" where
  "federated_feed X db origin after limit stage =
     and_then (fail_if (after < 0) Validation) (\<lambda>_.
     and_then (fail_if (origin = None \<and> after \<noteq> 0) Validation) (\<lambda>_.
     let ids = take (limit + 1) (federated_feed_rows db origin after); kept = take limit ids in
     and_then (map_result (\<lambda>s. federated_story_view_of X db (fst_origin_node_id s) (fst_story_id s)) kept) (\<lambda>views.
       Inr \<lparr> ffp_origin_node_id = origin,
             ffp_stories = filter (\<lambda>v. case stage of None \<Rightarrow> True | Some wanted \<Rightarrow> wanted = fsv_stage v) views,
             ffp_after = map_option (\<lambda>_. after) origin,
             ffp_next_cursor = map_option (\<lambda>_. fold (\<lambda>s. max (fst_created_sequence s)) kept after) origin,
             ffp_has_more = (length ids > limit) \<rparr>)))"

record network_feed_view =
  nfd_local :: feed_page
  nfd_federated :: federated_feed_page

definition network_feed ::
  "ext \<Rightarrow> database \<Rightarrow> int \<Rightarrow> int \<Rightarrow> nat \<Rightarrow> string option \<Rightarrow> string option \<Rightarrow> network_feed_view result" where
  "network_feed X db after federated_after limit stage origin =
     and_then (fail_if (after < 0) Validation) (\<lambda>_.
     and_then (feed X db after limit stage) (\<lambda>l.
     and_then (federated_feed X db origin federated_after limit stage) (\<lambda>f.
       Inr \<lparr> nfd_local = l, nfd_federated = f \<rparr>)))"

section \<open>Orientation\<close>

definition MAX_ORIENTATION_PAGE :: nat where "MAX_ORIENTATION_PAGE = 100"

definition open_commitments :: "ext \<Rightarrow> database \<Rightarrow> string \<Rightarrow> event_view list result" where
  "open_commitments X db lineage_id = map_result (event_view_of X) (take 100
     (filter (\<lambda>e. ev_lineage_id e = Some lineage_id \<and> ev_kind e = ''commitment'' \<and>
       \<not> list_ex (\<lambda>l. ev_event_id e \<in> set (json_texts X (ev_supersedes_json l))) (events db)) (events db)))"

definition checkpoint_now :: "ext \<Rightarrow> node_identity \<Rightarrow> int \<Rightarrow> database \<Rightarrow> checkpoint result" where
  "checkpoint_now X me now db = checkpoint_at X me now (fst (current_head db)) db"

record orientation_bundle =
  ob_lineage :: lineage_view
  ob_checkpoint :: checkpoint
  ob_from_cursor :: int
  ob_last_acknowledged_cursor :: int
  ob_self_history :: "event_view list"
  ob_mentions :: "event_view list"
  ob_open_commitments :: "event_view list"
  ob_corrections :: "event_view list"
  ob_world_changes :: "story_view list"
  ob_federated_world_changes :: "federated_story_view list"
  ob_next_cursor :: int
  ob_has_more :: bool

definition authored_by :: "string \<Rightarrow> event_view \<Rightarrow> bool" where
  "authored_by lineage_id e \<longleftrightarrow> evv_kind e \<noteq> ''acknowledgement'' \<and> evv_lineage_id e = Some lineage_id"

definition mentions_of :: "string \<Rightarrow> event_view \<Rightarrow> bool" where
  "mentions_of lineage_id e \<longleftrightarrow> evv_kind e \<noteq> ''acknowledgement'' \<and> lineage_id \<in> set (evv_targets e)"

definition corrects :: "string \<Rightarrow> event_view \<Rightarrow> bool" where
  "corrects lineage_id e \<longleftrightarrow> evv_kind e = ''correction'' \<and> (evv_lineage_id e = Some lineage_id \<or> lineage_id \<in> set (evv_targets e))"

text \<open>The node reads the database call by call; the answer is that of one state.\<close>

definition orient :: "ext \<Rightarrow> node_identity \<Rightarrow> int \<Rightarrow> string \<Rightarrow> int option \<Rightarrow> database \<Rightarrow> orientation_bundle result" where
  "orient X me now lineage_id since db =
     and_then (lineage_from_connection db lineage_id) (\<lambda>lineage.
     let acknowledged = last_acknowledged_cursor db lineage_id;
         from_cursor = (case since of None \<Rightarrow> acknowledged | Some c \<Rightarrow> c) in
     and_then (fail_if (from_cursor < 0) Validation) (\<lambda>_.
     and_then (events_after X db from_cursor (MAX_ORIENTATION_PAGE + 1)) (\<lambda>fetched.
     let evs = take MAX_ORIENTATION_PAGE fetched;
         next_cursor = (if evs = [] then from_cursor else evv_sequence (last evs)) in
     and_then (stories_changed_between X db from_cursor next_cursor) (\<lambda>world.
     and_then (federated_stories_changed_between X db from_cursor next_cursor) (\<lambda>federated.
     and_then (checkpoint_now X me now db) (\<lambda>c.
     and_then (open_commitments X db lineage_id) (\<lambda>commitments.
       Inr \<lparr> ob_lineage = lineage, ob_checkpoint = c, ob_from_cursor = from_cursor,
         ob_last_acknowledged_cursor = acknowledged, ob_self_history = filter (authored_by lineage_id) evs,
         ob_mentions = filter (mentions_of lineage_id) evs, ob_open_commitments = commitments,
         ob_corrections = filter (corrects lineage_id) evs, ob_world_changes = world,
         ob_federated_world_changes = federated, ob_next_cursor = next_cursor,
         ob_has_more = (length fetched > MAX_ORIENTATION_PAGE) \<rparr>)))))))"

record pulse_view =
  pls_node_id :: string
  pls_latest_cursor :: int
  pls_last_acknowledged_cursor :: int
  pls_directed_events_waiting :: int
  pls_world_changes_waiting :: int

definition pulse_counts :: "ext \<Rightarrow> database \<Rightarrow> string \<Rightarrow> int \<Rightarrow> int \<times> int" where
  "pulse_counts X db lineage_id after =
     (count_rows (\<lambda>e. ev_sequence e > after \<and> ev_kind e \<noteq> ''acknowledgement'' \<and>
        (ev_lineage_id e = Some lineage_id \<or> lineage_id \<in> set (json_texts X (ev_targets_json e)))) (events db),
      len (changed_story_ids X db after (2 ^ 63 - 1)) + len (federated_changed_story_ids db after (2 ^ 63 - 1)))"

definition pulse :: "ext \<Rightarrow> node_identity \<Rightarrow> string \<Rightarrow> database \<Rightarrow> pulse_view result" where
  "pulse X me lineage_id db =
     and_then (lineage_from_connection db lineage_id) (\<lambda>_.
     let acknowledged = last_acknowledged_cursor db lineage_id;
         (directed, world) = pulse_counts X db lineage_id acknowledged in
     Inr \<lparr> pls_node_id = node_id me, pls_latest_cursor = fst (current_head db), pls_last_acknowledged_cursor = acknowledged,
           pls_directed_events_waiting = directed, pls_world_changes_waiting = world \<rparr>)"

section \<open>Joins over keys\<close>

lemma mset_order_by [simp]: "mset (order_by lt xs) = mset xs"
proof -
  have "mset (insort_by lt x ys) = add_mset x (mset ys)" for x ys by (induction ys) auto
  then have "mset (fold (insort_by lt) xs ys) = mset xs + mset ys" for ys by (induction xs arbitrary: ys) auto
  then show ?thesis by (simp add: order_by_def)
qed

lemma filter_key_length:
  assumes "distinct (map f xs)"
  shows "length (filter (\<lambda>x. f x = k) xs) \<le> Suc 0"
  using assms
proof (induction xs)
  case (Cons x xs)
  show ?case
  proof (cases "f x = k")
    case True
    with Cons.prems have "filter (\<lambda>y. f y = k) xs = []" by (auto simp: filter_empty_conv image_iff)
    with True show ?thesis by simp
  next
    case False
    with Cons show ?thesis by simp
  qed
qed simp

lemma distinct_second_key: "distinct (map (\<lambda>x. (f x, g x)) xs) \<Longrightarrow> distinct (map g (filter (\<lambda>x. f x = i) xs))"
  by (induction xs) (auto simp: image_iff)

text \<open>Joining each row with at most one partner keeps the keys of the rows apart.\<close>

lemma distinct_join:
  assumes "distinct (map key xs)" and "\<And>x. x \<in> set xs \<Longrightarrow> length (f x) \<le> Suc 0" and "\<And>x y. x \<in> set xs \<Longrightarrow> y \<in> set (f x) \<Longrightarrow> g y = key x"
  shows "distinct (map g (concat (map f xs)))"
  using assms
proof (induction xs)
  case (Cons x xs)
  then have "distinct (map g (concat (map f xs)))" by simp
  moreover have "distinct (map g (f x))" using Cons.prems(2) [of x] by (cases "f x"; cases "tl (f x)") auto
  moreover have "g ` set (f x) \<inter> g ` set (concat (map f xs)) = {}"
    using Cons.prems(1,3) by (fastforce simp: image_iff)
  ultimately show ?case by simp
qed simp

lemma length_join:
  assumes "length xs \<le> Suc 0" and "\<And>x. x \<in> set xs \<Longrightarrow> length (f x) \<le> Suc 0"
  shows "length (concat (map f xs)) \<le> Suc 0"
  using assms by (cases xs; cases "tl xs") auto

lemma distinct_order_by: "distinct (map g (order_by lt xs)) = distinct (map g xs)"
  by (metis mset_map mset_order_by mset_eq_imp_distinct_iff)

lemma count_rows_keys:
  assumes "distinct ids"
  shows "sum_list (map (\<lambda>i. count_rows (\<lambda>v. k v = i \<and> P v) vs) ids) = count_rows (\<lambda>v. k v \<in> set ids \<and> P v) vs"
  using assms
proof (induction ids)
  case Nil
  then show ?case by (simp add: count_rows_def len_def)
next
  case (Cons i ids)
  have "count_rows (\<lambda>v. k v \<in> set (i # ids) \<and> P v) vs =
      count_rows (\<lambda>v. k v = i \<and> P v) vs + count_rows (\<lambda>v. k v \<in> set ids \<and> P v) vs"
    using Cons.prems by (induction vs) (auto simp: count_rows_def len_def)
  with Cons show ?case by simp
qed

lemma map_result_fails: "x \<in> set xs \<Longrightarrow> isl (f x) \<Longrightarrow> isl (map_result f xs)"
  by (induction xs) (auto split: sum.splits)

section \<open>What a brief rests on\<close>

text \<open>The keys of the tables that a view joins.\<close>

definition story_keys :: "database \<Rightarrow> bool" where
  "story_keys db \<longleftrightarrow> archive_ok db \<and> distinct (map src_source_id (sources db)) \<and> distinct (map lin_lineage_id (lineages db)) \<and>
     distinct (map ev_event_id (events db)) \<and>
     distinct (map (\<lambda>a. (ass_story_id a, ass_assessor_lineage_id a)) (assessments db))"

lemma assessors_distinct:
  assumes "story_keys db"
  shows "distinct (map (\<lambda>(a, l, e). ass_assessor_lineage_id a) (story_assessments i db))"
proof -
  let ?as = "filter (\<lambda>a. ass_story_id a = i) (assessments db)"
  let ?ls = "\<lambda>a. filter (\<lambda>l. lin_lineage_id l = ass_assessor_lineage_id a) (lineages db)"
  let ?es = "\<lambda>a. filter (\<lambda>e. ev_event_id e = ass_event_id a) (events db)"
  let ?f = "\<lambda>a. concat (map (\<lambda>l. map (\<lambda>e. (a, l, e)) (?es a)) (?ls a))"
  have keys: "distinct (map lin_lineage_id (lineages db))" "distinct (map ev_event_id (events db))"
    "distinct (map (\<lambda>a. (ass_story_id a, ass_assessor_lineage_id a)) (assessments db))"
    using assms by (simp_all add: story_keys_def)
  have "distinct (map ass_assessor_lineage_id ?as)" by (rule distinct_second_key [OF keys(3)])
  moreover have "length (?f a) \<le> Suc 0" for a
    by (intro length_join) (simp_all add: filter_key_length keys)
  ultimately have "distinct (map (\<lambda>(a, l, e). ass_assessor_lineage_id a) (concat (map ?f ?as)))"
    by (intro distinct_join) auto
  then show ?thesis by (simp add: story_assessments_def distinct_order_by)
qed

lemma linked_rows_distinct:
  assumes "story_keys db"
  shows "distinct (map (\<lambda>(so, ob). obs_observation_id ob) (linked_rows i db))"
proof -
  have keys: "distinct (map sob_observation_id (story_observations db))" "distinct (map obs_observation_id (observations db))"
    using assms by (simp_all add: story_keys_def archive_ok_def links_ok_def)
  have "distinct (map sob_observation_id (filter (\<lambda>so. sob_story_id so = i) (story_observations db)))"
    using keys(1) by (simp add: distinct_map_filter)
  then show ?thesis unfolding linked_rows_def
    by (rule distinct_join) (auto simp: filter_key_length [OF keys(2)])
qed

lemma observation_views_distinct:
  assumes "story_keys db"
  shows "distinct (map obv_observation_id (story_observation_views X db i))"
proof -
  have "distinct (map src_source_id (sources db))" using assms by (simp add: story_keys_def)
  note one = filter_key_length [OF this]
  have "distinct (map (\<lambda>(ob, s). obs_observation_id ob) (concat (map (\<lambda>(so, ob). map (Pair ob)
      (filter (\<lambda>s. src_source_id s = obs_source_id ob) (sources db))) (linked_rows i db))))"
    by (rule distinct_join [OF linked_rows_distinct [OF assms, of i]]) (auto simp: one)
  moreover have "map obv_observation_id (map (view_of_observation X db) rows) = map (\<lambda>(ob, s). obs_observation_id ob) rows" for rows
    by (auto simp: view_of_observation_def Let_def split: prod.splits)
  ultimately show ?thesis by (simp add: story_observation_views_def distinct_order_by del: map_map)
qed

lemma count_rows_mono: "(\<And>r. r \<in> set tbl \<Longrightarrow> P r \<Longrightarrow> Q r) \<Longrightarrow> count_rows P tbl \<le> count_rows Q tbl"
  by (induction tbl) (auto simp: count_rows_def len_def)

lemma count_rows_either:
  assumes "\<And>r. r \<in> set tbl \<Longrightarrow> \<not> (P r \<and> Q r)"
  shows "count_rows P tbl + count_rows Q tbl = count_rows (\<lambda>r. P r \<or> Q r) tbl"
  using assms by (induction tbl) (auto simp: count_rows_def len_def)

text \<open>The verifications that count for a stage: those whose event reports traceably.\<close>

definition counted_verification :: "ext \<Rightarrow> database \<Rightarrow> verification_row \<Rightarrow> bool" where
  "counted_verification X db w \<longleftrightarrow> traced X db (ver_event_id w) \<and> ver_outcome w \<in> {''corroborated'', ''disputed''}"

lemma observation_view_linked:
  assumes "v \<in> set (story_observation_views X db i)"
  shows "obv_corroborated_count v + obv_disputed_count v =
      count_rows (\<lambda>w. ver_observation_id w = obv_observation_id v \<and> counted_verification X db w) (observation_verifications db)"
    and "\<exists>so\<in>set (story_observations db). sob_story_id so = i \<and> sob_observation_id so = obv_observation_id v"
proof -
  from assms obtain so ob s where r: "v = view_of_observation X db (ob, s)" "(so, ob) \<in> set (linked_rows i db)"
    by (auto simp: story_observation_views_def)
  show "\<exists>so\<in>set (story_observations db). sob_story_id so = i \<and> sob_observation_id so = obv_observation_id v"
    using r(2) by (auto simp: r(1) linked_rows_def view_of_observation_def Let_def)
  show "obv_corroborated_count v + obv_disputed_count v =
      count_rows (\<lambda>w. ver_observation_id w = obv_observation_id v \<and> counted_verification X db w) (observation_verifications db)"
    unfolding r(1) view_of_observation_def verifications_counted_def counted_verification_def
    by (simp add: Let_def count_rows_either) (rule arg_cong [where f = "\<lambda>P. count_rows P (observation_verifications db)"]; auto)
qed

lemma total_verifications_counted:
  assumes "story_keys db"
  shows "total_verifications (story_observation_views X db i) \<le> count_rows (\<lambda>w. counted_verification X db w \<and>
    (\<exists>so\<in>set (story_observations db). sob_story_id so = i \<and> sob_observation_id so = ver_observation_id w)) (observation_verifications db)"
proof -
  let ?vs = "story_observation_views X db i"
  have "total_verifications ?vs = sum_list (map (\<lambda>k. count_rows (\<lambda>w. ver_observation_id w = k \<and> counted_verification X db w)
      (observation_verifications db)) (map obv_observation_id ?vs))"
    unfolding total_verifications_def map_map o_def by (rule arg_cong [where f = sum_list]) (simp add: observation_view_linked(1))
  also have "\<dots> = count_rows (\<lambda>w. ver_observation_id w \<in> set (map obv_observation_id ?vs) \<and> counted_verification X db w)
      (observation_verifications db)"
    by (rule count_rows_keys [OF observation_views_distinct [OF assms]])
  also have "\<dots> \<le> count_rows (\<lambda>w. counted_verification X db w \<and>
    (\<exists>so\<in>set (story_observations db). sob_story_id so = i \<and> sob_observation_id so = ver_observation_id w)) (observation_verifications db)"
  proof (rule count_rows_mono)
    fix w
    assume w: "ver_observation_id w \<in> set (map obv_observation_id ?vs) \<and> counted_verification X db w"
    then obtain v where "v \<in> set ?vs" "obv_observation_id v = ver_observation_id w" by auto
    with observation_view_linked(2) [of v X db i] w show "counted_verification X db w \<and> (\<exists>so\<in>set (story_observations db).
        sob_story_id so = i \<and> sob_observation_id so = ver_observation_id w)" by simp
  qed
  finally show ?thesis .
qed

text \<open>An assessment that counts: the report in its event declares traces.\<close>

definition counted_assessment :: "ext \<Rightarrow> database \<Rightarrow> assessment_row \<Rightarrow> bool" where
  "counted_assessment X db a \<longleftrightarrow> (\<exists>e\<in>set (events db). ev_event_id e = ass_event_id a \<and>
     (\<exists>r. reporting_from_canonical X (ev_canonical_json e) = Inr r \<and> is_traceable r))"

lemma traceable_assessors:
  assumes keys: "story_keys db" and as: "map_result (view_of_assessment X) (story_assessments i db) = Inr as"
  shows "traceable_count as \<le> card {ass_assessor_lineage_id a |a. a \<in> set (assessments db) \<and> ass_story_id a = i \<and> counted_assessment X db a}"
proof -
  let ?c = "{ass_assessor_lineage_id a |a. a \<in> set (assessments db) \<and> ass_story_id a = i \<and> counted_assessment X db a}"
  from as have all: "list_all2 (\<lambda>t a. view_of_assessment X t = Inr a) (story_assessments i db) as" by (simp add: map_result_Inr)
  have "map asv_assessor_lineage_id as = map (\<lambda>(a, l, e). ass_assessor_lineage_id a) (story_assessments i db)"
    using all by (induction rule: list_all2_induct) (auto simp: view_of_assessment_def)
  with assessors_distinct [OF keys] have d: "distinct (map asv_assessor_lineage_id as)" by simp
  have "asv_assessor_lineage_id a \<in> ?c" if "a \<in> set as" "is_traceable (asv_reporting a)" for a
  proof -
    from all that(1) obtain row l e where r: "(row, l, e) \<in> set (story_assessments i db)" "view_of_assessment X (row, l, e) = Inr a"
      by (auto simp: list_all2_conv_all_nth in_set_conv_nth) (metis prod_cases3)
    from r(1) have "row \<in> set (assessments db)" "ass_story_id row = i" "e \<in> set (events db)" "ev_event_id e = ass_event_id row"
      by (auto simp: story_assessments_def)
    moreover have "asv_assessor_lineage_id a = ass_assessor_lineage_id row"
      "reporting_from_canonical X (ev_canonical_json e) = Inr (asv_reporting a)"
      using r(2) by (auto simp: view_of_assessment_def)
    ultimately show ?thesis using that(2) unfolding counted_assessment_def by blast
  qed
  then have sub: "set (map asv_assessor_lineage_id (filter (\<lambda>a. is_traceable (asv_reporting a)) as)) \<subseteq> ?c" by auto
  have "finite ?c" by simp
  note card_mono [OF this sub]
  moreover have "card (set (map asv_assessor_lineage_id (filter (\<lambda>a. is_traceable (asv_reporting a)) as))) = traceable_count as"
    using d by (subst distinct_card) (simp_all add: distinct_map_filter traceable_count_def)
  ultimately show ?thesis by simp
qed

section \<open>Properties\<close>


text \<open>C21: a merge blocks orientation.  Once a story is merged, any change recorded for it, an assessment or
  an event that names it, is one no orientation can pass: every answer either ends before the number of
  that change or starts at or after it.  A lineage whose cursor is below it can therefore not be brought
  up to date page by page.\<close>

theorem merged_story_blocks_orientation:
  assumes "distinct (map sto_story_id (stories db))" and "s \<in> set (stories db)" and "sto_merged_into s \<noteq> None"
    and "(sto_story_id s, n) \<in> set (story_changes X db)" and "orient X me now lineage_id since db = Inr b"
  shows "n \<le> ob_from_cursor b \<or> ob_next_cursor b < n"
proof (rule ccontr)
  assume "\<not> (n \<le> ob_from_cursor b \<or> ob_next_cursor b < n)"
  then have n: "ob_from_cursor b < n" "n \<le> ob_next_cursor b" by auto
  have "sto_story_id s \<in> set (changed_story_ids X db (ob_from_cursor b) (ob_next_cursor b))"
    using assms(4) n by (force simp: changed_story_ids_def)
  moreover have "t = s" if "t \<in> set (stories db)" "sto_story_id t = sto_story_id s" for t
    using assms(1,2) that by (auto simp: distinct_map inj_on_def)
  then have "first_row (\<lambda>t. sto_story_id t = sto_story_id s \<and> sto_merged_into t = None) (stories db) = None"
    using assms(3) by auto
  then have "isl (story_view_of X db (sto_story_id s))" by (simp add: story_view_of_def del: first_row_None)
  ultimately have "isl (stories_changed_between X db (ob_from_cursor b) (ob_next_cursor b))"
    unfolding stories_changed_between_def by (rule map_result_fails)
  with assms(5) show False by (auto simp: orient_def Let_def split: option.splits)
qed

lemma numbered_slice:
  assumes "map f xs = map (\<lambda>i. int i + 1) [0..<length xs]" and "0 \<le> a"
  shows "filter (\<lambda>x. f x > a \<and> f x \<le> a + int n) xs = take n (drop (nat a) xs)"
proof -
  have nth: "f (xs ! i) = int i + 1" if "i < length xs" for i
    using arg_cong [OF assms(1), of "\<lambda>l. l ! i"] that by simp
  define us vs ws where "us = take (nat a) xs" "vs = take n (drop (nat a) xs)" "ws = drop (nat a + n) xs"
  have xs: "xs = us @ vs @ ws" unfolding us_vs_ws_def by (metis append_take_drop_id drop_drop add.commute)
  have "f x \<le> a" if "x \<in> set us" for x
    using that nth assms(2) by (auto simp: us_vs_ws_def in_set_conv_nth)
  moreover have "f x > a \<and> f x \<le> a + int n" if "x \<in> set vs" for x
    using that nth assms(2) by (auto simp: us_vs_ws_def in_set_conv_nth)
  moreover have "f x > a + int n" if "x \<in> set ws" for x
    using that nth assms(2) by (auto simp: us_vs_ws_def in_set_conv_nth)
  ultimately have "filter (\<lambda>x. f x > a \<and> f x \<le> a + int n) (us @ vs @ ws) = vs"
    by (auto simp: filter_empty_conv filter_id_conv not_less not_le)
  with xs show ?thesis by (simp add: us_vs_ws_def)
qed

lemma event_view_sequence: "event_view_of X e = Inr v \<Longrightarrow> evv_sequence v = ev_sequence e"
  by (auto simp: event_view_of_def)

text \<open>A page of the log: the events asked for, read without a gap.\<close>

lemma events_page:
  assumes numbered: "map ev_sequence (events db) = map (\<lambda>i. int i + 1) [0..<length (events db)]" and small: "len (events db) < 2 ^ 63"
    and a: "0 \<le> a" and run: "events_after X db a (k + 1) = Inr fetched"
  shows "map_result (event_view_of X) (take k (drop (nat a) (events db))) = Inr (take k fetched)"
    and "length fetched = min (k + 1) (length (events db) - nat a)"
    and "take k fetched = [] \<or> evv_sequence (last (take k fetched)) = a + int (length (take k fetched))"
proof -
  have nth: "ev_sequence (events db ! i) = int i + 1" if "i < length (events db)" for i
    using arg_cong [OF numbered, of "\<lambda>l. l ! i"] that by simp
  have "ev_sequence e \<le> 2 ^ 63 - 1" if "e \<in> set (events db)" for e
    using that nth small by (auto simp: in_set_conv_nth len_def)
  then have "filter (\<lambda>e. ev_sequence e > a \<and> ev_sequence e \<le> 2 ^ 63 - 1) (events db) = filter (\<lambda>e. ev_sequence e > int (nat a)) (events db)"
    using a by (auto intro: filter_cong)
  then have rows: "filter (\<lambda>e. ev_sequence e > a \<and> ev_sequence e \<le> 2 ^ 63 - 1) (events db) = drop (nat a) (events db)"
    by (simp only: numbered_filter [OF numbered])
  have all: "list_all2 (\<lambda>e v. event_view_of X e = Inr v) (take (k + 1) (drop (nat a) (events db))) fetched"
    using run unfolding events_after_def event_views_between_def rows by (simp only: map_result_Inr)
  then show "length fetched = min (k + 1) (length (events db) - nat a)" by (auto dest: list_all2_lengthD)
  have l: "list_all2 (\<lambda>e v. event_view_of X e = Inr v) (take k (drop (nat a) (events db))) (take k fetched)"
    using list_all2_takeI [OF all, of k] by (simp add: min_def)
  then show "map_result (event_view_of X) (take k (drop (nat a) (events db))) = Inr (take k fetched)" by (simp add: map_result_Inr)
  show "take k fetched = [] \<or> evv_sequence (last (take k fetched)) = a + int (length (take k fetched))"
  proof (cases "take k fetched = []")
    case False
    let ?n = "length (take k fetched)"
    from l False have n: "length (take k (drop (nat a) (events db))) = ?n" "0 < ?n" by (auto dest: list_all2_lengthD)
    then have "?n \<le> length (events db) - nat a" by simp
    with n(2) have i: "nat a + (?n - 1) < length (events db)" by arith
    have "event_view_of X (take k (drop (nat a) (events db)) ! (?n - 1)) = Inr (take k fetched ! (?n - 1))"
      by (rule list_all2_nthD [OF l]) (use n in arith)
    then have "evv_sequence (take k fetched ! (?n - 1)) = ev_sequence (take k (drop (nat a) (events db)) ! (?n - 1))"
      by (rule event_view_sequence)
    moreover have "last (take k fetched) = take k fetched ! (?n - 1)" using False by (rule last_conv_nth)
    moreover have "take k (drop (nat a) (events db)) ! (?n - 1) = events db ! (nat a + (?n - 1))"
      using n i by (subst nth_take) auto
    ultimately have "evv_sequence (last (take k fetched)) = ev_sequence (events db ! (nat a + (?n - 1)))" by simp
    with nth [OF i] n(2) a show ?thesis by (simp add: of_nat_diff Suc_leI)
  qed simp
qed

text \<open>C20: orientation is exact.  An answer covers a contiguous range of the log, a full page of it or all
  there is; what it lists as the history, the mentions and the corrections of a lineage is exactly what
  the events of that range are for that lineage, in their order, so that following the cursor gives
  everything once.\<close>

theorem orientation_page_exact:
  assumes laws: "ext_laws X" and log: "verify_log X me db = Inr (head, h)" "head < 2 ^ 63"
    and run: "orient X me now lineage_id since db = Inr b"
  shows "\<exists>vs. map_result (event_view_of X) (filter (\<lambda>e. ev_sequence e > ob_from_cursor b \<and> ev_sequence e \<le> ob_next_cursor b) (events db)) = Inr vs \<and>
      ob_self_history b = filter (authored_by lineage_id) vs \<and> ob_mentions b = filter (mentions_of lineage_id) vs \<and>
      ob_corrections b = filter (corrects lineage_id) vs \<and>
      ob_next_cursor b = (if ob_has_more b then ob_from_cursor b + int MAX_ORIENTATION_PAGE else max (ob_from_cursor b) head)"
proof -
  let ?a = "ob_from_cursor b" and ?P = MAX_ORIENTATION_PAGE
  have "hash_laws X" "hex_laws X" using laws by (simp_all add: ext_laws_def)
  note rows = verified_row_numbers [OF this log(1)]
  from run obtain fetched where f: "events_after X db ?a (?P + 1) = Inr fetched"
    and evs: "0 \<le> ?a" "ob_self_history b = filter (authored_by lineage_id) (take ?P fetched)"
      "ob_mentions b = filter (mentions_of lineage_id) (take ?P fetched)"
      "ob_corrections b = filter (corrects lineage_id) (take ?P fetched)"
      "ob_next_cursor b = (if take ?P fetched = [] then ?a else evv_sequence (last (take ?P fetched)))"
      "ob_has_more b = (length fetched > ?P)"
    by (auto simp: orient_def Let_def)
  note page = events_page [OF rows(1) log(2) [unfolded rows(2)] evs(1) f]
  have next_cursor: "ob_next_cursor b = ?a + int (length (take ?P fetched))" using page(3) by (auto simp: evs(5))
  have n: "length (take ?P fetched) = min ?P (length (events db) - nat ?a)" unfolding length_take page(2) by arith
  then have "take (length (take ?P fetched)) (drop (nat ?a) (events db)) = take ?P (drop (nat ?a) (events db))"
    by (simp add: min_def)
  then have "filter (\<lambda>e. ev_sequence e > ?a \<and> ev_sequence e \<le> ob_next_cursor b) (events db) = take ?P (drop (nat ?a) (events db))"
    unfolding next_cursor numbered_slice [OF rows(1) evs(1)] .
  moreover have "ob_next_cursor b = (if ob_has_more b then ?a + int ?P else max ?a head)"
    unfolding next_cursor evs(6) n page(2) rows(2) using evs(1) by (auto simp: len_def)
  ultimately show ?thesis using page(1) evs(2-4) by auto
qed

section \<open>Concrete readers\<close>

text \<open>A story of two sources that Ada and Bob assessed and verified, each report with a trace.\<close>

definition demo_told :: "string \<Rightarrow> contribution_kind \<Rightarrow> event_row" where
  "demo_told i k = demo_event i (contribution_kind_str k)
     (demo_print (e_signed_contribution demo_ext (demo_report k (demo_event_id (CHR ''1'')) JNull)))"

definition demo_assessed :: "string \<Rightarrow> string \<Rightarrow> assessment_row" where
  "demo_assessed lineage event = \<lparr> ass_story_id = ''A'', ass_assessor_lineage_id = lineage, ass_event_id = event,
     ass_summary = [], ass_significance = [], ass_confidence = [], ass_perspective = [], ass_claims = [],
     ass_evidence = [], ass_created_at = 0 \<rparr>"

definition demo_verified :: "string \<Rightarrow> string \<Rightarrow> string \<Rightarrow> verification_row" where
  "demo_verified observation lineage event = \<lparr> ver_observation_id = observation, ver_verifier_lineage_id = lineage,
     ver_event_id = event, ver_outcome = ''corroborated'', ver_notes = [], ver_evidence = [], ver_created_at = 0 \<rparr>"

definition demo_member :: "string \<Rightarrow> lineage_row" where
  "demo_member i = \<lparr> lin_lineage_id = i, lin_display_name = i, lin_public_key = i, lin_created_at = 0,
     lin_registered_sequence = 0, lin_registration_json = [] \<rparr>"

definition demo_brief :: database where
  "demo_brief = empty_database\<lparr> stories := [demo_story ''A''],
     observations := [(demo_observation ''x'')\<lparr>obs_source_id := ''S''\<rparr>, (demo_observation ''y'')\<lparr>obs_source_id := ''T''\<rparr>],
     story_observations := [demo_link ''A'' ''x'', demo_link ''A'' ''y''],
     sources := [demo_source, demo_source\<lparr>src_source_id := ''T''\<rparr>], lineages := [demo_member ''ada'', demo_member ''bob''],
     events := [demo_told ''e1'' K_Assessment, demo_told ''e2'' K_Assessment, demo_told ''e3'' K_ObservationVerification,
       demo_told ''e4'' K_ObservationVerification],
     assessments := [demo_assessed ''ada'' ''e1'', demo_assessed ''bob'' ''e2''],
     observation_verifications := [demo_verified ''x'' ''ada'' ''e3'', demo_verified ''y'' ''bob'' ''e4''] \<rparr>"

lemma demo_brief_keys: "story_keys demo_brief"
  by (simp add: story_keys_def archive_ok_def links_ok_def demo_brief_def demo_story_def demo_observation_def demo_link_def
      demo_source_def demo_member_def demo_told_def demo_event_def demo_assessed_def)

lemma demo_brief_stage: "(case story_view_of demo_ext demo_brief ''A'' of Inl _ \<Rightarrow> False | Inr v \<Rightarrow> stv_stage v = ''brief'')"
  by code_simp


text \<open>A link that empties story B and names it among its targets.\<close>

definition demo_merge :: "(accepted_object \<times> database) result" where
  "demo_merge = append_contribution demo_ext demo_me 9 demo_lineage (demo_linking\<lparr>sc_targets := [''B'']\<rparr>) demo_desk"

lemma demo_merge_case:
  "(case demo_merge of Inl _ \<Rightarrow> False | Inr (acc, db) \<Rightarrow>
     map sto_story_id (stories db) = [''A'', ''B''] \<and> map sto_merged_into (stories db) = [None, Some ''A''] \<and>
     (''B'', acc_sequence acc) \<in> set (story_changes demo_ext db) \<and>
     (case stories_changed_between demo_ext db (acc_sequence acc - 1) (acc_sequence acc) of Inl e \<Rightarrow> e = NotFound | Inr _ \<Rightarrow> False) \<and>
     \<not> isl (orient demo_ext demo_me 5 demo_lineage (Some (acc_sequence acc)) db))"
  by code_simp

theorem merged_story_blocks_orientation_witness:
  "\<exists>acc db b. demo_merge = Inr (acc, db) \<and>
     isl (stories_changed_between demo_ext db (acc_sequence acc - 1) (acc_sequence acc)) \<and>
     orient demo_ext demo_me 5 demo_lineage (Some (acc_sequence acc)) db = Inr b \<and>
     (acc_sequence acc \<le> ob_from_cursor b \<or> ob_next_cursor b < acc_sequence acc)"
proof (rule offered_case [OF demo_merge_case])
  fix r
  assume m: "demo_merge = Inr r" and "case r of (acc, db) \<Rightarrow>
     map sto_story_id (stories db) = [''A'', ''B''] \<and> map sto_merged_into (stories db) = [None, Some ''A''] \<and>
     (''B'', acc_sequence acc) \<in> set (story_changes demo_ext db) \<and>
     (case stories_changed_between demo_ext db (acc_sequence acc - 1) (acc_sequence acc) of Inl e \<Rightarrow> e = NotFound | Inr _ \<Rightarrow> False) \<and>
     \<not> isl (orient demo_ext demo_me 5 demo_lineage (Some (acc_sequence acc)) db)"
  moreover obtain acc db where r: "r = (acc, db)" by (cases r)
  ultimately have d: "map sto_story_id (stories db) = [''A'', ''B'']" "map sto_merged_into (stories db) = [None, Some ''A'']"
    "(''B'', acc_sequence acc) \<in> set (story_changes demo_ext db)"
    "isl (stories_changed_between demo_ext db (acc_sequence acc - 1) (acc_sequence acc))"
    "\<not> isl (orient demo_ext demo_me 5 demo_lineage (Some (acc_sequence acc)) db)"
    by (auto split: sum.splits)
  then obtain b where b: "orient demo_ext demo_me 5 demo_lineage (Some (acc_sequence acc)) db = Inr b"
    by (cases "orient demo_ext demo_me 5 demo_lineage (Some (acc_sequence acc)) db") auto
  from d(1,2) obtain a s where st: "stories db = [a, s]" "sto_story_id s = ''B''" "sto_merged_into s = Some ''A''"
    by (auto simp: map_eq_Cons_conv)
  from merged_story_blocks_orientation [of db s "acc_sequence acc" demo_ext, OF _ _ _ _ b] d(1,3) st
  have "acc_sequence acc \<le> ob_from_cursor b \<or> ob_next_cursor b < acc_sequence acc" by simp
  with m r d(4) b show ?thesis by blast
qed

text \<open>Ada's own orientation right after she enrolled.\<close>

lemma demo_orientation_case:
  "(case verify_log demo_ext demo_me (demo_history 0) of Inl _ \<Rightarrow> False | Inr (n, h) \<Rightarrow> n = 1) \<and>
   \<not> isl (orient demo_ext demo_me 5 demo_lineage (Some 0) (demo_history 0))"
  by code_simp

theorem orientation_page_exact_witness:
  "\<exists>b. orient demo_ext demo_me 5 demo_lineage (Some 0) (demo_history 0) = Inr b \<and>
     ob_next_cursor b = (if ob_has_more b then ob_from_cursor b + int MAX_ORIENTATION_PAGE else max (ob_from_cursor b) 1)"
proof -
  obtain h where h: "verify_log demo_ext demo_me (demo_history 0) = Inr (1, h)"
    using demo_orientation_case by (auto split: sum.splits)
  obtain b where b: "orient demo_ext demo_me 5 demo_lineage (Some 0) (demo_history 0) = Inr b"
    using demo_orientation_case by (cases "orient demo_ext demo_me 5 demo_lineage (Some 0) (demo_history 0)") auto
  from orientation_page_exact [OF demo_laws h _ b] b show ?thesis by auto
qed

end
