(* ===== verification/Spec2Isabelle.thy ===== *)
theory Spec2Isabelle
  imports Node Volunteer Client Stories
begin

text \<open>
  Commonwake: a verification development of the node.

  \<^bold>\<open>The program.\<close>  A Commonwake node (\<^verbatim>\<open>src/src/*.rs\<close>) keeps an append-only, hash-chained log of signed
  events in a SQLite database and derives everything else from it: who may act (lineages, keys, session
  delegations), what is under discussion (topics, votes, posts, keys, sealed messages), what was
  observed (sources, observations, stories, work), and which binary artifacts back a proposal.  Nodes
  exchange their logs as signed bundles; a node checks every event of a bundle before it stores it, can
  pass it on, and publishes its own log to relays that answer with signed receipts.  A collector reads
  public feeds into observations, a gateway takes anonymous submissions, a middleware protects a public
  node, and a client signs what a participant sends.

  \<^bold>\<open>How the source is translated.\<close>  One record per table of \<^verbatim>\<open>src/migrations/*.sql\<close> and one record
  \<open>database\<close> that holds them; a statement of SQL is a table operation of \<open>Prelude\<close>; a function of the
  source is a definition of the same name over the database, with \<open>error + 'a\<close> as its \<open>Result\<close> and every
  \<open>?\<close> an \<open>and_then\<close>.  A transaction answers \<open>Inr (value, db')\<close> or \<open>Inl error\<close> with the database as it
  was; code that runs outside a transaction answers a result together with the database it leaves.
  A string is the list of its UTF-8 bytes.  Instants are integers of nanoseconds, cut to milliseconds
  where the code writes them with \<open>timestamp\<close>.  Sequence numbers and counters are integers with the
  range checks of the source written out; the edge's saturating byte count and the 32-bit failure
  counters keep their width.  The clock, random draws and the answers of the network are arguments, in
  the order in which the code takes them.

  \<^bold>\<open>Third-party code\<close> is the parameter \<open>ext\<close> (\<open>External\<close>): SHA-256, hex, base64url, Ed25519, JSON text,
  canonical JSON, time text, URLs and Unicode tables.  What the properties rely on is the predicate
  \<open>ext_laws\<close> (decoding inverts encoding, a signature made with a key verifies under its public key,
  a digest has 32 bytes, serialized values parse back), with \<open>pretty_laws\<close> for the printer of the key
  files.  Collision resistance and unforgeability are not assumed: the theorems about tampering conclude
  \<open>or two hashed inputs collide\<close>.  \<open>Reference_Ext\<close> builds two executable instances and proves the laws
  for them; every witness evaluates on one of them.  The feed parser and the HTTP exchange of the
  collector are the record \<open>net\<close>, the URL text of a relay is \<open>url_printer\<close>, a relay is \<open>relay_session\<close>,
  the peer of a client is \<open>peer_link\<close>.

  \<^bold>\<open>Theories.\<close>
  \<^item> \<open>Prelude\<close> (\<^verbatim>\<open>error.rs\<close>), \<open>Rust_Text\<close>, \<open>Json_Value\<close>, \<open>External\<close>, \<open>Reference_Ext\<close>: errors with their
    HTTP status, results, table operations, string methods, the \<open>serde\<close> readers and writers, and the
    parameter for third-party code.
  \<^item> \<open>Protocol_Model\<close> (\<^verbatim>\<open>model.rs\<close>, \<^verbatim>\<open>crypto.rs\<close>): the signed and stored objects with their
    (de)serializers and their round trips, identifiers, signing preimages, object signatures.
  \<^item> \<open>Schema\<close> (\<^verbatim>\<open>migrations/*.sql\<close>) and \<open>Event_Log\<close> (\<^verbatim>\<open>db.rs\<close>): the tables; \<open>append_event\<close>,
    \<open>verify_log\<close>, the readers of the log.  Appending keeps the log verifiable, and two verified logs with
    one head agree on what they commit to or exhibit a collision.
  \<^item> \<open>Authority\<close> (\<^verbatim>\<open>service.rs\<close>, \<^verbatim>\<open>db.rs\<close>): registration, key rotation, delegation, revocation,
    acknowledgement.  Rotation refines an abstract key history; a revocation is final.
  \<^item> \<open>Content_Rules\<close>, \<open>Admission\<close>, \<open>Commons\<close>, \<open>World\<close> (\<^verbatim>\<open>db.rs\<close>): the rules of a contribution, the
    admission of it against the state, the topic commons, and the projection of every kind with the
    source life cycle, stories and work.
  \<^item> \<open>Observation\<close> (\<^verbatim>\<open>db.rs\<close>), \<open>Net_Address\<close> and \<open>Ingest\<close> (\<^verbatim>\<open>ingest.rs\<close>): recording an observation; which
    sources are due, which addresses are asked, how a feed becomes observations.
  \<^item> \<open>Forge_Store\<close> (\<^verbatim>\<open>forge.rs\<close>): the content-addressed store of artifacts.
  \<^item> \<open>Federation\<close> (\<^verbatim>\<open>federation.rs\<close>), \<open>Remote_Projection\<close>, \<open>Origin_Isolation\<close>, \<open>Federation_Import\<close> and
    \<open>Relay\<close> (\<^verbatim>\<open>db.rs\<close>): bundles, the projection of one remote event and what it cannot touch, the import
    with the evidence it commits on a contradiction, and passing on the history of an origin.
  \<^item> \<open>Publication\<close> (\<^verbatim>\<open>publication.rs\<close>, \<^verbatim>\<open>db.rs\<close>, \<^verbatim>\<open>client.rs\<close>, \<^verbatim>\<open>api.rs\<close>): relays and their receipts, the
    replication work item, the health report, the publication loop, and the relay's handler.
  \<^item> \<open>Startup\<close> (\<^verbatim>\<open>node.rs\<close>, \<^verbatim>\<open>db.rs\<close>): the key file, migrations, binding a database to its identity.
  \<^item> \<open>Edge\<close> (\<^verbatim>\<open>edge.rs\<close>): policy, write admission, rate windows, permits, the storage walk.
  \<^item> \<open>Volunteer\<close> (\<^verbatim>\<open>volunteer.rs\<close>, \<^verbatim>\<open>db.rs\<close>, \<^verbatim>\<open>api.rs\<close>): leases, submissions, receipts, the public page.
  \<^item> \<open>Client\<close> (\<^verbatim>\<open>client.rs\<close>): identity and session files, every signed object, the posting requests.
  \<^item> \<open>Stories\<close> (\<^verbatim>\<open>db.rs\<close>, \<^verbatim>\<open>service.rs\<close>): the views of stories with their stage, the feed, the changes
    between two cursors, orientation and pulse.
  \<^item> \<open>Node\<close> (\<^verbatim>\<open>service.rs\<close>, \<^verbatim>\<open>node.rs\<close>): all state-changing operations as one step relation, the states
    reachable from a fresh directory, and the invariant \<open>node_ok\<close> they keep.

  \<^bold>\<open>Interfaces.\<close>  \<open>hash_chain\<close> is the argument that a chain of digests pins its inputs; the local log and
  a bundle interpret it.  \<open>logged_operation\<close> is an operation that writes exactly one faithful event; the
  authority operations and contributions interpret it, and inherit that they keep the log verifiable and
  fit for export.  \<open>node_operation\<close> is a change that keeps \<open>node_ok\<close> and only extends the log; every
  rule of \<open>node_step\<close> interprets it.  \<open>cursor_pages\<close> is reading by cursor: posts, the inbox and
  submissions interpret it and are delivered completely and once.  \<open>fixed_window\<close> is a counter reset
  by the clock: the three budgets of the edge interpret it.  \<open>signed_form\<close> is an object signed over
  itself without its signature: the six objects a client signs interpret it.

  \<^bold>\<open>Loops and bounds.\<close>  Scans over text, the storage walk and the publication loop are functions with
  termination proofs: the walk ends because every entry it visits is charged to the entry budget, the
  publication loop because every page accepted moves the cursor closer to the snapshot it started with.
  Reading all pages takes fuel, one more than the number of rows selected, which is enough because every
  page but the last delivers a row.  Loops over rows are folds.

  \<^bold>\<open>Interleaving.\<close>  The edge handles requests concurrently: a run is a list of labelled steps of
  one shared state and the bounds hold for every list.  While a node publishes, other writers change its
  database between two statements; \<open>rl_meanwhile\<close> is what they do, arbitrary up to appending to the log
  and leaving the table of relays alone.

  \<^bold>\<open>Conditions on input.\<close>  \<open>wire_contribution\<close>, \<open>time_ok\<close> and the like say that an object came out of the
  JSON reader: its numbers fit, its instants can be written.  They are conditions on the request, never
  on the state; the state is any reachable one, or any database with the invariant.

  \<^bold>\<open>What modelling showed.\<close>  A story that changed and was merged afterwards makes every orientation
  that covers the change fail with \<open>NotFound\<close> (\<open>Stories\<close>); \<open>truncate\<close> of the collector can keep one character more
  than its bound; several messages speak of characters where bytes are counted; a replayed nonce
  surfaces as a database error; the IPv6 loopback passes as a public evidence host.

  \<^bold>\<open>Not modelled.\<close>  The coverage report, forge activity, verification trace pages and the listings of
  work and topics; the routes of \<^verbatim>\<open>api.rs\<close> other than import, publish and the volunteer handlers, which
  decode a request and call the service; the security headers, notices and message texts, which no
  decision depends on; the embedded source capsule (\<^verbatim>\<open>source.rs\<close>, \<^verbatim>\<open>build.rs\<close>), which is generated at
  build time; the command line (\<^verbatim>\<open>main.rs\<close>); file system failures, other than those of the storage walk,
  and the locking of the connection, which serializes the operations.
\<close>

section \<open>A node can be followed from every state it reaches\<close>

text \<open>C4: Whatever a node has been through since its initialization, a peer that asks for its history
  from any cursor up to the head gets a bundle, and that bundle passes the peer's verification; it starts
  at the cursor asked for and reaches the head or the page limit.\<close>

theorem reachable_node_can_be_followed:
  assumes "ext_laws X" and "reachable X me s" and "0 \<le> after" and "after \<le> fst (current_head (ns_db s))"
    and "fst (current_head (ns_db s)) \<le> 2 ^ 53"
  shows "\<exists>b. federation_bundle_after X me now after limit (ns_db s) = Inr b \<and> verify_bundle X b = Inr () \<and>
    fb_from_cursor b = after \<and>
    fb_through_cursor b = min (fst (current_head (ns_db s))) (after + int (clamp_limit limit))"
proof -
  from reachable_ok [OF assms(1,2)] obtain n h where me: "identity_ok X me"
    and log: "verify_log X me (ns_db s) = Inr (n, h)" "portable_log X (ns_db s)"
    by (auto simp: node_ok_def log_ok_def)
  have "n = fst (current_head (ns_db s))"
    using verified_row_numbers [OF _ _ log(1)] assms(1) by (auto simp: ext_laws_def current_head_def)
  with served_bundle [OF assms(1) me log, of after now limit] assms(3-5) show ?thesis by simp
qed

theorem reachable_node_can_be_followed_witness:
  "\<exists>me s b. reachable lenient_ext me s \<and> federation_bundle_after lenient_ext me 5 0 10 (ns_db s) = Inr b \<and>
     verify_bundle lenient_ext b = Inr ()"
proof -
  obtain me dir db acc db' where d: "demo_start = (Inr me, dir)" "dd_database dir = Some db"
    "register_lineage lenient_ext me 0 0 demo_enrolment db = Inr (acc, db')"
    by (rule demo_start_run)
  let ?s = "\<lparr> ns_db = db, ns_store = empty_store \<rparr>"
  have r: "reachable lenient_ext me ?s"
    using d(1,2) unfolding demo_start_def demo_dir_def by (rule reachable.start)
  have "events db = []" using fresh_node [OF d(1) [unfolded demo_start_def demo_dir_def] d(2)] by auto
  then have h: "fst (current_head (ns_db ?s)) = 0" by (simp add: current_head_def)
  from reachable_node_can_be_followed [OF lenient_laws r, of 0 5 10] h obtain b where
    "federation_bundle_after lenient_ext me 5 0 10 (ns_db ?s) = Inr b" "verify_bundle lenient_ext b = Inr ()" by auto
  with r show ?thesis by blast
qed

section \<open>What a node says about its replicas\<close>

text \<open>C24: the health report of a node is backed by signatures.  In every state a node can reach, the report
  is produced, and the number it calls recently reconfirmed is the number of distinct relay identities
  that signed a receipt, verifying, for exactly the head of the node's log and confirmed within 24 hours;
  the status is \<open>replicated\<close> exactly when a relay is configured and that number reaches the operator's
  target.  (The counters of failures in a row have to fit 32 bits.)\<close>

theorem reachable_health_is_truthful:
  assumes "ext_laws X" and "reachable X me s"
    and "\<forall>t\<in>set (publication_targets (ns_db s)). tgt_consecutive_failures t < 2 ^ 32"
  shows "\<exists>h. replication_health X me now (ns_db s) = Inr h \<and>
    rh_recently_reconfirmed_current_replicas h = int (card (recent_relays X me (now - hours 24) (ns_db s))) \<and>
    (rh_status h = ''replicated'' \<longleftrightarrow> publication_targets (ns_db s) \<noteq> [] \<and>
       rh_desired_replicas h \<le> int (card (recent_relays X me (now - hours 24) (ns_db s))))"
proof -
  have "targets_ok X me (ns_db s)" "settings_ok (ns_db s)"
    using reachable_ok [OF assms(1,2)] by (simp_all add: node_ok_def)
  from health_counts_signed_receipts [OF this assms(3)] show ?thesis .
qed

theorem reachable_health_is_truthful_witness:
  "\<exists>me s h. reachable lenient_ext me s \<and> publication_targets (ns_db s) \<noteq> [] \<and>
     replication_health lenient_ext me 9 (ns_db s) = Inr h \<and> rh_recently_reconfirmed_current_replicas h = 0"
proof -
  obtain me dir db acc db' where d: "demo_start = (Inr me, dir)" "dd_database dir = Some db"
    "register_lineage lenient_ext me 0 0 demo_enrolment db = Inr (acc, db')"
    by (rule demo_start_run)
  let ?s = "\<lparr> ns_db = db, ns_store = empty_store \<rparr>"
  have r: "reachable lenient_ext me ?s"
    using d(1,2) unfolding demo_start_def demo_dir_def by (rule reachable.start)
  obtain m ws where e: "db = empty_database\<lparr>work_items := ws, meta := m\<rparr>"
    using fresh_node(3) [OF d(1) [unfolded demo_start_def demo_dir_def] d(2)] by blast
  define db1 where "db1 = snd (configure_publication_target lenient_ext 0 0 ''https://a.example/'' db)"
  have "publication_step lenient_ext me (ns_db ?s) db1" unfolding db1_def by (simp add: publication_step.relay_configured)
  then have r1: "reachable lenient_ext me (?s\<lparr>ns_db := db1\<rparr>)" by (intro reachable.step [OF r] step_publication)
  have "publication_targets db1 = [new_target ''https://a.example/'' 0]"
    using refresh_frame [of lenient_ext 0 "db\<lparr>publication_targets := [new_target ''https://a.example/'' 0]\<rparr>"]
    by (auto simp: db1_def configure_publication_target_def e insert_or_ignore_def)
  then have t: "publication_targets (ns_db (?s\<lparr>ns_db := db1\<rparr>)) = [new_target ''https://a.example/'' 0]" by simp
  then have f: "\<forall>t\<in>set (publication_targets (ns_db (?s\<lparr>ns_db := db1\<rparr>))). tgt_consecutive_failures t < 2 ^ 32"
    by (simp add: new_target_def)
  have none: "recent_relays lenient_ext me (9 - hours 24) (ns_db (?s\<lparr>ns_db := db1\<rparr>)) = {}"
    unfolding recent_relays_def head_receipts_def t by (simp add: new_target_def)
  obtain h where "replication_health lenient_ext me 9 (ns_db (?s\<lparr>ns_db := db1\<rparr>)) = Inr h"
    "rh_recently_reconfirmed_current_replicas h = 0"
    using reachable_health_is_truthful [OF lenient_laws r1 f, of 9] unfolding none by auto
  with r1 t show ?thesis by (intro exI [of _ me] exI [of _ "?s\<lparr>ns_db := db1\<rparr>"] exI [of _ h]) simp
qed

section \<open>Collection is a sequence of node steps\<close>

text \<open>What the clock and the feed parser deliver: instants RFC 3339 can write.\<close>

definition timely :: "net \<Rightarrow> bool" where
  "timely N \<longleftrightarrow> (\<forall>bytes f e t. n_parse_feed N bytes = Some f \<longrightarrow> e \<in> set (fd_entries f) \<longrightarrow>
     fe_published e = Some t \<or> fe_updated e = Some t \<longrightarrow> time_ok t)"

definition entry_timely :: "feed_entry \<Rightarrow> bool" where
  "entry_timely e \<longleftrightarrow> (\<forall>t. fe_published e = Some t \<or> fe_updated e = Some t \<longrightarrow> time_ok t)"

lemma entry_observation_wire:
  assumes "entry_observation X source t f e url = Inr ob" and "time_ok t" and "entry_timely e"
  shows "wire_observation ob"
  using assms
  by (auto simp: entry_observation_def wire_observation_def raw_metadata_def byte_of_def or_else_def entry_timely_def
      split: option.splits)

lemma ingest_entry_steps:
  assumes "time_ok t" and "entry_timely e"
  shows "(node_step X me)\<^sup>*\<^sup>* s (s\<lparr>ns_db := snd (ingest_entry X me render source t f received e (ns_db s))\<rparr>)"
proof (cases "entry_url X e")
  case (Some url)
  show ?thesis
  proof (cases "and_then (entry_observation X source t f e url) (\<lambda>ob. append_observation X me render received ob (ns_db s))")
    case (Inr r)
    then obtain ob acc db1 where ob: "entry_observation X source t f e url = Inr ob"
      and run: "append_observation X me render received ob (ns_db s) = Inr (acc, db1)" "r = (acc, db1)"
      by (cases r) auto
    have "node_step X me s (s\<lparr>ns_db := db1\<rparr>)"
      by (rule step_observation [OF entry_observation_wire [OF ob assms] run(1)])
    then show ?thesis using Some ob run(1) by (simp add: ingest_entry_def r_into_rtranclp [of "node_step X me"])
  qed (simp add: ingest_entry_def Some)
qed (simp add: ingest_entry_def)

lemma ingest_entries_steps:
  assumes "time_ok t" and "list_all entry_timely es"
  shows "(node_step X me)\<^sup>*\<^sup>* s (s\<lparr>ns_db := snd (ingest_entries X me render source t f clock n es accepted (ns_db s))\<rparr>)"
  using assms(2)
proof (induction es arbitrary: n accepted s)
  case (Cons e es)
  obtain k db1 where one: "ingest_entry X me render source t f (clock n) e (ns_db s) = (k, db1)" by (metis surj_pair)
  have first: "(node_step X me)\<^sup>*\<^sup>* s (s\<lparr>ns_db := db1\<rparr>)"
    using ingest_entry_steps [OF assms(1), of e X me s render source f "clock n"] Cons.prems by (simp add: one)
  show ?case
  proof (cases k)
    case (Inr j)
    have "(node_step X me)\<^sup>*\<^sup>* (s\<lparr>ns_db := db1\<rparr>)
        (s\<lparr>ns_db := snd (ingest_entries X me render source t f clock (n + 1) es (accepted + j) db1)\<rparr>)"
      using Cons.IH [of "s\<lparr>ns_db := db1\<rparr>" "n + 1" "accepted + j"] Cons.prems by simp
    with first Inr one show ?thesis by (simp add: rtranclp_trans [of "node_step X me"])
  qed (use first one in simp)
qed simp

lemma ingest_source_steps:
  assumes "timely N" and "\<And>n. time_ok (clock n)"
  shows "(node_step X me)\<^sup>*\<^sup>* s (s\<lparr>ns_db := snd (ingest_source X me render N clock source (ns_db s))\<rparr>)"
proof (cases "fetch_feed X N (src_feed_url (sv_row source))")
  case (Inr bytes)
  show ?thesis
  proof (cases "n_parse_feed N bytes")
    case (Some f)
    have "list_all entry_timely (fd_entries f)" using assms(1) Some by (auto simp: timely_def entry_timely_def list_all_iff)
    from ingest_entries_steps [OF assms(2) this, of X me s render source 0 f clock 1 0] Inr Some show ?thesis
      by (auto simp: ingest_source_def ingest_feed_bytes_def split: prod.splits sum.splits)
  qed (simp add: ingest_source_def ingest_feed_bytes_def Inr)
qed (simp add: ingest_source_def)

lemma ingest_loop_steps:
  assumes "timely N" and "\<And>m n. time_ok (clocks m n)"
  shows "(node_step X me)\<^sup>*\<^sup>* s (s\<lparr>ns_db := snd (ingest_loop X me render N clocks fetched n chosen report (ns_db s))\<rparr>)"
proof (induction chosen arbitrary: n report s)
  case (Cons source rest)
  obtain outcome db1 where one: "ingest_source X me render N (clocks n) source (ns_db s) = (outcome, db1)"
    by (metis surj_pair)
  let ?db2 = "mark_source_fetch (fetched n) (src_source_id (sv_row source)) (\<not> isl outcome) db1"
  have "(node_step X me)\<^sup>*\<^sup>* s (s\<lparr>ns_db := db1\<rparr>)"
    using ingest_source_steps [OF assms(1), of "clocks n" X me s render source] assms(2) by (simp add: one)
  moreover have "node_step X me (s\<lparr>ns_db := db1\<rparr>) (s\<lparr>ns_db := ?db2\<rparr>)"
    using step_fetch [of X me "s\<lparr>ns_db := db1\<rparr>"] by simp
  ultimately have "(node_step X me)\<^sup>*\<^sup>* s (s\<lparr>ns_db := ?db2\<rparr>)" by (rule rtranclp.rtrancl_into_rtrancl)
  with Cons.IH [of "s\<lparr>ns_db := ?db2\<rparr>" "n + 1" "source_outcome source outcome report"] one show ?case
    by (simp add: rtranclp_trans [of "node_step X me"])
qed simp



end
